(* ===== verification/OCL_Prelude.thy ===== *)
theory OCL_Prelude
  imports Main "HOL-Library.Word"
begin

text \<open>
  Shared vocabulary of the development: the machine types, the OpenCL status codes and flag
  bits of \<open>include/CL/cl.h\<close>, and the generic facts on words, flags and lists that several
  components use.

  \<open>size_t\<close> is a 64 bit word, so every sum and product of the builders wraps as it does in
  the code. Status codes (\<open>cl_int\<close>) are only compared and copied, hence plain integers.
  Pointers the code only compares with \<open>NULL\<close> and hands on are 64 bit words with 0 as
  \<open>NULL\<close>.
\<close>

unbundle bit_operations_syntax

section \<open>Machine types\<close>

type_synonym size_t = "64 word"
type_synonym ptr = "64 word"
type_synonym mem_flags = "64 word"
type_synonym byte = "8 word"
type_synonym cl_int = int
type_synonym ctx_id = nat
type_synonym dev_id = nat
type_synonym mem_id = nat
type_synonym event_id = nat

abbreviation (input) NULL :: ptr where "NULL \<equiv> 0"

named_theorems flag_simps "facts on tests of flag bits"
named_theorems builder_simps "definitions and facts on the common state of the command builders"
named_theorems mct_simps "facts on the partition of the coherency tracker"
named_theorems queue_simps "definitions of the command queue operations"

section \<open>Status codes\<close>

abbreviation (input) CL_SUCCESS :: cl_int where "CL_SUCCESS \<equiv> 0"
abbreviation (input) CL_OUT_OF_HOST_MEMORY :: cl_int where "CL_OUT_OF_HOST_MEMORY \<equiv> - 6"
abbreviation (input) CL_MEM_COPY_OVERLAP :: cl_int where "CL_MEM_COPY_OVERLAP \<equiv> - 8"
abbreviation (input) CL_IMAGE_FORMAT_MISMATCH :: cl_int where "CL_IMAGE_FORMAT_MISMATCH \<equiv> - 9"
abbreviation (input) CL_IMAGE_FORMAT_NOT_SUPPORTED :: cl_int where "CL_IMAGE_FORMAT_NOT_SUPPORTED \<equiv> - 10"
abbreviation (input) CL_MAP_FAILURE :: cl_int where "CL_MAP_FAILURE \<equiv> - 12"
abbreviation (input) CL_MISALIGNED_SUB_BUFFER_OFFSET :: cl_int where "CL_MISALIGNED_SUB_BUFFER_OFFSET \<equiv> - 13"
abbreviation (input) CL_EXEC_STATUS_ERROR_FOR_EVENTS_IN_WAIT_LIST :: cl_int where "CL_EXEC_STATUS_ERROR_FOR_EVENTS_IN_WAIT_LIST \<equiv> - 14"
abbreviation (input) CL_INVALID_VALUE :: cl_int where "CL_INVALID_VALUE \<equiv> - 30"
abbreviation (input) CL_INVALID_DEVICE :: cl_int where "CL_INVALID_DEVICE \<equiv> - 33"
abbreviation (input) CL_INVALID_CONTEXT :: cl_int where "CL_INVALID_CONTEXT \<equiv> - 34"
abbreviation (input) CL_INVALID_COMMAND_QUEUE :: cl_int where "CL_INVALID_COMMAND_QUEUE \<equiv> - 36"
abbreviation (input) CL_INVALID_HOST_PTR :: cl_int where "CL_INVALID_HOST_PTR \<equiv> - 37"
abbreviation (input) CL_INVALID_MEM_OBJECT :: cl_int where "CL_INVALID_MEM_OBJECT \<equiv> - 38"
abbreviation (input) CL_INVALID_IMAGE_FORMAT_DESCRIPTOR :: cl_int where "CL_INVALID_IMAGE_FORMAT_DESCRIPTOR \<equiv> - 39"
abbreviation (input) CL_INVALID_IMAGE_SIZE :: cl_int where "CL_INVALID_IMAGE_SIZE \<equiv> - 40"
abbreviation (input) CL_INVALID_PROGRAM_EXECUTABLE :: cl_int where "CL_INVALID_PROGRAM_EXECUTABLE \<equiv> - 45"
abbreviation (input) CL_INVALID_KERNEL :: cl_int where "CL_INVALID_KERNEL \<equiv> - 48"
abbreviation (input) CL_INVALID_KERNEL_ARGS :: cl_int where "CL_INVALID_KERNEL_ARGS \<equiv> - 52"
abbreviation (input) CL_INVALID_WORK_DIMENSION :: cl_int where "CL_INVALID_WORK_DIMENSION \<equiv> - 53"
abbreviation (input) CL_INVALID_WORK_GROUP_SIZE :: cl_int where "CL_INVALID_WORK_GROUP_SIZE \<equiv> - 54"
abbreviation (input) CL_INVALID_GLOBAL_OFFSET :: cl_int where "CL_INVALID_GLOBAL_OFFSET \<equiv> - 56"
abbreviation (input) CL_INVALID_EVENT_WAIT_LIST :: cl_int where "CL_INVALID_EVENT_WAIT_LIST \<equiv> - 57"
abbreviation (input) CL_INVALID_EVENT :: cl_int where "CL_INVALID_EVENT \<equiv> - 58"
abbreviation (input) CL_INVALID_OPERATION :: cl_int where "CL_INVALID_OPERATION \<equiv> - 59"
abbreviation (input) CL_INVALID_BUFFER_SIZE :: cl_int where "CL_INVALID_BUFFER_SIZE \<equiv> - 61"
abbreviation (input) CL_INVALID_GLOBAL_WORK_SIZE :: cl_int where "CL_INVALID_GLOBAL_WORK_SIZE \<equiv> - 63"
abbreviation (input) CL_INVALID_IMAGE_DESCRIPTOR :: cl_int where "CL_INVALID_IMAGE_DESCRIPTOR \<equiv> - 65"

text \<open>Execution status of an event: positive values are still to come, negative ones are errors.\<close>

abbreviation (input) CL_COMPLETE :: cl_int where "CL_COMPLETE \<equiv> 0"
abbreviation (input) CL_RUNNING :: cl_int where "CL_RUNNING \<equiv> 1"
abbreviation (input) CL_SUBMITTED :: cl_int where "CL_SUBMITTED \<equiv> 2"
abbreviation (input) CL_QUEUED :: cl_int where "CL_QUEUED \<equiv> 3"

section \<open>Flag bits\<close>

abbreviation (input) CL_MEM_READ_WRITE :: mem_flags where "CL_MEM_READ_WRITE \<equiv> 1"
abbreviation (input) CL_MEM_WRITE_ONLY :: mem_flags where "CL_MEM_WRITE_ONLY \<equiv> 2"
abbreviation (input) CL_MEM_READ_ONLY :: mem_flags where "CL_MEM_READ_ONLY \<equiv> 4"
abbreviation (input) CL_MEM_USE_HOST_PTR :: mem_flags where "CL_MEM_USE_HOST_PTR \<equiv> 8"
abbreviation (input) CL_MEM_ALLOC_HOST_PTR :: mem_flags where "CL_MEM_ALLOC_HOST_PTR \<equiv> 16"
abbreviation (input) CL_MEM_COPY_HOST_PTR :: mem_flags where "CL_MEM_COPY_HOST_PTR \<equiv> 32"
abbreviation (input) CL_MEM_HOST_WRITE_ONLY :: mem_flags where "CL_MEM_HOST_WRITE_ONLY \<equiv> 128"
abbreviation (input) CL_MEM_HOST_READ_ONLY :: mem_flags where "CL_MEM_HOST_READ_ONLY \<equiv> 256"
abbreviation (input) CL_MEM_HOST_NO_ACCESS :: mem_flags where "CL_MEM_HOST_NO_ACCESS \<equiv> 512"

abbreviation (input) CL_MAP_READ :: mem_flags where "CL_MAP_READ \<equiv> 1"
abbreviation (input) CL_MAP_WRITE :: mem_flags where "CL_MAP_WRITE \<equiv> 2"
abbreviation (input) CL_MAP_WRITE_INVALIDATE_REGION :: mem_flags where "CL_MAP_WRITE_INVALIDATE_REGION \<equiv> 4"

text \<open>The C test \<open>Flags & Mask\<close> used as a condition.\<close>

definition has_flag :: "'a::len word \<Rightarrow> 'a word \<Rightarrow> bool" where
  "has_flag f m \<longleftrightarrow> f AND m \<noteq> 0"

lemma has_flag_zero [simp]: "\<not> has_flag 0 m" "\<not> has_flag f 0"
  by (simp_all add: has_flag_def)

lemma has_flag_or [flag_simps]: "has_flag (f OR g) m \<longleftrightarrow> has_flag f m \<or> has_flag g m"
  by (simp add: has_flag_def bit.conj_disj_distrib2 or_eq_0_iff)

lemma has_flag_mask_or [flag_simps]: "has_flag f (m OR n) \<longleftrightarrow> has_flag f m \<or> has_flag f n"
  by (simp add: has_flag_def bit.conj_disj_distrib or_eq_0_iff)

section \<open>Small arrays\<close>

text \<open>The \<open>size_t[3]\<close> arrays of the API: origins, regions, offsets and sizes.\<close>

record triple =
  ix0 :: size_t
  ix1 :: size_t
  ix2 :: size_t

definition triple_of :: "size_t \<Rightarrow> size_t \<Rightarrow> size_t \<Rightarrow> triple" where
  "triple_of a b c = \<lparr>ix0 = a, ix1 = b, ix2 = c\<rparr>"

lemma triple_of_sel [simp]:
  "ix0 (triple_of a b c) = a" "ix1 (triple_of a b c) = b" "ix2 (triple_of a b c) = c"
  by (simp_all add: triple_of_def)

section \<open>Unsigned arithmetic\<close>

lemma unat_below64: "unat (d :: 64 word) < 2 ^ 64"
  using unsigned_less [of d, where 'a = nat] by simp

lemma unat_of_nat64: "n < 2 ^ 64 \<Longrightarrow> unat (of_nat n :: 64 word) = n"
  by (simp add: unsigned_of_nat take_bit_nat_eq_self)

text \<open>A sum bounded by a third word denotes the true sum exactly when it does not wrap.\<close>

lemma word_add_bound:
  fixes a b c :: "'a::len word"
  assumes "\<not> c < a + b" and "unat a + unat b < 2 ^ LENGTH('a)"
  shows "unat a + unat b \<le> unat c"
proof -
  have "unat (a + b) = unat a + unat b"
    using assms(2) by (simp add: unat_word_ariths)
  with assms(1) show ?thesis
    by (simp add: word_less_nat_alt)
qed

end
