(* ===== verification/Coherency.thy ===== *)
theory Coherency
  imports OCL_Prelude
begin

text \<open>
  The coherency tracker of memory objects: class \<open>MemoryCoherencyTracker\<close> in
  \<open>lib/Core/MemoryObject.cpp\<close>, the interface \<open>MemoryDescriptor\<close> it drives, and the CPU
  implementation of that interface (\<open>CPUMemoryDescriptor\<close>, \<open>lib/Device/CPU/CPUDevice.cpp\<close>).

  A memory object has one copy per device of its context and, with \<open>CL_MEM_USE_HOST_PTR\<close>, one
  more behind the host pointer. Copies are numbered as the bits of \<open>Validity\<close> are: devices from
  0, the host last. The tracker cuts the object in chunks and keeps for each chunk the set of
  copies that are up to date.

  Offsets are natural numbers: regions lie inside an object, so no sum of the code wraps. An
  assertion of the code that fails is the result \<open>None\<close>. Each operation runs as a whole: the
  code allows the transfer of \<open>updateRegion\<close> outside its two critical sections because OpenCL
  leaves racing accesses to a region undefined.
\<close>

section \<open>Descriptors\<close>

text \<open>
  The virtual functions of \<open>MemoryDescriptor\<close>, over the memory state \<open>'m\<close>, with the facts on
  the object that the tracker reads. \<open>dread k m i\<close> is the byte at offset \<open>i\<close> of copy
  \<open>k\<close>, \<open>dwrite\<close> replaces it. \<open>dsame k\<close> says that the mapped storage of device \<open>k\<close> is the
  host pointer itself.
\<close>

record 'm descs =
  NumDevs :: nat
  ObjSize :: nat
  UseHost :: bool
  CopyHost :: bool
  dmap :: "nat \<Rightarrow> 'm \<Rightarrow> 'm"
  dalias :: "nat \<Rightarrow> 'm \<Rightarrow> bool"
  dsame :: "nat \<Rightarrow> bool"
  dread :: "nat \<Rightarrow> 'm \<Rightarrow> nat \<Rightarrow> byte"
  dwrite :: "nat \<Rightarrow> nat \<Rightarrow> byte \<Rightarrow> 'm \<Rightarrow> 'm"

text \<open>\<open>memcpy\<close> of a range of offsets from one copy to another.\<close>

definition copy_range :: "'m descs \<Rightarrow> nat \<Rightarrow> nat \<Rightarrow> nat \<Rightarrow> nat \<Rightarrow> 'm \<Rightarrow> 'm" where
  "copy_range V src dst a n m =
     foldl (\<lambda>m i. dwrite V dst i (dread V src m i) m) m [a..<a + n]"

section \<open>The partition\<close>

record chunk =
  Off :: nat
  Sz :: nat
  Validity :: "bool list"

type_synonym sync_mode = "32 word"

abbreviation (input) SyncMap :: sync_mode where "SyncMap \<equiv> 1"
abbreviation (input) SyncRead :: sync_mode where "SyncRead \<equiv> 2"
abbreviation (input) SyncWrite :: sync_mode where "SyncWrite \<equiv> 4"

definition getNumDevices :: "'m descs \<Rightarrow> nat" where
  "getNumDevices V = NumDevs V + 1"

definition getHostIndex :: "'m descs \<Rightarrow> nat" where
  "getHostIndex V = getNumDevices V - 1"

definition find_first :: "bool list \<Rightarrow> nat" where
  "find_first v = length (takeWhile Not v)"

definition updateHostValidity :: "'m descs \<Rightarrow> 'm \<Rightarrow> chunk \<Rightarrow> chunk" where
  "updateHostValidity V m C = C\<lparr>Validity :=
     map (\<lambda>k. if k = getHostIndex V then True
              else if dalias V k m then True else Validity C ! k) [0..<length (Validity C)]\<rparr>"

text \<open>\<open>std::lower_bound\<close> from position \<open>I\<close> to the end of the sorted partition.\<close>

definition chunk_lower_bound :: "chunk list \<Rightarrow> nat \<Rightarrow> nat \<Rightarrow> nat" where
  "chunk_lower_bound P I x = I + length (takeWhile (\<lambda>c. Off c < x) (drop I P))"

definition findChunk :: "chunk list \<Rightarrow> nat \<Rightarrow> nat \<Rightarrow> nat" where
  "findChunk P I x =
     (let J = chunk_lower_bound P I x
      in if J \<noteq> length P \<and> Off (P ! J) = x then J else J - 1)"

text \<open>The half-open range of positions.\<close>

definition findRangeFor :: "chunk list \<Rightarrow> nat \<Rightarrow> nat \<Rightarrow> nat \<times> nat" where
  "findRangeFor P x n =
     (let I = findChunk P 0 x; E = findChunk P I (x + n) in (I, E + 1))"

definition splitChunk :: "chunk list \<Rightarrow> nat \<Rightarrow> nat \<Rightarrow> (chunk list \<times> nat) option" where
  "splitChunk P I x =
     (let C = P ! I in
      if Off C = x then Some (P, I)
      else if \<not> (Off C < x \<and> Off C + Sz C > x) then None
      else let NewSize = Off C + Sz C - x;
               C1 = C\<lparr>Sz := Sz C - NewSize\<rparr>;
               C2 = C1\<lparr>Off := x, Sz := NewSize\<rparr>
           in Some (take I P @ C1 # C2 # drop (Suc I) P, Suc I))"

definition addRegion :: "chunk list \<Rightarrow> nat \<Rightarrow> nat \<Rightarrow> chunk list option" where
  "addRegion P x n =
     (case splitChunk P (findChunk P 0 x) x of
        None \<Rightarrow> None
      | Some (P1, C1) \<Rightarrow> map_option fst (splitChunk P1 (findChunk P1 C1 (x + n)) (x + n)))"

section \<open>Transfers\<close>

definition transferToDevice :: "'m descs \<Rightarrow> nat \<Rightarrow> chunk \<Rightarrow> 'm \<Rightarrow> 'm option" where
  "transferToDevice V D C m =
     (if True \<notin> set (Validity C) then Some m
      else if Validity C ! D then Some m
      else let m1 = dmap V D m in
        if Validity C ! getHostIndex V then
          if \<not> UseHost V then None
          else Some (if \<not> dalias V D m1 then copy_range V (getHostIndex V) D (Off C) (Sz C) m1 else m1)
        else let Src = find_first (Validity C); m2 = dmap V Src m1
             in Some (copy_range V Src D (Off C) (Sz C) m2))"

definition transferToHost :: "'m descs \<Rightarrow> chunk \<Rightarrow> 'm \<Rightarrow> 'm option" where
  "transferToHost V C m =
     (if True \<notin> set (Validity C) then Some m
      else if Validity C ! getHostIndex V then Some m
      else let Src = find_first (Validity C); m1 = dmap V Src m in
        if dsame V Src then None
        else Some (copy_range V Src (getHostIndex V) (Off C) (Sz C) m1))"

definition computeChunksToTransfer ::
  "chunk list \<Rightarrow> nat \<Rightarrow> nat \<Rightarrow> sync_mode \<Rightarrow> chunk list option" where
  "computeChunksToTransfer P x n Mode =
     (let (I, E) = findRangeFor P x n in
      if has_flag Mode SyncRead then Some (take (E - I) (drop I P))
      else if \<not> has_flag Mode SyncWrite then None
      else let FirstChunk = P ! I; LastChunk = P ! (E - 1) in
        Some ((if Off FirstChunk < x then [FirstChunk\<lparr>Sz := x - Off FirstChunk\<rparr>] else []) @
              (if Off LastChunk + Sz LastChunk > x + n
               then [LastChunk\<lparr>Off := x + n, Sz := (Off LastChunk + Sz LastChunk) - (x + n)\<rparr>]
               else [])))"

text \<open>Step 2: the transfers, one chunk after the other.\<close>

fun transfer_all :: "(chunk \<Rightarrow> 'm \<Rightarrow> 'm option) \<Rightarrow> chunk list \<Rightarrow> 'm \<Rightarrow> 'm option" where
  "transfer_all f [] m = Some m"
| "transfer_all f (c # cs) m = (case f c m of None \<Rightarrow> None | Some m' \<Rightarrow> transfer_all f cs m')"

text \<open>Step 3, the body of the loop.\<close>

definition updateValidity :: "'m descs \<Rightarrow> sync_mode \<Rightarrow> bool \<Rightarrow> nat \<Rightarrow> 'm \<Rightarrow> chunk \<Rightarrow> chunk" where
  "updateValidity V Mode DeviceUpdate D m C =
     (let C0 = (if has_flag Mode SyncWrite
                then C\<lparr>Validity := replicate (length (Validity C)) False\<rparr> else C)
      in if DeviceUpdate then
           let C1 = C0\<lparr>Validity := (Validity C0)[D := True]\<rparr>
           in if dalias V D m then updateHostValidity V m C1 else C1
         else updateHostValidity V m C0)"

definition device_update :: "'m descs \<Rightarrow> sync_mode \<Rightarrow> bool" where
  "device_update V Mode \<longleftrightarrow> \<not> (has_flag Mode SyncMap \<and> UseHost V)"

definition updateRegion ::
  "'m descs \<Rightarrow> nat \<Rightarrow> nat \<Rightarrow> sync_mode \<Rightarrow> nat \<Rightarrow> chunk list \<times> 'm \<Rightarrow> (chunk list \<times> 'm) option" where
  "updateRegion V x n Mode D st =
     (case st of (P, m) \<Rightarrow>
      if \<not> (Mode \<noteq> 0 \<and> Mode AND NOT (SyncMap OR SyncRead OR SyncWrite) = 0) then None
      else case computeChunksToTransfer P x n Mode of
          None \<Rightarrow> None
        | Some Chunks \<Rightarrow>
          (case transfer_all (if device_update V Mode then transferToDevice V D else transferToHost V)
                  Chunks m of
             None \<Rightarrow> None
           | Some m' \<Rightarrow>
             let (I, E) = findRangeFor P x n in
             Some (take I P @
                   map (updateValidity V Mode (device_update V Mode) D m') (take (E - I) (drop I P)) @
                   drop E P, m')))"

text \<open>The tracker of a new main object. A new context has at least one device.\<close>

definition initialize :: "'m descs \<Rightarrow> 'm \<Rightarrow> chunk list \<times> 'm" where
  "initialize V m =
     (let C = \<lparr>Off = 0, Sz = ObjSize V, Validity = replicate (getNumDevices V) False\<rparr>;
          C1 = (if UseHost V then updateHostValidity V m C else C)
      in if CopyHost V
         then ([C1\<lparr>Validity := (Validity C1)[0 := True]\<rparr>],
               copy_range V (getHostIndex V) 0 0 (Sz C1) (dmap V 0 m))
         else ([C1], m))"

end
