(* ===== verification/Coherency_Partition.thy ===== *)
theory Coherency_Partition
  imports Coherency
begin

text \<open>
  The partition of the coherency tracker: its chunks tile the object, the binary search finds
  the chunk of an offset, and splitting keeps the tiling.
\<close>

section \<open>Tilings\<close>

text \<open>The chunks follow each other without gaps from offset \<open>a\<close> to offset \<open>b\<close>.\<close>

fun tiles :: "nat \<Rightarrow> chunk list \<Rightarrow> nat \<Rightarrow> bool" where
  "tiles a [] b \<longleftrightarrow> a = b"
| "tiles a (c # cs) b \<longleftrightarrow> Off c = a \<and> 0 < Sz c \<and> tiles (a + Sz c) cs b"

definition span :: "chunk \<Rightarrow> nat set" where
  "span c = {Off c..<Off c + Sz c}"

lemma tiles_append: "tiles a (xs @ ys) b \<longleftrightarrow> (\<exists>m. tiles a xs m \<and> tiles m ys b)"
  by (induction xs arbitrary: a) auto

lemma tiles_le: "tiles a cs b \<Longrightarrow> a \<le> b"
  by (induction cs arbitrary: a) fastforce+

lemma tiles_Off_bounds: "tiles a cs b \<Longrightarrow> c \<in> set cs \<Longrightarrow> a \<le> Off c \<and> Off c + Sz c \<le> b \<and> 0 < Sz c"
proof (induction cs arbitrary: a)
  case (Cons d ds)
  then show ?case using tiles_le [of "a + Sz d" ds b] by fastforce
qed simp

lemma tiles_map: "(\<And>c. c \<in> set cs \<Longrightarrow> Off (f c) = Off c \<and> Sz (f c) = Sz c) \<Longrightarrow>
  tiles a (map f cs) b = tiles a cs b"
  by (induction cs arbitrary: a) simp_all

lemma tiles_nth_mono:
  assumes "tiles a cs b" "i < j" "j < length cs"
  shows "Off (cs ! i) + Sz (cs ! i) \<le> Off (cs ! j)"
proof -
  have split: "cs = take j cs @ drop j cs" by simp
  obtain m where m: "tiles a (take j cs) m" "tiles m (drop j cs) b"
    using assms(1) tiles_append [of a "take j cs" "drop j cs" b] by auto
  have "cs ! i \<in> set (take j cs)"
    using assms by (auto simp: in_set_conv_nth intro!: exI [of _ i])
  moreover have "cs ! j \<in> set (drop j cs)"
    using assms by (auto simp: in_set_conv_nth intro!: exI [of _ 0])
  ultimately show ?thesis
    using tiles_Off_bounds [OF m(1)] tiles_Off_bounds [OF m(2)] by fastforce
qed

lemma tiles_cover: "tiles a cs b \<Longrightarrow> a \<le> i \<Longrightarrow> i < b \<Longrightarrow> \<exists>c \<in> set cs. i \<in> span c"
proof (induction cs arbitrary: a)
  case (Cons c cs)
  then show ?case by (cases "i < a + Sz c") (auto simp: span_def)
qed simp

section \<open>The search\<close>

abbreviation below :: "nat \<Rightarrow> chunk list \<Rightarrow> nat" where
  "below x cs \<equiv> length (takeWhile (\<lambda>c. Off c < x) cs)"

lemma below_le: "below x cs \<le> length cs"
  by (rule length_takeWhile_le)

lemma below_nth: "i < below x cs \<Longrightarrow> Off (cs ! i) < x"
  by (metis (mono_tags, lifting) nth_mem set_takeWhileD takeWhile_nth)

lemma below_stop: "below x cs < length cs \<Longrightarrow> x \<le> Off (cs ! below x cs)"
  using nth_length_takeWhile [of "\<lambda>c. Off c < x" cs] by simp

text \<open>Starting the search later does not matter as long as it starts before the answer.\<close>

lemma below_from:
  assumes "\<forall>i < I. Off (cs ! i) < x" "I \<le> length cs"
  shows "I + below x (drop I cs) = below x cs"
proof -
  have "takeWhile (\<lambda>c. Off c < x) (take I cs @ drop I cs) =
        take I cs @ takeWhile (\<lambda>c. Off c < x) (drop I cs)"
    using assms by (intro takeWhile_append2) (auto simp: in_set_conv_nth)
  then show ?thesis using assms(2) by (simp only: append_take_drop_id length_append length_take min_absorb2)
qed

lemma findChunk_from:
  assumes "\<forall>i < I. Off (cs ! i) < x" "I \<le> length cs"
  shows "findChunk cs I x = findChunk cs 0 x"
  using below_from [OF assms] by (simp add: findChunk_def chunk_lower_bound_def)

lemma findChunk_spec:
  assumes T: "tiles a cs b" and ne: "cs \<noteq> []" and x: "a \<le> x" "x \<le> b"
  defines "J \<equiv> findChunk cs 0 x"
  shows "J < length cs" "Off (cs ! J) \<le> x" "x \<le> Off (cs ! J) + Sz (cs ! J)"
    "x < b \<Longrightarrow> x < Off (cs ! J) + Sz (cs ! J)"
    "\<forall>i < J. Off (cs ! i) < x"
proof -
  define n where "n = below x cs"
  have J: "J = (if n \<noteq> length cs \<and> Off (cs ! n) = x then n else n - 1)"
    by (simp add: J_def findChunk_def chunk_lower_bound_def n_def Let_def)
  have n: "n \<le> length cs" by (simp add: n_def below_le)
  have lt: "Off (cs ! i) < x" if "i < n" for i using that by (simp add: n_def below_nth)
  have hd: "Off (cs ! 0) = a" using T ne by (cases cs) auto
  have ge: "x \<le> Off (cs ! n)" if "n < length cs" using that by (simp add: n_def below_stop)
  have inb: "cs ! i \<in> set cs \<and> Off (cs ! i) + Sz (cs ! i) \<le> b \<and> 0 < Sz (cs ! i)" if "i < length cs" for i
    using that tiles_Off_bounds [OF T, of "cs ! i"] by auto
  show "\<forall>i < J. Off (cs ! i) < x" using J lt by (auto split: if_splits)
  have pos: "0 < n" if "\<not> (n \<noteq> length cs \<and> Off (cs ! n) = x)"
  proof (rule ccontr)
    assume "\<not> 0 < n"
    then have "n = 0" "x \<le> a" using ge hd ne by auto
    then show False using that x hd ne by auto
  qed
  have Jlt: "J < length cs" using J n pos by (auto split: if_splits)
  then show "J < length cs" .
  show "Off (cs ! J) \<le> x"
    using J pos lt [of "n - 1"] by (auto split: if_splits)
  have strict: "x < Off (cs ! J) + Sz (cs ! J) \<or> (x = b \<and> x = Off (cs ! J) + Sz (cs ! J))"
  proof (cases "n \<noteq> length cs \<and> Off (cs ! n) = x")
    case True
    then show ?thesis using J inb [of n] n by auto
  next
    case False
    then have Jn: "J = n - 1" "0 < n" using J pos by auto
    show ?thesis
    proof (cases "n = length cs")
      case True
      have "Off (last cs) + Sz (last cs) = b"
        using T ne by (induction cs arbitrary: a) (auto split: if_splits)
      then have "Off (cs ! J) + Sz (cs ! J) = b" using True Jn ne by (simp add: last_conv_nth)
      then show ?thesis using x(2) by auto
    next
      case lt_len: False
      then have "n < length cs" using n by simp
      moreover have "Off (cs ! n) = Off (cs ! (n - 1)) + Sz (cs ! (n - 1))"
      proof -
        have "drop (n - 1) cs = cs ! (n - 1) # cs ! n # drop (Suc n) cs"
          using Jn(2) \<open>n < length cs\<close>
          by (metis Cons_nth_drop_Suc Suc_diff_1 less_imp_diff_less)
        moreover obtain m where "tiles m (drop (n - 1) cs) b"
          using T tiles_append [of a "take (n - 1) cs" "drop (n - 1) cs" b] by auto
        ultimately show ?thesis by auto
      qed
      moreover have "x < Off (cs ! n)" using ge [OF \<open>n < length cs\<close>] False lt_len by auto
      ultimately show ?thesis using Jn by simp
    qed
  qed
  then show "x \<le> Off (cs ! J) + Sz (cs ! J)" by auto
  show "x < b \<Longrightarrow> x < Off (cs ! J) + Sz (cs ! J)" using strict by auto
qed

text \<open>
  What the tracker gets from \<open>findRangeFor\<close>: a non-empty range of chunks; the chunks before and
  after it do not meet the region, and the part of the range outside the region lies in its
  first or its last chunk.
\<close>

lemma findRangeFor_spec:
  assumes T: "tiles 0 cs b" and ne: "cs \<noteq> []" and x: "x < b" "x + n \<le> b"
    and R: "findRangeFor cs x n = (I, E)"
  shows "I < E" "E \<le> length cs"
    and "\<And>i. i < I \<Longrightarrow> Off (cs ! i) + Sz (cs ! i) \<le> x"
    and "\<And>i. E \<le> i \<Longrightarrow> i < length cs \<Longrightarrow> x + n \<le> Off (cs ! i)"
    and "Off (cs ! I) \<le> x"
    and "x + n \<le> Off (cs ! (E - 1)) + Sz (cs ! (E - 1))"
    and "\<And>i. I < i \<Longrightarrow> i < E \<Longrightarrow> x < Off (cs ! i)"
    and "\<And>i. I \<le> i \<Longrightarrow> i < E - 1 \<Longrightarrow> Off (cs ! i) + Sz (cs ! i) \<le> x + n"
    and "x < Off (cs ! I) + Sz (cs ! I)"
    and "Off (cs ! (E - 1)) \<le> x + n"
proof -
  note f1 = findChunk_spec [OF T ne le0 less_imp_le [OF x(1)]]
  note f2 = findChunk_spec [OF T ne le0 x(2)]
  have I: "I = findChunk cs 0 x"
    using R by (simp add: findRangeFor_def Let_def)
  have "findChunk cs I (x + n) = findChunk cs 0 (x + n)"
    using f1(1,5) I by (intro findChunk_from) auto
  then have E: "E = findChunk cs 0 (x + n) + 1"
    using R I by (auto simp: findRangeFor_def Let_def)
  define J where "J = findChunk cs 0 (x + n)"
  have J: "J < length cs" "Off (cs ! J) \<le> x + n" "x + n \<le> Off (cs ! J) + Sz (cs ! J)"
    using f2(1-3) by (simp_all add: J_def)
  have Ilen: "I < length cs" "Off (cs ! I) \<le> x" "x < Off (cs ! I) + Sz (cs ! I)"
    using f1(1,2) f1(4) x(1) I by auto
  have IJ: "I \<le> J"
  proof (rule ccontr)
    assume "\<not> I \<le> J"
    then have "Off (cs ! J) + Sz (cs ! J) \<le> Off (cs ! I)"
      using tiles_nth_mono [OF T] Ilen(1) by simp
    then have "n = 0" "x = Off (cs ! J) + Sz (cs ! J)" using J(3) Ilen(2) by simp_all
    then show False using f2(4) x(1) by (simp add: J_def)
  qed
  show "I < E" "E \<le> length cs" using IJ J(1) E by (auto simp: J_def)
  show "Off (cs ! i) + Sz (cs ! i) \<le> x" if "i < I" for i
    using tiles_nth_mono [OF T that Ilen(1)] Ilen(2) by simp
  show "x + n \<le> Off (cs ! i)" if "E \<le> i" "i < length cs" for i
    using tiles_nth_mono [OF T, of J i] that J(3) E by (simp add: J_def)
  show "Off (cs ! I) \<le> x" by (rule Ilen(2))
  show "x + n \<le> Off (cs ! (E - 1)) + Sz (cs ! (E - 1))" using J(3) E by (simp add: J_def)
  show "x < Off (cs ! i)" if "I < i" "i < E" for i
    using tiles_nth_mono [OF T that(1)] that(2) Ilen(3) E J(1) by (simp add: J_def)
  show "Off (cs ! i) + Sz (cs ! i) \<le> x + n" if "I \<le> i" "i < E - 1" for i
    using tiles_nth_mono [OF T, of i J] that J(1,2) E by (simp add: J_def)
  show "x < Off (cs ! I) + Sz (cs ! I)" by (rule Ilen(3))
  show "Off (cs ! (E - 1)) \<le> x + n" using J(2) E by (simp add: J_def)
qed

section \<open>Splitting\<close>

lemma splitChunk_tiles:
  assumes T: "tiles a P b" and I: "I < length P" and "Off (P ! I) \<le> x" "x < Off (P ! I) + Sz (P ! I)"
  shows "\<exists>P' J. splitChunk P I x = Some (P', J) \<and> tiles a P' b \<and> P' \<noteq> [] \<and>
           (\<forall>c' \<in> set P'. \<exists>c \<in> set P. span c' \<subseteq> span c \<and> Validity c' = Validity c) \<and>
           J < length P' \<and> Off (P' ! J) = x"
proof (cases "Off (P ! I) = x")
  case True
  then show ?thesis using T I by (auto simp: splitChunk_def intro!: exI [of _ P])
next
  case False
  then have lt: "Off (P ! I) < x" using assms(3) by simp
  define C where "C = P ! I"
  define C1 where "C1 = C\<lparr>Sz := x - Off C\<rparr>"
  define C2 where "C2 = C\<lparr>Off := x, Sz := Off C + Sz C - x\<rparr>"
  define P' where "P' = take I P @ C1 # C2 # drop (Suc I) P"
  have "Sz C - (Off C + Sz C - x) = x - Off C" using assms(4) lt by (simp add: C_def)
  then have S: "splitChunk P I x = Some (P', Suc I)"
    using lt assms(4) by (simp add: splitChunk_def Let_def P'_def C1_def C2_def C_def)
  have P: "P = take I P @ C # drop (Suc I) P" using I by (simp add: C_def id_take_nth_drop)
  obtain m where m: "tiles a (take I P) m" "tiles m (C # drop (Suc I) P) b"
    using T P by (metis tiles_append)
  have "tiles m (C1 # C2 # drop (Suc I) P) b"
    using m(2) lt assms(4) by (simp add: C1_def C2_def C_def)
  then have T': "tiles a P' b" using m(1) unfolding P'_def tiles_append by blast
  have CP: "C \<in> set P" using I by (simp add: C_def)
  have "\<exists>c \<in> set P. span c' \<subseteq> span c \<and> Validity c' = Validity c" if "c' \<in> set P'" for c'
  proof (cases "c' = C1 \<or> c' = C2")
    case True
    then have "span c' \<subseteq> span C \<and> Validity c' = Validity C"
      using lt assms(4) by (auto simp: C1_def C2_def C_def span_def)
    with CP show ?thesis by blast
  next
    case False
    then have "c' \<in> set (take I P) \<or> c' \<in> set (drop (Suc I) P)" using that by (auto simp: P'_def)
    then have "c' \<in> set P" by (auto dest: in_set_takeD in_set_dropD)
    then show ?thesis by blast
  qed
  moreover have "P' ! Suc I = C2" "Suc I < length P'" using I by (simp_all add: P'_def nth_append)
  ultimately show ?thesis
    using S T' by (auto simp: C2_def P'_def)
qed

text \<open>
  Adding a region that ends inside the object succeeds: the partition still tiles the object,
  every new chunk is a part of an old one with its validity, and both ends of the region are
  chunk boundaries.
\<close>

lemma addRegion_tiles:
  assumes T: "tiles 0 P b" and ne: "P \<noteq> []" and x: "x + n < b"
  shows "\<exists>P'. addRegion P x n = Some P' \<and> tiles 0 P' b \<and> P' \<noteq> [] \<and>
           (\<forall>c' \<in> set P'. \<exists>c \<in> set P. span c' \<subseteq> span c \<and> Validity c' = Validity c) \<and>
           (\<exists>c \<in> set P'. Off c = x + n)"
proof -
  have xb: "x < b" using x by simp
  note f1 = findChunk_spec [OF T ne le0 less_imp_le [OF xb]]
  obtain P1 J where S1: "splitChunk P (findChunk P 0 x) x = Some (P1, J)" "tiles 0 P1 b" "P1 \<noteq> []"
    "\<forall>c' \<in> set P1. \<exists>c \<in> set P. span c' \<subseteq> span c \<and> Validity c' = Validity c"
    "J < length P1" "Off (P1 ! J) = x"
    using splitChunk_tiles [OF T f1(1,2) f1(4) [OF xb]] by blast
  have "Off (P1 ! i) < x + n" if "i < J" for i
    using tiles_nth_mono [OF S1(2) that S1(5)] tiles_Off_bounds [OF S1(2), of "P1 ! i"] that S1(5,6)
    by fastforce
  then have F: "findChunk P1 J (x + n) = findChunk P1 0 (x + n)"
    using S1(5) by (intro findChunk_from) auto
  note f2 = findChunk_spec [OF S1(2,3) le0 less_imp_le [OF x]]
  obtain P2 K where S2: "splitChunk P1 (findChunk P1 0 (x + n)) (x + n) = Some (P2, K)"
    "tiles 0 P2 b" "P2 \<noteq> []"
    "\<forall>c' \<in> set P2. \<exists>c \<in> set P1. span c' \<subseteq> span c \<and> Validity c' = Validity c"
    "K < length P2" "Off (P2 ! K) = x + n"
    using splitChunk_tiles [OF S1(2) f2(1,2) f2(4) [OF x]] by blast
  have "\<forall>c' \<in> set P2. \<exists>c \<in> set P. span c' \<subseteq> span c \<and> Validity c' = Validity c"
    using S1(4) S2(4) by (metis order_trans)
  moreover have "addRegion P x n = Some P2" by (simp add: addRegion_def S1(1) F S2(1))
  moreover have "\<exists>c \<in> set P2. Off c = x + n" using S2(5,6) nth_mem by blast
  ultimately show ?thesis using S2(2,3) by blast
qed

end
