(* ===== verification/Coherency_Proof.thy ===== *)
theory Coherency_Proof
  imports Coherency_Partition
begin

text \<open>
  The contract of the coherency tracker. The abstract object is one flat memory \<open>L\<close>, a map from
  offsets to bytes, undefined where nothing was ever written. A tracker state is \<open>coherent\<close> with
  \<open>L\<close> when every copy marked valid for a chunk holds the bytes of \<open>L\<close> there. The locale
  \<open>memory_descriptor\<close> states what the tracker relies on in the descriptors of the devices.
\<close>

type_synonym flat_memory = "nat \<Rightarrow> byte option"

definition agrees :: "'m descs \<Rightarrow> flat_memory \<Rightarrow> nat \<Rightarrow> 'm \<Rightarrow> nat set \<Rightarrow> bool" where
  "agrees V L k m S \<longleftrightarrow> (\<forall>i \<in> S. \<forall>b. L i = Some b \<longrightarrow> dread V k m i = b)"

definition chunk_ok :: "'m descs \<Rightarrow> 'm \<Rightarrow> flat_memory \<Rightarrow> chunk \<Rightarrow> bool" where
  "chunk_ok V m L c \<longleftrightarrow>
     length (Validity c) = NumDevs V + 1 \<and>
     (\<forall>k \<le> NumDevs V. Validity c ! k \<longrightarrow> agrees V L k m (span c)) \<and>
     (True \<notin> set (Validity c) \<longrightarrow> (\<forall>i \<in> span c. L i = None)) \<and>
     (Validity c ! NumDevs V \<longrightarrow> UseHost V) \<and>
     (UseHost V \<longrightarrow> True \<in> set (Validity c) \<and>
        (\<forall>k < NumDevs V. Validity c ! k \<longrightarrow> dsame V k \<longrightarrow> dalias V k m \<and> Validity c ! NumDevs V))"

definition coherent :: "'m descs \<Rightarrow> chunk list \<times> 'm \<Rightarrow> flat_memory \<Rightarrow> bool" where
  "coherent V st L \<longleftrightarrow>
     (case st of (P, m) \<Rightarrow> tiles 0 P (ObjSize V) \<and> P \<noteq> [] \<and> (\<forall>c \<in> set P. chunk_ok V m L c))"

text \<open>\<open>m'\<close> keeps what \<open>m\<close> holds of \<open>L\<close>, in every copy, and the aliases.\<close>

definition keeps :: "'m descs \<Rightarrow> flat_memory \<Rightarrow> 'm \<Rightarrow> 'm \<Rightarrow> bool" where
  "keeps V L m m' \<longleftrightarrow>
     (\<forall>k i b. L i = Some b \<longrightarrow> dread V k m i = b \<longrightarrow> dread V k m' i = b) \<and>
     (\<forall>k. dalias V k m \<longrightarrow> dalias V k m')"

text \<open>The copy an access of the given mode uses.\<close>

definition target :: "'m descs \<Rightarrow> sync_mode \<Rightarrow> nat \<Rightarrow> nat" where
  "target V Mode D = (if device_update V Mode then D else NumDevs V)"

text \<open>A write-only access leaves the region undefined until the command writes it.\<close>

definition region_after :: "sync_mode \<Rightarrow> nat \<Rightarrow> nat \<Rightarrow> flat_memory \<Rightarrow> flat_memory" where
  "region_after Mode x n L =
     (\<lambda>i. if has_flag Mode SyncWrite \<and> \<not> has_flag Mode SyncRead \<and> x \<le> i \<and> i < x + n then None else L i)"

lemma keeps_refl [simp]: "keeps V L m m"
  by (simp add: keeps_def)

lemma keeps_trans: "keeps V L m m1 \<Longrightarrow> keeps V L m1 m2 \<Longrightarrow> keeps V L m m2"
  by (simp add: keeps_def)

lemma keeps_agrees: "keeps V L m m' \<Longrightarrow> agrees V L k m S \<Longrightarrow> agrees V L k m' S"
  by (simp add: keeps_def agrees_def)

lemma agrees_subset: "agrees V L k m S \<Longrightarrow> T \<subseteq> S \<Longrightarrow> agrees V L k m T"
  by (auto simp: agrees_def)

lemma agrees_Un [simp]: "agrees V L k m (S \<union> T) \<longleftrightarrow> agrees V L k m S \<and> agrees V L k m T"
  by (auto simp: agrees_def)

lemma chunk_ok_keeps:
  "chunk_ok V m L c \<Longrightarrow> keeps V L m m' \<Longrightarrow> chunk_ok V m' L c"
  using keeps_agrees [of V L m m'] by (auto simp: chunk_ok_def keeps_def)

lemma chunk_ok_narrow:
  "chunk_ok V m L c \<Longrightarrow> span c' \<subseteq> span c \<Longrightarrow> Validity c' = Validity c \<Longrightarrow> chunk_ok V m L c'"
  by (auto simp: chunk_ok_def agrees_def)

lemma chunk_ok_outside:
  "chunk_ok V m L c \<Longrightarrow> \<forall>i \<in> span c. L' i = L i \<Longrightarrow> chunk_ok V m L' c"
  by (auto simp: chunk_ok_def agrees_def)

lemma find_first_valid:
  "True \<in> set v \<Longrightarrow> find_first v < length v \<and> v ! find_first v"
proof -
  assume "True \<in> set v"
  then have "takeWhile Not v \<noteq> v" by (metis set_takeWhileD)
  then have "find_first v < length v"
    unfolding find_first_def by (metis length_takeWhile_le nat_less_le takeWhile_eq_take take_all_iff)
  then show ?thesis
    using nth_length_takeWhile [of Not v] by (simp add: find_first_def)
qed

lemma first_valid:
  "chunk_ok V m L c \<Longrightarrow> True \<in> set (Validity c) \<Longrightarrow>
   find_first (Validity c) \<le> NumDevs V \<and> Validity c ! find_first (Validity c)"
  using find_first_valid [of "Validity c"] by (simp add: chunk_ok_def)

locale memory_descriptor =
  fixes V :: "'m descs"
  assumes dread_dmap: "dread V k (dmap V e m) = dread V k m"
    and dalias_dmap: "dalias V k m \<Longrightarrow> dalias V k (dmap V e m)"
    and dalias_dwrite: "dalias V k (dwrite V l i b m) = dalias V k m"
    and read_written: "l \<le> NumDevs V \<Longrightarrow> dread V l (dwrite V l i b m) i = b"
    and read_other: "dread V k (dwrite V l i b m) j = dread V k m j \<or>
                     j = i \<and> dread V k (dwrite V l i b m) j = b"
    and alias_host: "k < NumDevs V \<Longrightarrow> dalias V k m \<Longrightarrow> dread V k m = dread V (NumDevs V) m"
    and alias_use: "dalias V k m \<Longrightarrow> UseHost V"
    and map_same: "UseHost V \<Longrightarrow> dsame V k \<Longrightarrow> dalias V k (dmap V k m)"
begin

lemma getHostIndex [simp]: "getHostIndex V = NumDevs V"
  by (simp add: getHostIndex_def getNumDevices_def)

lemma keeps_dmap [simp]: "keeps V L m (dmap V e m)"
  by (simp add: keeps_def dread_dmap dalias_dmap)

text \<open>Writing a byte that \<open>L\<close> has at that place keeps every copy.\<close>

lemma keeps_dwrite:
  "(\<And>b'. L i = Some b' \<Longrightarrow> b = b') \<Longrightarrow> keeps V L m (dwrite V l i b m)"
  unfolding keeps_def
proof (intro conjI allI impI)
  fix k j b'
  assume b: "\<And>b'. L i = Some b' \<Longrightarrow> b = b'" and L: "L j = Some b'" "dread V k m j = b'"
  show "dread V k (dwrite V l i b m) j = b'"
    using read_other [of k l i b m j] b [of b'] L by auto
qed (simp add: dalias_dwrite)

lemma copy_list:
  assumes "agrees V L src m (set is)" "dst \<le> NumDevs V"
  shows "keeps V L m (foldl (\<lambda>m i. dwrite V dst i (dread V src m i) m) m is) \<and>
         agrees V L dst (foldl (\<lambda>m i. dwrite V dst i (dread V src m i) m) m is) (set is)"
  using assms(1)
proof (induction "is" arbitrary: m)
  case Nil
  then show ?case by (simp add: agrees_def)
next
  case (Cons i js)
  define m1 where "m1 = dwrite V dst i (dread V src m i) m"
  have k1: "keeps V L m m1"
    unfolding m1_def using Cons.prems by (intro keeps_dwrite) (auto simp: agrees_def)
  have "agrees V L src m (set js)" using Cons.prems by (auto simp: agrees_def)
  then have "agrees V L src m1 (set js)" by (rule keeps_agrees [OF k1])
  note IH = Cons.IH [OF this]
  have "agrees V L dst m1 {i}"
    using Cons.prems read_written [OF assms(2)] by (auto simp: m1_def agrees_def)
  then have "agrees V L dst (foldl (\<lambda>m i. dwrite V dst i (dread V src m i) m) m1 js) {i}"
    by (rule keeps_agrees [OF conjunct1 [OF IH]])
  then show ?case
    using IH keeps_trans [OF k1] by (auto simp: m1_def agrees_def)
qed

lemma copy_range_keeps:
  assumes "agrees V L src m (span c)" "dst \<le> NumDevs V"
  shows "keeps V L m (copy_range V src dst (Off c) (Sz c) m)"
    and "agrees V L dst (copy_range V src dst (Off c) (Sz c) m) (span c)"
proof -
  have S: "set [Off c..<Off c + Sz c] = span c" by (auto simp: span_def)
  note copy_list [of L src m "[Off c..<Off c + Sz c]" dst, unfolded S, OF assms]
  then show "keeps V L m (copy_range V src dst (Off c) (Sz c) m)"
    "agrees V L dst (copy_range V src dst (Off c) (Sz c) m) (span c)"
    by (simp_all add: copy_range_def)
qed

text \<open>The two transfers: they succeed and bring the target up to date on the chunk.\<close>

lemma transferToDevice_ok:
  assumes ok: "chunk_ok V m L c" and D: "D < NumDevs V"
  shows "\<exists>m'. transferToDevice V D c m = Some m' \<and> keeps V L m m' \<and> agrees V L D m' (span c) \<and>
              (UseHost V \<longrightarrow> dsame V D \<longrightarrow> dalias V D m')"
proof (cases "True \<notin> set (Validity c)")
  case True
  then show ?thesis using ok by (auto simp: transferToDevice_def chunk_ok_def agrees_def)
next
  case some: False
  show ?thesis
  proof (cases "Validity c ! D")
    case True
    then show ?thesis using ok some D by (auto simp: transferToDevice_def chunk_ok_def)
  next
    case notD: False
    define m1 where "m1 = dmap V D m"
    have k1: "keeps V L m m1" by (simp add: m1_def)
    have al: "dalias V D m1" if "UseHost V" "dsame V D" using map_same that by (simp add: m1_def)
    show ?thesis
    proof (cases "Validity c ! NumDevs V")
      case True
      then have use: "UseHost V" and ag: "agrees V L (NumDevs V) m1 (span c)"
        using ok keeps_agrees [OF k1] by (auto simp: chunk_ok_def)
      show ?thesis
      proof (cases "dalias V D m1")
        case True
        then have "agrees V L D m1 (span c)" using ag alias_host [OF D True] by (simp add: agrees_def)
        then show ?thesis
          using some notD \<open>Validity c ! NumDevs V\<close> use True k1 by (simp add: transferToDevice_def Let_def m1_def)
      next
        case False
        then show ?thesis
          using some notD \<open>Validity c ! NumDevs V\<close> use al copy_range_keeps [OF ag, of D] D keeps_trans [OF k1]
          by (simp add: transferToDevice_def Let_def flip: m1_def) blast
      qed
    next
      case False
      define s where "s = find_first (Validity c)"
      define m2 where "m2 = dmap V s m1"
      have s: "s \<le> NumDevs V" "Validity c ! s"
        using first_valid [OF ok] some by (simp_all add: s_def)
      have k2: "keeps V L m m2" unfolding m2_def by (rule keeps_trans [OF k1]) simp
      have ag: "agrees V L s m2 (span c)" using ok s keeps_agrees [OF k2] by (auto simp: chunk_ok_def)
      note cp = copy_range_keeps [OF ag, of D]
      have "dalias V D (copy_range V s D (Off c) (Sz c) m2)" if "UseHost V" "dsame V D"
        using al [OF that] cp(1) D by (auto simp: keeps_def m2_def dalias_dmap)
      then show ?thesis
        using some notD False D cp keeps_trans [OF k2 cp(1)]
        by (simp add: transferToDevice_def Let_def flip: m1_def s_def m2_def)
    qed
  qed
qed

lemma transferToHost_ok:
  assumes ok: "chunk_ok V m L c" and use: "UseHost V"
  shows "\<exists>m'. transferToHost V c m = Some m' \<and> keeps V L m m' \<and> agrees V L (NumDevs V) m' (span c)"
proof (cases "Validity c ! NumDevs V")
  case True
  then show ?thesis using ok use by (auto simp: transferToHost_def chunk_ok_def)
next
  case False
  define s where "s = find_first (Validity c)"
  define m1 where "m1 = dmap V s m"
  have some: "True \<in> set (Validity c)" using ok use by (simp add: chunk_ok_def)
  have s: "s \<le> NumDevs V" "Validity c ! s"
    using first_valid [OF ok some] by (simp_all add: s_def)
  then have "s < NumDevs V" using False by (cases "s = NumDevs V") auto
  then have ns: "\<not> dsame V s" using ok use s(2) False by (auto simp: chunk_ok_def)
  have k1: "keeps V L m m1" by (simp add: m1_def)
  have ag: "agrees V L s m1 (span c)" using ok s keeps_agrees [OF k1] by (auto simp: chunk_ok_def)
  show ?thesis
    using some False ns copy_range_keeps [OF ag, of "NumDevs V"] keeps_trans [OF k1]
    by (simp add: transferToHost_def Let_def flip: s_def m1_def)
qed

end

section \<open>The update of a region\<close>

text \<open>Two copies that are one storage.\<close>

definition same_copy :: "'m descs \<Rightarrow> 'm \<Rightarrow> nat \<Rightarrow> nat \<Rightarrow> bool" where
  "same_copy V m k t \<longleftrightarrow>
     k = t \<or> ((k = NumDevs V \<or> dalias V k m) \<and> (t = NumDevs V \<or> dalias V t m))"

text \<open>After an access with write mode only the accessed copy is valid where it may be written.\<close>

definition exclusive :: "'m descs \<Rightarrow> chunk list \<Rightarrow> 'm \<Rightarrow> nat \<Rightarrow> nat set \<Rightarrow> bool" where
  "exclusive V P m t S \<longleftrightarrow>
     (\<forall>c \<in> set P. span c \<inter> S \<noteq> {} \<longrightarrow>
        Validity c ! t \<and> (\<forall>k \<le> NumDevs V. Validity c ! k \<longrightarrow> same_copy V m k t))"

text \<open>
  What an access may ask for: a region inside the object, a legal mode, and not to write blindly
  to a device whose storage will be the host pointer but has not been mapped yet.
\<close>

definition access_ok :: "'m descs \<Rightarrow> 'm \<Rightarrow> nat \<Rightarrow> nat \<Rightarrow> sync_mode \<Rightarrow> nat \<Rightarrow> bool" where
  "access_ok V m x n Mode D \<longleftrightarrow>
     D < NumDevs V \<and> x < ObjSize V \<and> x + n \<le> ObjSize V \<and>
     Mode AND NOT (SyncMap OR SyncRead OR SyncWrite) = 0 \<and>
     (has_flag Mode SyncRead \<or> has_flag Mode SyncWrite) \<and>
     (has_flag Mode SyncRead \<or> \<not> device_update V Mode \<or> \<not> UseHost V \<or> \<not> dsame V D \<or> dalias V D m)"

definition transfer :: "'m descs \<Rightarrow> sync_mode \<Rightarrow> nat \<Rightarrow> chunk \<Rightarrow> 'm \<Rightarrow> 'm option" where
  "transfer V Mode D = (if device_update V Mode then transferToDevice V D else transferToHost V)"

context memory_descriptor
begin

lemma same_copy_reads:
  "same_copy V m k t \<Longrightarrow> k \<le> NumDevs V \<Longrightarrow> t \<le> NumDevs V \<Longrightarrow> dread V k m = dread V t m"
  using alias_host by (auto simp: same_copy_def le_less)

lemma transfer_ok:
  assumes "chunk_ok V m L c" "D < NumDevs V"
  shows "\<exists>m'. transfer V Mode D c m = Some m' \<and> keeps V L m m' \<and>
              agrees V L (target V Mode D) m' (span c) \<and>
              (device_update V Mode \<longrightarrow> UseHost V \<longrightarrow> dsame V D \<longrightarrow> dalias V D m')"
  using transferToDevice_ok [OF assms] transferToHost_ok [OF assms(1)]
  by (auto simp: transfer_def target_def device_update_def)

lemma transfer_all_ok:
  assumes "\<forall>c \<in> set cs. chunk_ok V m L c" "D < NumDevs V"
  shows "\<exists>m'. transfer_all (transfer V Mode D) cs m = Some m' \<and> keeps V L m m' \<and>
              (\<forall>c \<in> set cs. agrees V L (target V Mode D) m' (span c)) \<and>
              (cs \<noteq> [] \<longrightarrow> device_update V Mode \<longrightarrow> UseHost V \<longrightarrow> dsame V D \<longrightarrow> dalias V D m')"
  using assms(1)
proof (induction cs arbitrary: m)
  case Nil
  then show ?case by simp
next
  case (Cons c cs)
  obtain m1 where m1: "transfer V Mode D c m = Some m1" "keeps V L m m1"
    "agrees V L (target V Mode D) m1 (span c)"
    "device_update V Mode \<longrightarrow> UseHost V \<longrightarrow> dsame V D \<longrightarrow> dalias V D m1"
    using transfer_ok [of m L c D Mode] Cons.prems assms(2) by auto
  have "\<forall>c \<in> set cs. chunk_ok V m1 L c" using Cons.prems chunk_ok_keeps [OF _ m1(2)] by simp
  from Cons.IH [OF this] obtain m2 where m2: "transfer_all (transfer V Mode D) cs m1 = Some m2"
    "keeps V L m1 m2" "\<forall>c \<in> set cs. agrees V L (target V Mode D) m2 (span c)" by blast
  have "device_update V Mode \<longrightarrow> UseHost V \<longrightarrow> dsame V D \<longrightarrow> dalias V D m2"
    using m1(4) m2(2) by (simp add: keeps_def)
  then show ?case
    using m1 m2 keeps_trans [OF m1(2) m2(2)] keeps_agrees [OF m2(2) m1(3)] by simp
qed

lemma span_updateValidity [simp]:
  "Off (updateValidity V Mode du D m c) = Off c" "Sz (updateValidity V Mode du D m c) = Sz c"
  "span (updateValidity V Mode du D m c) = span c"
  "length (Validity (updateValidity V Mode du D m c)) = length (Validity c)"
  by (simp_all add: updateValidity_def updateHostValidity_def Let_def span_def)

lemma nth_updateValidity:
  assumes "length (Validity c) = NumDevs V + 1" "k \<le> NumDevs V" "D < NumDevs V"
  shows "Validity (updateValidity V Mode du D m c) ! k \<longleftrightarrow>
           (\<not> has_flag Mode SyncWrite \<and> Validity c ! k) \<or> (du \<and> k = D) \<or>
           ((\<not> du \<or> dalias V D m) \<and> (k = NumDevs V \<or> dalias V k m))"
  using assms
  by (auto simp: updateValidity_def updateHostValidity_def Let_def nth_list_update less_Suc_eq_le
           simp del: replicate_Suc)

lemma updateValidity_ok:
  assumes ok: "chunk_ok V m L c" and k: "keeps V L m m'" and D: "D < NumDevs V"
    and L': "\<forall>i \<in> span c. L' i = L i \<or> L' i = None"
    and ag: "agrees V L' (target V Mode D) m' (span c)"
    and al: "device_update V Mode \<longrightarrow> UseHost V \<longrightarrow> dsame V D \<longrightarrow> dalias V D m'"
  shows "chunk_ok V m' L' (updateValidity V Mode (device_update V Mode) D m' c)"
    and "has_flag Mode SyncWrite \<Longrightarrow>
         Validity (updateValidity V Mode (device_update V Mode) D m' c) ! target V Mode D \<and>
         (\<forall>j \<le> NumDevs V. Validity (updateValidity V Mode (device_update V Mode) D m' c) ! j \<longrightarrow>
                         same_copy V m' j (target V Mode D))"
proof -
  let ?u = "updateValidity V Mode (device_update V Mode) D m' c"
  have len: "length (Validity c) = NumDevs V + 1" using ok by (simp add: chunk_ok_def)
  note nth = nth_updateValidity [OF len _ D]
  have use: "\<not> device_update V Mode \<Longrightarrow> UseHost V" by (simp add: device_update_def)
  have t: "target V Mode D \<le> NumDevs V" using D by (simp add: target_def)
  have tv: "Validity ?u ! target V Mode D" using D by (auto simp: nth target_def)
  have old: "agrees V L' j m' (span c)" if "j \<le> NumDevs V" "Validity c ! j" for j
  proof -
    have "agrees V L j m' (span c)" using ok that keeps_agrees [OF k] by (simp add: chunk_ok_def)
    with L' show ?thesis unfolding agrees_def by (metis option.distinct(1))
  qed
  have new: "same_copy V m' j (target V Mode D)"
    if "j \<le> NumDevs V" "Validity ?u ! j" "\<not> (\<not> has_flag Mode SyncWrite \<and> Validity c ! j)" for j
    using that by (auto simp: nth same_copy_def target_def)
  have valid: "agrees V L' j m' (span c)" if j: "j \<le> NumDevs V" "Validity ?u ! j" for j
  proof (cases "\<not> has_flag Mode SyncWrite \<and> Validity c ! j")
    case True
    then show ?thesis using old j by blast
  next
    case False
    from same_copy_reads [OF new [OF j False] j(1) t] ag show ?thesis by (simp add: agrees_def)
  qed
  have host: "UseHost V" if "Validity ?u ! NumDevs V"
    using that ok use alias_use D by (auto simp: nth chunk_ok_def)
  have dev: "dalias V j m' \<and> Validity ?u ! NumDevs V"
    if "UseHost V" "j < NumDevs V" "Validity ?u ! j" "dsame V j" for j
    using that ok al k D by (auto simp: nth chunk_ok_def keeps_def)
  have "True \<in> set (Validity ?u)"
    using tv t len by (metis less_Suc_eq_le nth_mem span_updateValidity(4) Suc_eq_plus1)
  then show "chunk_ok V m' L' ?u"
    using valid host dev len by (simp add: chunk_ok_def)
  show "Validity ?u ! target V Mode D \<and>
        (\<forall>j \<le> NumDevs V. Validity ?u ! j \<longrightarrow> same_copy V m' j (target V Mode D))"
    if "has_flag Mode SyncWrite"
    using tv new that by blast
qed

end

end
