(* ===== verification/Coherency_Refine.thy ===== *)
theory Coherency_Refine
  imports Coherency_Proof
begin

text \<open>
  The coherency tracker refines one flat memory: every legal access leaves the state coherent,
  brings the accessed copy up to date on the region, and makes that copy the only valid one when
  it may be written. \<open>tracker_runs\<close> are all histories of a tracker; \<open>cpu_descs\<close> is the CPU
  implementation of the descriptors.
\<close>

section \<open>The chunks to transfer\<close>

lemma range_split: "I \<le> E \<Longrightarrow> P = take I P @ take (E - I) (drop I P) @ drop E P"
proof -
  assume "I \<le> E"
  then have "drop (E - I) (drop I P) = drop E P" by simp
  then show ?thesis by (metis append_take_drop_id)
qed

lemma range_nth:
  "c \<in> set (take (E - I) (drop I P)) \<Longrightarrow> I \<le> E \<Longrightarrow> E \<le> length P \<Longrightarrow> \<exists>j. I \<le> j \<and> j < E \<and> c = P ! j"
proof -
  assume "c \<in> set (take (E - I) (drop I P))" and "I \<le> E" "E \<le> length P"
  then obtain j where "j < E - I" "c = P ! (I + j)" by (auto simp: in_set_conv_nth)
  then show ?thesis by (intro exI [of _ "I + j"]) simp
qed

lemma outside_nth:
  assumes "c \<in> set (take I P) \<or> c \<in> set (drop E P)" "E \<le> length P"
  shows "\<exists>j < length P. c = P ! j \<and> (j < I \<or> E \<le> j)"
  using assms(1)
proof
  assume "c \<in> set (take I P)"
  then obtain j where "j < length (take I P)" "take I P ! j = c" by (metis in_set_conv_nth)
  then show ?thesis by (intro exI [of _ j]) simp
next
  assume "c \<in> set (drop E P)"
  then obtain j where "j < length (drop E P)" "drop E P ! j = c" by (metis in_set_conv_nth)
  then show ?thesis using assms(2) by (intro exI [of _ "E + j"]) auto
qed

lemma chunks_sub:
  assumes T: "tiles 0 P b" and ne: "P \<noteq> []" and x: "x < b" "x + n \<le> b"
    and cs: "computeChunksToTransfer P x n Mode = Some cs" and c: "c \<in> set cs"
  shows "\<exists>c0 \<in> set P. span c \<subseteq> span c0 \<and> Validity c = Validity c0"
proof -
  obtain I E where R: "findRangeFor P x n = (I, E)" by fastforce
  note rng = findRangeFor_spec [OF T ne x R]
  have PI: "P ! I \<in> set P" "P ! (E - 1) \<in> set P" using rng(1,2) by simp_all
  show ?thesis
  proof (cases "has_flag Mode SyncRead")
    case True
    then have "c \<in> set (take (E - I) (drop I P))"
      using cs c by (simp add: computeChunksToTransfer_def R)
    then have "c \<in> set P" by (auto dest: in_set_takeD in_set_dropD)
    then show ?thesis by blast
  next
    case False
    then have "(Off (P ! I) < x \<and> c = (P ! I)\<lparr>Sz := x - Off (P ! I)\<rparr>) \<or>
      (x + n < Off (P ! (E - 1)) + Sz (P ! (E - 1)) \<and>
       c = (P ! (E - 1))\<lparr>Off := x + n, Sz := Off (P ! (E - 1)) + Sz (P ! (E - 1)) - (x + n)\<rparr>)"
      using cs c by (auto simp: computeChunksToTransfer_def R Let_def split: if_splits)
    then have "(span c \<subseteq> span (P ! I) \<and> Validity c = Validity (P ! I)) \<or>
      (span c \<subseteq> span (P ! (E - 1)) \<and> Validity c = Validity (P ! (E - 1)))"
      using rng(9,10) by (auto simp: span_def)
    with PI show ?thesis by blast
  qed
qed

lemma chunks_cover:
  assumes T: "tiles 0 P b" and ne: "P \<noteq> []" and x: "x < b" "x + n \<le> b"
    and R: "findRangeFor P x n = (I, E)"
    and cs: "computeChunksToTransfer P x n Mode = Some cs"
    and c: "c \<in> set (take (E - I) (drop I P))" and i: "i \<in> span c"
    and out: "has_flag Mode SyncRead \<or> i < x \<or> x + n \<le> i"
  shows "\<exists>c' \<in> set cs. i \<in> span c'"
proof (cases "has_flag Mode SyncRead")
  case True
  then have "c \<in> set cs" using cs c by (simp add: computeChunksToTransfer_def R)
  with i show ?thesis by blast
next
  case False
  note rng = findRangeFor_spec [OF T ne x R]
  obtain j where j: "I \<le> j" "j < E" "c = P ! j"
    using range_nth [OF c less_imp_le [OF rng(1)] rng(2)] by blast
  define F where "F = (P ! I)\<lparr>Sz := x - Off (P ! I)\<rparr>"
  define G where "G = (P ! (E - 1))\<lparr>Off := x + n, Sz := Off (P ! (E - 1)) + Sz (P ! (E - 1)) - (x + n)\<rparr>"
  have cs': "cs = (if Off (P ! I) < x then [F] else []) @
                  (if x + n < Off (P ! (E - 1)) + Sz (P ! (E - 1)) then [G] else [])"
    using cs False by (auto simp: computeChunksToTransfer_def R Let_def F_def G_def split: if_splits)
  show ?thesis
  proof (cases "i < x")
    case True
    then have "j = I" using rng(7) [of j] j i by (fastforce simp: span_def)
    then have "F \<in> set cs" "i \<in> span F" using True i j(3) by (auto simp: cs' F_def span_def)
    then show ?thesis by blast
  next
    case ge: False
    then have "x + n \<le> i" using out False by simp
    moreover from this have "j = E - 1" using rng(8) [of j] j i by (fastforce simp: span_def)
    ultimately have "G \<in> set cs" "i \<in> span G" using i j(3) by (auto simp: cs' G_def span_def)
    then show ?thesis by blast
  qed
qed

lemma range_covers:
  assumes T: "tiles 0 P b" and ne: "P \<noteq> []" and x: "x < b" "x + n \<le> b"
    and R: "findRangeFor P x n = (I, E)" and i: "x \<le> i" "i < x + n"
  shows "\<exists>c \<in> set (take (E - I) (drop I P)). i \<in> span c"
proof -
  note rng = findRangeFor_spec [OF T ne x R]
  obtain j where j: "j < length P" "i \<in> span (P ! j)"
    using tiles_cover [OF T, of i] i x by (auto simp: in_set_conv_nth)
  have "I \<le> j" using rng(3) [of j] j i by (fastforce simp: span_def)
  moreover have "j < E" using rng(4) [of j] j i by (fastforce simp: span_def)
  ultimately have "j - I < E - I" "drop I P ! (j - I) = P ! j" "j - I < length (drop I P)"
    using j(1) by auto
  then have "P ! j \<in> set (take (E - I) (drop I P))"
    by (auto simp: in_set_conv_nth intro!: exI [of _ "j - I"])
  with j(2) show ?thesis by blast
qed

section \<open>One access\<close>

context memory_descriptor
begin

lemma updateRegion_ok:
  assumes coh: "coherent V (P, m) L" and acc: "access_ok V m x n Mode D"
  shows "\<exists>P' m'. updateRegion V x n Mode D (P, m) = Some (P', m') \<and>
           coherent V (P', m') (region_after Mode x n L) \<and>
           agrees V (region_after Mode x n L) (target V Mode D) m' {x..<x + n} \<and>
           (has_flag Mode SyncWrite \<longrightarrow> exclusive V P' m' (target V Mode D) {x..<x + n})"
proof -
  define t where "t = target V Mode D"
  define L' where "L' = region_after Mode x n L"
  have T: "tiles 0 P (ObjSize V)" and ne: "P \<noteq> []" and ok: "\<forall>c \<in> set P. chunk_ok V m L c"
    using coh by (simp_all add: coherent_def)
  have D: "D < NumDevs V" and x: "x < ObjSize V" "x + n \<le> ObjSize V"
    and mode: "Mode AND NOT (SyncMap OR SyncRead OR SyncWrite) = 0" "Mode \<noteq> 0"
    and rw: "has_flag Mode SyncRead \<or> has_flag Mode SyncWrite"
    using acc by (auto simp: access_ok_def)
  obtain I E where R: "findRangeFor P x n = (I, E)" by fastforce
  note rng = findRangeFor_spec [OF T ne x R]
  define rs where "rs = take (E - I) (drop I P)"
  have split: "P = take I P @ rs @ drop E P"
    unfolding rs_def by (rule range_split [OF less_imp_le [OF rng(1)]])
  have rs_ne: "rs \<noteq> []" using rng(1,2) by (simp add: rs_def)
  obtain cs where cs: "computeChunksToTransfer P x n Mode = Some cs"
    using rw by (cases "has_flag Mode SyncRead") (auto simp: computeChunksToTransfer_def R Let_def)
  have "\<forall>c \<in> set cs. chunk_ok V m L c"
    using chunks_sub [OF T ne x cs] ok chunk_ok_narrow by metis
  from transfer_all_ok [OF this D] obtain m' where m': "transfer_all (transfer V Mode D) cs m = Some m'"
    "keeps V L m m'" "\<forall>c \<in> set cs. agrees V L t m' (span c)"
    and al1: "cs \<noteq> [] \<longrightarrow> device_update V Mode \<longrightarrow> UseHost V \<longrightarrow> dsame V D \<longrightarrow> dalias V D m'"
    unfolding t_def by blast
  have al: "device_update V Mode \<longrightarrow> UseHost V \<longrightarrow> dsame V D \<longrightarrow> dalias V D m'"
  proof (cases "has_flag Mode SyncRead")
    case True
    then have "cs = rs" using cs by (simp add: computeChunksToTransfer_def R rs_def)
    with al1 rs_ne show ?thesis by simp
  next
    case False
    with acc m'(2) show ?thesis by (auto simp: access_ok_def keeps_def)
  qed
  have L': "L' i = L i \<or> L' i = None" for i by (simp add: L'_def region_after_def)
  have L'_out: "L' i = L i" if "i < x \<or> x + n \<le> i" for i using that by (auto simp: L'_def region_after_def)
  have ag: "agrees V L' t m' (span c)" if c: "c \<in> set rs" for c
    unfolding agrees_def
  proof (intro ballI allI impI)
    fix i b assume i: "i \<in> span c" "L' i = Some b"
    then have "has_flag Mode SyncRead \<or> i < x \<or> x + n \<le> i"
      using rw by (auto simp: L'_def region_after_def split: if_splits)
    then obtain c' where "c' \<in> set cs" "i \<in> span c'"
      using chunks_cover [OF T ne x R cs c [unfolded rs_def] i(1)] by blast
    moreover have "L i = Some b" using L' [of i] i(2) by auto
    ultimately show "dread V t m' i = b" using m'(3) by (auto simp: agrees_def)
  qed
  define u where "u = updateValidity V Mode (device_update V Mode) D m'"
  define P' where "P' = take I P @ map u rs @ drop E P"
  have upd: "updateRegion V x n Mode D (P, m) = Some (P', m')"
    using mode m'(1) by (simp add: updateRegion_def cs R P'_def rs_def u_def transfer_def)
  have rs_ok: "chunk_ok V m L c" if "c \<in> set rs" for c
    using that ok by (auto simp: rs_def dest: in_set_takeD in_set_dropD)
  note u_ok = updateValidity_ok [OF rs_ok m'(2) D _ ag [unfolded t_def] al]
  have out: "chunk_ok V m' L' c" "span c \<inter> {x..<x + n} = {}"
    if c: "c \<in> set (take I P) \<or> c \<in> set (drop E P)" for c
  proof -
    obtain j where j: "j < length P" "c = P ! j" "j < I \<or> E \<le> j"
      using outside_nth [OF c rng(2)] by blast
    then have o: "\<forall>i \<in> span c. i < x \<or> x + n \<le> i"
      using rng(3) [of j] rng(4) [of j] by (auto simp: span_def)
    then show "span c \<inter> {x..<x + n} = {}" by auto
    show "chunk_ok V m' L' c"
      using j o ok chunk_ok_keeps [OF _ m'(2)] L'_out chunk_ok_outside by (metis nth_mem)
  qed
  have "tiles 0 (take I P @ rs @ drop E P) (ObjSize V)" using T split by simp
  then have "tiles 0 P' (ObjSize V)"
    unfolding P'_def tiles_append by (simp add: tiles_map u_def)
  moreover have "\<forall>c \<in> set P'. chunk_ok V m' L' c"
    using out(1) u_ok(1) L' by (auto simp: P'_def u_def)
  ultimately have "coherent V (P', m') L'" using rs_ne by (simp add: coherent_def P'_def)
  moreover have "agrees V L' t m' {x..<x + n}"
    using range_covers [OF T ne x R] ag unfolding agrees_def rs_def by (metis atLeastLessThan_iff)
  moreover have "exclusive V P' m' t {x..<x + n}" if "has_flag Mode SyncWrite"
    using out(2) u_ok(2) [OF _ _ _ that] L' by (auto simp: exclusive_def P'_def u_def t_def)
  ultimately show ?thesis using upd unfolding L'_def t_def by blast
qed

end

section \<open>Histories\<close>

text \<open>The bytes a command writes to the copy it was given, and their effect on the flat memory.\<close>

definition write_bytes :: "'m descs \<Rightarrow> nat \<Rightarrow> (nat \<times> byte) list \<Rightarrow> 'm \<Rightarrow> 'm" where
  "write_bytes V t ws m = foldl (\<lambda>m w. dwrite V t (fst w) (snd w) m) m ws"

definition put_bytes :: "(nat \<times> byte) list \<Rightarrow> flat_memory \<Rightarrow> flat_memory" where
  "put_bytes ws L = foldl (\<lambda>L w. L(fst w \<mapsto> snd w)) L ws"

definition object_ok :: "'m descs \<Rightarrow> bool" where
  "object_ok V \<longleftrightarrow> 0 < ObjSize V \<and> 0 < NumDevs V \<and> \<not> (UseHost V \<and> CopyHost V)"

definition initial_memory :: "'m descs \<Rightarrow> 'm \<Rightarrow> flat_memory" where
  "initial_memory V m i =
     (if i < ObjSize V \<and> (UseHost V \<or> CopyHost V) then Some (dread V (NumDevs V) m i) else None)"

lemma valid_in_set: "length v = NumDevs V + 1 \<Longrightarrow> t \<le> NumDevs V \<Longrightarrow> v ! t \<Longrightarrow> True \<in> set v"
  using nth_mem [of t v] by simp

lemma nth_updateHostValidity:
  "k < length (Validity C) \<Longrightarrow> Validity (updateHostValidity V m C) ! k \<longleftrightarrow>
     k = getHostIndex V \<or> dalias V k m \<or> Validity C ! k"
  by (simp add: updateHostValidity_def)

lemma updateHostValidity_frame [simp]:
  "Off (updateHostValidity V m C) = Off C" "Sz (updateHostValidity V m C) = Sz C"
  "length (Validity (updateHostValidity V m C)) = length (Validity C)"
  by (simp_all add: updateHostValidity_def)

text \<open>
  The life of a tracker: initialisation, then accesses, each followed by any bytes written to the
  region through the accessed copy, and regions added by sub-objects.
\<close>

inductive tracker_runs :: "'m descs \<Rightarrow> chunk list \<times> 'm \<Rightarrow> flat_memory \<Rightarrow> bool" for V where
  Init: "object_ok V \<Longrightarrow> tracker_runs V (initialize V m) (initial_memory V m)"
| Access: "\<lbrakk>tracker_runs V (P, m) L; access_ok V m x n Mode D;
     updateRegion V x n Mode D (P, m) = Some (P', m');
     \<forall>w \<in> set ws. x \<le> fst w \<and> fst w < x + n; ws \<noteq> [] \<longrightarrow> has_flag Mode SyncWrite\<rbrakk> \<Longrightarrow>
   tracker_runs V (P', write_bytes V (target V Mode D) ws m') (put_bytes ws (region_after Mode x n L))"
| Region: "\<lbrakk>tracker_runs V (P, m) L; x + n < ObjSize V; addRegion P x n = Some P'\<rbrakk> \<Longrightarrow>
   tracker_runs V (P', m) L"

inductive_cases tracker_runs_pairE: "tracker_runs V (P, m) L"

context memory_descriptor
begin

lemma same_copy_dwrite [simp]: "same_copy V (dwrite V l i b m) k t = same_copy V m k t"
  by (simp add: same_copy_def dalias_dwrite)

lemma exclusive_dwrite [simp]: "exclusive V P (dwrite V l i b m) t S = exclusive V P m t S"
  by (simp add: exclusive_def)

lemma dwrite_ok:
  assumes coh: "coherent V (P, m) L" and ex: "exclusive V P m t S" and i: "i \<in> S" and t: "t \<le> NumDevs V"
  shows "coherent V (P, dwrite V t i b m) (L(i \<mapsto> b))"
proof -
  have "chunk_ok V (dwrite V t i b m) (L(i \<mapsto> b)) c" if c: "c \<in> set P" for c
  proof -
    have ok: "chunk_ok V m L c" using coh c by (simp add: coherent_def)
    have excl: "Validity c ! t \<and> (\<forall>k \<le> NumDevs V. Validity c ! k \<longrightarrow> same_copy V m k t)" if "i \<in> span c"
      using ex c that i by (auto simp: exclusive_def)
    have "agrees V (L(i \<mapsto> b)) k (dwrite V t i b m) (span c)"
      if k: "k \<le> NumDevs V" "Validity c ! k" for k
      unfolding agrees_def
    proof (intro ballI allI impI)
      fix j b' assume j: "j \<in> span c" "(L(i \<mapsto> b)) j = Some b'"
      show "dread V k (dwrite V t i b m) j = b'"
      proof (cases "j = i")
        case True
        then have "same_copy V (dwrite V t i b m) k t" using excl j(1) k by simp
        from same_copy_reads [OF this k(1) t] show ?thesis using read_written [OF t] True j(2) by simp
      next
        case False
        then have "dread V k m j = b'" using ok k j by (auto simp: chunk_ok_def agrees_def)
        with read_other [of k t i b m j] False show ?thesis by simp
      qed
    qed
    moreover have "True \<in> set (Validity c)" if "i \<in> span c"
      using valid_in_set [of "Validity c" V t] excl [OF that] ok t by (simp add: chunk_ok_def)
    ultimately show ?thesis using ok by (auto simp: chunk_ok_def dalias_dwrite)
  qed
  then show ?thesis using coh by (simp add: coherent_def)
qed

lemma write_bytes_ok:
  "\<lbrakk>coherent V (P, m) L; exclusive V P m t S; \<forall>w \<in> set ws. fst w \<in> S; t \<le> NumDevs V\<rbrakk> \<Longrightarrow>
   coherent V (P, write_bytes V t ws m) (put_bytes ws L)"
  by (induction ws arbitrary: m L) (simp_all add: write_bytes_def put_bytes_def dwrite_ok)

lemma addRegion_ok:
  assumes coh: "coherent V (P, m) L" and x: "x + n < ObjSize V" and a: "addRegion P x n = Some P'"
  shows "coherent V (P', m) L"
proof -
  have T: "tiles 0 P (ObjSize V)" and ne: "P \<noteq> []" and ok: "\<forall>c \<in> set P. chunk_ok V m L c"
    using coh by (simp_all add: coherent_def)
  from addRegion_tiles [OF T ne x] a
  have "tiles 0 P' (ObjSize V)" "P' \<noteq> []"
    and parts: "\<forall>c' \<in> set P'. \<exists>c \<in> set P. span c' \<subseteq> span c \<and> Validity c' = Validity c"
    by auto
  moreover have "chunk_ok V m L c'" if "c' \<in> set P'" for c'
    using parts that ok chunk_ok_narrow [of V m L _ c'] by blast
  ultimately show ?thesis by (simp add: coherent_def)
qed

lemma initialize_ok:
  assumes "object_ok V"
  shows "coherent V (initialize V m) (initial_memory V m)"
proof -
  have pos: "0 < ObjSize V" "0 < NumDevs V" using assms by (simp_all add: object_ok_def)
  define C where "C = \<lparr>Off = 0, Sz = ObjSize V, Validity = replicate (getNumDevices V) False\<rparr>"
  have len: "length (Validity C) = NumDevs V + 1" by (simp add: C_def getNumDevices_def)
  have sp: "span C = {0..<ObjSize V}" by (simp add: C_def span_def)
  consider "UseHost V" "\<not> CopyHost V" | "\<not> UseHost V" "CopyHost V" | "\<not> UseHost V" "\<not> CopyHost V"
    using assms by (auto simp: object_ok_def)
  then show ?thesis
  proof cases
    case 1
    define U where "U = updateHostValidity V m C"
    have U: "Off U = 0" "Sz U = ObjSize V" "span U = {0..<ObjSize V}" "length (Validity U) = NumDevs V + 1"
      using len by (simp_all add: U_def C_def span_def)
    have nth: "Validity U ! k \<longleftrightarrow> k = NumDevs V \<or> dalias V k m" if "k \<le> NumDevs V" for k
      using that len nth_updateHostValidity [of k C V m]
      by (simp add: U_def C_def getNumDevices_def del: replicate_Suc)
    have "True \<in> set (Validity U)" using valid_in_set [OF U(4), of "NumDevs V"] nth by simp
    moreover have "agrees V (initial_memory V m) k m (span U)" if "k \<le> NumDevs V" "Validity U ! k" for k
      using that(1,2) nth [OF that(1)] U(3) 1 alias_host [of k m]
      by (auto simp: agrees_def initial_memory_def le_less)
    ultimately have "chunk_ok V m (initial_memory V m) U"
      using U(4) 1 nth by (simp add: chunk_ok_def)
    then show ?thesis
      using 1 pos U(1,2) by (simp add: coherent_def initialize_def Let_def flip: C_def U_def)
  next
    case 2
    define m1 where "m1 = dmap V 0 m"
    define m2 where "m2 = copy_range V (NumDevs V) 0 0 (ObjSize V) m1"
    define U where "U = C\<lparr>Validity := (Validity C)[0 := True]\<rparr>"
    have "agrees V (initial_memory V m) (NumDevs V) m1 (span C)"
      by (simp add: m1_def agrees_def dread_dmap initial_memory_def)
    from copy_range_keeps(2) [OF this, of 0]
    have ag: "agrees V (initial_memory V m) 0 m2 (span U)"
      by (simp add: m2_def C_def U_def span_def)
    have U: "\<And>k. k \<le> NumDevs V \<Longrightarrow> Validity U ! k \<longleftrightarrow> k = 0" "length (Validity U) = NumDevs V + 1"
      using len by (auto simp: U_def C_def nth_list_update getNumDevices_def simp del: replicate_Suc)
    then have "True \<in> set (Validity U)" using valid_in_set [OF U(2), of 0] by simp
    then have "chunk_ok V m2 (initial_memory V m) U"
      using U ag 2 pos by (simp add: chunk_ok_def)
    moreover have "initialize V m = ([U], m2)"
      using 2 by (simp add: initialize_def Let_def m1_def m2_def U_def C_def)
    ultimately show ?thesis using pos by (simp add: coherent_def U_def C_def)
  next
    case 3
    then have "chunk_ok V m (initial_memory V m) C"
      using len by (auto simp: chunk_ok_def initial_memory_def C_def getNumDevices_def
                         simp del: replicate_Suc)
    then show ?thesis using 3 pos by (simp add: coherent_def initialize_def Let_def C_def)
  qed
qed

lemma runs_coherent: "tracker_runs V st L \<Longrightarrow> coherent V st L"
proof (induction rule: tracker_runs.induct)
  case (Init m)
  then show ?case by (rule initialize_ok)
next
  case (Access P m L x n Mode D P' m' ws)
  from updateRegion_ok [OF Access.IH Access.hyps(2)] Access.hyps(3)
  have c: "coherent V (P', m') (region_after Mode x n L)"
    and e: "has_flag Mode SyncWrite \<longrightarrow> exclusive V P' m' (target V Mode D) {x..<x + n}" by auto
  have t: "target V Mode D \<le> NumDevs V"
    using Access.hyps(2) by (simp add: target_def access_ok_def)
  show ?case
  proof (cases "ws = []")
    case True
    with c show ?thesis by (simp add: write_bytes_def put_bytes_def)
  next
    case False
    then have "exclusive V P' m' (target V Mode D) {x..<x + n}" using e Access.hyps(5) by simp
    from write_bytes_ok [OF c this _ t] Access.hyps(4) show ?thesis by simp
  qed
next
  case (Region P m L x n P')
  then show ?case using addRegion_ok [OF Region.IH Region.hyps(2,3)] by simp
qed

end

section \<open>The CPU descriptors\<close>

text \<open>
  \<open>CPUMemoryDescriptor\<close> of a main object (one without a parent): with \<open>CL_MEM_USE_HOST_PTR\<close> the
  storage is the host pointer itself, otherwise an allocation of its own; it is made by the first
  \<open>map\<close>. The allocation of the operating system is taken to succeed. \<open>N\<close> is the number of
  devices, so copy \<open>N\<close> is the host's.
\<close>

record cpu_mem =
  HostMem :: "nat \<Rightarrow> byte"
  DevMem :: "nat \<Rightarrow> nat \<Rightarrow> byte"
  Allocated :: "nat \<Rightarrow> bool"

definition cpu_aliasWithHostPtr :: "bool \<Rightarrow> nat \<Rightarrow> cpu_mem \<Rightarrow> bool" where
  "cpu_aliasWithHostPtr uh k m \<longleftrightarrow> Allocated m k \<and> uh"

definition cpu_map :: "nat \<Rightarrow> cpu_mem \<Rightarrow> cpu_mem" where
  "cpu_map k m = (if \<not> Allocated m k then m\<lparr>Allocated := (Allocated m)(k := True)\<rparr> else m)"

definition cpu_read :: "nat \<Rightarrow> bool \<Rightarrow> nat \<Rightarrow> cpu_mem \<Rightarrow> nat \<Rightarrow> byte" where
  "cpu_read N uh k m i = (if k = N \<or> uh then HostMem m i else DevMem m k i)"

definition cpu_write :: "nat \<Rightarrow> bool \<Rightarrow> nat \<Rightarrow> nat \<Rightarrow> byte \<Rightarrow> cpu_mem \<Rightarrow> cpu_mem" where
  "cpu_write N uh k i b m =
     (if k = N \<or> uh then m\<lparr>HostMem := (HostMem m)(i := b)\<rparr>
      else m\<lparr>DevMem := (DevMem m)(k := (DevMem m k)(i := b))\<rparr>)"

definition cpu_descs :: "nat \<Rightarrow> nat \<Rightarrow> bool \<Rightarrow> bool \<Rightarrow> cpu_mem descs" where
  "cpu_descs N sz uh ch =
     \<lparr>NumDevs = N, ObjSize = sz, UseHost = uh, CopyHost = ch, dmap = cpu_map,
      dalias = cpu_aliasWithHostPtr uh, dsame = (\<lambda>k. uh), dread = cpu_read N uh, dwrite = cpu_write N uh\<rparr>"

interpretation cpu: memory_descriptor "cpu_descs N sz uh ch" for N sz uh ch
  by unfold_locales
    (auto simp: cpu_descs_def cpu_map_def cpu_aliasWithHostPtr_def cpu_read_def cpu_write_def)

section \<open>Properties\<close>

text \<open>
  C3: the copies a CPU context keeps of a memory object are one flat memory. After any history of
  accesses and sub-object regions, a legal access passes every assertion of the tracker; the copy
  handed to the command holds, over the whole region, the last bytes written by any device or by
  the host; and if the command may write, that copy is the only valid one there.
\<close>

theorem tracker_refines_flat_memory:
  assumes "tracker_runs (cpu_descs N sz uh ch) (P, m) L"
    and "access_ok (cpu_descs N sz uh ch) m x n Mode D"
  shows "\<exists>P' m'. updateRegion (cpu_descs N sz uh ch) x n Mode D (P, m) = Some (P', m') \<and>
           (\<forall>i b. x \<le> i \<and> i < x + n \<and> region_after Mode x n L i = Some b \<longrightarrow>
              cpu_read N uh (target (cpu_descs N sz uh ch) Mode D) m' i = b) \<and>
           (has_flag Mode SyncWrite \<longrightarrow>
              exclusive (cpu_descs N sz uh ch) P' m' (target (cpu_descs N sz uh ch) Mode D) {x..<x + n})"
proof -
  have rd: "dread (cpu_descs N sz uh ch) = cpu_read N uh" by (simp add: cpu_descs_def)
  from cpu.updateRegion_ok [OF cpu.runs_coherent [OF assms(1)] assms(2)]
  show ?thesis unfolding agrees_def rd by fastforce
qed

definition demo_mem :: cpu_mem where
  "demo_mem = \<lparr>HostMem = (\<lambda>i. 7), DevMem = (\<lambda>k i. 0), Allocated = (\<lambda>k. False)\<rparr>"

theorem tracker_refines_flat_memory_witness:
  "\<exists>P' m'. updateRegion (cpu_descs 2 8 False True) 0 8 SyncRead 1
     (initialize (cpu_descs 2 8 False True) demo_mem) = Some (P', m') \<and>
     (\<forall>i < 8. cpu_read 2 False 1 m' i = 7)"
proof -
  let ?V = "cpu_descs 2 8 False True"
  obtain P m where init: "initialize ?V demo_mem = (P, m)" by fastforce
  have run: "tracker_runs ?V (P, m) (initial_memory ?V demo_mem)"
    unfolding init [symmetric] by (rule tracker_runs.Init) (simp add: object_ok_def cpu_descs_def)
  have acc: "access_ok ?V m 0 8 SyncRead 1"
    by (simp add: access_ok_def cpu_descs_def has_flag_def)
  obtain P' m' where u: "updateRegion ?V 0 8 SyncRead 1 (P, m) = Some (P', m')"
    and r: "\<forall>i b. 0 \<le> i \<and> i < 0 + 8 \<and> region_after SyncRead 0 8 (initial_memory ?V demo_mem) i = Some b \<longrightarrow>
                  cpu_read 2 False (target ?V SyncRead 1) m' i = b"
    using tracker_refines_flat_memory [OF run acc] by (elim exE conjE) (rule that)
  have "region_after SyncRead 0 8 (initial_memory ?V demo_mem) i = Some 7" if "i < 8" for i
    using that by (simp add: region_after_def has_flag_def initial_memory_def cpu_descs_def demo_mem_def cpu_read_def)
  moreover have "target ?V SyncRead 1 = 1" by (simp add: target_def device_update_def cpu_descs_def)
  ultimately have "\<forall>i < 8. cpu_read 2 False 1 m' i = 7" using r by simp
  with u show ?thesis unfolding init by blast
qed

text \<open>
  A sub-object that ends inside its parent opens its region without tripping the assertion of
  \<open>splitChunk\<close>; the partition still tiles the object, with a boundary at both ends of the region,
  and keeps the validity of every byte.
\<close>

lemma region_opens:
  assumes "tracker_runs (cpu_descs N sz uh ch) (P, m) L" "x + n < sz"
  shows "\<exists>P'. addRegion P x n = Some P' \<and> tracker_runs (cpu_descs N sz uh ch) (P', m) L \<and>
           tiles 0 P' sz \<and> (\<exists>c \<in> set P'. Off c = x + n) \<and>
           (\<forall>c' \<in> set P'. \<exists>c \<in> set P. span c' \<subseteq> span c \<and> Validity c' = Validity c)"
proof -
  have "tiles 0 P sz" "P \<noteq> []"
    using cpu.runs_coherent [OF assms(1)] by (simp_all add: coherent_def cpu_descs_def)
  from addRegion_tiles [OF this assms(2)] obtain P' where P': "addRegion P x n = Some P'" "tiles 0 P' sz"
    "\<forall>c' \<in> set P'. \<exists>c \<in> set P. span c' \<subseteq> span c \<and> Validity c' = Validity c" "\<exists>c \<in> set P'. Off c = x + n"
    by blast
  moreover have "tracker_runs (cpu_descs N sz uh ch) (P', m) L"
    by (rule tracker_runs.Region [OF assms(1) _ P'(1)]) (simp add: cpu_descs_def assms(2))
  ultimately show ?thesis by blast
qed

text \<open>
  A sub-object that reaches the end of its parent, such as an image made of a whole buffer,
  does trip the assertion: the last boundary is not inside any chunk.
\<close>

lemma region_at_end_asserts:
  assumes "tracker_runs (cpu_descs N sz uh ch) (P, m) L" "x < sz" "x + n = sz"
  shows "addRegion P x n = None"
proof -
  have T: "tiles 0 P sz" and ne: "P \<noteq> []"
    using cpu.runs_coherent [OF assms(1)] by (simp_all add: coherent_def cpu_descs_def)
  note f1 = findChunk_spec [OF T ne le0 less_imp_le [OF assms(2)]]
  obtain P1 J where S1: "splitChunk P (findChunk P 0 x) x = Some (P1, J)" "tiles 0 P1 sz" "P1 \<noteq> []"
    "J < length P1" "Off (P1 ! J) = x"
    using splitChunk_tiles [OF T f1(1,2) f1(4) [OF assms(2)]] by blast
  have lt: "Off (P1 ! i) < sz" if "i < length P1" for i
    using tiles_Off_bounds [OF S1(2), of "P1 ! i"] that by fastforce
  then have F: "findChunk P1 J sz = findChunk P1 0 sz" using S1(4) by (intro findChunk_from) auto
  note f2 = findChunk_spec [OF S1(2,3) le0 le_refl]
  have "Off (P1 ! findChunk P1 0 sz) + Sz (P1 ! findChunk P1 0 sz) \<le> sz"
    using tiles_Off_bounds [OF S1(2)] f2(1) by simp
  then have "splitChunk P1 (findChunk P1 0 sz) sz = None"
    using lt [OF f2(1)] by (simp add: splitChunk_def Let_def)
  then show ?thesis by (simp add: addRegion_def S1(1) assms(3) F)
qed

text \<open>
  The one access the refinement excludes does go wrong: a write-only kernel argument on a
  \<open>CL_MEM_USE_HOST_PTR\<close> buffer whose device has not been mapped leaves the host bit clear, and
  after the kernel has mapped the storage, mapping the buffer for reading trips the assertion of
  \<open>transferToHost\<close> that source and destination differ.
\<close>

lemma blind_write_breaks_map:
  "\<exists>P m. updateRegion (cpu_descs 1 8 True False) 0 8 SyncWrite 0
           (initialize (cpu_descs 1 8 True False) demo_mem) = Some (P, m) \<and>
         updateRegion (cpu_descs 1 8 True False) 0 8 (SyncMap OR SyncRead) 0 (P, cpu_map 0 m) = None"
proof -
  define W where "W = cpu_descs 1 8 True False"
  let ?c = "\<lambda>v. \<lparr>Off = 0, Sz = 8, Validity = v\<rparr>"
  let ?m = "cpu_map 0 demo_mem"
  have sel: "NumDevs W = 1" "ObjSize W = 8" "UseHost W" "\<not> CopyHost W" "getHostIndex W = 1"
    "dmap W = cpu_map" "dalias W = cpu_aliasWithHostPtr True" "dsame W = (\<lambda>k. True)"
    by (simp_all add: W_def cpu_descs_def getHostIndex_def getNumDevices_def)
  have rep: "replicate 2 False = [False, False]" by (simp add: numeral_2_eq_2)
  have al: "\<not> cpu_aliasWithHostPtr True k demo_mem" for k
    by (simp add: demo_mem_def cpu_aliasWithHostPtr_def)
  have flags: "has_flag SyncWrite SyncWrite" "\<not> has_flag SyncWrite SyncRead" "\<not> has_flag SyncWrite SyncMap"
    "has_flag (SyncMap OR SyncRead) SyncRead" "has_flag (SyncMap OR SyncRead) SyncMap"
    by (simp_all add: has_flag_def)
  have rng: "findRangeFor [?c v] 0 8 = (0, 1)" for v
    by (simp add: findRangeFor_def findChunk_def chunk_lower_bound_def)
  have init: "initialize W demo_mem = ([?c [False, True]], demo_mem)"
    by (simp add: initialize_def sel getNumDevices_def rep updateHostValidity_def al upt_rec)
  have upd: "updateRegion W 0 8 SyncWrite 0 ([?c [False, True]], demo_mem) = Some ([?c [True, False]], demo_mem)"
    by (simp add: updateRegion_def computeChunksToTransfer_def rng flags device_update_def
                  updateValidity_def sel rep al)
  have "updateRegion W 0 8 (SyncMap OR SyncRead) 0 ([?c [True, False]], ?m) = None"
    by (simp add: updateRegion_def computeChunksToTransfer_def rng flags [simplified] device_update_def
                  transferToHost_def sel find_first_def)
  with init upd show ?thesis unfolding W_def [symmetric] by auto
qed

end
