(* ===== verification/Profile_Trace.thy ===== *)
theory Profile_Trace
  imports OCL_Prelude
begin

text \<open>
  The profiler of \<open>lib/Core/Profiler.cpp\<close>: samples with a label, kept in a vector that is
  sorted by label, samples of one label in the order they were taken. The clock is a value the
  caller takes (\<open>sys::Time\<close> as its nanosecond count), printing is not modelled.
\<close>

section \<open>Samples\<close>

datatype profile_label = CommandEnqueued | CommandSubmitted | CommandRunning | CommandCompleted | UnknownLabel

fun label_index :: "profile_label \<Rightarrow> nat" where
  "label_index CommandEnqueued = 0"
| "label_index CommandSubmitted = 1"
| "label_index CommandRunning = 2"
| "label_index CommandCompleted = 3"
| "label_index UnknownLabel = 4"

lemma label_index_inject [simp]: "label_index a = label_index b \<longleftrightarrow> a = b"
  by (cases a; cases b) simp_all

text \<open>The C++ enumerators compare by their position.\<close>

instantiation profile_label :: linorder
begin

definition less_eq_profile_label :: "profile_label \<Rightarrow> profile_label \<Rightarrow> bool" where
  "less_eq_profile_label a b \<longleftrightarrow> label_index a \<le> label_index b"

definition less_profile_label :: "profile_label \<Rightarrow> profile_label \<Rightarrow> bool" where
  "less_profile_label a b \<longleftrightarrow> label_index a < label_index b"

instance
  by standard (auto simp: less_eq_profile_label_def less_profile_label_def antisym)

end

record profile_sample =
  SampleLabel :: profile_label
  IsSubSample :: bool
  SubId :: size_t
  Time :: "64 word"

definition getSample :: "profile_label \<Rightarrow> 64 word \<Rightarrow> profile_sample" where
  "getSample L now = \<lparr>SampleLabel = L, IsSubSample = False, SubId = 0, Time = now\<rparr>"

definition getSubSample :: "profile_label \<Rightarrow> size_t \<Rightarrow> 64 word \<Rightarrow> profile_sample" where
  "getSubSample L I now = \<lparr>SampleLabel = L, IsSubSample = True, SubId = I, Time = now\<rparr>"

section \<open>Traces\<close>

record profile_trace =
  Samples :: "profile_sample list"
  Enabled :: bool

text \<open>The constructor: profiling is on when the queue asks for it or the environment does.\<close>

definition ProfileTrace :: "bool \<Rightarrow> bool \<Rightarrow> profile_trace" where
  "ProfileTrace Trace HasEnv = \<lparr>Samples = [], Enabled = (Trace \<or> HasEnv)\<rparr>"

text \<open>\<open>std::upper_bound\<close> on a vector sorted by label, as the number of elements before it.\<close>

definition label_upper_bound :: "profile_sample list \<Rightarrow> profile_label \<Rightarrow> nat" where
  "label_upper_bound xs L = length (takeWhile (\<lambda>x. \<not> L < SampleLabel x) xs)"

definition trace_push :: "profile_trace \<Rightarrow> profile_sample \<Rightarrow> profile_trace" where
  "trace_push T S =
     (if Enabled T then
        let IP = label_upper_bound (Samples T) (SampleLabel S)
        in T\<lparr>Samples := take IP (Samples T) @ S # drop IP (Samples T)\<rparr>
      else T)"

text \<open>\<open>InternalEvent::GetProfiledTime\<close>: the first sample of the vector with the label, else 0.\<close>

fun find_time :: "profile_sample list \<Rightarrow> profile_label \<Rightarrow> 64 word" where
  "find_time [] L = 0"
| "find_time (S # Ss) L = (if SampleLabel S = L then Time S else find_time Ss L)"

section \<open>Properties\<close>

abbreviation trace_sorted :: "profile_trace \<Rightarrow> bool" where
  "trace_sorted T \<equiv> sorted (map SampleLabel (Samples T))"

lemma upper_bound_take:
  "take (label_upper_bound xs L) xs = takeWhile (\<lambda>x. \<not> L < SampleLabel x) xs"
  by (simp only: label_upper_bound_def takeWhile_eq_take [symmetric])

lemma upper_bound_drop:
  "drop (label_upper_bound xs L) xs = dropWhile (\<lambda>x. \<not> L < SampleLabel x) xs"
  by (simp only: label_upper_bound_def dropWhile_eq_drop [symmetric])

lemma Samples_trace_push:
  "Samples (trace_push T S) =
     (if Enabled T then
        takeWhile (\<lambda>x. \<not> SampleLabel S < SampleLabel x) (Samples T) @ S #
        dropWhile (\<lambda>x. \<not> SampleLabel S < SampleLabel x) (Samples T)
      else Samples T)"
  by (simp add: trace_push_def upper_bound_take upper_bound_drop)

lemma Enabled_trace_push [simp]: "Enabled (trace_push T S) = Enabled T"
  by (simp add: trace_push_def Let_def)

lemma insert_sample_sorted:
  "sorted (map SampleLabel xs) \<Longrightarrow>
   sorted (map SampleLabel (takeWhile (\<lambda>x. \<not> SampleLabel S < SampleLabel x) xs @ S #
                            dropWhile (\<lambda>x. \<not> SampleLabel S < SampleLabel x) xs))"
proof (induction xs)
  case Nil
  then show ?case by simp
next
  case (Cons x xs)
  show ?case
  proof (cases "SampleLabel S < SampleLabel x")
    case True
    with Cons.prems show ?thesis by (auto intro: less_imp_le order_trans)
  next
    case False
    with Cons show ?thesis
      by (auto simp: not_less dest: set_takeWhileD set_dropWhileD)
  qed
qed

lemma insert_sample_filter:
  "sorted (map SampleLabel xs) \<Longrightarrow>
   filter (\<lambda>x. SampleLabel x = L)
     (takeWhile (\<lambda>x. \<not> SampleLabel S < SampleLabel x) xs @ S #
      dropWhile (\<lambda>x. \<not> SampleLabel S < SampleLabel x) xs) =
   filter (\<lambda>x. SampleLabel x = L) xs @ (if SampleLabel S = L then [S] else [])"
proof (induction xs)
  case Nil
  then show ?case by simp
next
  case (Cons x xs)
  show ?case
  proof (cases "SampleLabel S < SampleLabel x")
    case True
    with Cons.prems have "SampleLabel S = L \<Longrightarrow> filter (\<lambda>x. SampleLabel x = L) (x # xs) = []"
      by (fastforce simp: filter_empty_conv)
    with True show ?thesis by auto
  next
    case False
    with Cons show ?thesis by auto
  qed
qed

lemma trace_push_sorted: "trace_sorted T \<Longrightarrow> trace_sorted (trace_push T S)"
  using insert_sample_sorted [of "Samples T" S] by (simp add: Samples_trace_push)

text \<open>Samples of one label stay in the order they were taken.\<close>

lemma trace_push_filter:
  assumes "trace_sorted T" "Enabled T"
  shows "filter (\<lambda>x. SampleLabel x = L) (Samples (trace_push T S)) =
         filter (\<lambda>x. SampleLabel x = L) (Samples T) @ (if SampleLabel S = L then [S] else [])"
  using insert_sample_filter [OF assms(1), of L S] assms(2) by (simp only: Samples_trace_push if_True)

lemma find_time_filter:
  "find_time xs L = (case filter (\<lambda>x. SampleLabel x = L) xs of [] \<Rightarrow> 0 | S # _ \<Rightarrow> Time S)"
  by (induction xs) auto

definition pushes :: "profile_trace \<Rightarrow> profile_sample list \<Rightarrow> profile_trace" where
  "pushes T Ss = foldl trace_push T Ss"

lemma pushes_simps [simp]:
  "pushes T [] = T" "pushes T (S # Ss) = pushes (trace_push T S) Ss"
  by (simp_all add: pushes_def)

lemma Enabled_pushes [simp]: "Enabled (pushes T Ss) = Enabled T"
  by (induction Ss arbitrary: T) simp_all

lemma pushes_sorted: "trace_sorted T \<Longrightarrow> trace_sorted (pushes T Ss)"
  by (induction Ss arbitrary: T) (simp_all add: trace_push_sorted)

lemma pushes_filter:
  "\<lbrakk>trace_sorted T; Enabled T\<rbrakk> \<Longrightarrow>
   filter (\<lambda>x. SampleLabel x = L) (Samples (pushes T Ss)) =
   filter (\<lambda>x. SampleLabel x = L) (Samples T) @ filter (\<lambda>x. SampleLabel x = L) Ss"
  by (induction Ss arbitrary: T) (simp_all add: trace_push_sorted trace_push_filter)

lemma pushes_find_time:
  "\<lbrakk>trace_sorted T; Enabled T; filter (\<lambda>x. SampleLabel x = L) (Samples T) = []\<rbrakk> \<Longrightarrow>
   find_time (Samples (pushes T Ss)) L = find_time Ss L"
  by (simp add: find_time_filter pushes_filter)

lemma Samples_disabled: "\<not> Enabled T \<Longrightarrow> Samples (pushes T Ss) = Samples T"
  by (induction Ss arbitrary: T) (simp_all add: Samples_trace_push)

end
