(* ===== verification/Event_Model.thy ===== *)
theory Event_Model
  imports Profile_Trace
begin

text \<open>
  Events (\<open>lib/Core/Event.cpp\<close>, \<open>include/opencrun/Core/Event.h\<close>) and the event entry points
  of the API (\<open>tools/libOpenCRun/Event.cpp\<close>).

  The status and the callbacks of an event only change under its monitor. A \<open>Mark\<close> method also adds a
  sample to the profile, just before it enters the monitor; nothing else depends on the profile, and
  each method is one atomic function on the event.
  The user's callbacks are code outside the program: the model records the calls made to them.
  A method that blocks on the monitor has an \<open>option\<close> result, \<open>None\<close> while it would still
  be blocked in the given state.
\<close>

section \<open>State\<close>

datatype event_type = InternalEvent | UserEvent

record callback =
  Callback :: ptr
  UserData :: ptr

text \<open>
  \<open>EvContext\<close> is what \<open>GetContext\<close> returns (the queue's context for an internal event).
  \<open>Callbacks s\<close> is the list the map of the code holds for status \<open>s\<close>; a missing key is the
  empty list. \<open>Notified\<close> is the log of the calls made to callbacks. \<open>CmdType\<close> and
  \<open>Profile\<close> are only used by internal events.
\<close>

record event =
  EvTy :: event_type
  EvContext :: ctx_id
  Status :: cl_int
  Callbacks :: "cl_int \<Rightarrow> callback list"
  Notified :: "(callback \<times> cl_int) list"
  CmdType :: nat
  Profile :: profile_trace

definition HasCompleted :: "event \<Rightarrow> bool" where
  "HasCompleted ev \<longleftrightarrow> Status ev = CL_COMPLETE \<or> Status ev < 0"

definition IsError :: "event \<Rightarrow> bool" where
  "IsError ev \<longleftrightarrow> Status ev < 0"

section \<open>Operations\<close>

text \<open>\<open>EventCallbackClojure::Notify\<close>: a null callback is skipped.\<close>

definition Notify :: "callback \<Rightarrow> event \<Rightarrow> cl_int \<Rightarrow> event" where
  "Notify cb ev st = (if Callback cb \<noteq> NULL then ev\<lparr>Notified := Notified ev @ [(cb, st)]\<rparr> else ev)"

definition Wait :: "event \<Rightarrow> cl_int option" where
  "Wait ev = (if Status ev \<noteq> CL_COMPLETE \<and> Status ev \<ge> 0 then None else Some (Status ev))"

definition AddEventCallback :: "event \<Rightarrow> cl_int \<Rightarrow> callback \<Rightarrow> event" where
  "AddEventCallback ev CallbackType cb =
     (if Status ev \<le> CallbackType then Notify cb ev CallbackType
      else ev\<lparr>Callbacks := (Callbacks ev)(CallbackType := Callbacks ev CallbackType @ [cb])\<rparr>)"

fun notify_all :: "callback list \<Rightarrow> event \<Rightarrow> cl_int \<Rightarrow> event" where
  "notify_all [] ev st = ev"
| "notify_all (cb # cbs) ev st = notify_all cbs (Notify cb ev st) st"

text \<open>
  A late signal (a status above the present one) leaves the status alone. The callbacks of the
  signalled status are called in both cases. The broadcast that wakes the waiters is the change
  of \<^const>\<open>Wait\<close> from \<open>None\<close> to \<open>Some\<close>.
\<close>

definition Signal :: "event \<Rightarrow> cl_int \<Rightarrow> event" where
  "Signal ev st =
     (let ev' = (if Status ev > st then ev\<lparr>Status := st\<rparr> else ev)
      in notify_all (Callbacks ev' st) ev' st)"

subsection \<open>Internal events\<close>

definition NewInternalEvent :: "ctx_id \<Rightarrow> bool \<Rightarrow> bool \<Rightarrow> nat \<Rightarrow> profile_sample \<Rightarrow> event" where
  "NewInternalEvent Ctx ProfilingEnabled HasEnv Ty Sample =
     \<lparr>EvTy = InternalEvent, EvContext = Ctx, Status = CL_QUEUED, Callbacks = (\<lambda>_. []),
      Notified = [], CmdType = Ty, Profile = trace_push (ProfileTrace ProfilingEnabled HasEnv) Sample\<rparr>"

definition GetProfiledTime :: "event \<Rightarrow> profile_label \<Rightarrow> 64 word" where
  "GetProfiledTime ev L = find_time (Samples (Profile ev)) L"

definition record_sample :: "event \<Rightarrow> profile_sample \<Rightarrow> event" where
  "record_sample ev Sample = ev\<lparr>Profile := trace_push (Profile ev) Sample\<rparr>"

definition MarkSubmitted :: "event \<Rightarrow> profile_sample \<Rightarrow> event" where
  "MarkSubmitted ev Sample = Signal (record_sample ev Sample) CL_SUBMITTED"

definition MarkRunning :: "event \<Rightarrow> profile_sample \<Rightarrow> event" where
  "MarkRunning ev Sample = Signal (record_sample ev Sample) CL_RUNNING"

definition MarkSubRunning :: "event \<Rightarrow> profile_sample \<Rightarrow> event" where
  "MarkSubRunning ev Sample = record_sample ev Sample"

definition MarkSubCompleted :: "event \<Rightarrow> profile_sample \<Rightarrow> event" where
  "MarkSubCompleted ev Sample = record_sample ev Sample"

text \<open>An illegal final status is reported and leaves the event as it was.\<close>

definition MarkCompleted :: "event \<Rightarrow> cl_int \<Rightarrow> profile_sample \<Rightarrow> event \<times> string list" where
  "MarkCompleted ev st Sample =
     (if st \<noteq> CL_COMPLETE \<and> st \<ge> 0 then (ev, [''invalid event status''])
      else (Signal (record_sample ev Sample) st, []))"

subsection \<open>User events\<close>

definition NewUserEvent :: "ctx_id \<Rightarrow> event" where
  "NewUserEvent Ctx =
     \<lparr>EvTy = UserEvent, EvContext = Ctx, Status = CL_SUBMITTED, Callbacks = (\<lambda>_. []),
      Notified = [], CmdType = 0, Profile = \<lparr>Samples = [], Enabled = False\<rparr>\<rparr>"

definition SetStatus :: "event \<Rightarrow> cl_int \<Rightarrow> event \<times> bool" where
  "SetStatus ev st = (if Status ev \<noteq> CL_SUBMITTED then (ev, False) else (Signal ev st, True))"

section \<open>Entry points of the API\<close>

text \<open>
  Handles are \<open>None\<close> for a null \<open>cl_event\<close>. \<open>num\<close> and the list are the two arguments that
  describe a C array, which has at least \<open>num\<close> elements.
\<close>

definition clSetUserEventStatus :: "event option \<Rightarrow> cl_int \<Rightarrow> event option \<times> cl_int" where
  "clSetUserEventStatus h execution_status =
     (case h of None \<Rightarrow> (None, CL_INVALID_EVENT)
      | Some ev \<Rightarrow>
        if execution_status \<noteq> CL_COMPLETE \<and> execution_status \<ge> 0 then (Some ev, CL_INVALID_VALUE)
        else if EvTy ev \<noteq> UserEvent then (Some ev, CL_INVALID_EVENT)
        else case SetStatus ev execution_status of
            (ev', ok) \<Rightarrow> (Some ev', if \<not> ok then CL_INVALID_OPERATION else CL_SUCCESS))"

definition clSetEventCallback ::
  "event option \<Rightarrow> cl_int \<Rightarrow> ptr \<Rightarrow> ptr \<Rightarrow> event option \<times> cl_int" where
  "clSetEventCallback h ty pfn_notify user_data =
     (case h of None \<Rightarrow> (None, CL_INVALID_EVENT)
      | Some ev \<Rightarrow>
        if pfn_notify = NULL \<or> (ty \<noteq> CL_COMPLETE \<and> ty \<noteq> CL_RUNNING \<and> ty \<noteq> CL_SUBMITTED)
        then (Some ev, CL_INVALID_VALUE)
        else (Some (AddEventCallback ev ty \<lparr>Callback = pfn_notify, UserData = user_data\<rparr>), CL_SUCCESS))"

text \<open>The validation loop of \<open>clWaitForEvents\<close> from index 1 on; \<open>None\<close> is no error.\<close>

fun wait_check :: "ctx_id \<Rightarrow> event option list \<Rightarrow> cl_int option" where
  "wait_check ctx [] = None"
| "wait_check ctx (None # hs) = Some CL_INVALID_EVENT"
| "wait_check ctx (Some ev # hs) =
     (if EvContext ev \<noteq> ctx then Some CL_INVALID_CONTEXT else wait_check ctx hs)"

text \<open>
  The waiting loop: \<open>ErrDetected || Cur.Wait() \<noteq> CL_SUCCESS\<close> is lazy, so no event after the
  first failed one is waited for. \<open>None\<close>: the loop blocks on an event of the list.
\<close>

fun wait_loop :: "bool \<Rightarrow> event list \<Rightarrow> bool option" where
  "wait_loop ErrDetected [] = Some ErrDetected"
| "wait_loop ErrDetected (ev # evs) =
     (if ErrDetected then wait_loop True evs
      else case Wait ev of None \<Rightarrow> None | Some st \<Rightarrow> wait_loop (st \<noteq> CL_SUCCESS) evs)"

definition clWaitForEvents :: "nat \<Rightarrow> event option list option \<Rightarrow> cl_int option" where
  "clWaitForEvents num event_list =
     (case event_list of
        None \<Rightarrow> Some CL_INVALID_VALUE
      | Some hs \<Rightarrow>
        if num = 0 then Some CL_INVALID_VALUE
        else case hs of
            [] \<Rightarrow> Some CL_INVALID_EVENT
          | None # _ \<Rightarrow> Some CL_INVALID_EVENT
          | Some Fst # rest \<Rightarrow>
            (case wait_check (EvContext Fst) (take (num - 1) rest) of
               Some e \<Rightarrow> Some e
             | None \<Rightarrow>
               map_option (\<lambda>err. if err then CL_EXEC_STATUS_ERROR_FOR_EVENTS_IN_WAIT_LIST else CL_SUCCESS)
                 (wait_loop False (map the (take num hs)))))"

section \<open>Lemmas on single operations\<close>

lemma Notify_frame [simp]:
  "Status (Notify cb ev st) = Status ev" "Callbacks (Notify cb ev st) = Callbacks ev"
  "EvTy (Notify cb ev st) = EvTy ev" "EvContext (Notify cb ev st) = EvContext ev"
  "Profile (Notify cb ev st) = Profile ev" "CmdType (Notify cb ev st) = CmdType ev"
  by (simp_all add: Notify_def)

lemma notify_all_frame [simp]:
  "Status (notify_all cbs ev st) = Status ev" "Callbacks (notify_all cbs ev st) = Callbacks ev"
  "EvTy (notify_all cbs ev st) = EvTy ev" "EvContext (notify_all cbs ev st) = EvContext ev"
  "Profile (notify_all cbs ev st) = Profile ev" "CmdType (notify_all cbs ev st) = CmdType ev"
  by (induction cbs arbitrary: ev) simp_all

text \<open>The calls one signal makes, in the order of registration.\<close>

definition calls_of :: "callback list \<Rightarrow> cl_int \<Rightarrow> (callback \<times> cl_int) list" where
  "calls_of cbs st = map (\<lambda>cb. (cb, st)) (filter (\<lambda>cb. Callback cb \<noteq> NULL) cbs)"

lemma Notified_notify_all:
  "Notified (notify_all cbs ev st) = Notified ev @ calls_of cbs st"
  by (induction cbs arbitrary: ev) (simp_all add: Notify_def calls_of_def)

lemma Signal_frame [simp]:
  "Callbacks (Signal ev st) = Callbacks ev" "EvTy (Signal ev st) = EvTy ev"
  "EvContext (Signal ev st) = EvContext ev" "Profile (Signal ev st) = Profile ev"
  "CmdType (Signal ev st) = CmdType ev"
  by (simp_all add: Signal_def Let_def)

lemma Status_Signal [simp]: "Status (Signal ev st) = min (Status ev) st"
  by (simp add: Signal_def Let_def min_def)

lemma Notified_Signal: "Notified (Signal ev st) = Notified ev @ calls_of (Callbacks ev st) st"
  by (simp add: Signal_def Let_def Notified_notify_all)

lemma record_sample_frame [simp]:
  "Status (record_sample ev S) = Status ev" "Callbacks (record_sample ev S) = Callbacks ev"
  "EvTy (record_sample ev S) = EvTy ev" "EvContext (record_sample ev S) = EvContext ev"
  "Notified (record_sample ev S) = Notified ev"
  "Profile (record_sample ev S) = trace_push (Profile ev) S"
  by (simp_all add: record_sample_def)

lemma Status_AddEventCallback [simp]: "Status (AddEventCallback ev t cb) = Status ev"
  by (simp add: AddEventCallback_def)

lemma Status_Mark [simp]:
  "Status (MarkSubmitted ev S) = min (Status ev) CL_SUBMITTED"
  "Status (MarkRunning ev S) = min (Status ev) CL_RUNNING"
  "Status (MarkSubRunning ev S) = Status ev"
  "Status (MarkSubCompleted ev S) = Status ev"
  by (simp_all add: MarkSubmitted_def MarkRunning_def MarkSubRunning_def MarkSubCompleted_def)

lemma Status_MarkCompleted:
  "Status (fst (MarkCompleted ev st S)) = (if st \<le> 0 then min (Status ev) st else Status ev)"
  by (auto simp: MarkCompleted_def)

lemma Status_SetStatus:
  "Status (fst (SetStatus ev st)) = (if Status ev = CL_SUBMITTED then min CL_SUBMITTED st else Status ev)"
  by (simp add: SetStatus_def)

lemma HasCompleted_iff: "HasCompleted ev \<longleftrightarrow> Status ev \<le> 0"
  by (auto simp: HasCompleted_def)

lemma Wait_iff: "Wait ev = Some st \<longleftrightarrow> HasCompleted ev \<and> st = Status ev"
  by (auto simp: Wait_def HasCompleted_def)

section \<open>Runs of operations\<close>

text \<open>Everything the rest of the runtime and the API can do to one event.\<close>

datatype event_op =
    DoAddCallback cl_int callback
  | DoMarkSubmitted profile_sample
  | DoMarkRunning profile_sample
  | DoMarkSubRunning profile_sample
  | DoMarkSubCompleted profile_sample
  | DoMarkCompleted cl_int profile_sample
  | DoSetStatus cl_int

fun event_step :: "event \<Rightarrow> event_op \<Rightarrow> event" where
  "event_step ev (DoAddCallback t cb) = AddEventCallback ev t cb"
| "event_step ev (DoMarkSubmitted S) = MarkSubmitted ev S"
| "event_step ev (DoMarkRunning S) = MarkRunning ev S"
| "event_step ev (DoMarkSubRunning S) = MarkSubRunning ev S"
| "event_step ev (DoMarkSubCompleted S) = MarkSubCompleted ev S"
| "event_step ev (DoMarkCompleted st S) = fst (MarkCompleted ev st S)"
| "event_step ev (DoSetStatus st) = fst (SetStatus ev st)"

text \<open>
  The contract the queue, the devices and the waiting threads rely on: whatever is done to an
  event, its status only moves towards completion.
\<close>

locale event_contract =
  fixes step :: "'e \<Rightarrow> 'o \<Rightarrow> 'e"
    and status :: "'e \<Rightarrow> int"
  assumes step_le: "status (step e x) \<le> status e"
begin

lemma run_le: "status (foldl step e xs) \<le> status e"
proof (induction xs arbitrary: e)
  case Nil
  then show ?case by simp
next
  case (Cons x xs)
  then show ?case using step_le [of e x] by (auto intro: order_trans)
qed

lemma run_below: "status e \<le> c \<Longrightarrow> status (foldl step e xs) \<le> c"
  using run_le order_trans by blast

end

interpretation ev: event_contract event_step Status
proof
  fix e x
  show "Status (event_step e x) \<le> Status e"
    by (cases x) (simp_all add: Status_MarkCompleted Status_SetStatus)
qed

lemma foldl_Signal_Status: "Status (foldl Signal ev sts) = foldl min (Status ev) sts"
  by (induction sts arbitrary: ev) simp_all

lemma foldl_min_Min: "foldl min (a :: int) xs = Min (insert a (set xs))"
proof (induction xs arbitrary: a)
  case Nil
  then show ?case by simp
next
  case (Cons x xs)
  then show ?case by (cases "xs = []") (simp_all add: min.assoc)
qed

lemma foldl_Signal_Notified:
  "Notified (foldl Signal ev sts) = Notified ev @ concat (map (\<lambda>st. calls_of (Callbacks ev st) st) sts)"
  by (induction sts arbitrary: ev) (simp_all add: Notified_Signal)

lemma wait_loop_True: "wait_loop True evs = Some True"
  by (induction evs) simp_all

lemma wait_loop_outcome:
  "wait_loop False evs =
     (case dropWhile (\<lambda>ev. Status ev = CL_COMPLETE) evs of
        [] \<Rightarrow> Some False
      | ev # _ \<Rightarrow> if Status ev > 0 then None else Some True)"
  by (induction evs) (auto simp: Wait_def wait_loop_True)

lemma wait_check_same: "\<forall>ev \<in> set evs. EvContext ev = ctx \<Longrightarrow> wait_check ctx (map Some evs) = None"
  by (induction evs) simp_all

section \<open>Properties\<close>

text \<open>
  C31: whatever sequence of registrations, marks and user signals an event goes through, its
  status never moves back: after any longer sequence it is the same or nearer to completion.
\<close>

theorem status_never_moves_back:
  "Status (foldl event_step ev (xs @ ys)) \<le> Status (foldl event_step ev xs)"
  by (simp only: foldl_append ev.run_le)

text \<open>
  A completed or failed event stays so: a waiter that would return now returns whatever
  happens to the event before it looks, and an error is never overwritten by a success.
\<close>

lemma completion_is_final:
  assumes "Wait ev = Some st"
  shows "\<exists>st'. Wait (foldl event_step ev xs) = Some st' \<and> st' \<le> st"
  using assms ev.run_below [of ev 0 xs] ev.run_le [of ev xs] by (simp add: Wait_iff HasCompleted_iff)

text \<open>
  An event that is sent any list of signals, in any order, ends at the least status it has
  seen, and each signal calls exactly the non-null callbacks registered for that status, in the
  order of registration, late signals included.
\<close>

lemma signals_summary:
  "Status (foldl Signal ev sts) = Min (insert (Status ev) (set sts)) \<and>
   Notified (foldl Signal ev sts) =
     Notified ev @ concat (map (\<lambda>st. calls_of (Callbacks ev st) st) sts)"
  by (simp add: foldl_Signal_Status foldl_min_Min foldl_Signal_Notified)

text \<open>
  When a command fails, the callbacks registered for \<open>CL_COMPLETE\<close> are not called,
  although the event has completed: only those of the exact error code would be.
\<close>

lemma failure_skips_completion_callbacks:
  assumes "st < 0" "st < Status ev" "Callbacks ev st = []"
  shows "HasCompleted (fst (MarkCompleted ev st S)) \<and> Notified (fst (MarkCompleted ev st S)) = Notified ev"
  using assms by (simp add: HasCompleted_def MarkCompleted_def Notified_Signal calls_of_def)

text \<open>
  C37: \<open>clWaitForEvents\<close> on events of one context. It succeeds when all of them are complete;
  otherwise the first that is not decides: still running, the call blocks; failed, it returns
  the error without waiting for the ones after it.
\<close>

theorem clWaitForEvents_outcome:
  assumes "evs \<noteq> []" "\<forall>ev \<in> set evs. EvContext ev = ctx"
  shows "clWaitForEvents (length evs) (Some (map Some evs)) =
     (case dropWhile (\<lambda>ev. Status ev = CL_COMPLETE) evs of
        [] \<Rightarrow> Some CL_SUCCESS
      | ev # _ \<Rightarrow> if Status ev > 0 then None else Some CL_EXEC_STATUS_ERROR_FOR_EVENTS_IN_WAIT_LIST)"
proof -
  obtain e es where evs: "evs = e # es" using assms(1) by (cases evs) auto
  have "wait_check (EvContext e) (map Some es) = None"
    using assms(2) evs by (intro wait_check_same) simp
  moreover have "map (the \<circ> Some) es = es" by (simp add: comp_def)
  ultimately have "clWaitForEvents (length evs) (Some (map Some evs)) =
    map_option (\<lambda>err. if err then CL_EXEC_STATUS_ERROR_FOR_EVENTS_IN_WAIT_LIST else CL_SUCCESS)
      (wait_loop False evs)"
    by (simp add: clWaitForEvents_def evs)
  then show ?thesis
    unfolding wait_loop_outcome
    by (cases "dropWhile (\<lambda>ev. Status ev = CL_COMPLETE) evs")
      (simp_all del: dropWhile_eq_Nil_conv)
qed

theorem clWaitForEvents_outcome_witness:
  "clWaitForEvents 2 (Some [Some ((NewUserEvent 0)\<lparr>Status := - 5\<rparr>), Some (NewUserEvent 0)]) = Some (- 14)"
  using clWaitForEvents_outcome [of "[(NewUserEvent 0)\<lparr>Status := - 5\<rparr>, NewUserEvent 0]" 0]
  by (simp add: NewUserEvent_def numeral_2_eq_2)

text \<open>
  C38: \<open>clSetUserEventStatus\<close> decides a user event once: the first legal call sets the status
  and every later call, with any status, is refused and leaves the event alone.
\<close>

theorem user_status_set_once:
  assumes "EvTy ev = UserEvent" "Status ev = CL_SUBMITTED" "st \<le> 0"
    and "clSetUserEventStatus (Some ev) st = (Some ev', e)"
  shows "e = CL_SUCCESS \<and> Status ev' = st \<and>
         (\<forall>st'. fst (clSetUserEventStatus (Some ev') st') = Some ev' \<and>
                snd (clSetUserEventStatus (Some ev') st') \<noteq> CL_SUCCESS)"
  using assms by (auto simp: clSetUserEventStatus_def SetStatus_def split: if_splits)

theorem user_status_set_once_witness:
  "\<exists>ev'. clSetUserEventStatus (Some (NewUserEvent 0)) 0 = (Some ev', CL_SUCCESS) \<and> Status ev' = 0"
  using user_status_set_once [of "NewUserEvent 0" 0 "Signal (NewUserEvent 0) 0" 0]
  by (simp add: clSetUserEventStatus_def SetStatus_def NewUserEvent_def)

text \<open>
  C35: the profile of an internal event is kept sorted by label, and \<open>GetProfiledTime\<close> answers
  with the time of the earliest sample taken for a label, wherever it stands in the run.
\<close>

theorem profiled_time_is_first_sample:
  assumes "Enabled T" "Samples T = []"
  shows "sorted (map SampleLabel (Samples (foldl trace_push T Ss))) \<and>
         find_time (Samples (foldl trace_push T Ss)) L = find_time Ss L"
  using pushes_sorted [of T Ss] pushes_find_time [of T L Ss] assms by (simp add: pushes_def)

theorem profiled_time_is_first_sample_witness:
  "find_time (Samples (foldl trace_push (ProfileTrace True False)
     [getSample CommandRunning 5, getSample CommandEnqueued 3, getSample CommandRunning 4])) CommandRunning = 5"
  using profiled_time_is_first_sample [of "ProfileTrace True False"
     "[getSample CommandRunning 5, getSample CommandEnqueued 3, getSample CommandRunning 4]" CommandRunning]
  by (simp add: ProfileTrace_def getSample_def)

end
