(* ===== verification/Memory_Object.thy ===== *)
theory Memory_Object
  imports Coherency
begin

text \<open>
  Memory objects: \<open>include/opencrun/Core/MemoryObject.h\<close> and the first part of
  \<open>lib/Core/MemoryObject.cpp\<close>: buffers, sub-buffers and images with their attributes, the host
  mappings of an object, and the way a synchronisation request finds the tracker of the main
  object.

  An object is the value of its fixed attributes, with an identity \<open>moId\<close> for the comparisons of
  pointers. What changes is kept apart: the mappings of all objects in a \<open>map_store\<close>, the
  trackers in a map from the identity of the main object to the state of its tracker. The pixel
  features of an image are computed from its format where the code caches them.
\<close>

section \<open>Attributes\<close>

datatype image_type = Image1D | Image1D_Array | Image1D_Buffer | Image2D | Image2D_Array | Image3D

datatype channel_order =
    Channel_R | Channel_A | Channel_RG | Channel_RA | Channel_RGB | Channel_RGBA | Channel_BGRA
  | Channel_ARGB | Channel_Intensity | Channel_Luminance | Channel_Rx | Channel_RGx | Channel_RGBx

datatype channel_data_type =
    DataType_SNorm_Int8 | DataType_SNorm_Int16 | DataType_UNorm_Int8 | DataType_UNorm_Int16
  | DataType_UNorm_Short_565 | DataType_UNorm_Short_555 | DataType_UNorm_Int_101010
  | DataType_Signed_Int8 | DataType_Signed_Int16 | DataType_Signed_Int32
  | DataType_Unsigned_Int8 | DataType_Unsigned_Int16 | DataType_Unsigned_Int32
  | DataType_Half_Float | DataType_Float

record img_descriptor =
  Width :: size_t
  Height :: size_t
  Depth :: size_t
  ArraySize :: size_t
  RowPitch :: size_t
  SlicePitch :: size_t

record image_attrs =
  ImgTy :: image_type
  ChOrder :: channel_order
  ChDataType :: channel_data_type
  Desc :: img_descriptor

record mo_common =
  moId :: mem_id
  moSize :: size_t
  moCtx :: ctx_id
  moHostPtr :: ptr
  moFlags :: mem_flags
  moParentOffset :: size_t

datatype mem_object =
    Buffer (commonOf: mo_common) (parentOf: "mem_object option")
  | Image (commonOf: mo_common) (parentOf: "mem_object option") (attrsOf: image_attrs)

text \<open>A \<open>cl_mem\<close> handle; \<open>None\<close> is the null handle.\<close>

type_synonym cl_mem = "mem_object option"

abbreviation getSize :: "mem_object \<Rightarrow> size_t" where "getSize mo \<equiv> moSize (commonOf mo)"
abbreviation getFlags :: "mem_object \<Rightarrow> mem_flags" where "getFlags mo \<equiv> moFlags (commonOf mo)"
abbreviation getHostPtr :: "mem_object \<Rightarrow> ptr" where "getHostPtr mo \<equiv> moHostPtr (commonOf mo)"
abbreviation getContext :: "mem_object \<Rightarrow> ctx_id" where "getContext mo \<equiv> moCtx (commonOf mo)"
abbreviation getOrigin :: "mem_object \<Rightarrow> size_t" where "getOrigin mo \<equiv> moParentOffset (commonOf mo)"

definition is_buffer :: "mem_object \<Rightarrow> bool" where
  "is_buffer mo = (case mo of Buffer _ _ \<Rightarrow> True | Image _ _ _ \<Rightarrow> False)"

definition isSubBuffer :: "mem_object \<Rightarrow> bool" where
  "isSubBuffer mo = (case mo of Buffer _ p \<Rightarrow> p \<noteq> None | Image _ _ _ \<Rightarrow> False)"

text \<open>\<open>dyn_cast\<close> of a handle that is not null.\<close>

definition cast_buffer :: "mem_object \<Rightarrow> mem_object option" where
  "cast_buffer mo = (if is_buffer mo then Some mo else None)"

definition cast_image :: "mem_object \<Rightarrow> mem_object option" where
  "cast_image mo = (if is_buffer mo then None else Some mo)"

definition same_object :: "mem_object \<Rightarrow> mem_object \<Rightarrow> bool" where
  "same_object a b \<longleftrightarrow> moId (commonOf a) = moId (commonOf b)"

definition same_parent :: "mem_object \<Rightarrow> mem_object \<Rightarrow> bool" where
  "same_parent a b \<longleftrightarrow>
     map_option (\<lambda>p. moId (commonOf p)) (parentOf a) = map_option (\<lambda>p. moId (commonOf p)) (parentOf b)"

definition computeHostPtr :: "mem_object \<Rightarrow> size_t \<Rightarrow> ptr" where
  "computeHostPtr P off = (if has_flag (getFlags P) CL_MEM_USE_HOST_PTR then getHostPtr P + off else NULL)"

text \<open>The two constructors of \<open>Buffer\<close> and the one of \<open>Image\<close>.\<close>

definition mk_Buffer :: "mem_id \<Rightarrow> ctx_id \<Rightarrow> size_t \<Rightarrow> ptr \<Rightarrow> mem_flags \<Rightarrow> mem_object" where
  "mk_Buffer i Ctx Size HostPtr Flags =
     Buffer \<lparr>moId = i, moSize = Size, moCtx = Ctx, moHostPtr = HostPtr, moFlags = Flags,
             moParentOffset = 0\<rparr> None"

definition mk_SubBuffer :: "mem_id \<Rightarrow> ctx_id \<Rightarrow> mem_object \<Rightarrow> size_t \<Rightarrow> size_t \<Rightarrow> mem_flags \<Rightarrow> mem_object" where
  "mk_SubBuffer i Ctx Parent Origin Size Flags =
     Buffer \<lparr>moId = i, moSize = Size, moCtx = Ctx, moHostPtr = computeHostPtr Parent Origin,
             moFlags = Flags, moParentOffset = Origin\<rparr> (Some Parent)"

definition mk_Image ::
  "mem_id \<Rightarrow> ctx_id \<Rightarrow> size_t \<Rightarrow> ptr \<Rightarrow> mem_flags \<Rightarrow> image_attrs \<Rightarrow> mem_object option \<Rightarrow> mem_object" where
  "mk_Image i Ctx Size HostPtr Flags A Buf =
     Image \<lparr>moId = i, moSize = Size, moCtx = Ctx, moHostPtr = HostPtr, moFlags = Flags,
            moParentOffset = 0\<rparr> Buf A"

section \<open>Pixels\<close>

fun computeImageNumChannels :: "channel_order \<Rightarrow> nat" where
  "computeImageNumChannels Channel_R = 1"
| "computeImageNumChannels Channel_A = 1"
| "computeImageNumChannels Channel_Rx = 1"
| "computeImageNumChannels Channel_Intensity = 1"
| "computeImageNumChannels Channel_Luminance = 1"
| "computeImageNumChannels Channel_RG = 2"
| "computeImageNumChannels Channel_RA = 2"
| "computeImageNumChannels Channel_RGx = 2"
| "computeImageNumChannels Channel_RGB = 3"
| "computeImageNumChannels Channel_RGBx = 3"
| "computeImageNumChannels Channel_RGBA = 4"
| "computeImageNumChannels Channel_BGRA = 4"
| "computeImageNumChannels Channel_ARGB = 4"

fun computeImageChannelSizeInBytes :: "channel_data_type \<Rightarrow> nat" where
  "computeImageChannelSizeInBytes DataType_Signed_Int8 = 1"
| "computeImageChannelSizeInBytes DataType_Unsigned_Int8 = 1"
| "computeImageChannelSizeInBytes DataType_SNorm_Int8 = 1"
| "computeImageChannelSizeInBytes DataType_UNorm_Int8 = 1"
| "computeImageChannelSizeInBytes DataType_Signed_Int16 = 2"
| "computeImageChannelSizeInBytes DataType_Unsigned_Int16 = 2"
| "computeImageChannelSizeInBytes DataType_SNorm_Int16 = 2"
| "computeImageChannelSizeInBytes DataType_UNorm_Int16 = 2"
| "computeImageChannelSizeInBytes DataType_UNorm_Short_565 = 2"
| "computeImageChannelSizeInBytes DataType_UNorm_Short_555 = 2"
| "computeImageChannelSizeInBytes DataType_Half_Float = 2"
| "computeImageChannelSizeInBytes DataType_Signed_Int32 = 4"
| "computeImageChannelSizeInBytes DataType_Unsigned_Int32 = 4"
| "computeImageChannelSizeInBytes DataType_UNorm_Int_101010 = 4"
| "computeImageChannelSizeInBytes DataType_Float = 4"

fun isPackedChannelType :: "channel_data_type \<Rightarrow> bool" where
  "isPackedChannelType DataType_UNorm_Short_565 = True"
| "isPackedChannelType DataType_UNorm_Short_555 = True"
| "isPackedChannelType DataType_UNorm_Int_101010 = True"
| "isPackedChannelType _ = False"

text \<open>The number of channels and the size of an element in bytes.\<close>

definition computePixelFeatures :: "image_attrs \<Rightarrow> nat \<times> nat" where
  "computePixelFeatures A =
     (let NumChannels = computeImageNumChannels (ChOrder A);
          ElementSize = computeImageChannelSizeInBytes (ChDataType A)
      in (NumChannels, if \<not> isPackedChannelType (ChDataType A) then ElementSize * NumChannels else ElementSize))"

definition getElementSize :: "mem_object \<Rightarrow> size_t" where
  "getElementSize mo = of_nat (snd (computePixelFeatures (attrsOf mo)))"

lemma element_size_bounds:
  "0 < snd (computePixelFeatures A) \<and> snd (computePixelFeatures A) \<le> 16"
  by (cases "ChOrder A"; cases "ChDataType A") (simp_all add: computePixelFeatures_def Let_def)

section \<open>Mappings\<close>

record map_info =
  MapOffset :: triple
  MapSize :: triple
  MapFlagsOf :: mem_flags

type_synonym map_store = "mem_id \<Rightarrow> (ptr \<times> map_info) list"

definition checkIntersection :: "size_t \<Rightarrow> size_t \<Rightarrow> size_t \<Rightarrow> size_t \<Rightarrow> bool" where
  "checkIntersection X1 L1 X2 L2 \<longleftrightarrow> X2 < X1 + L1 \<and> X1 < X2 + L2"

definition isOverlappedWith :: "map_info \<Rightarrow> map_info \<Rightarrow> bool" where
  "isOverlappedWith A B \<longleftrightarrow>
     checkIntersection (ix0 (MapOffset A)) (ix0 (MapSize A)) (ix0 (MapOffset B)) (ix0 (MapSize B)) \<and>
     checkIntersection (ix1 (MapOffset A)) (ix1 (MapSize A)) (ix1 (MapOffset B)) (ix1 (MapSize B)) \<and>
     checkIntersection (ix2 (MapOffset A)) (ix2 (MapSize A)) (ix2 (MapOffset B)) (ix2 (MapSize B))"

definition is_write_map :: "map_info \<Rightarrow> bool" where
  "is_write_map I \<longleftrightarrow> has_flag (MapFlagsOf I) (CL_MAP_WRITE OR CL_MAP_WRITE_INVALIDATE_REGION)"

text \<open>The part of \<open>addMapping\<close> that runs under the lock of the main object.\<close>

definition insert_mapping ::
  "(ptr \<times> map_info) list \<Rightarrow> ptr \<Rightarrow> map_info \<Rightarrow> (ptr \<times> map_info) list \<times> bool" where
  "insert_mapping ms Ptr Info =
     (if is_write_map Info \<and> (Ptr \<in> fst ` set ms \<or> (\<exists>p \<in> set ms. isOverlappedWith (snd p) Info))
      then (ms, False) else (ms @ [(Ptr, Info)], True))"

fun addMapping :: "mem_object \<Rightarrow> ptr \<Rightarrow> map_info \<Rightarrow> map_store \<Rightarrow> map_store \<times> bool" where
  "addMapping (Buffer c (Some P)) Ptr Info S =
     (if Ptr = NULL \<or> MapFlagsOf Info = 0 then (S, False)
      else addMapping P Ptr
             (Info\<lparr>MapOffset := (MapOffset Info)\<lparr>ix0 := ix0 (MapOffset Info) + moParentOffset c\<rparr>\<rparr>) S)"
| "addMapping (Buffer c None) Ptr Info S =
     (if Ptr = NULL \<or> MapFlagsOf Info = 0 then (S, False)
      else case insert_mapping (S (moId c)) Ptr Info of (ms, ok) \<Rightarrow> (S(moId c := ms), ok))"
| "addMapping (Image c (Some P) A) Ptr Info S =
     (if Ptr = NULL \<or> MapFlagsOf Info = 0 then (S, False)
      else if ImgTy A = Image1D_Buffer then addMapping P Ptr Info S
      else case insert_mapping (S (moId c)) Ptr Info of (ms, ok) \<Rightarrow> (S(moId c := ms), ok))"
| "addMapping (Image c None A) Ptr Info S =
     (if Ptr = NULL \<or> MapFlagsOf Info = 0 then (S, False)
      else case insert_mapping (S (moId c)) Ptr Info of (ms, ok) \<Rightarrow> (S(moId c := ms), ok))"

text \<open>\<open>find\<close> and \<open>erase\<close> on the multimap: the first record with the key goes.\<close>

fun erase_first :: "ptr \<Rightarrow> (ptr \<times> map_info) list \<Rightarrow> (ptr \<times> map_info) list" where
  "erase_first Ptr [] = []"
| "erase_first Ptr (p # ps) = (if fst p = Ptr then ps else p # erase_first Ptr ps)"

definition remove_mapping_at :: "mem_id \<Rightarrow> ptr \<Rightarrow> map_store \<Rightarrow> map_store \<times> bool" where
  "remove_mapping_at i Ptr S =
     (if Ptr \<notin> fst ` set (S i) then (S, False) else (S(i := erase_first Ptr (S i)), True))"

fun removeMapping :: "mem_object \<Rightarrow> ptr \<Rightarrow> map_store \<Rightarrow> map_store \<times> bool" where
  "removeMapping (Buffer c (Some P)) Ptr S = removeMapping P Ptr S"
| "removeMapping (Buffer c None) Ptr S = remove_mapping_at (moId c) Ptr S"
| "removeMapping (Image c (Some P) A) Ptr S =
     (if ImgTy A = Image1D_Buffer then removeMapping P Ptr S else remove_mapping_at (moId c) Ptr S)"
| "removeMapping (Image c None A) Ptr S = remove_mapping_at (moId c) Ptr S"

definition isValidMapping :: "mem_object \<Rightarrow> ptr \<Rightarrow> map_store \<Rightarrow> bool" where
  "isValidMapping mo Ptr S \<longleftrightarrow> Ptr \<in> fst ` set (S (moId (commonOf mo)))"

definition getNumMappings :: "mem_object \<Rightarrow> map_store \<Rightarrow> nat" where
  "getNumMappings mo S = length (S (moId (commonOf mo)))"

text \<open>The address \<open>MemoryDescriptor::map\<close> of the device gives is the argument \<open>dev_map\<close>.\<close>

definition acquireMappingAddrFor :: "(mem_object \<Rightarrow> ptr) \<Rightarrow> mem_object \<Rightarrow> ptr" where
  "acquireMappingAddrFor dev_map mo =
     (if has_flag (getFlags mo) CL_MEM_USE_HOST_PTR then getHostPtr mo else dev_map mo)"

section \<open>Trackers\<close>

text \<open>The tracker of an object is the one of its main object.\<close>

fun getMCT :: "mem_object \<Rightarrow> mem_id" where
  "getMCT (Buffer c (Some P)) = getMCT P"
| "getMCT (Buffer c None) = moId c"
| "getMCT (Image c (Some P) A) = getMCT P"
| "getMCT (Image c None A) = moId c"

type_synonym 'm trackers = "mem_id \<Rightarrow> chunk list \<times> 'm"

definition openRegion :: "mem_object \<Rightarrow> size_t \<Rightarrow> size_t \<Rightarrow> 'm trackers \<Rightarrow> 'm trackers option" where
  "openRegion mo RegionOffset RegionSize T =
     (let off = (if isSubBuffer mo then RegionOffset + getOrigin mo else RegionOffset)
      in case addRegion (fst (T (getMCT mo))) (unat off) (unat RegionSize) of
           None \<Rightarrow> None
         | Some P \<Rightarrow> Some (T(getMCT mo := (P, snd (T (getMCT mo))))))"

definition synchronizeFor ::
  "(mem_id \<Rightarrow> 'm descs) \<Rightarrow> mem_object \<Rightarrow> nat \<Rightarrow> sync_mode \<Rightarrow> 'm trackers \<Rightarrow> 'm trackers option" where
  "synchronizeFor V mo D SM T =
     (let off = (if isSubBuffer mo then getOrigin mo else 0)
      in case updateRegion (V (getMCT mo)) (unat off) (unat (getSize mo)) SM D (T (getMCT mo)) of
           None \<Rightarrow> None
         | Some st \<Rightarrow> Some (T(getMCT mo := st)))"

definition synchronizeRegionFor ::
  "(mem_id \<Rightarrow> 'm descs) \<Rightarrow> mem_object \<Rightarrow> nat \<Rightarrow> sync_mode \<Rightarrow> size_t \<Rightarrow> size_t \<Rightarrow> 'm trackers \<Rightarrow> 'm trackers option" where
  "synchronizeRegionFor V mo D SM Offset Size T =
     (let off = (if isSubBuffer mo then Offset + getOrigin mo else Offset)
      in case updateRegion (V (getMCT mo)) (unat off) (unat Size) SM D (T (getMCT mo)) of
           None \<Rightarrow> None
         | Some st \<Rightarrow> Some (T(getMCT mo := st)))"

section \<open>Lemmas on mappings\<close>

text \<open>The object whose record a mapping goes to, and the offset it is shifted by.\<close>

fun map_root :: "mem_object \<Rightarrow> mem_object" where
  "map_root (Buffer c (Some P)) = map_root P"
| "map_root (Buffer c None) = Buffer c None"
| "map_root (Image c (Some P) A) = (if ImgTy A = Image1D_Buffer then map_root P else Image c (Some P) A)"
| "map_root (Image c None A) = Image c None A"

fun map_shift :: "mem_object \<Rightarrow> size_t" where
  "map_shift (Buffer c (Some P)) = moParentOffset c + map_shift P"
| "map_shift (Buffer c None) = 0"
| "map_shift (Image c (Some P) A) = (if ImgTy A = Image1D_Buffer then map_shift P else 0)"
| "map_shift (Image c None A) = 0"

definition shift_info :: "size_t \<Rightarrow> map_info \<Rightarrow> map_info" where
  "shift_info d Info = Info\<lparr>MapOffset := (MapOffset Info)\<lparr>ix0 := ix0 (MapOffset Info) + d\<rparr>\<rparr>"

abbreviation root_id :: "mem_object \<Rightarrow> mem_id" where
  "root_id mo \<equiv> moId (commonOf (map_root mo))"

lemma shift_info_simps [simp]:
  "shift_info 0 I = I"
  "shift_info a (Info\<lparr>MapOffset := (MapOffset Info)\<lparr>ix0 := ix0 (MapOffset Info) + b\<rparr>\<rparr>) =
   shift_info (b + a) Info"
  "MapFlagsOf (shift_info a I) = MapFlagsOf I" "is_write_map (shift_info a I) = is_write_map I"
  by (simp_all add: shift_info_def is_write_map_def algebra_simps)

lemma addMapping_root:
  "addMapping mo Ptr Info S =
     (if Ptr = NULL \<or> MapFlagsOf Info = 0 then (S, False)
      else case insert_mapping (S (root_id mo)) Ptr (shift_info (map_shift mo) Info) of
             (ms, ok) \<Rightarrow> (S(root_id mo := ms), ok))"
proof (induction mo Ptr Info S rule: addMapping.induct)
  case (1 c P Ptr Info S)
  then show ?case by (auto simp: fun_upd_def)
next
  case (3 c P A Ptr Info S)
  then show ?case by (auto simp: fun_upd_def)
qed (auto simp: fun_upd_def)

lemma removeMapping_root: "removeMapping mo Ptr S = remove_mapping_at (root_id mo) Ptr S"
  by (induction mo Ptr S rule: removeMapping.induct) simp_all

lemma checkIntersection_sym: "checkIntersection a b c d = checkIntersection c d a b"
  by (auto simp: checkIntersection_def)

text \<open>
  In the record of one object no mapping for writing meets a mapping older than itself, neither
  by its address nor by its box.
\<close>

definition no_conflict :: "ptr \<times> map_info \<Rightarrow> ptr \<times> map_info \<Rightarrow> bool" where
  "no_conflict a b \<longleftrightarrow> (is_write_map (snd b) \<longrightarrow> fst a \<noteq> fst b \<and> \<not> isOverlappedWith (snd a) (snd b))"

definition mappings_ok :: "map_store \<Rightarrow> bool" where
  "mappings_ok S \<longleftrightarrow> (\<forall>i. sorted_wrt no_conflict (S i))"

lemma insert_mapping_ok:
  "sorted_wrt no_conflict ms \<Longrightarrow> sorted_wrt no_conflict (fst (insert_mapping ms Ptr Info))"
  by (auto simp: insert_mapping_def sorted_wrt_append no_conflict_def image_iff)

lemma set_erase_first: "set (erase_first Ptr ms) \<subseteq> set ms"
  by (induction ms) auto

lemma erase_first_ok:
  "sorted_wrt no_conflict ms \<Longrightarrow> sorted_wrt no_conflict (erase_first Ptr ms)"
  by (induction ms) (auto dest: set_erase_first [THEN subsetD])

lemma erase_first_append:
  "Ptr \<notin> fst ` set ms \<Longrightarrow> erase_first Ptr (ms @ [(Ptr, I)]) = ms"
  by (induction ms) auto

datatype map_op = DoAddMapping mem_object ptr map_info | DoRemoveMapping mem_object ptr

fun map_step :: "map_store \<Rightarrow> map_op \<Rightarrow> map_store" where
  "map_step S (DoAddMapping mo Ptr Info) = fst (addMapping mo Ptr Info S)"
| "map_step S (DoRemoveMapping mo Ptr) = fst (removeMapping mo Ptr S)"

lemma map_step_ok: "mappings_ok S \<Longrightarrow> mappings_ok (map_step S x)"
proof (cases x)
  case (DoAddMapping mo Ptr Info)
  assume "mappings_ok S"
  then show ?thesis
    using insert_mapping_ok [of "S (root_id mo)" Ptr "shift_info (map_shift mo) Info"]
    by (auto simp: DoAddMapping mappings_ok_def addMapping_root split: prod.split)
next
  case (DoRemoveMapping mo Ptr)
  assume "mappings_ok S"
  then show ?thesis
    by (simp add: DoRemoveMapping mappings_ok_def removeMapping_root remove_mapping_at_def erase_first_ok)
qed

lemma map_run_ok: "mappings_ok S \<Longrightarrow> mappings_ok (foldl map_step S xs)"
  by (induction xs arbitrary: S) (simp_all add: map_step_ok)

section \<open>Properties\<close>

text \<open>
  C30: whatever mappings the API adds and removes, through main objects, sub-buffers or images of
  buffers, two mappings for writing of one main object never overlap and never share an address.
\<close>

theorem write_mappings_disjoint:
  assumes "i < j" "j < length (foldl map_step (\<lambda>_. []) xs m)"
    and "is_write_map (snd (foldl map_step (\<lambda>_. []) xs m ! j))"
  shows "fst (foldl map_step (\<lambda>_. []) xs m ! i) \<noteq> fst (foldl map_step (\<lambda>_. []) xs m ! j) \<and>
         \<not> isOverlappedWith (snd (foldl map_step (\<lambda>_. []) xs m ! i)) (snd (foldl map_step (\<lambda>_. []) xs m ! j))"
proof -
  have "mappings_ok (foldl map_step (\<lambda>_. []) xs)" by (rule map_run_ok) (simp add: mappings_ok_def)
  then have "no_conflict (foldl map_step (\<lambda>_. []) xs m ! i) (foldl map_step (\<lambda>_. []) xs m ! j)"
    using assms(1,2) by (simp add: mappings_ok_def sorted_wrt_nth_less)
  with assms(3) show ?thesis by (simp add: no_conflict_def)
qed

definition demo_buffer :: mem_object where
  "demo_buffer = mk_Buffer 1 0 64 NULL CL_MEM_READ_WRITE"

definition demo_map :: "size_t \<Rightarrow> size_t \<Rightarrow> map_info" where
  "demo_map off n = \<lparr>MapOffset = triple_of off 0 0, MapSize = triple_of n 1 1, MapFlagsOf = CL_MAP_WRITE\<rparr>"

theorem write_mappings_disjoint_witness:
  "\<not> isOverlappedWith (demo_map 0 8) (demo_map 8 8)"
  using write_mappings_disjoint [of 0 1 "[DoAddMapping demo_buffer 4096 (demo_map 0 8),
    DoAddMapping demo_buffer 8192 (demo_map 8 8)]" 1]
  by (simp add: demo_buffer_def mk_Buffer_def demo_map_def insert_mapping_def is_write_map_def has_flag_def
                isOverlappedWith_def checkIntersection_def)

text \<open>
  C36: unmapping undoes mapping: after a successful \<open>addMapping\<close> for writing, \<open>removeMapping\<close> of the
  same address succeeds, also through a sub-buffer, and restores the mappings of every object.
\<close>

theorem unmap_undoes_map:
  assumes "addMapping mo Ptr Info S = (S', True)" "is_write_map Info"
  shows "removeMapping mo Ptr S' = (S, True)"
proof -
  have ins: "Ptr \<notin> fst ` set (S (root_id mo))"
    and S': "S' = S(root_id mo := S (root_id mo) @ [(Ptr, shift_info (map_shift mo) Info)])"
    using assms by (auto simp: addMapping_root insert_mapping_def split: if_splits)
  then show ?thesis
    by (auto simp: removeMapping_root remove_mapping_at_def erase_first_append)
qed

theorem unmap_undoes_map_witness:
  "removeMapping demo_buffer 4096 (fst (addMapping demo_buffer 4096 (demo_map 0 8) (\<lambda>_. []))) = (\<lambda>_. [], True)"
proof -
  have "addMapping demo_buffer 4096 (demo_map 0 8) (\<lambda>_. []) =
        (fst (addMapping demo_buffer 4096 (demo_map 0 8) (\<lambda>_. [])), True)" "is_write_map (demo_map 0 8)"
    by (simp_all add: demo_buffer_def mk_Buffer_def demo_map_def insert_mapping_def is_write_map_def has_flag_def)
  then show ?thesis by (rule unmap_undoes_map)
qed

text \<open>
  Mappings of a sub-buffer are recorded in its parent, where \<open>isValidMapping\<close> of the sub-buffer
  does not look: a successful mapping of a sub-buffer with no record of its own is not a valid
  mapping of it.
\<close>

lemma sub_buffer_mapping_not_valid:
  assumes "isSubBuffer mo" "addMapping mo Ptr Info S = (S', True)"
    and "S (moId (commonOf mo)) = []" "root_id mo \<noteq> moId (commonOf mo)"
  shows "\<not> isValidMapping mo Ptr S' \<and> isValidMapping (map_root mo) Ptr S'"
  using assms by (auto simp: addMapping_root isValidMapping_def insert_mapping_def split: if_splits)

end
