(* ===== verification/Dimension_Info.thy ===== *)
theory Dimension_Info
  imports OCL_Prelude
begin

text \<open>
  The iteration space of a kernel: \<open>include/opencrun/Util/DimensionInfo.h\<close> and
  \<open>lib/Util/DimensionInfo.cpp\<close>.

  Sizes and indexes are natural numbers; where the code narrows to \<open>unsigned\<close> (32 bit) or
  computes in \<open>size_t\<close> (64 bit) the truncation is written out with \<open>u32\<close> and \<open>u64\<close>. The code
  divides by local sizes, which trap when they are zero: every theorem asks for positive ones
  (\<open>wf_dims\<close>), which the command builder of kernels establishes.
\<close>

definition u32 :: "nat \<Rightarrow> nat" where
  "u32 x = x mod 2 ^ 32"

definition u64 :: "nat \<Rightarrow> nat" where
  "u64 x = x mod 2 ^ 64"

lemma u32_id [simp]: "x < 2 ^ 32 \<Longrightarrow> u32 x = x"
  by (simp add: u32_def)

lemma u64_id [simp]: "x < 2 ^ 64 \<Longrightarrow> u64 x = x"
  by (simp add: u64_def)

lemma u32_le [simp]: "u32 x \<le> x"
  by (simp add: u32_def)

section \<open>The geometry\<close>

record dim =
  DimOffset :: nat
  GlobalSize :: nat
  LocalSize :: nat

type_synonym dim_info = "dim list"

text \<open>The constructor: the three arrays have one length.\<close>

definition DimensionInfo :: "nat list \<Rightarrow> nat list \<Rightarrow> nat list \<Rightarrow> dim_info" where
  "DimensionInfo GlobalWorkOffsets GlobalWorkSizes LocalWorkSizes =
     map (\<lambda>I. \<lparr>DimOffset = GlobalWorkOffsets ! I, GlobalSize = GlobalWorkSizes ! I,
               LocalSize = LocalWorkSizes ! I\<rparr>) [0..<length LocalWorkSizes]"

definition GetDimensions :: "dim_info \<Rightarrow> nat" where
  "GetDimensions D = length D"

definition GetGlobalOffset :: "dim_info \<Rightarrow> nat \<Rightarrow> nat" where
  "GetGlobalOffset D I = (if I \<ge> length D then 0 else u32 (DimOffset (D ! I)))"

text \<open>The products are accumulated in an \<open>unsigned\<close>.\<close>

definition GetGlobalWorkItems :: "dim_info \<Rightarrow> nat" where
  "GetGlobalWorkItems D = foldl (\<lambda>Size d. u32 (Size * GlobalSize d)) 1 D"

definition GetLocalWorkItems :: "dim_info \<Rightarrow> nat" where
  "GetLocalWorkItems D = foldl (\<lambda>Size d. u32 (Size * LocalSize d)) 1 D"

definition GetWorkGroupsCount :: "dim_info \<Rightarrow> nat" where
  "GetWorkGroupsCount D = GetGlobalWorkItems D div GetLocalWorkItems D"

definition GetGlobalWorkItemsAt :: "dim_info \<Rightarrow> nat \<Rightarrow> nat" where
  "GetGlobalWorkItemsAt D I = (if I \<ge> length D then 1 else u32 (GlobalSize (D ! I)))"

definition GetLocalWorkItemsAt :: "dim_info \<Rightarrow> nat \<Rightarrow> nat" where
  "GetLocalWorkItemsAt D I = (if I \<ge> length D then 1 else u32 (LocalSize (D ! I)))"

definition GetWorkGroupsCountAt :: "dim_info \<Rightarrow> nat \<Rightarrow> nat" where
  "GetWorkGroupsCountAt D I =
     (if I \<ge> length D then 1
      else let Count = u32 (GlobalSize (D ! I) div LocalSize (D ! I))
           in if GlobalSize (D ! I) mod LocalSize (D ! I) \<noteq> 0 then u32 (Count + 1) else Count)"

definition SetLocalWorkItems :: "dim_info \<Rightarrow> nat list \<Rightarrow> dim_info \<times> bool" where
  "SetLocalWorkItems D Sizes =
     (if length Sizes \<noteq> length D then (D, False)
      else if \<exists>I \<in> set [0..<length D]. GlobalSize (D ! I) mod Sizes ! I \<noteq> 0 then (D, False)
      else (map (\<lambda>I. (D ! I)\<lparr>LocalSize := Sizes ! I\<rparr>) [0..<length D], True))"

definition IsLocalWorkGroupSizeSpecified :: "dim_info \<Rightarrow> bool" where
  "IsLocalWorkGroupSizeSpecified D \<longleftrightarrow> GetLocalWorkItems D \<noteq> 0"

section \<open>The iterator\<close>

text \<open>\<open>Indexes.first\<close> are the local indexes, \<open>Indexes.second\<close> those of the work-groups.\<close>

record dim_iter =
  Locals :: "nat list"
  WorkGroups :: "nat list"

definition iter_begin :: "dim_info \<Rightarrow> dim_iter" where
  "iter_begin D = \<lparr>Locals = replicate (length D) 0, WorkGroups = replicate (length D) 0\<rparr>"

definition iter_end :: "dim_info \<Rightarrow> dim_iter" where
  "iter_end D = \<lparr>Locals = replicate (length D) 0,
                 WorkGroups = (replicate (length D) 0)[0 := GetWorkGroupsCountAt D 0]\<rparr>"

definition GetWorkGroupAt :: "dim_info \<Rightarrow> dim_iter \<Rightarrow> nat \<Rightarrow> nat" where
  "GetWorkGroupAt D it I = (if I \<ge> GetDimensions D then 0 else WorkGroups it ! I)"

definition GetGlobalId :: "dim_info \<Rightarrow> dim_iter \<Rightarrow> nat \<Rightarrow> nat" where
  "GetGlobalId D it I =
     (if I \<ge> GetDimensions D then 0
      else u64 (GetWorkGroupAt D it I * GetLocalWorkItemsAt D I + Locals it ! I))"

definition GetLocalId :: "dim_info \<Rightarrow> dim_iter \<Rightarrow> nat \<Rightarrow> nat" where
  "GetLocalId D it I = (if I \<ge> GetDimensions D then 0 else Locals it ! I)"

text \<open>The inner loop of \<open>GetWorkGroup\<close>: the number of work-groups of the dimensions below \<open>I\<close>.\<close>

definition wg_count_below :: "dim_info \<Rightarrow> nat \<Rightarrow> nat" where
  "wg_count_below D I = foldl (\<lambda>c K. u64 (c * GetWorkGroupsCountAt D K)) 1 [0..<I]"

definition GetWorkGroup :: "dim_info \<Rightarrow> dim_iter \<Rightarrow> nat" where
  "GetWorkGroup D it =
     foldl (\<lambda>wg I. u64 (wg + WorkGroups it ! I * wg_count_below D I)) (WorkGroups it ! 0)
       [1..<length (WorkGroups it)]"

text \<open>
  The body shared by the two loops of \<open>Advance\<close>: add the carry to index \<open>i\<close> of an index vector
  and carry the quotient on, until the vector ends or the carry is zero. \<open>size_at\<close> gives the
  modulus of a position.
\<close>

fun carry_loop :: "(nat \<Rightarrow> nat) \<Rightarrow> nat \<Rightarrow> nat list \<Rightarrow> nat \<Rightarrow> nat list \<times> nat" where
  "carry_loop size_at i [] Carry = ([], Carry)"
| "carry_loop size_at i (x # xs) Carry =
     (if Carry = 0 then (x # xs, Carry)
      else let NewId = u32 (x + Carry); DimSize = size_at i;
               (ys, c) = carry_loop size_at (Suc i) xs (NewId div DimSize)
           in (NewId mod DimSize # ys, c))"

definition Advance :: "dim_info \<Rightarrow> dim_iter \<Rightarrow> nat \<Rightarrow> dim_iter" where
  "Advance D it N =
     (let (ls, c1) = carry_loop (GetLocalWorkItemsAt D) 0 (Locals it) N;
          (wgs, c2) = carry_loop (GetWorkGroupsCountAt D) 0 (WorkGroups it) c1
      in if c2 \<noteq> 0
         then \<lparr>Locals = replicate (length ls) 0,
               WorkGroups = (replicate (length wgs) 0)[0 := GetWorkGroupsCountAt D 0]\<rparr>
         else \<lparr>Locals = ls, WorkGroups = wgs\<rparr>)"

section \<open>Mixed radix numbers\<close>

text \<open>
  The index vectors are numerals, least significant digit first, each digit with its own radix.
\<close>

fun radix_val :: "nat list \<Rightarrow> nat list \<Rightarrow> nat" where
  "radix_val (r # rs) (d # ds) = d + r * radix_val rs ds"
| "radix_val _ _ = 0"

abbreviation digits_ok :: "nat list \<Rightarrow> nat list \<Rightarrow> bool" where
  "digits_ok rs ds \<equiv> list_all2 (<) ds rs"

lemma radix_val_bound: "digits_ok rs ds \<Longrightarrow> radix_val rs ds < prod_list rs"
proof (induction ds rs rule: list_all2_induct)
  case Nil
  then show ?case by simp
next
  case (Cons d ds r rs)
  then have "d + r * radix_val rs ds < r * Suc (radix_val rs ds)" by simp
  also have "\<dots> \<le> r * prod_list rs" using Cons.IH by (intro mult_le_mono2) simp
  finally show ?case by simp
qed

lemma radix_val_inject:
  "\<lbrakk>digits_ok rs ds; digits_ok rs es; radix_val rs ds = radix_val rs es\<rbrakk> \<Longrightarrow> ds = es"
proof (induction rs arbitrary: ds es)
  case Nil
  then show ?case by simp
next
  case (Cons r rs)
  obtain d ds' e es' where [simp]: "ds = d # ds'" "es = e # es'"
    and lt: "d < r" "e < r" and ok: "digits_ok rs ds'" "digits_ok rs es'"
    using Cons.prems by (auto simp: list_all2_Cons2)
  have eq: "d + r * radix_val rs ds' = e + r * radix_val rs es'"
    using Cons.prems(3) by simp
  have "d = e" using arg_cong [OF eq, of "\<lambda>n. n mod r"] lt by simp
  moreover have "radix_val rs ds' = radix_val rs es'"
    using arg_cong [OF eq, of "\<lambda>n. n div r"] lt by simp
  ultimately show ?case using Cons.IH [OF ok] by simp
qed

lemma radix_val_zero [simp]: "radix_val rs (replicate n 0) = 0"
proof (induction n arbitrary: rs)
  case 0
  then show ?case by (cases rs) simp_all
next
  case (Suc n)
  then show ?case by (cases rs) simp_all
qed

text \<open>One pass of the carry loop adds the carry to the number; what does not fit is carried out.\<close>

lemma carry_loop_value:
  assumes "digits_ok (map size_at [i..<i + length xs]) xs"
    and "radix_val (map size_at [i..<i + length xs]) xs + c < 2 ^ 32"
    and "carry_loop size_at i xs c = (ys, c')"
  shows "digits_ok (map size_at [i..<i + length xs]) ys \<and>
         radix_val (map size_at [i..<i + length xs]) ys + prod_list (map size_at [i..<i + length xs]) * c' =
         radix_val (map size_at [i..<i + length xs]) xs + c"
  using assms
proof (induction xs arbitrary: i c ys c')
  case Nil
  then show ?case by simp
next
  case (Cons x xs)
  define rs where "rs = map size_at [Suc i..<Suc i + length xs]"
  have "[i..<i + length (x # xs)] = i # [Suc i..<Suc i + length xs]"
    by (simp add: upt_conv_Cons del: upt_Suc)
  then have split: "map size_at [i..<i + length (x # xs)] = size_at i # rs"
    by (simp only: rs_def list.map)
  have lt: "x < size_at i" and ok: "digits_ok rs xs"
    using Cons.prems(1) unfolding split by simp_all
  show ?case
  proof (cases "c = 0")
    case True
    with Cons.prems show ?thesis by auto
  next
    case False
    have small: "x + size_at i * radix_val rs xs + c < 2 ^ 32"
      using Cons.prems(2) unfolding split by simp
    then have u: "u32 (x + c) = x + c" by simp
    obtain zs c2 where rec: "carry_loop size_at (Suc i) xs ((x + c) div size_at i) = (zs, c2)"
      by fastforce
    have ys: "ys = (x + c) mod size_at i # zs" "c' = c2"
      using Cons.prems(3) False rec u by (simp_all add: Let_def)
    have "radix_val rs xs \<le> size_at i * radix_val rs xs" using lt by simp
    moreover have "(x + c) div size_at i \<le> x + c" by simp
    ultimately have "radix_val rs xs + (x + c) div size_at i < 2 ^ 32"
      using small by linarith
    note rest_small = this
    have IH: "digits_ok rs zs \<and>
      radix_val rs zs + prod_list rs * c2 = radix_val rs xs + (x + c) div size_at i"
      unfolding rs_def by (rule Cons.IH [OF ok [unfolded rs_def] rest_small [unfolded rs_def] rec])
    have "radix_val (size_at i # rs) ys + prod_list (size_at i # rs) * c' =
          (x + c) mod size_at i + size_at i * (radix_val rs zs + prod_list rs * c2)"
      by (simp add: ys distrib_left)
    also have "\<dots> = (x + c) mod size_at i + size_at i * ((x + c) div size_at i) + size_at i * radix_val rs xs"
      unfolding conjunct2 [OF IH] by (simp only: distrib_left add.commute add.left_commute)
    also have "\<dots> = radix_val (size_at i # rs) (x # xs) + c"
      unfolding mod_mult_div_eq radix_val.simps by simp
    finally show ?thesis
      unfolding split using lt IH by (simp add: ys)
  qed
qed

section \<open>Well-formed spaces\<close>

text \<open>
  Positive sizes, whole work-groups, and a number of work-items that fits \<open>unsigned\<close>: the
  kernel builder establishes the first two; the third is a limit of the code.
\<close>

definition wf_dims :: "dim_info \<Rightarrow> bool" where
  "wf_dims D \<longleftrightarrow> D \<noteq> [] \<and>
     (\<forall>d \<in> set D. 0 < LocalSize d \<and> 0 < GlobalSize d \<and> LocalSize d dvd GlobalSize d) \<and>
     prod_list (map GlobalSize D) < 2 ^ 32"

definition local_radix :: "dim_info \<Rightarrow> nat list" where
  "local_radix D = map LocalSize D"

definition group_radix :: "dim_info \<Rightarrow> nat list" where
  "group_radix D = map (\<lambda>d. GlobalSize d div LocalSize d) D"

definition total_items :: "dim_info \<Rightarrow> nat" where
  "total_items D = prod_list (map GlobalSize D)"

definition in_range :: "dim_info \<Rightarrow> dim_iter \<Rightarrow> bool" where
  "in_range D it \<longleftrightarrow> digits_ok (local_radix D) (Locals it) \<and> digits_ok (group_radix D) (WorkGroups it)"

text \<open>The position of an iterator in the order of the iteration.\<close>

definition rank :: "dim_info \<Rightarrow> dim_iter \<Rightarrow> nat" where
  "rank D it = radix_val (local_radix D) (Locals it) +
               prod_list (local_radix D) * radix_val (group_radix D) (WorkGroups it)"

lemma member_le_prod_list:
  fixes xs :: "nat list"
  assumes "x \<in> set xs" "\<forall>y \<in> set xs. 0 < y"
  shows "x \<le> prod_list xs"
  using assms
proof (induction xs)
  case (Cons y ys)
  have "0 < prod_list ys" using Cons.prems(2) by (induction ys) auto
  with Cons show ?case
    by (cases "x = y") (auto intro: order_trans)
qed simp

lemma wf_global_small:
  assumes "wf_dims D" "I < length D"
  shows "GlobalSize (D ! I) < 2 ^ 32"
proof -
  have "GlobalSize (D ! I) \<le> prod_list (map GlobalSize D)"
    using assms by (intro member_le_prod_list) (auto simp: wf_dims_def)
  with assms(1) show ?thesis by (simp add: wf_dims_def)
qed

lemma wf_local_small:
  assumes "wf_dims D" "I < length D"
  shows "LocalSize (D ! I) < 2 ^ 32"
proof -
  have "LocalSize (D ! I) dvd GlobalSize (D ! I)" "0 < GlobalSize (D ! I)"
    using assms by (auto simp: wf_dims_def)
  then have "LocalSize (D ! I) \<le> GlobalSize (D ! I)" by (rule dvd_imp_le)
  with wf_global_small [OF assms] show ?thesis by simp
qed

lemma local_items_at:
  "\<lbrakk>wf_dims D; I < length D\<rbrakk> \<Longrightarrow> GetLocalWorkItemsAt D I = LocalSize (D ! I)"
  using wf_local_small [of D I] by (simp add: GetLocalWorkItemsAt_def)

lemma group_count_at:
  assumes "wf_dims D" "I < length D"
  shows "GetWorkGroupsCountAt D I = GlobalSize (D ! I) div LocalSize (D ! I)"
proof -
  have "LocalSize (D ! I) dvd GlobalSize (D ! I)"
    using assms by (auto simp: wf_dims_def)
  moreover have "GlobalSize (D ! I) div LocalSize (D ! I) < 2 ^ 32"
    using wf_global_small [OF assms] div_le_dividend le_less_trans by blast
  ultimately show ?thesis
    using assms by (simp add: GetWorkGroupsCountAt_def Let_def mod_eq_0_iff_dvd)
qed

lemma local_radix_conv:
  "wf_dims D \<Longrightarrow> map (GetLocalWorkItemsAt D) [0..<length D] = local_radix D"
  by (rule nth_equalityI) (simp_all add: local_radix_def local_items_at)

lemma group_radix_conv:
  "wf_dims D \<Longrightarrow> map (GetWorkGroupsCountAt D) [0..<length D] = group_radix D"
  by (rule nth_equalityI) (simp_all add: group_radix_def group_count_at)

lemma prod_list_map_mult:
  fixes f g :: "'a \<Rightarrow> nat"
  shows "prod_list (map f xs) * prod_list (map g xs) = prod_list (map (\<lambda>x. f x * g x) xs)"
  by (induction xs) (simp_all add: algebra_simps)

lemma radix_prod: "wf_dims D \<Longrightarrow> prod_list (local_radix D) * prod_list (group_radix D) = total_items D"
  unfolding local_radix_def group_radix_def total_items_def prod_list_map_mult
  by (rule arg_cong [where f = prod_list]) (simp add: wf_dims_def)

lemma foldl_u32_prod:
  "foldl (\<lambda>s d. u32 (s * f d)) (u32 a) xs = u32 (a * prod_list (map f xs))"
proof (induction xs arbitrary: a)
  case Nil
  then show ?case by simp
next
  case (Cons x xs)
  have "u32 (u32 a * f x) = u32 (a * f x)" by (simp add: u32_def mod_mult_left_eq)
  then show ?case using Cons.IH [of "a * f x"] by (simp add: mult.assoc)
qed

lemma GetGlobalWorkItems_prod: "GetGlobalWorkItems D = u32 (prod_list (map GlobalSize D))"
  using foldl_u32_prod [of GlobalSize 1 D] by (simp add: GetGlobalWorkItems_def)

lemma GetLocalWorkItems_prod: "GetLocalWorkItems D = u32 (prod_list (map LocalSize D))"
  using foldl_u32_prod [of LocalSize 1 D] by (simp add: GetLocalWorkItems_def)

section \<open>One step of the iterator\<close>

lemma in_range_lengths:
  "in_range D it \<Longrightarrow> length (Locals it) = length D \<and> length (WorkGroups it) = length D"
  by (auto simp: in_range_def local_radix_def group_radix_def dest: list_all2_lengthD)

lemma rank_bound: "\<lbrakk>wf_dims D; in_range D it\<rbrakk> \<Longrightarrow> rank D it < total_items D"
proof -
  assume wf: "wf_dims D" and ok: "in_range D it"
  have l: "radix_val (local_radix D) (Locals it) < prod_list (local_radix D)"
    and g: "Suc (radix_val (group_radix D) (WorkGroups it)) \<le> prod_list (group_radix D)"
    using ok by (auto simp: in_range_def Suc_le_eq intro: radix_val_bound)
  have "rank D it < prod_list (local_radix D) * Suc (radix_val (group_radix D) (WorkGroups it))"
    using l by (simp add: rank_def)
  also have "\<dots> \<le> prod_list (local_radix D) * prod_list (group_radix D)"
    using g by (rule mult_le_mono2)
  finally show "rank D it < total_items D" by (simp add: radix_prod wf)
qed

lemma rank_inject:
  assumes "wf_dims D" "in_range D a" "in_range D b" "rank D a = rank D b"
  shows "a = b"
proof -
  define P where "P = prod_list (local_radix D)"
  have la: "radix_val (local_radix D) (Locals a) < P" and lb: "radix_val (local_radix D) (Locals b) < P"
    using assms by (simp_all add: P_def in_range_def radix_val_bound)
  have eq: "radix_val (local_radix D) (Locals a) + P * radix_val (group_radix D) (WorkGroups a) =
            radix_val (local_radix D) (Locals b) + P * radix_val (group_radix D) (WorkGroups b)"
    using assms(4) by (simp add: rank_def P_def)
  have "radix_val (local_radix D) (Locals a) = radix_val (local_radix D) (Locals b)"
    using arg_cong [OF eq, of "\<lambda>n. n mod P"] la lb by simp
  moreover have "radix_val (group_radix D) (WorkGroups a) = radix_val (group_radix D) (WorkGroups b)"
    using arg_cong [OF eq, of "\<lambda>n. n div P"] la lb by simp
  ultimately have "Locals a = Locals b" "WorkGroups a = WorkGroups b"
    using assms(2,3) by (auto simp: in_range_def intro: radix_val_inject)
  then show "a = b" by simp
qed

lemma in_range_begin: "wf_dims D \<Longrightarrow> in_range D (iter_begin D)"
  by (auto simp: in_range_def iter_begin_def local_radix_def group_radix_def list_all2_conv_all_nth
                 wf_dims_def nth_mem div_greater_zero_iff dvd_imp_le)

lemma rank_begin [simp]: "rank D (iter_begin D) = 0"
  by (simp add: rank_def iter_begin_def)

text \<open>Advancing adds to the rank; past the last work-item it gives the end of the iteration.\<close>

lemma Advance_cases:
  assumes wf: "wf_dims D" and ok: "in_range D it" and small: "rank D it + N < 2 ^ 32"
  shows "if rank D it + N < total_items D
         then in_range D (Advance D it N) \<and> rank D (Advance D it N) = rank D it + N
         else Advance D it N = iter_end D"
proof -
  have len: "length (Locals it) = length D" "length (WorkGroups it) = length D"
    using in_range_lengths [OF ok] by simp_all
  obtain ls c1 where l: "carry_loop (GetLocalWorkItemsAt D) 0 (Locals it) N = (ls, c1)"
    by fastforce
  obtain wgs c2 where g: "carry_loop (GetWorkGroupsCountAt D) 0 (WorkGroups it) c1 = (wgs, c2)"
    by fastforce
  define P where "P = prod_list (local_radix D)"
  define G where "G = prod_list (group_radix D)"
  define a where "a = radix_val (local_radix D) (Locals it)"
  define b where "b = radix_val (group_radix D) (WorkGroups it)"
  have rank: "rank D it = a + P * b" by (simp add: rank_def P_def a_def b_def)
  have Ppos: "0 < P"
    using wf unfolding P_def local_radix_def by (fastforce simp: wf_dims_def prod_list_zero_iff intro!: Nat.gr0I)
  have a: "a + N < 2 ^ 32" using small rank by simp
  have L: "digits_ok (local_radix D) ls" "radix_val (local_radix D) ls + P * c1 = a + N"
    using carry_loop_value [where size_at = "GetLocalWorkItemsAt D" and i = 0 and xs = "Locals it" and c = N] ok len a l
    by (simp_all add: local_radix_conv [OF wf] in_range_def a_def P_def)
  have ab: "radix_val (local_radix D) ls + P * (b + c1) = rank D it + N"
    using L(2) rank by (simp add: algebra_simps)
  have "b + c1 \<le> P * (b + c1)" using Ppos by simp
  with ab small have "b + c1 < 2 ^ 32" by linarith
  then have W: "digits_ok (group_radix D) wgs" "radix_val (group_radix D) wgs + G * c2 = b + c1"
    using carry_loop_value [where size_at = "GetWorkGroupsCountAt D" and i = 0 and xs = "WorkGroups it" and c = c1] ok len g
    by (simp_all add: group_radix_conv [OF wf] in_range_def b_def G_def)
  have PG: "P * G = total_items D" unfolding P_def G_def by (rule radix_prod [OF wf])
  have sum: "radix_val (local_radix D) ls + P * radix_val (group_radix D) wgs + total_items D * c2
             = rank D it + N"
    using ab W(2) PG [symmetric] by (simp add: algebra_simps flip: W(2))
  show ?thesis
  proof (cases "c2 = 0")
    case True
    then have A: "Advance D it N = \<lparr>Locals = ls, WorkGroups = wgs\<rparr>"
      by (simp add: Advance_def l g)
    have R: "in_range D (Advance D it N)" using L(1) W(1) by (simp add: A in_range_def)
    moreover have "rank D (Advance D it N) = rank D it + N"
      using sum True by (simp add: A rank_def P_def)
    ultimately show ?thesis using rank_bound [OF wf R] by simp
  next
    case False
    then have "total_items D \<le> total_items D * c2" by (cases c2) simp_all
    then have "\<not> rank D it + N < total_items D" using sum by linarith
    moreover have "length ls = length D" "length wgs = length D"
      using L(1) W(1) by (auto simp: local_radix_def group_radix_def dest: list_all2_lengthD)
    ultimately show ?thesis using False by (simp add: Advance_def l g iter_end_def)
  qed
qed

section \<open>Whole iterations\<close>

text \<open>The iterator after \<open>k\<close> increments of the given step.\<close>

definition iterate :: "dim_info \<Rightarrow> nat \<Rightarrow> nat \<Rightarrow> dim_iter" where
  "iterate D N k = ((\<lambda>it. Advance D it N) ^^ k) (iter_begin D)"

lemma iterate_simps [simp]:
  "iterate D N 0 = iter_begin D" "iterate D N (Suc k) = Advance D (iterate D N k) N"
  by (simp_all add: iterate_def)

lemma total_small: "wf_dims D \<Longrightarrow> total_items D < 2 ^ 32"
  by (simp add: wf_dims_def total_items_def)

lemma iterate_rank:
  assumes wf: "wf_dims D"
  shows "k * N < total_items D \<Longrightarrow> in_range D (iterate D N k) \<and> rank D (iterate D N k) = k * N"
proof (induction k)
  case 0
  then show ?case by (simp add: in_range_begin wf)
next
  case (Suc k)
  then have IH: "in_range D (iterate D N k)" "rank D (iterate D N k) = k * N" by simp_all
  moreover have "rank D (iterate D N k) + N < 2 ^ 32"
    using IH(2) Suc.prems total_small [OF wf] by simp
  ultimately show ?case
    using Advance_cases [OF wf IH(1), of N] Suc.prems by (simp add: add.commute)
qed

lemma iterate_end:
  assumes wf: "wf_dims D" and "0 < k" "(k - 1) * N < total_items D" "total_items D \<le> k * N" "k * N < 2 ^ 32"
  shows "iterate D N k = iter_end D"
proof -
  obtain j where k: "k = Suc j" using assms(2) by (cases k) auto
  have IH: "in_range D (iterate D N j)" "rank D (iterate D N j) = j * N"
    using iterate_rank [OF wf] assms(3) k by simp_all
  show ?thesis
    using Advance_cases [OF wf IH(1), of N] assms(4,5) by (simp add: k IH(2) add.commute)
qed

text \<open>The iterators in range are the points of the iteration, each exactly once.\<close>

lemma iterate_bij:
  assumes wf: "wf_dims D"
  shows "bij_betw (iterate D 1) {..<total_items D} {it. in_range D it}"
proof (rule bij_betwI')
  fix a b assume "a \<in> {..<total_items D}" "b \<in> {..<total_items D}"
  then have "rank D (iterate D 1 a) = a" "rank D (iterate D 1 b) = b"
    using iterate_rank [OF wf, of _ 1] by simp_all
  then show "(iterate D 1 a = iterate D 1 b) = (a = b)" by metis
next
  fix a assume "a \<in> {..<total_items D}"
  then show "iterate D 1 a \<in> {it. in_range D it}" using iterate_rank [OF wf, of a 1] by simp
next
  fix it assume "it \<in> {it. in_range D it}"
  then have it: "in_range D it" by simp
  then have lt: "rank D it < total_items D" by (rule rank_bound [OF wf])
  then have "in_range D (iterate D 1 (rank D it)) \<and> rank D (iterate D 1 (rank D it)) = rank D it"
    using iterate_rank [OF wf, of "rank D it" 1] by simp
  then have "it = iterate D 1 (rank D it)" using rank_inject [OF wf it] by simp
  with lt show "\<exists>x\<in>{..<total_items D}. it = iterate D 1 x" by auto
qed

subsection \<open>Global identifiers\<close>

definition global_ids :: "dim_info \<Rightarrow> dim_iter \<Rightarrow> nat list" where
  "global_ids D it = map (GetGlobalId D it) [0..<length D]"

definition box :: "dim_info \<Rightarrow> nat list set" where
  "box D = {xs. list_all2 (<) xs (map GlobalSize D)}"

lemma in_range_nth:
  "in_range D it \<longleftrightarrow> length (Locals it) = length D \<and> length (WorkGroups it) = length D \<and>
     (\<forall>I < length D. Locals it ! I < LocalSize (D ! I) \<and>
                      WorkGroups it ! I < GlobalSize (D ! I) div LocalSize (D ! I))"
  by (auto simp: in_range_def local_radix_def group_radix_def list_all2_conv_all_nth)

lemma wf_nth:
  assumes "wf_dims D" "I < length D"
  shows "0 < LocalSize (D ! I)" "0 < GlobalSize (D ! I)" "LocalSize (D ! I) dvd GlobalSize (D ! I)"
  using assms by (auto simp: wf_dims_def)

lemma digit_bound: "(w :: nat) < g div l \<Longrightarrow> x < l \<Longrightarrow> w * l + x < g"
proof -
  assume w: "w < g div l" and x: "x < l"
  then have "w * l + x < Suc w * l" by simp
  also have "\<dots> \<le> (g div l) * l" using w by (intro mult_le_mono1) simp
  also have "\<dots> \<le> g" by simp
  finally show ?thesis .
qed

lemma global_id_nth:
  assumes wf: "wf_dims D" and ok: "in_range D it" and I: "I < length D"
  shows "GetGlobalId D it I = WorkGroups it ! I * LocalSize (D ! I) + Locals it ! I"
    and "GetGlobalId D it I < GlobalSize (D ! I)"
proof -
  have lt: "WorkGroups it ! I * LocalSize (D ! I) + Locals it ! I < GlobalSize (D ! I)"
    using ok I by (intro digit_bound) (simp_all add: in_range_nth)
  moreover have "GlobalSize (D ! I) < 2 ^ 32" using wf_global_small [OF wf I] .
  ultimately show "GetGlobalId D it I = WorkGroups it ! I * LocalSize (D ! I) + Locals it ! I"
    using I by (simp add: GetGlobalId_def GetDimensions_def GetWorkGroupAt_def local_items_at [OF wf I])
  with lt show "GetGlobalId D it I < GlobalSize (D ! I)" by simp
qed

lemma global_ids_bij:
  assumes wf: "wf_dims D"
  shows "bij_betw (global_ids D) {it. in_range D it} (box D)"
proof (rule bij_betwI')
  fix a b assume "a \<in> {it. in_range D it}" "b \<in> {it. in_range D it}"
  then have a: "in_range D a" and b: "in_range D b" by simp_all
  have "a = b" if eq: "global_ids D a = global_ids D b"
  proof -
    have "Locals a ! I = Locals b ! I \<and> WorkGroups a ! I = WorkGroups b ! I" if I: "I < length D" for I
    proof -
      have l: "Locals a ! I < LocalSize (D ! I)" "Locals b ! I < LocalSize (D ! I)"
        using a b I by (simp_all add: in_range_nth)
      have e: "WorkGroups a ! I * LocalSize (D ! I) + Locals a ! I =
               WorkGroups b ! I * LocalSize (D ! I) + Locals b ! I"
        using arg_cong [OF eq, of "\<lambda>xs. xs ! I"] I
        by (simp add: global_ids_def global_id_nth(1) [OF wf a] global_id_nth(1) [OF wf b])
      show ?thesis
        using arg_cong [OF e, of "\<lambda>n. n mod LocalSize (D ! I)"]
          arg_cong [OF e, of "\<lambda>n. n div LocalSize (D ! I)"] l by simp
    qed
    then have "Locals a = Locals b" "WorkGroups a = WorkGroups b"
      using a b by (simp_all add: list_eq_iff_nth_eq in_range_nth)
    then show "a = b" by simp
  qed
  then show "(global_ids D a = global_ids D b) = (a = b)" by blast
next
  fix a assume "a \<in> {it. in_range D it}"
  then show "global_ids D a \<in> box D"
    by (simp add: box_def global_ids_def list_all2_conv_all_nth global_id_nth(2) [OF wf])
next
  fix xs assume "xs \<in> box D"
  then have xs: "length xs = length D" "\<And>I. I < length D \<Longrightarrow> xs ! I < GlobalSize (D ! I)"
    by (auto simp: box_def list_all2_conv_all_nth)
  define it where "it = \<lparr>Locals = map (\<lambda>I. xs ! I mod LocalSize (D ! I)) [0..<length D],
                         WorkGroups = map (\<lambda>I. xs ! I div LocalSize (D ! I)) [0..<length D]\<rparr>"
  have it: "in_range D it"
    unfolding in_range_nth
    by (auto simp: it_def wf_nth [OF wf] xs(2) less_mult_imp_div_less)
  moreover have "global_ids D it = xs"
    by (rule nth_equalityI) (simp_all add: global_ids_def xs(1) global_id_nth(1) [OF wf it], simp add: it_def)
  ultimately show "\<exists>a\<in>{it. in_range D it}. xs = global_ids D a" by auto
qed

subsection \<open>Work-groups\<close>

lemma radix_val_snoc:
  "length rs = length ds \<Longrightarrow> radix_val (rs @ [r]) (ds @ [d]) = radix_val rs ds + prod_list rs * d"
  by (induction rs ds rule: list_induct2) (simp_all add: algebra_simps)

lemma digits_ok_take: "digits_ok rs ds \<Longrightarrow> digits_ok (take n rs) (take n ds)"
  by (rule list_all2_takeI)

lemma prod_list_dvd_take: "prod_list (take n xs) dvd prod_list (xs :: nat list)"
  by (metis append_take_drop_id dvd_triv_left prod_list.append)

lemma group_prod_pos: "wf_dims D \<Longrightarrow> 0 < prod_list (group_radix D)"
  and local_prod_pos: "wf_dims D \<Longrightarrow> 0 < prod_list (local_radix D)"
proof -
  assume wf: "wf_dims D"
  have "0 < total_items D"
    using wf by (fastforce simp: total_items_def wf_dims_def prod_list_zero_iff intro!: Nat.gr0I)
  then show "0 < prod_list (group_radix D)" "0 < prod_list (local_radix D)"
    unfolding radix_prod [OF wf, symmetric] by simp_all
qed

lemma group_prod_small: "wf_dims D \<Longrightarrow> prod_list (group_radix D) < 2 ^ 32"
  and local_prod_small: "wf_dims D \<Longrightarrow> prod_list (local_radix D) < 2 ^ 32"
proof -
  assume wf: "wf_dims D"
  have "prod_list (group_radix D) \<le> total_items D" "prod_list (local_radix D) \<le> total_items D"
    using group_prod_pos [OF wf] local_prod_pos [OF wf] unfolding radix_prod [OF wf, symmetric] by simp_all
  then show "prod_list (group_radix D) < 2 ^ 32" "prod_list (local_radix D) < 2 ^ 32"
    using total_small [OF wf] by linarith+
qed

lemma wg_count_below_prod:
  assumes wf: "wf_dims D"
  shows "n \<le> length D \<Longrightarrow> wg_count_below D n = prod_list (take n (group_radix D))"
proof (induction n)
  case 0
  then show ?case by (simp add: wg_count_below_def)
next
  case (Suc n)
  have len: "n < length (group_radix D)" using Suc.prems by (simp add: group_radix_def)
  have "prod_list (take (Suc n) (group_radix D)) \<le> prod_list (group_radix D)"
    by (rule dvd_imp_le [OF prod_list_dvd_take group_prod_pos [OF wf]])
  then have small: "prod_list (take n (group_radix D)) * (group_radix D ! n) < 2 ^ 32"
    using group_prod_small [OF wf] len by (simp add: take_Suc_conv_app_nth)
  have "wg_count_below D (Suc n) = u64 (wg_count_below D n * GetWorkGroupsCountAt D n)"
    by (simp add: wg_count_below_def)
  also have "\<dots> = u64 (prod_list (take n (group_radix D)) * (group_radix D ! n))"
    using Suc by (simp add: group_count_at [OF wf] group_radix_def)
  also have "\<dots> = prod_list (take n (group_radix D)) * (group_radix D ! n)"
    using small by simp
  finally show ?case using len by (simp add: take_Suc_conv_app_nth)
qed

lemma GetWorkGroup_value:
  assumes wf: "wf_dims D" and ok: "in_range D it"
  shows "GetWorkGroup D it = radix_val (group_radix D) (WorkGroups it)"
proof -
  define W where "W = WorkGroups it"
  define gr where "gr = group_radix D"
  have len: "length W = length D" "length gr = length D"
    using ok by (simp_all add: in_range_nth W_def gr_def group_radix_def)
  have dig: "digits_ok gr W" using ok by (simp add: in_range_def W_def gr_def)
  have small: "radix_val (take n gr) (take n W) < 2 ^ 32" for n
  proof -
    have "radix_val (take n gr) (take n W) < prod_list (take n gr)"
      by (rule radix_val_bound [OF digits_ok_take [OF dig]])
    also have "\<dots> \<le> prod_list gr"
      unfolding gr_def by (rule dvd_imp_le [OF prod_list_dvd_take group_prod_pos [OF wf]])
    finally show ?thesis using group_prod_small [OF wf] by (simp add: gr_def)
  qed
  have "foldl (\<lambda>wg I. u64 (wg + W ! I * wg_count_below D I)) (W ! 0) [1..<Suc n] =
        radix_val (take (Suc n) gr) (take (Suc n) W)" if "n < length D" for n
    using that
  proof (induction n)
    case 0
    then obtain w ws r rs where "W = w # ws" "gr = r # rs"
      using len by (metis length_0_conv list.exhaust not_less_zero)
    then show ?case by simp
  next
    case (Suc n)
    have step: "radix_val (take (Suc (Suc n)) gr) (take (Suc (Suc n)) W) =
                radix_val (take (Suc n) gr) (take (Suc n) W) + prod_list (take (Suc n) gr) * W ! Suc n"
      using Suc.prems len by (simp add: take_Suc_conv_app_nth [of "Suc n"] radix_val_snoc)
    have "foldl (\<lambda>wg I. u64 (wg + W ! I * wg_count_below D I)) (W ! 0) [1..<Suc (Suc n)] =
          u64 (radix_val (take (Suc n) gr) (take (Suc n) W) + W ! Suc n * prod_list (take (Suc n) gr))"
      using Suc by (simp add: wg_count_below_prod [OF wf] gr_def)
    also have "\<dots> = u64 (radix_val (take (Suc (Suc n)) gr) (take (Suc (Suc n)) W))"
      by (simp only: step mult.commute)
    also have "\<dots> = radix_val (take (Suc (Suc n)) gr) (take (Suc (Suc n)) W)"
      by (rule u64_id) (use small [of "Suc (Suc n)"] in simp)
    finally show ?case .
  qed
  note prefix = this
  obtain n where n: "length D = Suc n" using wf by (cases D) (simp_all add: wf_dims_def)
  have "foldl (\<lambda>wg I. u64 (wg + W ! I * wg_count_below D I)) (W ! 0) [1..<length D] =
        radix_val (take (length D) gr) (take (length D) W)"
    unfolding n by (rule prefix) (simp add: n)
  then show ?thesis
    using len by (simp add: GetWorkGroup_def W_def gr_def)
qed

lemma GetLocalWorkItems_wf: "wf_dims D \<Longrightarrow> GetLocalWorkItems D = prod_list (local_radix D)"
  using local_prod_small [of D] by (simp add: GetLocalWorkItems_prod local_radix_def)

lemma GetWorkGroupsCount_wf: "wf_dims D \<Longrightarrow> GetWorkGroupsCount D = prod_list (group_radix D)"
proof -
  assume wf: "wf_dims D"
  have "GetGlobalWorkItems D = total_items D"
    using total_small [OF wf] by (simp add: GetGlobalWorkItems_prod total_items_def)
  then show ?thesis
    using local_prod_pos [OF wf]
    by (simp add: GetWorkGroupsCount_def GetLocalWorkItems_wf [OF wf] flip: radix_prod [OF wf])
qed

lemma rank_group:
  assumes "wf_dims D" "in_range D it" "rank D it = k * prod_list (local_radix D)"
  shows "GetWorkGroup D it = k" "Locals it = replicate (length D) 0"
proof -
  define P where "P = prod_list (local_radix D)"
  have l: "radix_val (local_radix D) (Locals it) < P"
    using assms(2) by (simp add: in_range_def P_def radix_val_bound)
  have eq: "radix_val (local_radix D) (Locals it) + P * radix_val (group_radix D) (WorkGroups it) = P * k"
    using assms(3) by (simp add: rank_def P_def)
  show "GetWorkGroup D it = k"
    using arg_cong [OF eq, of "\<lambda>n. n div P"] l by (simp add: GetWorkGroup_value [OF assms(1,2)])
  have "radix_val (local_radix D) (Locals it) = 0"
    using arg_cong [OF eq, of "\<lambda>n. n mod P"] l by simp
  moreover have "digits_ok (local_radix D) (replicate (length D) 0)"
    using wf_nth(1) [OF assms(1)] by (auto simp: local_radix_def list_all2_conv_all_nth)
  ultimately show "Locals it = replicate (length D) 0"
    using assms(2) radix_val_inject [where rs = "local_radix D" and ds = "Locals it"] by (simp add: in_range_def)
qed

text \<open>
  Stepping by whole work-groups, the way a kernel is cut in blocks, meets the groups in order
  and reaches the end after the last one.
\<close>

lemma group_step:
  assumes wf: "wf_dims D" and k: "k < GetWorkGroupsCount D"
  shows "in_range D (iterate D (GetLocalWorkItems D) k)"
    and "rank D (iterate D (GetLocalWorkItems D) k) = k * prod_list (local_radix D)"
proof -
  have "k * prod_list (local_radix D) < total_items D"
    using k local_prod_pos [OF wf]
    by (simp add: GetWorkGroupsCount_wf [OF wf] mult.commute flip: radix_prod [OF wf])
  then show "in_range D (iterate D (GetLocalWorkItems D) k)"
    "rank D (iterate D (GetLocalWorkItems D) k) = k * prod_list (local_radix D)"
    using iterate_rank [OF wf] by (simp_all add: GetLocalWorkItems_wf [OF wf])
qed

lemma group_step_end:
  assumes wf: "wf_dims D"
  shows "iterate D (GetLocalWorkItems D) (GetWorkGroupsCount D) = iter_end D"
proof -
  have pos: "0 < prod_list (group_radix D)" "0 < prod_list (local_radix D)"
    by (rule group_prod_pos [OF wf], rule local_prod_pos [OF wf])
  then have "(prod_list (group_radix D) - 1) * prod_list (local_radix D) <
             prod_list (group_radix D) * prod_list (local_radix D)"
    by simp
  then show ?thesis
    using pos total_small [OF wf]
    by (intro iterate_end [OF wf])
      (simp_all add: GetWorkGroupsCount_wf [OF wf] GetLocalWorkItems_wf [OF wf] mult.commute
                flip: radix_prod [OF wf])
qed

lemma in_range_not_end:
  assumes wf: "wf_dims D" and r: "in_range D it"
  shows "it \<noteq> iter_end D"
proof
  assume eq: "it = iter_end D"
  have len: "0 < length D" using wf by (simp add: wf_dims_def)
  then have "WorkGroups (iter_end D) ! 0 < GlobalSize (D ! 0) div LocalSize (D ! 0)"
    using r unfolding eq in_range_nth by blast
  then show False
    using group_count_at [OF wf len] len by (simp add: iter_end_def)
qed

section \<open>Properties\<close>

text \<open>
  C19: iterating from \<open>begin\<close> with \<open>++\<close> visits every global identifier of the iteration
  space exactly once, and then compares equal to \<open>end\<close>.
\<close>

theorem iteration_covers_space:
  assumes "wf_dims D"
  shows "bij_betw (\<lambda>k. global_ids D (iterate D 1 k)) {..<total_items D} (box D) \<and>
         iterate D 1 (total_items D) = iter_end D"
proof
  show "bij_betw (\<lambda>k. global_ids D (iterate D 1 k)) {..<total_items D} (box D)"
    using bij_betw_trans [OF iterate_bij [OF assms] global_ids_bij [OF assms]] by (simp add: comp_def)
  have "0 < total_items D"
    using radix_prod [OF assms] group_prod_pos [OF assms] local_prod_pos [OF assms]
    by (metis nat_0_less_mult_iff)
  then show "iterate D 1 (total_items D) = iter_end D"
    using total_small [OF assms] by (intro iterate_end [OF assms]) simp_all
qed

theorem iteration_covers_space_witness:
  "bij_betw (\<lambda>k. global_ids (DimensionInfo [0, 0] [4, 6] [2, 3]) (iterate (DimensionInfo [0, 0] [4, 6] [2, 3]) 1 k))
     {..<24} (box (DimensionInfo [0, 0] [4, 6] [2, 3]))"
  using iteration_covers_space [of "DimensionInfo [0, 0] [4, 6] [2, 3]"]
  by (simp add: wf_dims_def DimensionInfo_def total_items_def)

text \<open>
  The end iterator differs from every iterator the loop meets, so the comparison with
  \<open>end\<close> stops the iteration after the last work-item and not earlier.
\<close>

lemma iteration_stops_only_at_end:
  assumes "wf_dims D" "k < total_items D"
  shows "iterate D 1 k \<noteq> iter_end D"
  using in_range_not_end [OF assms(1) conjunct1 [OF iterate_rank [OF assms(1), of k 1]]] assms(2) by simp

text \<open>
  C33: the linear work-group number and the number of work-groups, both computed with wrapping
  arithmetic, agree with the iteration: the \<open>k\<close>-th step by a whole work-group is at the first
  work-item of group \<open>k\<close>, and after \<open>GetWorkGroupsCount\<close> steps the iteration is at its end.
\<close>

theorem work_groups_in_order:
  assumes "wf_dims D" "k < GetWorkGroupsCount D"
  shows "GetWorkGroup D (iterate D (GetLocalWorkItems D) k) = k \<and>
         Locals (iterate D (GetLocalWorkItems D) k) = replicate (length D) 0 \<and>
         iterate D (GetLocalWorkItems D) (GetWorkGroupsCount D) = iter_end D"
  using group_step [OF assms] group_step_end [OF assms(1)] rank_group [OF assms(1)] by blast

theorem work_groups_in_order_witness:
  "GetWorkGroup (DimensionInfo [0, 0] [4, 6] [2, 3])
     (iterate (DimensionInfo [0, 0] [4, 6] [2, 3]) (GetLocalWorkItems (DimensionInfo [0, 0] [4, 6] [2, 3])) 3) = 3"
  using work_groups_in_order [of "DimensionInfo [0, 0] [4, 6] [2, 3]" 3]
  by (simp add: wf_dims_def DimensionInfo_def GetWorkGroupsCount_def GetGlobalWorkItems_def
                GetLocalWorkItems_def u32_def)

text \<open>
  The number of work-items is kept in 32 bits: a space of 65536 times 65536 single-item
  groups counts no work-group at all, although the iteration is not empty.
\<close>

lemma work_groups_count_overflow:
  "GetWorkGroupsCount (DimensionInfo [0, 0] [65536, 65536] [1, 1]) = 0 \<and>
   iter_begin (DimensionInfo [0, 0] [65536, 65536] [1, 1]) \<noteq> iter_end (DimensionInfo [0, 0] [65536, 65536] [1, 1])"
  by (simp add: DimensionInfo_def GetWorkGroupsCount_def GetGlobalWorkItems_def GetLocalWorkItems_def
                u32_def iter_begin_def iter_end_def GetWorkGroupsCountAt_def upt_rec)

end
