(* ===== verification/Commands.thy ===== *)
theory Commands
  imports Event_Model Memory_Object Dimension_Info
begin

text \<open>
  Commands: class \<open>Command\<close> and its subclasses (\<open>include/opencrun/Core/Command.h\<close>) with their
  constructors (\<open>lib/Core/Command.cpp\<close>).

  A command is its wait list, whether its enqueuer blocks, and the payload of its subclass, the
  members in the order of the class. Regions of image commands are kept with the first extent in
  bytes, as the constructors store them. The pattern of a fill and the arguments of a native
  kernel, which the constructors copy, are the bytes read from the memory \<open>m\<close> at that time.
\<close>

section \<open>Data\<close>

text \<open>The address space of the host, and a run of bytes in it.\<close>

type_synonym memory = "ptr \<Rightarrow> byte"

definition load_bytes :: "ptr \<Rightarrow> nat \<Rightarrow> memory \<Rightarrow> byte list" where
  "load_bytes a n m = map (\<lambda>k. m (a + of_nat k)) [0..<n]"

text \<open>What a command keeps of a kernel: its name and those of its arguments that are memory objects.\<close>

record kernel_ref =
  KernelName :: nat
  KernelMemArgs :: "mem_object list"

type_synonym pitches = "size_t \<times> size_t"

datatype payload =
    ReadBuffer ptr mem_object size_t size_t
  | WriteBuffer mem_object ptr size_t size_t
  | CopyBuffer mem_object mem_object size_t size_t size_t
  | ReadImage ptr mem_object size_t triple triple pitches
  | WriteImage mem_object ptr size_t triple triple pitches
  | CopyImage mem_object mem_object size_t size_t triple triple triple
  | CopyImageToBuffer mem_object mem_object size_t size_t triple triple
  | CopyBufferToImage mem_object mem_object size_t size_t triple triple
  | MapBuffer mem_object mem_flags size_t size_t ptr
  | MapImage mem_object mem_flags triple triple ptr "pitches option"
  | UnmapMemObject mem_object ptr
  | Marker
  | ReadBufferRect ptr mem_object triple size_t size_t pitches pitches
  | WriteBufferRect mem_object ptr triple size_t size_t pitches pitches
  | CopyBufferRect mem_object mem_object triple size_t size_t pitches pitches
  | Barrier
  | FillBuffer mem_object "byte list" size_t size_t size_t
  | FillImage mem_object "byte list" size_t triple triple
  | NDRangeKernel kernel_ref dim_info
  | NativeKernel ptr "byte list" "(ptr \<times> mem_object) list"

record command =
  CmdPayload :: payload
  CmdWaitList :: "event_id list"
  CmdBlocking :: bool

definition Command :: "payload \<Rightarrow> event_id list \<Rightarrow> bool \<Rightarrow> command" where
  "Command P WaitList Blocking = \<lparr>CmdPayload = P, CmdWaitList = WaitList, CmdBlocking = Blocking\<rparr>"

lemma Command_sel [simp]:
  "CmdPayload (Command P W B) = P" "CmdWaitList (Command P W B) = W" "CmdBlocking (Command P W B) = B"
  by (simp_all add: Command_def)

text \<open>\<open>Command::CanRun\<close>: all events of the wait list have completed, with or without an error.\<close>

definition CanRun :: "(event_id \<Rightarrow> event) \<Rightarrow> command \<Rightarrow> bool" where
  "CanRun E cmd \<longleftrightarrow> (\<forall>e \<in> set (CmdWaitList cmd). HasCompleted (E e))"

section \<open>Constructors\<close>

text \<open>The offset of an origin inside an image, and a region with its width in bytes.\<close>

definition image_offset :: "mem_object \<Rightarrow> triple \<Rightarrow> size_t" where
  "image_offset Img Origin =
     ix0 Origin * getElementSize Img + ix1 Origin * RowPitch (Desc (attrsOf Img)) +
     ix2 Origin * SlicePitch (Desc (attrsOf Img))"

definition bytes_region :: "mem_object \<Rightarrow> triple \<Rightarrow> triple" where
  "bytes_region Img Region = triple_of (ix0 Region * getElementSize Img) (ix1 Region) (ix2 Region)"

definition EnqueueReadBuffer where
  "EnqueueReadBuffer Target Source Blocking Offset Size WaitList =
     Command (ReadBuffer Target Source Offset Size) WaitList Blocking"

definition EnqueueWriteBuffer where
  "EnqueueWriteBuffer Target Source Blocking Offset Size WaitList =
     Command (WriteBuffer Target Source Offset Size) WaitList Blocking"

definition EnqueueCopyBuffer where
  "EnqueueCopyBuffer Target Source TargetOffset SourceOffset Size WaitList =
     Command (CopyBuffer Target Source TargetOffset SourceOffset Size) WaitList False"

definition EnqueueReadImage where
  "EnqueueReadImage Target Source Blocking SourceOrigin Region TargetPitches WaitList =
     Command (ReadImage Target Source (image_offset Source SourceOrigin) SourceOrigin
                (bytes_region Source Region) TargetPitches) WaitList Blocking"

definition EnqueueWriteImage where
  "EnqueueWriteImage Target Source Blocking TargetOrigin Region SourcePitches WaitList =
     Command (WriteImage Target Source (image_offset Target TargetOrigin) TargetOrigin
                (bytes_region Target Region) SourcePitches) WaitList Blocking"

definition EnqueueCopyImage where
  "EnqueueCopyImage Target Source TargetOrigin SourceOrigin Region WaitList =
     Command (CopyImage Target Source (image_offset Target TargetOrigin) (image_offset Source SourceOrigin)
                TargetOrigin SourceOrigin (bytes_region Target Region)) WaitList False"

definition EnqueueCopyImageToBuffer where
  "EnqueueCopyImageToBuffer Target Source TargetOffset SourceOrigin Region WaitList =
     Command (CopyImageToBuffer Target Source TargetOffset (image_offset Source SourceOrigin)
                SourceOrigin (bytes_region Source Region)) WaitList False"

definition EnqueueCopyBufferToImage where
  "EnqueueCopyBufferToImage Target Source TargetOrigin Region SourceOffset WaitList =
     Command (CopyBufferToImage Target Source (image_offset Target TargetOrigin) SourceOffset
                TargetOrigin (bytes_region Target Region)) WaitList False"

definition EnqueueMapBuffer where
  "EnqueueMapBuffer Source Blocking MapFlags Offset Size MapBuf WaitList =
     Command (MapBuffer Source MapFlags Offset Size MapBuf) WaitList Blocking"

definition EnqueueMapImage where
  "EnqueueMapImage Source Blocking MapFlags Origin Region MapBuf MapPitches WaitList =
     Command (MapImage Source MapFlags Origin (bytes_region Source Region) MapBuf MapPitches) WaitList Blocking"

definition EnqueueUnmapMemObject where
  "EnqueueUnmapMemObject MemObj MappedPtr WaitList =
     Command (UnmapMemObject MemObj MappedPtr) WaitList False"

definition EnqueueMarker where
  "EnqueueMarker WaitList = Command Marker WaitList False"

definition EnqueueReadBufferRect where
  "EnqueueReadBufferRect Target Source Blocking Region TargetOffset SourceOffset TargetPitches SourcePitches WaitList =
     Command (ReadBufferRect Target Source Region TargetOffset SourceOffset TargetPitches SourcePitches)
       WaitList Blocking"

definition EnqueueWriteBufferRect where
  "EnqueueWriteBufferRect Target Source Blocking Region TargetOffset SourceOffset TargetPitches SourcePitches WaitList =
     Command (WriteBufferRect Target Source Region TargetOffset SourceOffset TargetPitches SourcePitches)
       WaitList Blocking"

definition EnqueueCopyBufferRect where
  "EnqueueCopyBufferRect Target Source Region TargetOffset SourceOffset TargetPitches SourcePitches WaitList =
     Command (CopyBufferRect Target Source Region TargetOffset SourceOffset TargetPitches SourcePitches)
       WaitList False"

definition EnqueueBarrier where
  "EnqueueBarrier WaitList = Command Barrier WaitList False"

definition EnqueueFillBuffer where
  "EnqueueFillBuffer m Target Source SourceSize TargetOffset TargetSize WaitList =
     Command (FillBuffer Target (load_bytes Source (unat SourceSize) m) SourceSize TargetOffset TargetSize) WaitList False"

definition EnqueueFillImage where
  "EnqueueFillImage m Target Source TargetOrigin TargetRegion WaitList =
     Command (FillImage Target (load_bytes Source 16 m) (image_offset Target TargetOrigin) TargetOrigin
                (bytes_region Target TargetRegion)) WaitList False"

definition EnqueueNDRangeKernel where
  "EnqueueNDRangeKernel Kern DimInfo WaitList = Command (NDRangeKernel Kern DimInfo) WaitList False"

definition EnqueueNativeKernel where
  "EnqueueNativeKernel m Fn RawArgs Locs WaitList =
     Command (NativeKernel Fn (load_bytes (fst RawArgs) (unat (snd RawArgs)) m) Locs) WaitList False"

end
