(* ===== verification/Builder_Base.thy ===== *)
theory Builder_Base
  imports Commands
begin

text \<open>
  The state all command builders share, \<open>CommandBuilder\<close>, and the two image checks at the end of
  \<open>lib/Core/Command.cpp\<close>.

  A builder collects the arguments of one \<open>clEnqueue\<close> call. Its methods run in a chain; each may
  report an error, which stores the code and sends a message to the context. The messages are
  kept in \<open>bDiag\<close>. Handles of events are names of events, looked up in the events \<open>E\<close> at the time
  of the call. C arrays are \<open>None\<close> for a null pointer.
\<close>

section \<open>Devices and queues as the builders see them\<close>

record device_info =
  MemoryBaseAddressAlignment :: size_t
  ImageMaxArraySize :: size_t
  ImageMaxBufferSize :: size_t
  Image2DMaxWidth :: size_t
  Image2DMaxHeight :: size_t
  Image3DMaxWidth :: size_t
  Image3DMaxHeight :: size_t
  Image3DMaxDepth :: size_t
  ImageFormatSupported :: "channel_order \<Rightarrow> channel_data_type \<Rightarrow> bool"
  MaxWorkItemDimensions :: nat
  MaxWorkItemSizes :: "size_t list"
  MaxWorkGroupSize :: size_t
  SizeTypeMax :: size_t
  NativeKernels :: bool
  ImageSupport :: bool

record queue_info =
  QContext :: ctx_id
  QDevice :: device_info

section \<open>The common part of the builders\<close>

record cmd_builder =
  bCtx :: ctx_id
  bErr :: cl_int
  bWait :: "event_id list"
  bDiag :: "string list"

record blocking_builder = cmd_builder +
  bBlocking :: bool

definition NotifyError :: "cl_int \<Rightarrow> string \<Rightarrow> 'a cmd_builder_scheme \<Rightarrow> 'a cmd_builder_scheme" where
  "NotifyError e msg b = b\<lparr>bDiag := bDiag b @ [msg], bErr := e\<rparr>"

fun push_events :: "event_id option list \<Rightarrow> 'a cmd_builder_scheme \<Rightarrow> 'a cmd_builder_scheme" where
  "push_events [] b = b"
| "push_events (None # hs) b = NotifyError CL_INVALID_EVENT_WAIT_LIST ''invalid event'' b"
| "push_events (Some e # hs) b = push_events hs (b\<lparr>bWait := bWait b @ [e]\<rparr>)"

definition CommandBuilder_SetWaitList ::
  "nat \<Rightarrow> event_id option list option \<Rightarrow> 'a cmd_builder_scheme \<Rightarrow> 'a cmd_builder_scheme" where
  "CommandBuilder_SetWaitList N Evs b =
     (if N \<noteq> 0 \<and> Evs = None
      then NotifyError CL_INVALID_EVENT_WAIT_LIST ''expected events wait list'' b
      else if N = 0 \<and> Evs \<noteq> None
      then NotifyError CL_INVALID_EVENT_WAIT_LIST ''unexpected events wait list'' b
      else push_events (take N (case Evs of None \<Rightarrow> [] | Some hs \<Rightarrow> hs)) b)"

definition IsWaitListInconsistent :: "(event_id \<Rightarrow> event) \<Rightarrow> 'a cmd_builder_scheme \<Rightarrow> bool" where
  "IsWaitListInconsistent E b \<longleftrightarrow> (\<exists>e \<in> set (bWait b). IsError (E e))"

text \<open>
  The loop at the end of most \<open>SetWaitList\<close> methods, and the two shapes these methods have: of
  builders of commands that cannot block, and of those that can. They go on after an error of
  the common part.
\<close>

definition check_wait_contexts ::
  "(event_id \<Rightarrow> event) \<Rightarrow> 'a cmd_builder_scheme \<Rightarrow> 'a cmd_builder_scheme" where
  "check_wait_contexts E b =
     (if \<exists>e \<in> set (bWait b). bCtx b \<noteq> EvContext (E e)
      then NotifyError CL_INVALID_CONTEXT ''command queue and event in wait list with different context'' b
      else b)"

definition SetWaitList_plain ::
  "(event_id \<Rightarrow> event) \<Rightarrow> nat \<Rightarrow> event_id option list option \<Rightarrow> 'a cmd_builder_scheme \<Rightarrow> 'a cmd_builder_scheme" where
  "SetWaitList_plain E N Evs b = check_wait_contexts E (CommandBuilder_SetWaitList N Evs b)"

definition SetWaitList_blocking ::
  "(event_id \<Rightarrow> event) \<Rightarrow> nat \<Rightarrow> event_id option list option \<Rightarrow>
   'a blocking_builder_scheme \<Rightarrow> 'a blocking_builder_scheme" where
  "SetWaitList_blocking E N Evs b =
     (let b1 = CommandBuilder_SetWaitList N Evs b in
      if bBlocking b1 \<and> IsWaitListInconsistent E b1
      then NotifyError CL_EXEC_STATUS_ERROR_FOR_EVENTS_IN_WAIT_LIST
             ''cannot block on an inconsistent wait list'' b1
      else check_wait_contexts E b1)"

definition SetBlocking_common ::
  "(event_id \<Rightarrow> event) \<Rightarrow> bool \<Rightarrow> 'a blocking_builder_scheme \<Rightarrow> 'a blocking_builder_scheme" where
  "SetBlocking_common E B b =
     (if B \<and> IsWaitListInconsistent E b
      then NotifyError CL_EXEC_STATUS_ERROR_FOR_EVENTS_IN_WAIT_LIST
             ''cannot block on an inconsistent wait list'' b
      else b\<lparr>bBlocking := B\<rparr>)"

text \<open>The alignment test of the constructors for a sub-buffer.\<close>

definition misaligned :: "queue_info \<Rightarrow> mem_object \<Rightarrow> bool" where
  "misaligned Q mo \<longleftrightarrow>
     MemoryBaseAddressAlignment (QDevice Q) \<noteq> 0 \<and>
     getOrigin mo mod MemoryBaseAddressAlignment (QDevice Q) \<noteq> 0"

text \<open>
  The chain of tests with which a constructor opens a buffer or an image: a null handle, a handle
  of the other kind, and then, for a sub-buffer its alignment only, for any other object the tests
  \<open>rest\<close> of the builder. \<open>store\<close> puts the object in the member of the builder.
\<close>

definition with_buffer ::
  "queue_info \<Rightarrow> cl_mem \<Rightarrow> string \<Rightarrow> string \<Rightarrow> string \<Rightarrow>
   (mem_object \<Rightarrow> 'a cmd_builder_scheme \<Rightarrow> 'a cmd_builder_scheme) \<Rightarrow>
   (mem_object \<Rightarrow> 'a cmd_builder_scheme \<Rightarrow> 'a cmd_builder_scheme) \<Rightarrow>
   'a cmd_builder_scheme \<Rightarrow> 'a cmd_builder_scheme" where
  "with_buffer Q Buf null_msg kind_msg align_msg store rest b =
     (case Buf of
        None \<Rightarrow> NotifyError CL_INVALID_MEM_OBJECT null_msg b
      | Some mo \<Rightarrow>
        (case cast_buffer mo of
           None \<Rightarrow> NotifyError CL_INVALID_MEM_OBJECT kind_msg b
         | Some buf \<Rightarrow>
           let b1 = store buf b in
           if isSubBuffer buf
           then if misaligned Q buf then NotifyError CL_MISALIGNED_SUB_BUFFER_OFFSET align_msg b1 else b1
           else rest buf b1))"

definition with_image ::
  "cl_mem \<Rightarrow> string \<Rightarrow> string \<Rightarrow>
   (mem_object \<Rightarrow> 'a cmd_builder_scheme \<Rightarrow> 'a cmd_builder_scheme) \<Rightarrow>
   (mem_object \<Rightarrow> 'a cmd_builder_scheme \<Rightarrow> 'a cmd_builder_scheme) \<Rightarrow>
   'a cmd_builder_scheme \<Rightarrow> 'a cmd_builder_scheme" where
  "with_image Img null_msg kind_msg store rest b =
     (case Img of
        None \<Rightarrow> NotifyError CL_INVALID_MEM_OBJECT null_msg b
      | Some mo \<Rightarrow>
        (case cast_image mo of
           None \<Rightarrow> NotifyError CL_INVALID_MEM_OBJECT kind_msg b
         | Some img \<Rightarrow> rest img (store img b)))"

definition check_context :: "queue_info \<Rightarrow> string \<Rightarrow> mem_object \<Rightarrow> 'a cmd_builder_scheme \<Rightarrow> 'a cmd_builder_scheme" where
  "check_context Q msg mo b =
     (if QContext Q \<noteq> getContext mo then NotifyError CL_INVALID_CONTEXT msg b else b)"

text \<open>The test of the host access flags, then that of the context.\<close>

definition check_access ::
  "queue_info \<Rightarrow> mem_flags \<Rightarrow> string \<Rightarrow> string \<Rightarrow> mem_object \<Rightarrow> 'a cmd_builder_scheme \<Rightarrow> 'a cmd_builder_scheme" where
  "check_access Q forbidden msg ctx_msg mo b =
     (if has_flag (getFlags mo) forbidden \<or> has_flag (getFlags mo) CL_MEM_HOST_NO_ACCESS
      then NotifyError CL_INVALID_OPERATION msg b
      else check_context Q ctx_msg mo b)"

text \<open>The test of a pointer argument that must not be null.\<close>

definition check_pointer :: "ptr \<Rightarrow> string \<Rightarrow> 'a cmd_builder_scheme \<Rightarrow> 'a cmd_builder_scheme" where
  "check_pointer p msg b = (if p = NULL then NotifyError CL_INVALID_VALUE msg b else b)"

text \<open>\<open>Create\<close>: the command when no error was reported, else null and the error code.\<close>

definition create_command :: "'a cmd_builder_scheme \<Rightarrow> command \<Rightarrow> command option \<times> cl_int" where
  "create_command b cmd = (if bErr b \<noteq> CL_SUCCESS then (None, bErr b) else (Some cmd, CL_SUCCESS))"

section \<open>Image checks\<close>

definition img_size_unsupported :: "device_info \<Rightarrow> image_attrs \<Rightarrow> bool" where
  "img_size_unsupported Dev A =
     (case ImgTy A of
        Image1D_Array \<Rightarrow> ArraySize (Desc A) > ImageMaxArraySize Dev
      | Image1D \<Rightarrow> Width (Desc A) > Image2DMaxWidth Dev
      | Image1D_Buffer \<Rightarrow> Width (Desc A) > ImageMaxBufferSize Dev
      | Image2D_Array \<Rightarrow> ArraySize (Desc A) > ImageMaxArraySize Dev
      | Image2D \<Rightarrow> Width (Desc A) > Image2DMaxWidth Dev \<or> Height (Desc A) > Image2DMaxHeight Dev
      | Image3D \<Rightarrow> Width (Desc A) > Image3DMaxWidth Dev \<or> Height (Desc A) > Image3DMaxHeight Dev \<or>
                   Depth (Desc A) > Image3DMaxDepth Dev)"

definition CheckDevImgSupport ::
  "queue_info \<Rightarrow> mem_object \<Rightarrow> 'a cmd_builder_scheme \<Rightarrow> 'a cmd_builder_scheme" where
  "CheckDevImgSupport Q Img b =
     (let A = attrsOf Img;
          b1 = (if img_size_unsupported (QDevice Q) A
                then NotifyError CL_INVALID_IMAGE_SIZE
                       (if ImgTy A = Image3D
                        then ''image size unsupported by device associated with queue''
                        else ''image size unsupported by target device associated with queue'') b
                else b)
      in if \<not> ImageFormatSupported (QDevice Q) (ChOrder A) (ChDataType A)
         then NotifyError CL_IMAGE_FORMAT_NOT_SUPPORTED
                ''image format unsupported by device associated with queue'' b1
         else b1)"

text \<open>The message of the failing check, \<open>None\<close> when the region is inside the image.\<close>

definition img_region_error :: "image_attrs \<Rightarrow> triple \<Rightarrow> triple \<Rightarrow> string option" where
  "img_region_error A Origin Region =
     (let D = Desc A;
          out0 = ix0 Origin + ix0 Region > Width D;
          out = (\<lambda>b. if b then Some ''region out of bounds'' else None)
      in case ImgTy A of
        Image1D \<Rightarrow>
          if ix1 Origin \<noteq> 0 \<or> ix2 Origin \<noteq> 0 then Some ''invalid origin''
          else if ix1 Region \<noteq> 1 \<or> ix2 Region \<noteq> 1 then Some ''invalid region'' else out out0
      | Image1D_Buffer \<Rightarrow>
          if ix1 Origin \<noteq> 0 \<or> ix2 Origin \<noteq> 0 then Some ''invalid origin''
          else if ix1 Region \<noteq> 1 \<or> ix2 Region \<noteq> 1 then Some ''invalid region'' else out out0
      | Image1D_Array \<Rightarrow>
          if ix2 Origin \<noteq> 0 then Some ''invalid origin''
          else if ix2 Region \<noteq> 1 then Some ''invalid region''
          else out (out0 \<or> ix1 Origin + ix1 Region > ArraySize D)
      | Image2D \<Rightarrow>
          if ix2 Origin \<noteq> 0 then Some ''invalid origin''
          else if ix2 Region \<noteq> 1 then Some ''invalid region''
          else out (out0 \<or> ix1 Origin + ix1 Region > Height D)
      | Image2D_Array \<Rightarrow>
          out (out0 \<or> ix1 Origin + ix1 Region > Height D \<or> ix2 Origin + ix2 Region > ArraySize D)
      | Image3D \<Rightarrow>
          out (out0 \<or> ix1 Origin + ix1 Region > Height D \<or> ix2 Origin + ix2 Region > Depth D))"

definition IsValidImgRegion ::
  "mem_object \<Rightarrow> triple \<Rightarrow> triple \<Rightarrow> 'a cmd_builder_scheme \<Rightarrow> 'a cmd_builder_scheme \<times> bool" where
  "IsValidImgRegion Img Origin Region b =
     (case img_region_error (attrsOf Img) Origin Region of
        Some msg \<Rightarrow> (NotifyError CL_INVALID_VALUE msg b, False)
      | None \<Rightarrow> (b, True))"

definition region_is_empty :: "triple \<Rightarrow> bool" where
  "region_is_empty R \<longleftrightarrow> ix0 R = 0 \<or> ix1 R = 0 \<or> ix2 R = 0"

section \<open>What every builder step keeps\<close>

text \<open>
  A step of a builder may only add messages, keeps the context of the queue, and keeps the error
  code in step with the messages: \<open>CL_SUCCESS\<close> exactly when nothing was reported.
\<close>

definition builder_ok :: "'a cmd_builder_scheme \<Rightarrow> bool" where
  "builder_ok b \<longleftrightarrow> (bErr b = CL_SUCCESS \<longleftrightarrow> bDiag b = [])"

definition builder_step :: "'a cmd_builder_scheme \<Rightarrow> 'a cmd_builder_scheme \<Rightarrow> bool" where
  "builder_step b b' \<longleftrightarrow>
     bCtx b' = bCtx b \<and> (\<exists>ms. bDiag b' = bDiag b @ ms \<and>
       (ms = [] \<longrightarrow> bErr b' = bErr b) \<and> (ms \<noteq> [] \<longrightarrow> bErr b' \<noteq> CL_SUCCESS))"

locale builder_operation =
  fixes f :: "'a cmd_builder_scheme \<Rightarrow> 'a cmd_builder_scheme"
  assumes step: "builder_step b (f b)"
begin

lemma ok: "builder_ok b \<Longrightarrow> builder_ok (f b)"
  using step [of b] by (auto simp: builder_ok_def builder_step_def split: if_splits)

lemma error_sticks: "builder_ok b \<Longrightarrow> bErr b \<noteq> CL_SUCCESS \<Longrightarrow> bErr (f b) \<noteq> CL_SUCCESS"
  using step [of b] by (auto simp: builder_ok_def builder_step_def split: if_splits)

lemma ctx: "bCtx (f b) = bCtx b"
  using step [of b] by (simp add: builder_step_def)

lemma error_before: "bErr (f b) = CL_SUCCESS \<Longrightarrow> bErr b = CL_SUCCESS \<and> bDiag (f b) = bDiag b"
  using step [of b] by (auto simp: builder_step_def split: if_splits)

end

lemma builder_step_same: "bCtx b' = bCtx b \<Longrightarrow> bErr b' = bErr b \<Longrightarrow> bDiag b' = bDiag b \<Longrightarrow> builder_step b b'"
  by (simp add: builder_step_def)

lemma builder_step_refl [simp, intro]: "builder_step b b"
  by (simp add: builder_step_same)

lemma builder_step_trans: "builder_step a b \<Longrightarrow> builder_step b c \<Longrightarrow> builder_step a c"
proof -
  assume "builder_step a b" "builder_step b c"
  then obtain ms ns where "bCtx c = bCtx a" "bDiag c = bDiag a @ (ms @ ns)"
    "ms @ ns = [] \<longrightarrow> bErr c = bErr a" "ms @ ns \<noteq> [] \<longrightarrow> bErr c \<noteq> CL_SUCCESS"
    unfolding builder_step_def by (metis append.assoc append_is_Nil_conv)
  then show ?thesis unfolding builder_step_def by blast
qed

lemma NotifyError_simps [simp]:
  "bErr (NotifyError e msg b) = e" "bDiag (NotifyError e msg b) = bDiag b @ [msg]"
  "bCtx (NotifyError e msg b) = bCtx b" "bWait (NotifyError e msg b) = bWait b"
  by (simp_all add: NotifyError_def)

lemma bBlocking_NotifyError [simp]: "bBlocking (NotifyError e msg b) = bBlocking b"
  by (simp add: NotifyError_def)

lemma step_NotifyError [simp]: "e \<noteq> CL_SUCCESS \<Longrightarrow> builder_step b (NotifyError e msg b)"
  by (simp add: builder_step_def)

text \<open>A step followed by another, as the chains of the API compose them.\<close>

lemma builder_operation_comp:
  "builder_operation f \<Longrightarrow> builder_operation g \<Longrightarrow> builder_operation (\<lambda>b. g (f b))"
  unfolding builder_operation_def using builder_step_trans by blast

lemma step_push_events [simp]: "builder_step b (push_events hs b)"
proof (induction hs b rule: push_events.induct)
  case (3 e hs b)
  have "builder_step b (b\<lparr>bWait := bWait b @ [e]\<rparr>)" by (simp add: builder_step_same)
  with 3 show ?case using builder_step_trans by simp blast
qed simp_all

lemma step_CommandBuilder_SetWaitList [simp]: "builder_step b (CommandBuilder_SetWaitList N Evs b)"
  by (simp add: CommandBuilder_SetWaitList_def)

lemma step_check_wait_contexts [simp]: "builder_step b (check_wait_contexts E b)"
  by (simp add: check_wait_contexts_def)

lemma step_SetWaitList_plain [simp]: "builder_step b (SetWaitList_plain E N Evs b)"
  unfolding SetWaitList_plain_def by (rule builder_step_trans [of _ "CommandBuilder_SetWaitList N Evs b"]) simp_all

lemma step_SetWaitList_blocking [simp]: "builder_step b (SetWaitList_blocking E N Evs b)"
  unfolding SetWaitList_blocking_def Let_def
  by (rule builder_step_trans [of _ "CommandBuilder_SetWaitList N Evs b"]) simp_all

lemma step_SetBlocking [simp]: "builder_step b (SetBlocking_common E B b)"
  by (simp add: SetBlocking_common_def builder_step_same)

lemma step_CheckDevImgSupport [simp]: "builder_step b (CheckDevImgSupport Q Img b)"
  by (simp add: CheckDevImgSupport_def Let_def) (simp add: builder_step_def)

lemma step_IsValidImgRegion [simp]: "builder_step b (fst (IsValidImgRegion Img Origin Region b))"
  by (simp add: IsValidImgRegion_def split: option.split)

interpretation wait_plain: builder_operation "SetWaitList_plain E N Evs" for E N Evs
  by unfold_locales simp

interpretation wait_blocking: builder_operation "SetWaitList_blocking E N Evs" for E N Evs
  by unfold_locales simp

interpretation set_blocking: builder_operation "SetBlocking_common E B" for E B
  by unfold_locales simp

interpretation img_support: builder_operation "CheckDevImgSupport Q Img" for Q Img
  by unfold_locales simp

section \<open>When a builder has no error\<close>

lemma with_buffer_step:
  assumes s: "\<And>mo b. builder_step b (store mo b)" and r: "\<And>mo b. builder_step b (rest mo b)"
  shows "builder_step b (with_buffer Q Buf m1 m2 m3 store rest b)"
  by (auto simp: with_buffer_def Let_def s split: option.split
           intro: builder_step_trans [OF s r] builder_step_trans [OF s step_NotifyError])

lemma with_image_step:
  assumes s: "\<And>mo b. builder_step b (store mo b)" and r: "\<And>mo b. builder_step b (rest mo b)"
  shows "builder_step b (with_image Img m1 m2 store rest b)"
  by (auto simp: with_image_def split: option.split intro: builder_step_trans [OF s r])

lemma step_check_context [simp]: "builder_step b (check_context Q msg mo b)"
  by (simp add: check_context_def)

lemma step_check_access [simp]: "builder_step b (check_access Q f msg cmsg mo b)"
  by (simp add: check_access_def)

lemma step_check_pointer [simp]: "builder_step b (check_pointer p msg b)"
  by (simp add: check_pointer_def)

text \<open>What the wait list arguments must be, and the events they name.\<close>

definition wait_ids :: "nat \<Rightarrow> event_id option list option \<Rightarrow> event_id list" where
  "wait_ids N Evs = (case Evs of None \<Rightarrow> [] | Some hs \<Rightarrow> map the (take N hs))"

definition wait_args_ok :: "nat \<Rightarrow> event_id option list option \<Rightarrow> bool" where
  "wait_args_ok N Evs \<longleftrightarrow> (N \<noteq> 0 \<longleftrightarrow> Evs \<noteq> None) \<and> (\<forall>hs. Evs = Some hs \<longrightarrow> None \<notin> set (take N hs))"

lemma push_events_ok:
  "bErr (push_events hs b) = CL_SUCCESS \<longleftrightarrow> bErr b = CL_SUCCESS \<and> None \<notin> set hs"
  "None \<notin> set hs \<Longrightarrow> push_events hs b = b\<lparr>bWait := bWait b @ map the hs\<rparr>"
  by (induction hs b rule: push_events.induct) simp_all

lemma CommandBuilder_SetWaitList_ok:
  "bErr (CommandBuilder_SetWaitList N Evs b) = CL_SUCCESS \<longleftrightarrow> bErr b = CL_SUCCESS \<and> wait_args_ok N Evs"
  by (cases Evs) (auto simp: CommandBuilder_SetWaitList_def wait_args_ok_def push_events_ok(1))

lemma CommandBuilder_SetWaitList_value:
  "wait_args_ok N Evs \<Longrightarrow> CommandBuilder_SetWaitList N Evs b = b\<lparr>bWait := bWait b @ wait_ids N Evs\<rparr>"
  by (cases Evs) (auto simp: CommandBuilder_SetWaitList_def wait_args_ok_def wait_ids_def push_events_ok(2))

definition same_context_events :: "(event_id \<Rightarrow> event) \<Rightarrow> ctx_id \<Rightarrow> event_id list \<Rightarrow> bool" where
  "same_context_events E ctx es \<longleftrightarrow> (\<forall>e \<in> set es. EvContext (E e) = ctx)"

lemma check_wait_contexts_ok:
  "bErr (check_wait_contexts E b) = CL_SUCCESS \<longleftrightarrow>
     bErr b = CL_SUCCESS \<and> same_context_events E (bCtx b) (bWait b)"
  "same_context_events E (bCtx b) (bWait b) \<Longrightarrow> check_wait_contexts E b = b"
  by (simp_all add: check_wait_contexts_def same_context_events_def) metis

lemma SetWaitList_plain_ok:
  "bErr (SetWaitList_plain E N Evs b) = CL_SUCCESS \<longleftrightarrow>
     bErr b = CL_SUCCESS \<and> wait_args_ok N Evs \<and> same_context_events E (bCtx b) (bWait b @ wait_ids N Evs)"
  by (cases "wait_args_ok N Evs")
    (auto simp: SetWaitList_plain_def check_wait_contexts_ok CommandBuilder_SetWaitList_ok
                CommandBuilder_SetWaitList_value)

lemma SetWaitList_plain_value:
  "bErr (SetWaitList_plain E N Evs b) = CL_SUCCESS \<Longrightarrow>
   SetWaitList_plain E N Evs b = b\<lparr>bWait := bWait b @ wait_ids N Evs\<rparr>"
  by (simp add: SetWaitList_plain_ok)
    (simp add: SetWaitList_plain_def CommandBuilder_SetWaitList_value check_wait_contexts_ok(2))

lemma SetWaitList_blocking_ok:
  "bErr (SetWaitList_blocking E N Evs b) = CL_SUCCESS \<longleftrightarrow>
     bErr b = CL_SUCCESS \<and> wait_args_ok N Evs \<and>
     \<not> (bBlocking b \<and> (\<exists>e \<in> set (bWait b @ wait_ids N Evs). IsError (E e))) \<and>
     same_context_events E (bCtx b) (bWait b @ wait_ids N Evs)"
proof (cases "wait_args_ok N Evs")
  case True
  then show ?thesis
    by (auto simp: SetWaitList_blocking_def Let_def check_wait_contexts_ok CommandBuilder_SetWaitList_value
                   IsWaitListInconsistent_def)
next
  case False
  then have "bErr (CommandBuilder_SetWaitList N Evs b) \<noteq> CL_SUCCESS"
    by (simp add: CommandBuilder_SetWaitList_ok)
  with False show ?thesis
    by (simp add: SetWaitList_blocking_def Let_def check_wait_contexts_ok)
qed

lemma SetWaitList_blocking_value:
  "bErr (SetWaitList_blocking E N Evs b) = CL_SUCCESS \<Longrightarrow>
   SetWaitList_blocking E N Evs b = b\<lparr>bWait := bWait b @ wait_ids N Evs\<rparr>"
  by (simp add: SetWaitList_blocking_ok)
    (auto simp: SetWaitList_blocking_def Let_def CommandBuilder_SetWaitList_value check_wait_contexts_ok(2)
                IsWaitListInconsistent_def)

text \<open>On a new builder the wait list is empty, so blocking is always accepted.\<close>

lemma SetBlocking_fresh [simp]: "bWait b = [] \<Longrightarrow> SetBlocking_common E B b = b\<lparr>bBlocking := B\<rparr>"
  by (simp add: SetBlocking_common_def IsWaitListInconsistent_def)

lemma create_command_Some:
  "create_command b cmd = (Some c, e) \<longleftrightarrow> bErr b = CL_SUCCESS \<and> c = cmd \<and> e = CL_SUCCESS"
  by (auto simp: create_command_def)

lemma check_pointer_ok [simp]:
  "bErr (check_pointer p msg b) = CL_SUCCESS \<longleftrightarrow> bErr b = CL_SUCCESS \<and> p \<noteq> NULL"
  "p \<noteq> NULL \<Longrightarrow> check_pointer p msg b = b"
  by (simp_all add: check_pointer_def)

lemma check_context_ok [simp]:
  "bErr (check_context Q msg mo b) = CL_SUCCESS \<longleftrightarrow> bErr b = CL_SUCCESS \<and> getContext mo = QContext Q"
  "getContext mo = QContext Q \<Longrightarrow> check_context Q msg mo b = b"
  by (auto simp: check_context_def)

definition access_allowed :: "mem_flags \<Rightarrow> mem_object \<Rightarrow> bool" where
  "access_allowed f mo \<longleftrightarrow> \<not> has_flag (getFlags mo) f \<and> \<not> has_flag (getFlags mo) CL_MEM_HOST_NO_ACCESS"

lemma check_access_ok [simp]:
  "bErr (check_access Q f msg cmsg mo b) = CL_SUCCESS \<longleftrightarrow>
     bErr b = CL_SUCCESS \<and> access_allowed f mo \<and> getContext mo = QContext Q"
  "access_allowed f mo \<Longrightarrow> getContext mo = QContext Q \<Longrightarrow> check_access Q f msg cmsg mo b = b"
  by (auto simp: check_access_def access_allowed_def)

text \<open>When the constructor of a buffer builder accepts its buffer.\<close>

definition buffer_accepted :: "queue_info \<Rightarrow> (mem_object \<Rightarrow> bool) \<Rightarrow> mem_object \<Rightarrow> bool" where
  "buffer_accepted Q rest_ok mo \<longleftrightarrow>
     is_buffer mo \<and> (if isSubBuffer mo then \<not> misaligned Q mo else rest_ok mo)"

lemma with_buffer_ok:
  assumes "\<And>mo. bErr (store mo b) = bErr b"
    and "\<And>mo. bErr (rest mo (store mo b)) = CL_SUCCESS \<longleftrightarrow> bErr (store mo b) = CL_SUCCESS \<and> rest_ok mo"
  shows "bErr (with_buffer Q Buf m1 m2 m3 store rest b) = CL_SUCCESS \<longleftrightarrow>
           bErr b = CL_SUCCESS \<and> (\<exists>mo. Buf = Some mo \<and> buffer_accepted Q rest_ok mo)"
  using assms
  by (auto simp: with_buffer_def cast_buffer_def Let_def buffer_accepted_def split: option.split)

lemma with_buffer_value:
  assumes "\<And>mo. rest_ok mo \<Longrightarrow> rest mo (store mo b) = store mo b"
    and "buffer_accepted Q rest_ok mo"
  shows "with_buffer Q (Some mo) m1 m2 m3 store rest b = store mo b"
  using assms by (auto simp: with_buffer_def cast_buffer_def Let_def buffer_accepted_def split: if_splits)

end
