(* ===== verification/Image_Builders.thy ===== *)
theory Image_Builders
  imports Builder_Base
begin

text \<open>
  The builders of the commands on images, \<open>lib/Core/Command.cpp\<close>: \<open>EnqueueReadImage\<close>,
  \<open>EnqueueWriteImage\<close>, \<open>EnqueueCopyImage\<close>, \<open>EnqueueCopyImageToBuffer\<close>,
  \<open>EnqueueCopyBufferToImage\<close> and \<open>EnqueueFillImage\<close>. Origins and regions are pointers to arrays,
  \<open>None\<close> for null. A member the constructor leaves uninitialised is \<open>None\<close> until it is set.
\<close>

section \<open>Shared tests\<close>

definition check_support :: "queue_info \<Rightarrow> mem_object option \<Rightarrow> 'a cmd_builder_scheme \<Rightarrow> 'a cmd_builder_scheme" where
  "check_support Q Img b = (case Img of None \<Rightarrow> b | Some I \<Rightarrow> CheckDevImgSupport Q I b)"

text \<open>A pitch argument: 0 asks for the smallest pitch, a smaller one is refused.\<close>

definition default_pitch :: "size_t \<Rightarrow> size_t \<Rightarrow> size_t option" where
  "default_pitch least p = (if p = 0 then Some least else if p < least then None else Some p)"

text \<open>The image is made of the buffer.\<close>

definition image_of_buffer :: "mem_object \<Rightarrow> mem_object option \<Rightarrow> bool" where
  "image_of_buffer Img Buf \<longleftrightarrow>
     ImgTy (attrsOf Img) = Image1D_Buffer \<and>
     map_option (\<lambda>p. moId (commonOf p)) (parentOf Img) = map_option (\<lambda>p. moId (commonOf p)) Buf"

text \<open>The bytes of a packed region, as the copies between images and buffers compute them.\<close>

definition packed_size :: "mem_object \<Rightarrow> triple \<Rightarrow> size_t" where
  "packed_size Img R = ix0 R * ix1 R * ix2 R * getElementSize Img"

section \<open>Reading an image\<close>

record read_image_builder = blocking_builder +
  riSource :: "mem_object option"
  riTarget :: ptr
  riSourceOrigin :: "triple option"
  riRegion :: "triple option"
  riRowPitch :: "size_t option"
  riSlicePitch :: "size_t option"

definition ReadImage_Builder :: "queue_info \<Rightarrow> cl_mem \<Rightarrow> ptr \<Rightarrow> read_image_builder" where
  "ReadImage_Builder Q Img Target =
     (let b = check_pointer Target ''pointer to data sink is null''
                (with_image Img ''read source is null'' ''read source is not an image''
                   (\<lambda>mo b. b\<lparr>riSource := Some mo\<rparr>)
                   (check_access Q CL_MEM_HOST_WRITE_ONLY ''invalid read image operation''
                      ''command queue and image have different context'')
                   \<lparr>bCtx = QContext Q, bErr = CL_SUCCESS, bWait = [], bDiag = [], bBlocking = False,
                    riSource = None, riTarget = Target, riSourceOrigin = None, riRegion = None,
                    riRowPitch = None, riSlicePitch = None\<rparr>)
      in check_support Q (riSource b) b)"

definition ReadImage_SetBlocking where
  "ReadImage_SetBlocking E B (b :: read_image_builder) = SetBlocking_common E B b"

definition ReadImage_SetCopyArea ::
  "triple option \<Rightarrow> triple option \<Rightarrow> size_t \<Rightarrow> size_t \<Rightarrow> read_image_builder \<Rightarrow> read_image_builder" where
  "ReadImage_SetCopyArea SourceOrigin Region TargetRowPitch TargetSlicePitch b =
     (case riSource b of
        None \<Rightarrow> b
      | Some Source \<Rightarrow>
     (case SourceOrigin of
        None \<Rightarrow> NotifyError CL_INVALID_VALUE ''origin is null'' b
      | Some Or \<Rightarrow>
     (case Region of
        None \<Rightarrow> NotifyError CL_INVALID_VALUE ''region is null'' b
      | Some R \<Rightarrow>
        if region_is_empty R then NotifyError CL_INVALID_VALUE ''invalid region'' b
        else let (b1, valid) = IsValidImgRegion Source Or R b in
        if \<not> valid then b1
        else let b2 = b1\<lparr>riRegion := Some R, riSourceOrigin := Some Or\<rparr> in
       (case default_pitch (ix0 R * getElementSize Source) TargetRowPitch of
          None \<Rightarrow> NotifyError CL_INVALID_VALUE ''invalid row pitch'' b2
        | Some rp \<Rightarrow>
          let b3 = b2\<lparr>riRowPitch := Some rp\<rparr> in
         (case default_pitch (rp * ix1 R) TargetSlicePitch of
            None \<Rightarrow> NotifyError CL_INVALID_VALUE ''invalid slice pitch'' b3
          | Some sp \<Rightarrow> b3\<lparr>riSlicePitch := Some sp\<rparr>)))))"

definition ReadImage_SetWaitList where
  "ReadImage_SetWaitList E N Evs (b :: read_image_builder) = SetWaitList_blocking E N Evs b"

definition ReadImage_Create :: "read_image_builder \<Rightarrow> command option \<times> cl_int" where
  "ReadImage_Create b =
     create_command b (EnqueueReadImage (riTarget b) (the (riSource b)) (bBlocking b) (the (riSourceOrigin b))
                         (the (riRegion b)) (the (riRowPitch b), the (riSlicePitch b)) (bWait b))"

section \<open>Writing an image\<close>

text \<open>
  The constructor tests its image where the message speaks of the data pointer, so a null data
  pointer is accepted, and a handle that gives no image is reported twice.
\<close>

record write_image_builder = blocking_builder +
  wiTarget :: "mem_object option"
  wiSource :: ptr
  wiTargetOrigin :: "triple option"
  wiRegion :: "triple option"
  wiRowPitch :: "size_t option"
  wiSlicePitch :: "size_t option"

definition WriteImage_Builder :: "queue_info \<Rightarrow> cl_mem \<Rightarrow> ptr \<Rightarrow> write_image_builder" where
  "WriteImage_Builder Q Img Source =
     (let b = with_image Img ''write target is null'' ''write target is not an image''
                (\<lambda>mo b. b\<lparr>wiTarget := Some mo\<rparr>)
                (check_access Q CL_MEM_HOST_READ_ONLY ''invalid write image operation''
                   ''command queue and image have different context'')
                \<lparr>bCtx = QContext Q, bErr = CL_SUCCESS, bWait = [], bDiag = [], bBlocking = False,
                 wiTarget = None, wiSource = Source, wiTargetOrigin = None, wiRegion = None,
                 wiRowPitch = None, wiSlicePitch = None\<rparr>;
          b1 = (if wiTarget b = None
                then NotifyError CL_INVALID_VALUE ''pointer to data source is null'' b else b)
      in check_support Q (wiTarget b1) b1)"

definition WriteImage_SetBlocking where
  "WriteImage_SetBlocking E B (b :: write_image_builder) = SetBlocking_common E B b"

definition WriteImage_SetCopyArea ::
  "triple option \<Rightarrow> triple option \<Rightarrow> size_t \<Rightarrow> size_t \<Rightarrow> write_image_builder \<Rightarrow> write_image_builder" where
  "WriteImage_SetCopyArea TargetOrigin Region SourceRowPitch SourceSlicePitch b =
     (case wiTarget b of
        None \<Rightarrow> b
      | Some Target \<Rightarrow>
     (case TargetOrigin of
        None \<Rightarrow> NotifyError CL_INVALID_VALUE ''origin is null'' b
      | Some Or \<Rightarrow>
     (case Region of
        None \<Rightarrow> NotifyError CL_INVALID_VALUE ''region is null'' b
      | Some R \<Rightarrow>
        if region_is_empty R then NotifyError CL_INVALID_VALUE ''invalid region'' b
        else let (b1, valid) = IsValidImgRegion Target Or R b in
        if \<not> valid then b1
        else let b2 = b1\<lparr>wiRegion := Some R, wiTargetOrigin := Some Or\<rparr> in
       (case default_pitch (ix0 R * getElementSize Target) SourceRowPitch of
          None \<Rightarrow> NotifyError CL_INVALID_VALUE ''invalid row pitch'' b2
        | Some rp \<Rightarrow>
          let b3 = b2\<lparr>wiRowPitch := Some rp\<rparr> in
         (case default_pitch (rp * ix1 R) SourceSlicePitch of
            None \<Rightarrow> NotifyError CL_INVALID_VALUE ''invalid slice pitch'' b3
          | Some sp \<Rightarrow> b3\<lparr>wiSlicePitch := Some sp\<rparr>)))))"

definition WriteImage_SetWaitList where
  "WriteImage_SetWaitList E N Evs (b :: write_image_builder) = SetWaitList_blocking E N Evs b"

definition WriteImage_Create :: "write_image_builder \<Rightarrow> command option \<times> cl_int" where
  "WriteImage_Create b =
     create_command b (EnqueueWriteImage (the (wiTarget b)) (wiSource b) (bBlocking b) (the (wiTargetOrigin b))
                         (the (wiRegion b)) (the (wiRowPitch b), the (wiSlicePitch b)) (bWait b))"

section \<open>Copying images\<close>

text \<open>
  The last test of the constructor compares the formats of source and target, and reads the
  target through its pointer even when that is null: the result \<open>None\<close>.
\<close>

record copy_image_builder = cmd_builder +
  ciTarget :: "mem_object option"
  ciSource :: "mem_object option"
  ciTargetOrigin :: "triple option"
  ciSourceOrigin :: "triple option"
  ciRegion :: "triple option"

definition check_formats :: "mem_object option \<Rightarrow> mem_object \<Rightarrow> 'a cmd_builder_scheme \<Rightarrow> 'a cmd_builder_scheme option" where
  "check_formats Target Source b =
     (case Target of
        None \<Rightarrow> None
      | Some T \<Rightarrow>
        Some (if ChOrder (attrsOf Source) \<noteq> ChOrder (attrsOf T) \<or> ChDataType (attrsOf Source) \<noteq> ChDataType (attrsOf T)
              then NotifyError CL_IMAGE_FORMAT_MISMATCH ''target and source image use different image formats'' b
              else b))"

definition CopyImage_Builder :: "queue_info \<Rightarrow> cl_mem \<Rightarrow> cl_mem \<Rightarrow> copy_image_builder option" where
  "CopyImage_Builder Q TargetImg SourceImg =
     (let b = with_image TargetImg ''copy target is null'' ''copy target is not an image''
                (\<lambda>mo b. b\<lparr>ciTarget := Some mo\<rparr>)
                (check_context Q ''command queue and target image have different context'')
                \<lparr>bCtx = QContext Q, bErr = CL_SUCCESS, bWait = [], bDiag = [], ciTarget = None,
                 ciSource = None, ciTargetOrigin = None, ciSourceOrigin = None, ciRegion = None\<rparr>;
          opened = (case SourceImg of
                      None \<Rightarrow> Some (NotifyError CL_INVALID_MEM_OBJECT ''copy source is null'' b)
                    | Some mo \<Rightarrow>
                     (case cast_image mo of
                        None \<Rightarrow> Some (NotifyError CL_INVALID_MEM_OBJECT ''copy source is not an image'' b)
                      | Some img \<Rightarrow>
                        let b1 = b\<lparr>ciSource := Some img\<rparr> in
                        if QContext Q \<noteq> getContext img
                        then Some (NotifyError CL_INVALID_CONTEXT
                                     ''command queue and source image have different context'' b1)
                        else check_formats (ciTarget b1) img b1))
      in map_option (\<lambda>b2. check_support Q (ciSource b2) (check_support Q (ciTarget b2) b2)) opened)"

definition CopyImage_SetCopyArea ::
  "triple option \<Rightarrow> triple option \<Rightarrow> triple option \<Rightarrow> copy_image_builder \<Rightarrow> copy_image_builder" where
  "CopyImage_SetCopyArea TargetOrigin SourceOrigin Region b =
     (case (ciTarget b, ciSource b) of
        (Some Target, Some Source) \<Rightarrow>
       (case (TargetOrigin, SourceOrigin) of
          (Some TOr, Some SOr) \<Rightarrow>
         (case Region of
            None \<Rightarrow> NotifyError CL_INVALID_VALUE ''region is null'' b
          | Some R \<Rightarrow>
            if region_is_empty R then NotifyError CL_INVALID_VALUE ''invalid region'' b
            else let (b1, valid_target) = IsValidImgRegion Target TOr R b in
            if \<not> valid_target then b1
            else let (b2, valid_source) = IsValidImgRegion Source SOr R b1 in
            if \<not> valid_source then b2
            else b2\<lparr>ciRegion := Some R, ciTargetOrigin := Some TOr, ciSourceOrigin := Some SOr\<rparr>)
        | _ \<Rightarrow> NotifyError CL_INVALID_VALUE ''origin is null'' b)
      | _ \<Rightarrow> b)"

definition CopyImage_SetWaitList where
  "CopyImage_SetWaitList E N Evs (b :: copy_image_builder) = SetWaitList_plain E N Evs b"

definition CopyImage_Create :: "copy_image_builder \<Rightarrow> command option \<times> cl_int" where
  "CopyImage_Create b =
     create_command b (EnqueueCopyImage (the (ciTarget b)) (the (ciSource b)) (the (ciTargetOrigin b))
                         (the (ciSourceOrigin b)) (the (ciRegion b)) (bWait b))"

section \<open>Copying an image to a buffer\<close>

record copy_image_to_buffer_builder = cmd_builder +
  ibTarget :: "mem_object option"
  ibSource :: "mem_object option"
  ibTargetOffset :: size_t
  ibSourceOrigin :: "triple option"
  ibRegion :: "triple option"

definition CopyImageToBuffer_Builder :: "queue_info \<Rightarrow> cl_mem \<Rightarrow> cl_mem \<Rightarrow> copy_image_to_buffer_builder" where
  "CopyImageToBuffer_Builder Q TargetBuf SourceImg =
     (let b = with_buffer Q TargetBuf ''copy target is null'' ''copy target is not a buffer''
                ''target sub-buffer offset is not aligned with device''
                (\<lambda>mo b. b\<lparr>ibTarget := Some mo\<rparr>)
                (check_context Q ''command queue and target buffer have different context'')
                \<lparr>bCtx = QContext Q, bErr = CL_SUCCESS, bWait = [], bDiag = [], ibTarget = None,
                 ibSource = None, ibTargetOffset = 0, ibSourceOrigin = None, ibRegion = None\<rparr>;
          b1 = with_image SourceImg ''copy source is null'' ''copy source is not an image''
                 (\<lambda>mo b. b\<lparr>ibSource := Some mo\<rparr>)
                 (\<lambda>img b. if image_of_buffer img (ibTarget b)
                          then NotifyError CL_INVALID_MEM_OBJECT ''copy source created from target buffer'' b
                          else check_context Q ''command queue and source image have different context'' img b)
                 b
      in check_support Q (ibSource b1) b1)"

definition CopyImageToBuffer_SetCopyArea ::
  "size_t \<Rightarrow> triple option \<Rightarrow> triple option \<Rightarrow> copy_image_to_buffer_builder \<Rightarrow> copy_image_to_buffer_builder" where
  "CopyImageToBuffer_SetCopyArea TargetOffset SourceOrigin Region b =
     (case (ibTarget b, ibSource b) of
        (Some Target, Some Source) \<Rightarrow>
       (case SourceOrigin of
          None \<Rightarrow> NotifyError CL_INVALID_VALUE ''origin is null'' b
        | Some Or \<Rightarrow>
       (case Region of
          None \<Rightarrow> NotifyError CL_INVALID_VALUE ''region is null'' b
        | Some R \<Rightarrow>
          if region_is_empty R then NotifyError CL_INVALID_VALUE ''invalid region'' b
          else let (b1, valid) = IsValidImgRegion Source Or R b in
          if \<not> valid then b1
          else let b2 = b1\<lparr>ibRegion := Some R, ibSourceOrigin := Some Or\<rparr> in
          if TargetOffset + packed_size Source R > getSize Target
          then NotifyError CL_INVALID_VALUE ''target region out of bounds'' b2
          else b2\<lparr>ibTargetOffset := TargetOffset\<rparr>))
      | _ \<Rightarrow> b)"

definition CopyImageToBuffer_SetWaitList where
  "CopyImageToBuffer_SetWaitList E N Evs (b :: copy_image_to_buffer_builder) = SetWaitList_plain E N Evs b"

definition CopyImageToBuffer_Create :: "copy_image_to_buffer_builder \<Rightarrow> command option \<times> cl_int" where
  "CopyImageToBuffer_Create b =
     create_command b (EnqueueCopyImageToBuffer (the (ibTarget b)) (the (ibSource b)) (ibTargetOffset b)
                         (the (ibSourceOrigin b)) (the (ibRegion b)) (bWait b))"

section \<open>Copying a buffer to an image\<close>

record copy_buffer_to_image_builder = cmd_builder +
  biTarget :: "mem_object option"
  biSource :: "mem_object option"
  biTargetOrigin :: "triple option"
  biRegion :: "triple option"
  biSourceOffset :: size_t

definition CopyBufferToImage_Builder :: "queue_info \<Rightarrow> cl_mem \<Rightarrow> cl_mem \<Rightarrow> copy_buffer_to_image_builder" where
  "CopyBufferToImage_Builder Q TargetImg SourceBuf =
     (let b = with_buffer Q SourceBuf ''copy source is null'' ''copy source is not an buffer''
                ''source sub-buffer offset is not aligned with device''
                (\<lambda>mo b. b\<lparr>biSource := Some mo\<rparr>)
                (check_context Q ''command queue and source buffer have different context'')
                \<lparr>bCtx = QContext Q, bErr = CL_SUCCESS, bWait = [], bDiag = [], biTarget = None,
                 biSource = None, biTargetOrigin = None, biRegion = None, biSourceOffset = 0\<rparr>;
          b1 = with_image TargetImg ''copy target is null'' ''copy target is not an image''
                 (\<lambda>mo b. b\<lparr>biTarget := Some mo\<rparr>)
                 (\<lambda>img b. if image_of_buffer img (biSource b)
                          then NotifyError CL_INVALID_MEM_OBJECT ''copy source created from target buffer'' b
                          else check_context Q ''command queue and target image have different context'' img b)
                 b
      in check_support Q (biTarget b1) b1)"

definition CopyBufferToImage_SetCopyArea ::
  "triple option \<Rightarrow> triple option \<Rightarrow> size_t \<Rightarrow> copy_buffer_to_image_builder \<Rightarrow> copy_buffer_to_image_builder" where
  "CopyBufferToImage_SetCopyArea TargetOrigin Region SourceOffset b =
     (case (biTarget b, biSource b) of
        (Some Target, Some Source) \<Rightarrow>
       (case TargetOrigin of
          None \<Rightarrow> NotifyError CL_INVALID_VALUE ''origin is null'' b
        | Some Or \<Rightarrow>
       (case Region of
          None \<Rightarrow> NotifyError CL_INVALID_VALUE ''region is null'' b
        | Some R \<Rightarrow>
          if region_is_empty R then NotifyError CL_INVALID_VALUE ''invalid region'' b
          else let (b1, valid) = IsValidImgRegion Target Or R b in
          if \<not> valid then b1
          else let b2 = b1\<lparr>biRegion := Some R, biTargetOrigin := Some Or\<rparr> in
          if SourceOffset + packed_size Target R > getSize Source
          then NotifyError CL_INVALID_VALUE ''source region out of bounds'' b2
          else b2\<lparr>biSourceOffset := SourceOffset\<rparr>))
      | _ \<Rightarrow> b)"

definition CopyBufferToImage_SetWaitList where
  "CopyBufferToImage_SetWaitList E N Evs (b :: copy_buffer_to_image_builder) = SetWaitList_plain E N Evs b"

definition CopyBufferToImage_Create :: "copy_buffer_to_image_builder \<Rightarrow> command option \<times> cl_int" where
  "CopyBufferToImage_Create b =
     create_command b (EnqueueCopyBufferToImage (the (biTarget b)) (the (biSource b)) (the (biTargetOrigin b))
                         (the (biRegion b)) (biSourceOffset b) (bWait b))"

section \<open>Filling an image\<close>

record fill_image_builder = cmd_builder +
  fiTarget :: "mem_object option"
  fiSource :: ptr
  fiTargetOrigin :: "triple option"
  fiTargetRegion :: "triple option"

definition FillImage_Builder :: "queue_info \<Rightarrow> cl_mem \<Rightarrow> ptr \<Rightarrow> fill_image_builder" where
  "FillImage_Builder Q Img FillColor =
     (let b = check_pointer FillColor ''pointer to fill color is null''
                (with_image Img ''fill target is null'' ''fill target is not an image''
                   (\<lambda>mo b. b\<lparr>fiTarget := Some mo\<rparr>)
                   (check_context Q ''command queue and image have different context'')
                   \<lparr>bCtx = QContext Q, bErr = CL_SUCCESS, bWait = [], bDiag = [], fiTarget = None,
                    fiSource = FillColor, fiTargetOrigin = None, fiTargetRegion = None\<rparr>)
      in check_support Q (fiTarget b) b)"

definition FillImage_SetFillRegion ::
  "triple option \<Rightarrow> triple option \<Rightarrow> fill_image_builder \<Rightarrow> fill_image_builder" where
  "FillImage_SetFillRegion TargetOrigin TargetRegion b =
     (case fiTarget b of
        None \<Rightarrow> b
      | Some Target \<Rightarrow>
     (case TargetOrigin of
        None \<Rightarrow> NotifyError CL_INVALID_VALUE ''origin is null'' b
      | Some Or \<Rightarrow>
        let b0 = b\<lparr>fiTargetOrigin := Some Or\<rparr> in
     (case TargetRegion of
        None \<Rightarrow> NotifyError CL_INVALID_VALUE ''region is null'' b0
      | Some R \<Rightarrow>
        if region_is_empty R then NotifyError CL_INVALID_VALUE ''invalid region'' b0
        else let (b1, valid) = IsValidImgRegion Target Or R b0 in
        if \<not> valid then b1 else b1\<lparr>fiTargetRegion := Some R\<rparr>)))"

definition FillImage_SetWaitList where
  "FillImage_SetWaitList E N Evs (b :: fill_image_builder) = SetWaitList_plain E N Evs b"

definition FillImage_Create :: "memory \<Rightarrow> fill_image_builder \<Rightarrow> command option \<times> cl_int" where
  "FillImage_Create m b =
     create_command b (EnqueueFillImage m (the (fiTarget b)) (fiSource b) (the (fiTargetOrigin b))
                         (the (fiTargetRegion b)) (bWait b))"

end
