(* ===== verification/Map_Builders.thy ===== *)
theory Map_Builders
  imports Image_Builders
begin

text \<open>
  The builders of the mapping commands, \<open>EnqueueMapBuffer\<close> and \<open>EnqueueMapImage\<close> of
  \<open>lib/Core/Command.cpp\<close>. They do part of the work of the command themselves: \<open>SetMapBuffer\<close> takes
  the address of the storage from the device and records the mapping in the object, in the store
  of \<open>Memory_Object\<close>. \<open>dev_map\<close> is the address the device of the queue maps an object at.

  \<open>SetMapBuffer\<close> fills a record on the stack and leaves the parts of it that a one-dimensional
  mapping does not need uninitialised; \<open>junk\<close> is what the record holds before.
\<close>

section \<open>Map flags\<close>

definition map_flags_error :: "mem_flags \<Rightarrow> mem_object \<Rightarrow> (cl_int \<times> string) option" where
  "map_flags_error MapFlags Source =
     (let flag = has_flag MapFlags; prot = has_flag (getFlags Source);
          combination = Some (CL_INVALID_VALUE, ''invalid flag combination'');
          operation = Some (CL_INVALID_OPERATION, ''invalid map operation'')
      in if flag CL_MAP_READ \<and> flag CL_MAP_WRITE_INVALIDATE_REGION then combination
         else if flag CL_MAP_READ \<and> (prot CL_MEM_HOST_WRITE_ONLY \<or> prot CL_MEM_HOST_NO_ACCESS) then operation
         else if flag CL_MAP_WRITE \<and> flag CL_MAP_WRITE_INVALIDATE_REGION then combination
         else if flag CL_MAP_WRITE \<and> (prot CL_MEM_HOST_READ_ONLY \<or> prot CL_MEM_HOST_NO_ACCESS) then operation
         else if flag CL_MAP_WRITE_INVALIDATE_REGION \<and> (flag CL_MAP_READ \<or> flag CL_MAP_WRITE) then combination
         else if flag CL_MAP_WRITE_INVALIDATE_REGION \<and>
                 (prot CL_MEM_HOST_READ_ONLY \<or> prot CL_MEM_HOST_NO_ACCESS) then operation
         else None)"

section \<open>Mapping a buffer\<close>

record map_buffer_builder = blocking_builder +
  mbSource :: "mem_object option"
  mbMapFlags :: mem_flags
  mbOffset :: size_t
  mbSize :: size_t
  mbMapBuf :: ptr

definition MapBuffer_Builder :: "queue_info \<Rightarrow> cl_mem \<Rightarrow> map_buffer_builder" where
  "MapBuffer_Builder Q Buf =
     with_buffer Q Buf ''map source is null'' ''map source is not a buffer''
       ''source sub-buffer offset is not aligned with device''
       (\<lambda>mo b. b\<lparr>mbSource := Some mo\<rparr>)
       (check_context Q ''command queue and buffer have different context'')
       \<lparr>bCtx = QContext Q, bErr = CL_SUCCESS, bWait = [], bDiag = [], bBlocking = False, mbSource = None,
        mbMapFlags = 0, mbOffset = 0, mbSize = 0, mbMapBuf = NULL\<rparr>"

definition MapBuffer_SetBlocking where
  "MapBuffer_SetBlocking E B (b :: map_buffer_builder) = SetBlocking_common E B b"

definition MapBuffer_SetMapFlags :: "mem_flags \<Rightarrow> map_buffer_builder \<Rightarrow> map_buffer_builder" where
  "MapBuffer_SetMapFlags MapFlags b =
     (case mbSource b of
        None \<Rightarrow> b
      | Some Source \<Rightarrow>
       (case map_flags_error MapFlags Source of
          Some (e, msg) \<Rightarrow> NotifyError e msg b
        | None \<Rightarrow> b\<lparr>mbMapFlags := MapFlags\<rparr>))"

definition MapBuffer_SetMapArea :: "size_t \<Rightarrow> size_t \<Rightarrow> map_buffer_builder \<Rightarrow> map_buffer_builder" where
  "MapBuffer_SetMapArea off n b =
     (case mbSource b of
        None \<Rightarrow> b
      | Some Source \<Rightarrow>
        if off + n > getSize Source then NotifyError CL_INVALID_VALUE ''out of bounds buffer mapping'' b
        else b\<lparr>mbOffset := off, mbSize := n\<rparr>)"

definition linear_map_info :: "map_info \<Rightarrow> size_t \<Rightarrow> size_t \<Rightarrow> mem_flags \<Rightarrow> map_info" where
  "linear_map_info junk off n fl =
     \<lparr>MapOffset = (MapOffset junk)\<lparr>ix0 := off\<rparr>, MapSize = (MapSize junk)\<lparr>ix0 := n\<rparr>, MapFlagsOf = fl\<rparr>"

text \<open>No earlier error stops this method.\<close>

definition MapBuffer_SetMapBuffer ::
  "(mem_object \<Rightarrow> ptr) \<Rightarrow> map_info \<Rightarrow> map_store \<Rightarrow> map_buffer_builder \<Rightarrow> map_store \<times> map_buffer_builder" where
  "MapBuffer_SetMapBuffer dev_map junk S b =
     (case mbSource b of
        None \<Rightarrow> (S, b)
      | Some Source \<Rightarrow>
        let MapPtr = acquireMappingAddrFor dev_map Source;
            (S', ok) = addMapping Source MapPtr (linear_map_info junk (mbOffset b) (mbSize b) (mbMapFlags b)) S
        in if \<not> ok then (S', NotifyError CL_MAP_FAILURE ''cannot get host pointer to mapped data'' b)
           else (S', b\<lparr>mbMapBuf := MapPtr\<rparr>))"

definition MapBuffer_SetWaitList where
  "MapBuffer_SetWaitList E N Evs (b :: map_buffer_builder) = SetWaitList_blocking E N Evs b"

definition MapBuffer_Create :: "map_buffer_builder \<Rightarrow> command option \<times> cl_int" where
  "MapBuffer_Create b =
     create_command b (EnqueueMapBuffer (the (mbSource b)) (bBlocking b) (mbMapFlags b) (mbOffset b)
                         (mbSize b) (mbMapBuf b) (bWait b))"

section \<open>Mapping an image\<close>

record map_image_builder = blocking_builder +
  miSource :: "mem_object option"
  miMapFlags :: mem_flags
  miOrigin :: "triple option"
  miRegion :: "triple option"
  miMapBuf :: ptr
  miMapPitches :: "pitches option"

definition MapImage_Builder :: "queue_info \<Rightarrow> cl_mem \<Rightarrow> map_image_builder" where
  "MapImage_Builder Q Img =
     (let b = with_image Img ''map source is null'' ''map source is not an image''
                (\<lambda>mo b. b\<lparr>miSource := Some mo\<rparr>)
                (check_context Q ''command queue and image have different context'')
                \<lparr>bCtx = QContext Q, bErr = CL_SUCCESS, bWait = [], bDiag = [], bBlocking = False,
                 miSource = None, miMapFlags = 0, miOrigin = None, miRegion = None, miMapBuf = NULL,
                 miMapPitches = None\<rparr>
      in check_support Q (miSource b) b)"

definition MapImage_SetBlocking where
  "MapImage_SetBlocking E B (b :: map_image_builder) = SetBlocking_common E B b"

definition MapImage_SetMapFlags :: "mem_flags \<Rightarrow> map_image_builder \<Rightarrow> map_image_builder" where
  "MapImage_SetMapFlags MapFlags b =
     (case miSource b of
        None \<Rightarrow> b
      | Some Source \<Rightarrow>
       (case map_flags_error MapFlags Source of
          Some (e, msg) \<Rightarrow> NotifyError e msg b
        | None \<Rightarrow> b\<lparr>miMapFlags := MapFlags\<rparr>))"

definition MapImage_SetMapArea :: "triple option \<Rightarrow> triple option \<Rightarrow> map_image_builder \<Rightarrow> map_image_builder" where
  "MapImage_SetMapArea Origin Region b =
     (case miSource b of
        None \<Rightarrow> b
      | Some Source \<Rightarrow>
       (case Origin of
          None \<Rightarrow> NotifyError CL_INVALID_VALUE ''origin is null'' b
        | Some Or \<Rightarrow>
          let b0 = b\<lparr>miOrigin := Some Or\<rparr> in
         (case Region of
            None \<Rightarrow> NotifyError CL_INVALID_VALUE ''region is null'' b0
          | Some R \<Rightarrow>
            if region_is_empty R then NotifyError CL_INVALID_VALUE ''invalid region'' b0
            else let (b1, valid) = IsValidImgRegion Source Or R b0 in
            if \<not> valid then b1 else b1\<lparr>miRegion := Some R\<rparr>)))"

text \<open>
  The arguments say whether the two pointers for the pitches are given; the values written through
  them are those of \<open>miMapPitches\<close>. The slice pitch is written through its pointer whatever the
  type of the image; \<open>None\<close> is that write through null.
\<close>

definition MapImage_SetMapPitches :: "bool \<Rightarrow> bool \<Rightarrow> map_image_builder \<Rightarrow> map_image_builder option" where
  "MapImage_SetMapPitches row_given slice_given b =
     (case (miSource b, miRegion b) of
        (Some Source, Some R) \<Rightarrow>
          if \<not> row_given then Some (NotifyError CL_INVALID_VALUE ''image row pitch is null'' b)
          else if ImgTy (attrsOf Source) \<in> {Image1D_Array, Image2D_Array, Image3D} \<and> \<not> slice_given
          then Some (NotifyError CL_INVALID_VALUE ''image slice pitch is null'' b)
          else if \<not> slice_given then None
          else Some (b\<lparr>miMapPitches := Some (RowPitch (Desc (attrsOf Source)), SlicePitch (Desc (attrsOf Source)))\<rparr>)
      | _ \<Rightarrow> Some b)"

definition MapImage_SetMapBuffer ::
  "(mem_object \<Rightarrow> ptr) \<Rightarrow> map_info \<Rightarrow> map_store \<Rightarrow> map_image_builder \<Rightarrow> map_store \<times> map_image_builder" where
  "MapImage_SetMapBuffer dev_map junk S b =
     (case (miSource b, miOrigin b, miRegion b) of
        (Some Source, Some Or, Some R) \<Rightarrow>
          let Info = (if ImgTy (attrsOf Source) = Image1D_Buffer
                      then linear_map_info junk (ix0 Or * getElementSize Source) (ix0 R * getElementSize Source)
                             (miMapFlags b)
                      else \<lparr>MapOffset = Or, MapSize = R, MapFlagsOf = miMapFlags b\<rparr>);
              MapPtr = acquireMappingAddrFor dev_map Source;
              (S', ok) = addMapping Source MapPtr Info S
          in if \<not> ok then (S', NotifyError CL_MAP_FAILURE ''cannot get host pointer to mapped data'' b)
             else (S', b\<lparr>miMapBuf := MapPtr\<rparr>)
      | _ \<Rightarrow> (S, b))"

definition MapImage_SetWaitList where
  "MapImage_SetWaitList E N Evs (b :: map_image_builder) = SetWaitList_blocking E N Evs b"

definition MapImage_Create :: "map_image_builder \<Rightarrow> command option \<times> cl_int" where
  "MapImage_Create b =
     create_command b (EnqueueMapImage (the (miSource b)) (bBlocking b) (miMapFlags b) (the (miOrigin b))
                         (the (miRegion b)) (miMapBuf b) (miMapPitches b) (bWait b))"

end
