(* ===== verification/Rect_Builders.thy ===== *)
theory Rect_Builders
  imports Image_Builders
begin

text \<open>
  The builders of the commands on rectangular regions of buffers, \<open>lib/Core/Command.cpp\<close>:
  \<open>EnqueueReadBufferRect\<close>, \<open>EnqueueWriteBufferRect\<close> and \<open>EnqueueCopyBufferRect\<close>. The pitches a
  constructor leaves uninitialised are \<open>None\<close>. The members \<open>TargetOrigin\<close> and \<open>SourceOrigin\<close> of the
  first two builders stay null and are left out.
\<close>

section \<open>Shared arithmetic\<close>

definition rect_slice_pitch :: "triple \<Rightarrow> size_t \<Rightarrow> size_t \<Rightarrow> size_t option" where
  "rect_slice_pitch R rp sp =
     (if sp = 0 then Some (ix1 R * rp)
      else if sp < ix1 R * rp \<or> sp mod rp \<noteq> 0 then None else Some sp)"

text \<open>The pitch tests of a \<open>SetOffset\<close> method; \<open>k\<close> is what follows them.\<close>

definition with_rect_pitches ::
  "string \<Rightarrow> string \<Rightarrow> triple \<Rightarrow> size_t \<Rightarrow> size_t \<Rightarrow>
   (size_t \<Rightarrow> 'a cmd_builder_scheme \<Rightarrow> 'a cmd_builder_scheme) \<Rightarrow>
   (size_t \<Rightarrow> 'a cmd_builder_scheme \<Rightarrow> 'a cmd_builder_scheme) \<Rightarrow>
   (size_t \<Rightarrow> size_t \<Rightarrow> 'a cmd_builder_scheme \<Rightarrow> 'a cmd_builder_scheme) \<Rightarrow>
   'a cmd_builder_scheme \<Rightarrow> 'a cmd_builder_scheme" where
  "with_rect_pitches row_msg slice_msg R rp sp set_row set_slice k b =
     (case default_pitch (ix0 R) rp of
        None \<Rightarrow> NotifyError CL_INVALID_VALUE row_msg b
      | Some p0 \<Rightarrow>
        let b1 = set_row p0 b in
       (case rect_slice_pitch R p0 sp of
          None \<Rightarrow> NotifyError CL_INVALID_VALUE slice_msg b1
        | Some p1 \<Rightarrow> k p0 p1 (set_slice p1 b1)))"

definition rect_offset :: "triple \<Rightarrow> size_t \<Rightarrow> size_t \<Rightarrow> size_t" where
  "rect_offset Or p0 p1 = ix0 Or + ix1 Or * p0 + ix2 Or * p1"

text \<open>The index of the last byte of the region, which the code compares with the size.\<close>

definition rect_last :: "triple \<Rightarrow> triple \<Rightarrow> size_t \<Rightarrow> size_t \<Rightarrow> size_t" where
  "rect_last Or R p0 p1 =
     (ix0 Or + (ix0 R - 1)) + (ix1 Or + (ix1 R - 1)) * p0 + (ix2 Or + (ix2 R - 1)) * p1"

section \<open>Reading a region\<close>

record read_rect_builder = blocking_builder +
  rrTarget :: ptr
  rrSource :: "mem_object option"
  rrRegion :: "triple option"
  rrTargetRowPitch :: "size_t option"
  rrTargetSlicePitch :: "size_t option"
  rrSourceRowPitch :: "size_t option"
  rrSourceSlicePitch :: "size_t option"
  rrTargetOffset :: size_t
  rrSourceOffset :: size_t

definition ReadBufferRect_Builder :: "queue_info \<Rightarrow> cl_mem \<Rightarrow> ptr \<Rightarrow> read_rect_builder" where
  "ReadBufferRect_Builder Q Buf Ptr =
     check_pointer Ptr ''pointer to data sink is null''
       (with_buffer Q Buf ''read source is null'' ''read source is not a buffer''
          ''source sub-buffer offset is not aligned with device''
          (\<lambda>mo b. b\<lparr>rrSource := Some mo\<rparr>)
          (check_access Q CL_MEM_HOST_WRITE_ONLY ''invalid read buffer operation''
             ''command queue and buffer have different context'')
          \<lparr>bCtx = QContext Q, bErr = CL_SUCCESS, bWait = [], bDiag = [], bBlocking = False,
           rrTarget = Ptr, rrSource = None, rrRegion = None, rrTargetRowPitch = None,
           rrTargetSlicePitch = None, rrSourceRowPitch = None, rrSourceSlicePitch = None,
           rrTargetOffset = 0, rrSourceOffset = 0\<rparr>)"

definition ReadBufferRect_SetBlocking where
  "ReadBufferRect_SetBlocking E B (b :: read_rect_builder) = SetBlocking_common E B b"

definition ReadBufferRect_SetRegion :: "triple option \<Rightarrow> read_rect_builder \<Rightarrow> read_rect_builder" where
  "ReadBufferRect_SetRegion Region b =
     (case Region of
        None \<Rightarrow> NotifyError CL_INVALID_VALUE ''region is null'' b
      | Some R \<Rightarrow>
        if region_is_empty R then NotifyError CL_INVALID_VALUE ''invalid region'' b
        else b\<lparr>rrRegion := Some R\<rparr>)"

definition ReadBufferRect_SetTargetOffset ::
  "triple option \<Rightarrow> size_t \<Rightarrow> size_t \<Rightarrow> read_rect_builder \<Rightarrow> read_rect_builder" where
  "ReadBufferRect_SetTargetOffset TargetOrigin rp sp b =
     (case rrRegion b of
        None \<Rightarrow> b
      | Some R \<Rightarrow>
     (case TargetOrigin of
        None \<Rightarrow> NotifyError CL_INVALID_VALUE ''target origin is null'' b
      | Some Or \<Rightarrow>
        with_rect_pitches ''invalid host row pitch'' ''invalid host slice pitch'' R rp sp
          (\<lambda>p b. b\<lparr>rrTargetRowPitch := Some p\<rparr>) (\<lambda>p b. b\<lparr>rrTargetSlicePitch := Some p\<rparr>)
          (\<lambda>p0 p1 b. b\<lparr>rrTargetOffset := rect_offset Or p0 p1\<rparr>) b))"

definition ReadBufferRect_SetSourceOffset ::
  "triple option \<Rightarrow> size_t \<Rightarrow> size_t \<Rightarrow> read_rect_builder \<Rightarrow> read_rect_builder" where
  "ReadBufferRect_SetSourceOffset SourceOrigin rp sp b =
     (case (rrSource b, rrRegion b) of
        (Some Source, Some R) \<Rightarrow>
       (case SourceOrigin of
          None \<Rightarrow> NotifyError CL_INVALID_VALUE ''source origin is null'' b
        | Some Or \<Rightarrow>
          with_rect_pitches ''invalid buffer row pitch'' ''invalid buffer slice pitch'' R rp sp
            (\<lambda>p b. b\<lparr>rrSourceRowPitch := Some p\<rparr>) (\<lambda>p b. b\<lparr>rrSourceSlicePitch := Some p\<rparr>)
            (\<lambda>p0 p1 b. if getSize Source < rect_last Or R p0 p1
                        then NotifyError CL_INVALID_VALUE ''region out of bound'' b
                        else b\<lparr>rrSourceOffset := rect_offset Or p0 p1\<rparr>) b)
      | _ \<Rightarrow> b)"

definition ReadBufferRect_SetWaitList where
  "ReadBufferRect_SetWaitList E N Evs (b :: read_rect_builder) = SetWaitList_blocking E N Evs b"

definition ReadBufferRect_Create :: "read_rect_builder \<Rightarrow> command option \<times> cl_int" where
  "ReadBufferRect_Create b =
     create_command b (EnqueueReadBufferRect (rrTarget b) (the (rrSource b)) (bBlocking b) (the (rrRegion b))
                         (rrTargetOffset b) (rrSourceOffset b)
                         (the (rrTargetRowPitch b), the (rrTargetSlicePitch b))
                         (the (rrSourceRowPitch b), the (rrSourceSlicePitch b)) (bWait b))"

section \<open>Writing a region\<close>

text \<open>The constructor refuses buffers the host may only write, not those it may only read.\<close>

record write_rect_builder = blocking_builder +
  wrTarget :: "mem_object option"
  wrSource :: ptr
  wrRegion :: "triple option"
  wrTargetRowPitch :: "size_t option"
  wrTargetSlicePitch :: "size_t option"
  wrSourceRowPitch :: "size_t option"
  wrSourceSlicePitch :: "size_t option"
  wrTargetOffset :: size_t
  wrSourceOffset :: size_t

definition WriteBufferRect_Builder :: "queue_info \<Rightarrow> cl_mem \<Rightarrow> ptr \<Rightarrow> write_rect_builder" where
  "WriteBufferRect_Builder Q Buf Ptr =
     check_pointer Ptr ''pointer to data source is null''
       (with_buffer Q Buf ''write target is null'' ''write target is not a buffer''
          ''target sub-buffer offset is not aligned with device''
          (\<lambda>mo b. b\<lparr>wrTarget := Some mo\<rparr>)
          (check_access Q CL_MEM_HOST_WRITE_ONLY ''invalid write buffer operation''
             ''command queue and buffer have different context'')
          \<lparr>bCtx = QContext Q, bErr = CL_SUCCESS, bWait = [], bDiag = [], bBlocking = False,
           wrTarget = None, wrSource = Ptr, wrRegion = None, wrTargetRowPitch = None,
           wrTargetSlicePitch = None, wrSourceRowPitch = None, wrSourceSlicePitch = None,
           wrTargetOffset = 0, wrSourceOffset = 0\<rparr>)"

definition WriteBufferRect_SetBlocking where
  "WriteBufferRect_SetBlocking E B (b :: write_rect_builder) = SetBlocking_common E B b"

definition WriteBufferRect_SetRegion :: "triple option \<Rightarrow> write_rect_builder \<Rightarrow> write_rect_builder" where
  "WriteBufferRect_SetRegion Region b =
     (case Region of
        None \<Rightarrow> NotifyError CL_INVALID_VALUE ''region is null'' b
      | Some R \<Rightarrow>
        if region_is_empty R then NotifyError CL_INVALID_VALUE ''invalid region'' b
        else b\<lparr>wrRegion := Some R\<rparr>)"

definition WriteBufferRect_SetTargetOffset ::
  "triple option \<Rightarrow> size_t \<Rightarrow> size_t \<Rightarrow> write_rect_builder \<Rightarrow> write_rect_builder" where
  "WriteBufferRect_SetTargetOffset TargetOrigin rp sp b =
     (case (wrTarget b, wrRegion b) of
        (Some Target, Some R) \<Rightarrow>
       (case TargetOrigin of
          None \<Rightarrow> NotifyError CL_INVALID_VALUE ''target origin is null'' b
        | Some Or \<Rightarrow>
          with_rect_pitches ''invalid buffer row pitch'' ''invalid buffer slice pitch'' R rp sp
            (\<lambda>p b. b\<lparr>wrTargetRowPitch := Some p\<rparr>) (\<lambda>p b. b\<lparr>wrTargetSlicePitch := Some p\<rparr>)
            (\<lambda>p0 p1 b. if getSize Target < rect_last Or R p0 p1
                        then NotifyError CL_INVALID_VALUE ''region out of bound'' b
                        else b\<lparr>wrTargetOffset := rect_offset Or p0 p1\<rparr>) b)
      | _ \<Rightarrow> b)"

definition WriteBufferRect_SetSourceOffset ::
  "triple option \<Rightarrow> size_t \<Rightarrow> size_t \<Rightarrow> write_rect_builder \<Rightarrow> write_rect_builder" where
  "WriteBufferRect_SetSourceOffset SourceOrigin rp sp b =
     (case wrRegion b of
        None \<Rightarrow> b
      | Some R \<Rightarrow>
     (case SourceOrigin of
        None \<Rightarrow> NotifyError CL_INVALID_VALUE ''source origin is null'' b
      | Some Or \<Rightarrow>
        with_rect_pitches ''invalid host row pitch'' ''invalid host slice pitch'' R rp sp
          (\<lambda>p b. b\<lparr>wrSourceRowPitch := Some p\<rparr>) (\<lambda>p b. b\<lparr>wrSourceSlicePitch := Some p\<rparr>)
          (\<lambda>p0 p1 b. b\<lparr>wrSourceOffset := rect_offset Or p0 p1\<rparr>) b))"

definition WriteBufferRect_SetWaitList where
  "WriteBufferRect_SetWaitList E N Evs (b :: write_rect_builder) = SetWaitList_blocking E N Evs b"

definition WriteBufferRect_Create :: "write_rect_builder \<Rightarrow> command option \<times> cl_int" where
  "WriteBufferRect_Create b =
     create_command b (EnqueueWriteBufferRect (the (wrTarget b)) (wrSource b) (bBlocking b) (the (wrRegion b))
                         (wrTargetOffset b) (wrSourceOffset b)
                         (the (wrTargetRowPitch b), the (wrTargetSlicePitch b))
                         (the (wrSourceRowPitch b), the (wrSourceSlicePitch b)) (bWait b))"

section \<open>Copying a region\<close>

record copy_rect_builder = cmd_builder +
  crTarget :: "mem_object option"
  crSource :: "mem_object option"
  crRegion :: "triple option"
  crTargetOrigin :: "triple option"
  crSourceOrigin :: "triple option"
  crTargetRowPitch :: "size_t option"
  crTargetSlicePitch :: "size_t option"
  crSourceRowPitch :: "size_t option"
  crSourceSlicePitch :: "size_t option"
  crTargetOffset :: size_t
  crSourceOffset :: size_t

definition CopyBufferRect_Builder :: "queue_info \<Rightarrow> cl_mem \<Rightarrow> cl_mem \<Rightarrow> copy_rect_builder" where
  "CopyBufferRect_Builder Q TargetBuf SourceBuf =
     with_buffer Q SourceBuf ''read source is null'' ''read source is not a buffer''
       ''source sub-buffer offset is not aligned with device''
       (\<lambda>mo b. b\<lparr>crSource := Some mo\<rparr>)
       (check_context Q ''command queue and source buffer have different context'')
       (with_buffer Q TargetBuf ''write target is null'' ''write target is not a buffer''
          ''target sub-buffer offset is not aligned with device''
          (\<lambda>mo b. b\<lparr>crTarget := Some mo\<rparr>)
          (check_context Q ''command queue and target buffer have different context'')
          \<lparr>bCtx = QContext Q, bErr = CL_SUCCESS, bWait = [], bDiag = [], crTarget = None, crSource = None,
           crRegion = None, crTargetOrigin = None, crSourceOrigin = None, crTargetRowPitch = None,
           crTargetSlicePitch = None, crSourceRowPitch = None, crSourceSlicePitch = None,
           crTargetOffset = 0, crSourceOffset = 0\<rparr>)"

text \<open>The region is read without a test for null: \<open>None\<close>.\<close>

definition CopyBufferRect_SetRegion :: "triple option \<Rightarrow> copy_rect_builder \<Rightarrow> copy_rect_builder option" where
  "CopyBufferRect_SetRegion Region b =
     (case Region of
        None \<Rightarrow> None
      | Some R \<Rightarrow>
        Some (if region_is_empty R then NotifyError CL_INVALID_VALUE ''invalid region'' b
              else b\<lparr>crRegion := Some R\<rparr>))"

definition CopyBufferRect_SetTargetOffset ::
  "triple option \<Rightarrow> size_t \<Rightarrow> size_t \<Rightarrow> copy_rect_builder \<Rightarrow> copy_rect_builder" where
  "CopyBufferRect_SetTargetOffset TargetOrigin rp sp b =
     (case (crTarget b, crRegion b) of
        (Some Target, Some R) \<Rightarrow>
       (case TargetOrigin of
          None \<Rightarrow> NotifyError CL_INVALID_VALUE ''target origin is null'' b
        | Some Or \<Rightarrow>
          with_rect_pitches ''invalid target buffer row pitch'' ''invalid target buffer slice pitch'' R rp sp
            (\<lambda>p b. b\<lparr>crTargetRowPitch := Some p\<rparr>) (\<lambda>p b. b\<lparr>crTargetSlicePitch := Some p\<rparr>)
            (\<lambda>p0 p1 b. if getSize Target < rect_last Or R p0 p1
                        then NotifyError CL_INVALID_VALUE ''region out of bound'' b
                        else b\<lparr>crTargetOffset := rect_offset Or p0 p1, crTargetOrigin := Some Or\<rparr>) b)
      | _ \<Rightarrow> b)"

definition CopyBufferRect_SetSourceOffset ::
  "triple option \<Rightarrow> size_t \<Rightarrow> size_t \<Rightarrow> copy_rect_builder \<Rightarrow> copy_rect_builder" where
  "CopyBufferRect_SetSourceOffset SourceOrigin rp sp b =
     (case (crSource b, crRegion b) of
        (Some Source, Some R) \<Rightarrow>
       (case SourceOrigin of
          None \<Rightarrow> NotifyError CL_INVALID_VALUE ''source origin is null'' b
        | Some Or \<Rightarrow>
          with_rect_pitches ''invalid host row pitch'' ''invalid host slice pitch'' R rp sp
            (\<lambda>p b. b\<lparr>crSourceRowPitch := Some p\<rparr>) (\<lambda>p b. b\<lparr>crSourceSlicePitch := Some p\<rparr>)
            (\<lambda>p0 p1 b. if getSize Source < rect_last Or R p0 p1
                        then NotifyError CL_INVALID_VALUE ''region out of bound'' b
                        else b\<lparr>crSourceOffset := rect_offset Or p0 p1, crSourceOrigin := Some Or\<rparr>) b)
      | _ \<Rightarrow> b)"

text \<open>
  The overlap test. The loop over the dimensions runs while \<open>Overlap\<close> is false and starts with it
  true. Each entry of the list holds the bounds of one dimension: minimum and maximum of the
  source, minimum and maximum of the target.
\<close>

fun overlap_loop :: "(size_t \<times> size_t \<times> size_t \<times> size_t) list \<Rightarrow> bool \<Rightarrow> bool" where
  "overlap_loop [] Overlap = Overlap"
| "overlap_loop ((smin, smax, tmin, tmax) # ds) Overlap =
     (if \<not> Overlap then overlap_loop ds (Overlap \<and> smin < tmax \<and> smax > tmin) else Overlap)"

definition wrapped_over :: "size_t \<Rightarrow> size_t \<Rightarrow> size_t" where
  "wrapped_over bound pitch = (if bound > pitch then bound - pitch else 0)"

definition rects_overlap ::
  "triple \<Rightarrow> triple \<Rightarrow> triple \<Rightarrow> size_t \<Rightarrow> size_t \<Rightarrow> size_t \<Rightarrow> size_t \<Rightarrow> bool" where
  "rects_overlap SOr TOr R rp sp SourceStart TargetStart =
     (let Overlap = overlap_loop
            [(ix0 SOr, ix0 SOr + ix0 R, ix0 TOr, ix0 TOr + ix0 R),
             (ix1 SOr, ix1 SOr + ix1 R, ix1 TOr, ix1 TOr + ix1 R),
             (ix2 SOr, ix2 SOr + ix2 R, ix2 TOr, ix2 TOr + ix2 R)] True;
          TargetEnd = TargetStart + (ix2 R * sp + ix1 R * rp + ix0 R);
          SourceEnd = SourceStart + (ix2 R * sp + ix1 R * rp + ix0 R);
          starts_inside = (SourceStart \<le> TargetStart \<and> TargetStart < SourceEnd \<or>
                           TargetStart \<le> SourceStart \<and> SourceStart < TargetEnd)
      in if Overlap then True
         else let dsx = wrapped_over (ix0 SOr + ix0 R) rp;
                  dtx = wrapped_over (ix0 TOr + ix0 R) rp;
                  Overlap1 = ((dsx > 0 \<and> dsx > ix0 TOr \<or> dtx > 0 \<and> dtx > ix0 SOr) \<and> starts_inside);
                  dsy = wrapped_over (ix1 SOr + ix1 R) (sp div rp);
                  dty = wrapped_over (ix1 TOr + ix1 R) (sp div rp)
              in Overlap1 \<or>
                 ix2 R > 1 \<and> (dsy > 0 \<and> dsy > ix1 TOr \<or> dty > 0 \<and> dty > ix1 SOr) \<and> starts_inside)"

definition CopyBufferRect_CheckCopyOverlap :: "copy_rect_builder \<Rightarrow> copy_rect_builder" where
  "CopyBufferRect_CheckCopyOverlap b =
     (case (crTarget b, crSource b, crRegion b, crTargetOrigin b, crSourceOrigin b) of
        (Some Target, Some Source, Some R, Some TOr, Some SOr) \<Rightarrow>
          if same_object Target Source \<or>
             isSubBuffer Target \<and> isSubBuffer Source \<and> same_parent Target Source
          then if the (crTargetRowPitch b) \<noteq> the (crSourceRowPitch b) \<and>
                  the (crTargetSlicePitch b) \<noteq> the (crSourceSlicePitch b)
               then NotifyError CL_INVALID_VALUE ''different pitches between target and source buffer.'' b
               else if rects_overlap SOr TOr R (the (crTargetRowPitch b)) (the (crTargetSlicePitch b))
                         (crSourceOffset b) (crTargetOffset b)
               then NotifyError CL_MEM_COPY_OVERLAP ''source and target regions overlap'' b
               else b
          else b
      | _ \<Rightarrow> b)"

definition CopyBufferRect_SetWaitList where
  "CopyBufferRect_SetWaitList E N Evs (b :: copy_rect_builder) = SetWaitList_plain E N Evs b"

definition CopyBufferRect_Create :: "copy_rect_builder \<Rightarrow> command option \<times> cl_int" where
  "CopyBufferRect_Create b =
     create_command b (EnqueueCopyBufferRect (the (crTarget b)) (the (crSource b)) (the (crRegion b))
                         (crTargetOffset b) (crSourceOffset b)
                         (the (crTargetRowPitch b), the (crTargetSlicePitch b))
                         (the (crSourceRowPitch b), the (crSourceSlicePitch b)) (bWait b))"

end
