(* ===== verification/Kernel_Builders.thy ===== *)
theory Kernel_Builders
  imports Builder_Base "HOL-Library.AList"
begin

text \<open>
  The builders of the kernel commands, \<open>EnqueueNDRangeKernel\<close> and \<open>EnqueueNativeKernel\<close> of
  \<open>lib/Core/Command.cpp\<close>, with the tests of \<open>lib/Core/Kernel.cpp\<close> they use and the partition of
  the global work by the CPU device (\<open>lib/Device/CPU/CPUDevice.cpp\<close>).

  What the compiler knows of a kernel is the record \<open>kernel_desc\<close>, as seen from the device of the
  queue. The result \<open>None\<close> is an access through a null pointer, outside an array, or a division by
  zero.
\<close>

section \<open>Kernels as the builder sees them\<close>

record kernel_desc =
  KRef :: kernel_ref
  KContext :: ctx_id
  KBuiltFor :: bool
  KSignatureArgs :: nat
  KFunctionParams :: nat
  KRequired :: "size_t list option"

text \<open>The number of arguments of the signature, against that of the parameters of the function.\<close>

definition AreAllArgsSpecified :: "kernel_desc \<Rightarrow> bool" where
  "AreAllArgsSpecified K \<longleftrightarrow> KSignatureArgs K = KFunctionParams K"

text \<open>Both look up the function of the kernel for the device, and use it without a test for null.\<close>

definition hasRequiredWorkGroupSizes :: "kernel_desc \<Rightarrow> bool option" where
  "hasRequiredWorkGroupSizes K = (if \<not> KBuiltFor K then None else Some (KRequired K \<noteq> None))"

definition getRequiredWorkGroupSizes :: "kernel_desc \<Rightarrow> size_t list option" where
  "getRequiredWorkGroupSizes K =
     (case hasRequiredWorkGroupSizes K of
        None \<Rightarrow> None
      | Some req \<Rightarrow> Some (if \<not> req then [] else the (KRequired K)))"

section \<open>The partition of the CPU device\<close>

definition partition_presets :: "size_t list list" where
  "partition_presets = [[1024, 0, 0], [32, 32, 0], [16, 8, 8]]"

text \<open>
  The row of the table is chosen by the number of dimensions, so three dimensions read past it.
\<close>

definition ComputeGlobalWorkPartition :: "size_t list \<Rightarrow> (size_t list \<times> bool) option" where
  "ComputeGlobalWorkPartition GW =
     (let N = length GW in
      if N > 0 \<and> N \<ge> length partition_presets then None
      else Some (map (\<lambda>i. let Dim = GW ! i; P = partition_presets ! N ! i in
                          if P < Dim then word_of_nat (gcd (unat Dim) (unat P)) else Dim) [0..<N], True))"

section \<open>Kernels on an index space\<close>

record ndrange_builder = cmd_builder +
  ndDev :: device_info
  ndKern :: kernel_desc
  ndWorkDimensions :: nat
  ndGlobalWorkSizes :: "size_t list"
  ndGlobalWorkOffsets :: "size_t list"
  ndLocalWorkSizes :: "size_t list"

text \<open>The loops push one size after the other and stop at the first one that is refused.\<close>

fun push_global_sizes :: "size_t list \<Rightarrow> ndrange_builder \<Rightarrow> ndrange_builder" where
  "push_global_sizes [] b = b"
| "push_global_sizes (s # ss) b =
     (if s = 0 \<or> s > SizeTypeMax (ndDev b)
      then NotifyError CL_INVALID_GLOBAL_WORK_SIZE ''out of range global work size given'' b
      else push_global_sizes ss (b\<lparr>ndGlobalWorkSizes := ndGlobalWorkSizes b @ [s]\<rparr>))"

definition NDRange_Builder ::
  "ctx_id \<Rightarrow> device_info \<Rightarrow> kernel_desc option \<Rightarrow> nat \<Rightarrow> size_t list option \<Rightarrow> ndrange_builder option" where
  "NDRange_Builder Ctx Dev Kern WorkDims GlobalSizes =
     (case Kern of
        None \<Rightarrow> None
      | Some K \<Rightarrow>
        let b0 = \<lparr>bCtx = Ctx, bErr = CL_SUCCESS, bWait = [], bDiag = [], ndDev = Dev, ndKern = K,
                  ndWorkDimensions = 0, ndGlobalWorkSizes = [], ndGlobalWorkOffsets = [],
                  ndLocalWorkSizes = []\<rparr>;
            b1 = (if \<not> KBuiltFor K
                  then NotifyError CL_INVALID_PROGRAM_EXECUTABLE ''kernel not built for current device'' b0
                  else b0);
            b2 = (if KContext K \<noteq> Ctx
                  then NotifyError CL_INVALID_CONTEXT
                         ''cannot enqueue a kernel into a command queue with a different context'' b1
                  else b1);
            b3 = (if \<not> AreAllArgsSpecified K
                  then NotifyError CL_INVALID_KERNEL_ARGS ''not all kernel arguments have been specified'' b2
                  else b2);
            b4 = (if WorkDims < 1 \<or> WorkDims > MaxWorkItemDimensions Dev
                  then NotifyError CL_INVALID_WORK_DIMENSION ''given work dimensions is out of range'' b3
                  else b3\<lparr>ndWorkDimensions := WorkDims\<rparr>)
        in Some (case GlobalSizes of
                   None \<Rightarrow> NotifyError CL_INVALID_GLOBAL_WORK_SIZE ''invalid global work size given'' b4
                 | Some ss \<Rightarrow> push_global_sizes (take WorkDims ss) b4))"

fun push_global_offsets :: "nat \<Rightarrow> size_t list \<Rightarrow> ndrange_builder \<Rightarrow> ndrange_builder option" where
  "push_global_offsets i [] b = Some b"
| "push_global_offsets i (o1 # os) b =
     (if i \<ge> length (ndGlobalWorkSizes b) then None
      else if o1 + ndGlobalWorkSizes b ! i > SizeTypeMax (ndDev b)
      then Some (NotifyError CL_INVALID_GLOBAL_OFFSET
                   ''given global offset shift work items out of range'' b)
      else push_global_offsets (Suc i) os (b\<lparr>ndGlobalWorkOffsets := ndGlobalWorkOffsets b @ [o1]\<rparr>))"

definition NDRange_SetGlobalWorkOffset :: "size_t list option \<Rightarrow> ndrange_builder \<Rightarrow> ndrange_builder option" where
  "NDRange_SetGlobalWorkOffset GlobalOffsets b =
     (if ndWorkDimensions b = 0 \<or> ndGlobalWorkSizes b = [] then Some b
      else case GlobalOffsets of
          None \<Rightarrow> Some (b\<lparr>ndGlobalWorkOffsets := replicate (ndWorkDimensions b) 0\<rparr>)
        | Some os \<Rightarrow> push_global_offsets 0 (take (ndWorkDimensions b) os) b)"

text \<open>
  The loop over the local sizes. \<open>i\<close> is the dimension and \<open>wgs\<close> the size of the work-group so
  far; \<open>Inl\<close> is an early return, \<open>Inr\<close> the end of the loop.
\<close>

fun push_local_sizes ::
  "bool \<Rightarrow> size_t list \<Rightarrow> nat \<Rightarrow> size_t list \<Rightarrow> size_t \<Rightarrow> ndrange_builder \<Rightarrow>
   (ndrange_builder + size_t \<times> ndrange_builder) option" where
  "push_local_sizes req ReqSizes i [] wgs b = Some (Inr (wgs, b))"
| "push_local_sizes req ReqSizes i (l # ls) wgs b =
     (if i \<ge> length (MaxWorkItemSizes (ndDev b)) then None
      else if l > MaxWorkItemSizes (ndDev b) ! i
      then Some (Inl (NotifyError CL_INVALID_WORK_GROUP_SIZE ''work group size exceeds device limits'' b))
      else if i \<ge> length (ndGlobalWorkSizes b) \<or> l = 0 then None
      else if ndGlobalWorkSizes b ! i mod l \<noteq> 0
      then Some (Inl (NotifyError CL_INVALID_WORK_GROUP_SIZE
                        ''work group size does not divide number of work items'' b))
      else if req \<and> i < 3 \<and> i \<ge> length ReqSizes then None
      else if req \<and> (i \<ge> 3 \<or> ReqSizes ! i \<noteq> l)
      then Some (Inl (NotifyError CL_INVALID_WORK_GROUP_SIZE
                        ''work group size does not match the one requested by the kernel'' b))
      else push_local_sizes req ReqSizes (Suc i) ls (wgs * l) (b\<lparr>ndLocalWorkSizes := ndLocalWorkSizes b @ [l]\<rparr>))"

definition NDRange_SetLocalWorkSize :: "size_t list option \<Rightarrow> ndrange_builder \<Rightarrow> ndrange_builder option" where
  "NDRange_SetLocalWorkSize LocalSizes b =
     (case hasRequiredWorkGroupSizes (ndKern b) of
        None \<Rightarrow> None
      | Some req \<Rightarrow>
       (case LocalSizes of
          None \<Rightarrow>
            let b1 = (if req
                      then NotifyError CL_INVALID_WORK_GROUP_SIZE ''kernel requires fixed local work size'' b
                      else b)
            in (case ComputeGlobalWorkPartition (ndGlobalWorkSizes b1) of
                  None \<Rightarrow> None
                | Some (LW, ok) \<Rightarrow>
                  let b2 = b1\<lparr>ndLocalWorkSizes := ndLocalWorkSizes b1 @ LW\<rparr> in
                  Some (if \<not> ok
                        then NotifyError CL_INVALID_WORK_GROUP_SIZE ''unable to partition global work on device'' b2
                        else b2))
        | Some ls \<Rightarrow>
           (case getRequiredWorkGroupSizes (ndKern b) of
              None \<Rightarrow> None
            | Some ReqSizes \<Rightarrow>
             (case push_local_sizes req ReqSizes 0 (take (ndWorkDimensions b) ls) 1 b of
                None \<Rightarrow> None
              | Some (Inl b') \<Rightarrow> Some b'
              | Some (Inr (wgs, b')) \<Rightarrow>
                Some (if wgs > MaxWorkGroupSize (ndDev b')
                      then NotifyError CL_INVALID_WORK_GROUP_SIZE ''work group size exceeds device limits'' b'
                      else b')))))"

definition NDRange_SetWaitList where
  "NDRange_SetWaitList N Evs (b :: ndrange_builder) = CommandBuilder_SetWaitList N Evs b"

definition NDRange_Create :: "ndrange_builder \<Rightarrow> command option \<times> cl_int" where
  "NDRange_Create b =
     create_command b (EnqueueNDRangeKernel (KRef (ndKern b))
       (DimensionInfo (map unat (ndGlobalWorkOffsets b)) (map unat (ndGlobalWorkSizes b))
          (map unat (ndLocalWorkSizes b))) (bWait b))"

section \<open>Native kernels\<close>

text \<open>
  Functions are addresses. \<open>Locs\<close> is the map from offsets in the arguments to memory objects, an
  association list in which a later location of the same offset replaces the earlier one.
\<close>

record native_builder = cmd_builder +
  nkFunc :: ptr
  nkRawArgs :: "ptr \<times> size_t"
  nkLocs :: "(ptr \<times> mem_object) list"

definition Native_Builder :: "ctx_id \<Rightarrow> ptr \<Rightarrow> ptr \<times> size_t \<Rightarrow> native_builder" where
  "Native_Builder Ctx Fn Raw =
     (let b0 = \<lparr>bCtx = Ctx, bErr = CL_SUCCESS, bWait = [], bDiag = [], nkFunc = Fn, nkRawArgs = Raw,
                nkLocs = []\<rparr>;
          b1 = check_pointer Fn ''cannot build a native kernel without a working function'' b0;
          b2 = (if fst Raw = NULL \<and> snd Raw \<noteq> 0
                then NotifyError CL_INVALID_VALUE ''expected arguments pointer'' b1 else b1)
      in if fst Raw \<noteq> NULL \<and> snd Raw = 0
         then NotifyError CL_INVALID_VALUE ''expected arguments size'' b2 else b2)"

fun push_locations :: "(cl_mem \<times> ptr) list \<Rightarrow> native_builder \<Rightarrow> native_builder" where
  "push_locations [] b = b"
| "push_locations ((None, loc) # ls) b = NotifyError CL_INVALID_MEM_OBJECT ''invalid memory object'' b"
| "push_locations ((Some mo, loc) # ls) b =
     push_locations ls (b\<lparr>nkLocs := AList.update (loc - fst (nkRawArgs b)) mo (nkLocs b)\<rparr>)"

definition Native_SetMemoryLocations ::
  "nat \<Rightarrow> cl_mem list option \<Rightarrow> ptr list option \<Rightarrow> native_builder \<Rightarrow> native_builder" where
  "Native_SetMemoryLocations N MemObjs MemLocs b =
     (if N \<noteq> 0 \<and> fst (nkRawArgs b) = NULL \<or> N = 0 \<and> (MemObjs \<noteq> None \<or> MemLocs \<noteq> None)
      then NotifyError CL_INVALID_VALUE ''unexpected memory mappings'' b
      else if N \<noteq> 0 \<and> (MemObjs = None \<or> MemLocs = None)
      then NotifyError CL_INVALID_VALUE ''expected memory mappings'' b
      else if N = 0 then b
      else push_locations (take N (zip (the MemObjs) (the MemLocs))) b)"

definition Native_SetWaitList where
  "Native_SetWaitList N Evs (b :: native_builder) = CommandBuilder_SetWaitList N Evs b"

definition Native_Create :: "memory \<Rightarrow> native_builder \<Rightarrow> command option \<times> cl_int" where
  "Native_Create m b = create_command b (EnqueueNativeKernel m (nkFunc b) (nkRawArgs b) (nkLocs b) (bWait b))"

end
