(* ===== verification/Buffer_Builders.thy ===== *)
theory Buffer_Builders
  imports Builder_Base
begin

text \<open>
  The builders of the commands on whole buffers and of the commands without data:
  \<open>EnqueueReadBuffer\<close>, \<open>EnqueueWriteBuffer\<close>, \<open>EnqueueCopyBuffer\<close>, \<open>EnqueueFillBuffer\<close>,
  \<open>EnqueueUnmapMemObject\<close>, \<open>EnqueueMarker\<close> and \<open>EnqueueBarrier\<close> of \<open>lib/Core/Command.cpp\<close>. Each
  builder is a record that extends the common one; members have the prefix of their builder. A
  method \<open>M\<close> of \<open>EnqueueXBuilder\<close> is the function \<open>X_M\<close>.
\<close>

section \<open>Reading a buffer\<close>

record read_buffer_builder = blocking_builder +
  rbSource :: "mem_object option"
  rbTarget :: ptr
  rbOffset :: size_t
  rbSize :: size_t

definition ReadBuffer_Builder :: "queue_info \<Rightarrow> cl_mem \<Rightarrow> ptr \<Rightarrow> read_buffer_builder" where
  "ReadBuffer_Builder Q Buf Target =
     check_pointer Target ''pointer to data sink is null''
       (with_buffer Q Buf ''read source is null'' ''read source is not a buffer''
          ''source sub-buffer offset is not aligned with device''
          (\<lambda>mo b. b\<lparr>rbSource := Some mo\<rparr>)
          (check_access Q CL_MEM_HOST_WRITE_ONLY ''invalid read buffer operation''
             ''command queue and buffer have different context'')
          \<lparr>bCtx = QContext Q, bErr = CL_SUCCESS, bWait = [], bDiag = [], bBlocking = False,
           rbSource = None, rbTarget = Target, rbOffset = 0, rbSize = 0\<rparr>)"

definition ReadBuffer_SetBlocking where
  "ReadBuffer_SetBlocking E B (b :: read_buffer_builder) = SetBlocking_common E B b"

definition ReadBuffer_SetCopyArea :: "size_t \<Rightarrow> size_t \<Rightarrow> read_buffer_builder \<Rightarrow> read_buffer_builder" where
  "ReadBuffer_SetCopyArea off n b =
     (case rbSource b of
        None \<Rightarrow> b
      | Some Source \<Rightarrow>
        if off + n > getSize Source then NotifyError CL_INVALID_VALUE ''out of bounds buffer read'' b
        else b\<lparr>rbOffset := off, rbSize := n\<rparr>)"

definition ReadBuffer_SetWaitList where
  "ReadBuffer_SetWaitList E N Evs (b :: read_buffer_builder) = SetWaitList_blocking E N Evs b"

definition ReadBuffer_Create :: "read_buffer_builder \<Rightarrow> command option \<times> cl_int" where
  "ReadBuffer_Create b =
     create_command b (EnqueueReadBuffer (rbTarget b) (the (rbSource b)) (bBlocking b) (rbOffset b)
                         (rbSize b) (bWait b))"

section \<open>Writing a buffer\<close>

record write_buffer_builder = blocking_builder +
  wbTarget :: "mem_object option"
  wbSource :: ptr
  wbOffset :: size_t
  wbSize :: size_t

definition WriteBuffer_Builder :: "queue_info \<Rightarrow> cl_mem \<Rightarrow> ptr \<Rightarrow> write_buffer_builder" where
  "WriteBuffer_Builder Q Buf Source =
     check_pointer Source ''pointer to data source is null''
       (with_buffer Q Buf ''write target is null'' ''write target is not a buffer''
          ''target sub-buffer offset is not aligned with device''
          (\<lambda>mo b. b\<lparr>wbTarget := Some mo\<rparr>)
          (check_access Q CL_MEM_HOST_READ_ONLY ''invalid read buffer operation''
             ''command queue and buffer have different context'')
          \<lparr>bCtx = QContext Q, bErr = CL_SUCCESS, bWait = [], bDiag = [], bBlocking = False,
           wbTarget = None, wbSource = Source, wbOffset = 0, wbSize = 0\<rparr>)"

definition WriteBuffer_SetBlocking where
  "WriteBuffer_SetBlocking E B (b :: write_buffer_builder) = SetBlocking_common E B b"

definition WriteBuffer_SetCopyArea :: "size_t \<Rightarrow> size_t \<Rightarrow> write_buffer_builder \<Rightarrow> write_buffer_builder" where
  "WriteBuffer_SetCopyArea off n b =
     (case wbTarget b of
        None \<Rightarrow> b
      | Some Target \<Rightarrow>
        if off + n > getSize Target
        then NotifyError CL_INVALID_VALUE ''data size exceeds buffer capacity'' b
        else b\<lparr>wbOffset := off, wbSize := n\<rparr>)"

definition WriteBuffer_SetWaitList where
  "WriteBuffer_SetWaitList E N Evs (b :: write_buffer_builder) = SetWaitList_blocking E N Evs b"

definition WriteBuffer_Create :: "write_buffer_builder \<Rightarrow> command option \<times> cl_int" where
  "WriteBuffer_Create b =
     create_command b (EnqueueWriteBuffer (the (wbTarget b)) (wbSource b) (bBlocking b) (wbOffset b)
                         (wbSize b) (bWait b))"

section \<open>Copying buffers\<close>

record copy_buffer_builder = cmd_builder +
  cbTarget :: "mem_object option"
  cbSource :: "mem_object option"
  cbTargetOffset :: size_t
  cbSourceOffset :: size_t
  cbSize :: size_t

definition CopyBuffer_Builder :: "queue_info \<Rightarrow> cl_mem \<Rightarrow> cl_mem \<Rightarrow> copy_buffer_builder" where
  "CopyBuffer_Builder Q TargetBuf SourceBuf =
     with_buffer Q SourceBuf ''copy source is null'' ''copy source is not a buffer''
       ''source sub-buffer offset is not aligned with device''
       (\<lambda>mo b. b\<lparr>cbSource := Some mo\<rparr>)
       (check_context Q ''command queue and source buffer have different context'')
       (with_buffer Q TargetBuf ''copy target is null'' ''copy target is not a buffer''
          ''target sub-buffer offset is not aligned with device''
          (\<lambda>mo b. b\<lparr>cbTarget := Some mo\<rparr>)
          (check_context Q ''command queue and target buffer have different context'')
          \<lparr>bCtx = QContext Q, bErr = CL_SUCCESS, bWait = [], bDiag = [],
           cbTarget = None, cbSource = None, cbTargetOffset = 0, cbSourceOffset = 0, cbSize = 0\<rparr>)"

definition copy_ranges_meet :: "size_t \<Rightarrow> size_t \<Rightarrow> size_t \<Rightarrow> bool" where
  "copy_ranges_meet so tgt n \<longleftrightarrow> max so tgt - min so tgt < n"

definition CopyBuffer_SetCopyArea ::
  "size_t \<Rightarrow> size_t \<Rightarrow> size_t \<Rightarrow> copy_buffer_builder \<Rightarrow> copy_buffer_builder" where
  "CopyBuffer_SetCopyArea tgt src n b =
     (case (cbTarget b, cbSource b) of
        (Some Target, Some Source) \<Rightarrow>
        if tgt + n > getSize Target
        then NotifyError CL_INVALID_VALUE ''data size exceeds destination buffer capacity'' b
        else if src + n > getSize Source
        then NotifyError CL_INVALID_VALUE ''data size exceeds source buffer capacity'' b
        else if same_object Target Source \<and> copy_ranges_meet src tgt n
        then NotifyError CL_MEM_COPY_OVERLAP ''source and destination regions overlap'' b
        else if \<not> same_object Target Source \<and> isSubBuffer Target \<and> isSubBuffer Source \<and>
                same_parent Target Source \<and> copy_ranges_meet src tgt n
        then NotifyError CL_MEM_COPY_OVERLAP ''source and destination regions overlap'' b
        else b\<lparr>cbTargetOffset := tgt, cbSourceOffset := src, cbSize := n\<rparr>
      | _ \<Rightarrow> b)"

definition CopyBuffer_SetWaitList where
  "CopyBuffer_SetWaitList E N Evs (b :: copy_buffer_builder) = SetWaitList_plain E N Evs b"

definition CopyBuffer_Create :: "copy_buffer_builder \<Rightarrow> command option \<times> cl_int" where
  "CopyBuffer_Create b =
     create_command b (EnqueueCopyBuffer (the (cbTarget b)) (the (cbSource b)) (cbTargetOffset b)
                         (cbSourceOffset b) (cbSize b) (bWait b))"

section \<open>Filling a buffer\<close>

record fill_buffer_builder = cmd_builder +
  fbTarget :: "mem_object option"
  fbSource :: ptr
  fbSourceSize :: size_t
  fbTargetOffset :: size_t
  fbTargetSize :: size_t

definition FillBuffer_Builder :: "queue_info \<Rightarrow> cl_mem \<Rightarrow> ptr \<Rightarrow> fill_buffer_builder" where
  "FillBuffer_Builder Q Buf Pattern =
     check_pointer Pattern ''pointer to pattern is null''
       (with_buffer Q Buf ''fill target is null'' ''fill target is not a buffer''
          ''target sub-buffer offset is not aligned with device''
          (\<lambda>mo b. b\<lparr>fbTarget := Some mo\<rparr>)
          (check_context Q ''command queue and buffer have different context'')
          \<lparr>bCtx = QContext Q, bErr = CL_SUCCESS, bWait = [], bDiag = [],
           fbTarget = None, fbSource = Pattern, fbSourceSize = 0, fbTargetOffset = 0, fbTargetSize = 0\<rparr>)"

definition FillBuffer_SetPatternSize :: "size_t \<Rightarrow> fill_buffer_builder \<Rightarrow> fill_buffer_builder" where
  "FillBuffer_SetPatternSize PatternSize b =
     (if PatternSize = 0 then NotifyError CL_INVALID_VALUE ''pattern size is zero'' b
      else if PatternSize AND (PatternSize - 1) \<noteq> 0 \<or> PatternSize > 128
      then NotifyError CL_INVALID_VALUE ''invalid pattern size'' b
      else b\<lparr>fbSourceSize := PatternSize\<rparr>)"

definition FillBuffer_SetFillRegion :: "size_t \<Rightarrow> size_t \<Rightarrow> fill_buffer_builder \<Rightarrow> fill_buffer_builder" where
  "FillBuffer_SetFillRegion off n b =
     (case fbTarget b of
        None \<Rightarrow> b
      | Some Target \<Rightarrow>
        if fbSourceSize b = 0 then b
        else if off mod fbSourceSize b \<noteq> 0
        then NotifyError CL_INVALID_VALUE ''fill offset is not a multiple of pattern size'' b
        else if n mod fbSourceSize b \<noteq> 0
        then NotifyError CL_INVALID_VALUE ''fill size is not a multiple of pattern size'' b
        else if off + n > getSize Target
        then NotifyError CL_INVALID_VALUE ''fill region size exceeds destination buffer capacity'' b
        else b\<lparr>fbTargetOffset := off, fbTargetSize := n\<rparr>)"

definition FillBuffer_SetWaitList where
  "FillBuffer_SetWaitList E N Evs (b :: fill_buffer_builder) = SetWaitList_plain E N Evs b"

definition FillBuffer_Create :: "memory \<Rightarrow> fill_buffer_builder \<Rightarrow> command option \<times> cl_int" where
  "FillBuffer_Create m b =
     create_command b (EnqueueFillBuffer m (the (fbTarget b)) (fbSource b) (fbSourceSize b)
                         (fbTargetOffset b) (fbTargetSize b) (bWait b))"

section \<open>Unmapping\<close>

text \<open>
  The member initialiser casts the handle before the test for null; the model tests first. The
  wait list of this builder is not checked for its context.
\<close>

record unmap_builder = cmd_builder +
  umMemObj :: "mem_object option"
  umMappedPtr :: ptr

definition UnmapMemObject_Builder :: "ctx_id \<Rightarrow> cl_mem \<Rightarrow> ptr \<Rightarrow> unmap_builder" where
  "UnmapMemObject_Builder Ctx MemObj MappedPtr =
     (let b = \<lparr>bCtx = Ctx, bErr = CL_SUCCESS, bWait = [], bDiag = [], umMemObj = MemObj, umMappedPtr = MappedPtr\<rparr>;
          b1 = (case MemObj of
                  None \<Rightarrow> NotifyError CL_INVALID_MEM_OBJECT ''memory object is null'' b
                | Some mo \<Rightarrow>
                  if Ctx \<noteq> getContext mo
                  then NotifyError CL_INVALID_CONTEXT ''command queue and buffer have different context'' b
                  else b)
      in check_pointer MappedPtr ''pointer to mapped data is null'' b1)"

definition UnmapMemObject_SetWaitList where
  "UnmapMemObject_SetWaitList N Evs (b :: unmap_builder) = CommandBuilder_SetWaitList N Evs b"

definition UnmapMemObject_Create :: "unmap_builder \<Rightarrow> command option \<times> cl_int" where
  "UnmapMemObject_Create b =
     create_command b (EnqueueUnmapMemObject (the (umMemObj b)) (umMappedPtr b) (bWait b))"

section \<open>Markers and barriers\<close>

definition Marker_Builder :: "queue_info \<Rightarrow> cmd_builder" where
  "Marker_Builder Q = \<lparr>bCtx = QContext Q, bErr = CL_SUCCESS, bWait = [], bDiag = []\<rparr>"

definition Marker_SetWaitList where
  "Marker_SetWaitList E N Evs (b :: cmd_builder) = SetWaitList_plain E N Evs b"

definition Marker_Create :: "cmd_builder \<Rightarrow> command option \<times> cl_int" where
  "Marker_Create b = create_command b (EnqueueMarker (bWait b))"

definition Barrier_Builder :: "queue_info \<Rightarrow> cmd_builder" where
  "Barrier_Builder Q = \<lparr>bCtx = QContext Q, bErr = CL_SUCCESS, bWait = [], bDiag = []\<rparr>"

definition Barrier_SetWaitList where
  "Barrier_SetWaitList E N Evs (b :: cmd_builder) = SetWaitList_plain E N Evs b"

definition Barrier_Create :: "cmd_builder \<Rightarrow> command option \<times> cl_int" where
  "Barrier_Create b = create_command b (EnqueueBarrier (bWait b))"

end
