(* ===== verification/Command_Queue.thy ===== *)
theory Command_Queue
  imports Builder_Base
begin

text \<open>
  Command queues: \<open>lib/Core/CommandQueue.cpp\<close>, \<open>include/opencrun/Core/CommandQueue.h\<close>.

  A queue owns the commands that wait (\<open>QCommands\<close>), those the device has accepted
  (\<open>QPending\<close>), and for an in-order queue whether one of these is still executing. Everything
  else it touches is the \<open>world\<close>: the events by name, the clock the samples of the profiler are
  taken from, the trackers and mappings of the memory objects, and the state of the device. The device is the
  record of the virtual functions the queue calls. The result \<open>None\<close> is a failed assertion of a
  tracker or a device that does not return.

  The state of a queue changes only under its lock, and each section of code that holds the lock
  is one function: \<open>RunScheduler\<close>, which holds it from beginning to end; \<open>Enqueue_push\<close>, the part of
  \<open>Enqueue\<close> before it calls the scheduler; and the parts \<open>ClearOnFly\<close> and \<open>ErasePending\<close> of
  \<open>CommandDone\<close>, which runs the scheduler between them. Other threads see the states between these
  sections. \<open>Enqueue\<close> and \<open>CommandDone\<close> themselves are the sections one after the other, as they run
  when no other thread gets the lock in between; the step relations of \<open>Queue_Order\<close> and \<open>CPU_System\<close>
  are built from the sections. A caller that blocks on an event is told so by the result of \<open>Enqueue\<close>.
\<close>

section \<open>State\<close>

record queued =
  QEvent :: event_id
  QCmd :: command

datatype queue_type = OutOfOrder | InOrder

record cmd_queue =
  QTy :: queue_type
  QInfo :: queue_info
  QProfiling :: bool
  QCommands :: "queued list"
  QPending :: "queued list"
  QOnFly :: bool

definition new_queue :: "queue_type \<Rightarrow> queue_info \<Rightarrow> bool \<Rightarrow> cmd_queue" where
  "new_queue Ty Info EnableProfile =
     \<lparr>QTy = Ty, QInfo = Info, QProfiling = EnableProfile, QCommands = [], QPending = [], QOnFly = False\<rparr>"

record ('m, 'd) world =
  WEvents :: "event_id \<Rightarrow> event"
  WNext :: event_id
  WClock :: "64 word"
  WEnvProfile :: bool
  WTrackers :: "'m trackers"
  WMaps :: map_store
  WDevice :: 'd

record ('m, 'd) device =
  DevIndex :: nat
  DevDescs :: "mem_id \<Rightarrow> 'm descs"
  DevSubmit :: "queued \<Rightarrow> ('m, 'd) world \<Rightarrow> (('m, 'd) world \<times> bool) option"

section \<open>Memory coherency\<close>

text \<open>The mode a mapping asks for, and that of a kernel argument by the protection of the object.\<close>

definition map_sync_mode :: "mem_flags \<Rightarrow> sync_mode" where
  "map_sync_mode MapFlags =
     (let M0 = SyncMap;
          M1 = (if has_flag MapFlags CL_MAP_READ then M0 OR SyncRead else M0);
          M2 = (if has_flag MapFlags CL_MAP_WRITE then M1 OR SyncWrite else M1)
      in if has_flag MapFlags CL_MAP_WRITE_INVALIDATE_REGION then M2 OR SyncWrite else M2)"

definition arg_sync_mode :: "mem_object \<Rightarrow> sync_mode" where
  "arg_sync_mode Obj =
     (if has_flag (getFlags Obj) CL_MEM_READ_WRITE then SyncRead OR SyncWrite
      else if has_flag (getFlags Obj) CL_MEM_READ_ONLY then SyncRead
      else if has_flag (getFlags Obj) CL_MEM_WRITE_ONLY then SyncWrite
      else 0)"

text \<open>
  The calls of \<open>synchronizeFor\<close> a command makes, in order. The locations of a native kernel are
  kept in a map, which iterates by signed offset.
\<close>

fun sync_requests :: "payload \<Rightarrow> (mem_object \<times> sync_mode) list" where
  "sync_requests (ReadBuffer tgt src off n) = [(src, SyncRead)]"
| "sync_requests (WriteBuffer tgt src off n) = [(tgt, SyncRead OR SyncWrite)]"
| "sync_requests (CopyBuffer tgt src toff soff n) = [(src, SyncRead), (tgt, SyncRead OR SyncWrite)]"
| "sync_requests (ReadImage tgt src off org reg ps) = [(src, SyncRead)]"
| "sync_requests (WriteImage tgt src off org reg ps) = [(tgt, SyncRead OR SyncWrite)]"
| "sync_requests (CopyImage tgt src toff soff torg sorg reg) =
     [(src, SyncRead), (tgt, SyncRead OR SyncWrite)]"
| "sync_requests (CopyImageToBuffer tgt src toff soff org reg) =
     [(src, SyncRead), (tgt, SyncRead OR SyncWrite)]"
| "sync_requests (CopyBufferToImage tgt src toff soff org reg) =
     [(src, SyncRead), (tgt, SyncRead OR SyncWrite)]"
| "sync_requests (MapBuffer src fl off n p) = [(src, map_sync_mode fl)]"
| "sync_requests (MapImage src fl org reg p ps) = [(src, map_sync_mode fl)]"
| "sync_requests (UnmapMemObject mo p) = [(mo, SyncRead)]"
| "sync_requests Marker = []"
| "sync_requests (ReadBufferRect tgt src reg toff soff tps sps) = [(src, SyncRead)]"
| "sync_requests (WriteBufferRect tgt src reg toff soff tps sps) = [(tgt, SyncRead OR SyncWrite)]"
| "sync_requests (CopyBufferRect tgt src reg toff soff tps sps) =
     [(src, SyncRead), (tgt, SyncRead OR SyncWrite)]"
| "sync_requests Barrier = []"
| "sync_requests (FillBuffer tgt src sn off n) = [(tgt, SyncRead OR SyncWrite)]"
| "sync_requests (FillImage tgt src off org reg) = [(tgt, SyncRead OR SyncWrite)]"
| "sync_requests (NDRangeKernel k D) = map (\<lambda>Obj. (Obj, arg_sync_mode Obj)) (KernelMemArgs k)"
| "sync_requests (NativeKernel fn args locs) =
     map (\<lambda>p. (snd p, arg_sync_mode (snd p))) (sort_key (\<lambda>p. sint (fst p)) locs)"

fun sync_all ::
  "(mem_id \<Rightarrow> 'm descs) \<Rightarrow> nat \<Rightarrow> (mem_object \<times> sync_mode) list \<Rightarrow> 'm trackers \<Rightarrow> 'm trackers option" where
  "sync_all V D [] T = Some T"
| "sync_all V D ((mo, SM) # rs) T =
     (case synchronizeFor V mo D SM T of None \<Rightarrow> None | Some T' \<Rightarrow> sync_all V D rs T')"

definition ensureMemoryCoherency :: "('m, 'd) device \<Rightarrow> command \<Rightarrow> 'm trackers \<Rightarrow> ('m trackers \<times> bool) option" where
  "ensureMemoryCoherency dev cmd T =
     (case sync_all (DevDescs dev) (DevIndex dev) (sync_requests (CmdPayload cmd)) T of
        None \<Rightarrow> None
      | Some T' \<Rightarrow> Some (T', True))"

section \<open>Scheduling\<close>

type_synonym ('m, 'd) queue_state = "cmd_queue \<times> ('m, 'd) world"

definition submit :: "('m, 'd) device \<Rightarrow> queued \<Rightarrow> ('m, 'd) world \<Rightarrow> (('m, 'd) world \<times> bool) option" where
  "submit dev c w =
     (case ensureMemoryCoherency dev (QCmd c) (WTrackers w) of
        None \<Rightarrow> None
      | Some (T, ok) \<Rightarrow>
        let w1 = w\<lparr>WTrackers := T\<rparr> in
        if \<not> ok then Some (w1, False) else DevSubmit dev c w1)"

definition InOrder_RunScheduler ::
  "('m, 'd) device \<Rightarrow> ('m, 'd) queue_state \<Rightarrow> (('m, 'd) queue_state \<times> bool) option" where
  "InOrder_RunScheduler dev st =
     (case st of (q, w) \<Rightarrow>
       (case QCommands q of
          [] \<Rightarrow> Some ((q, w), False)
        | c # cs \<Rightarrow>
          if QOnFly q then Some ((q, w), False)
          else if \<not> CanRun (WEvents w) (QCmd c) then Some ((q, w), True)
          else case submit dev c w of
              None \<Rightarrow> None
            | Some (w', ok) \<Rightarrow>
              if \<not> ok then Some ((q, w'), True)
              else Some ((q\<lparr>QCommands := cs, QPending := QPending q @ [c], QOnFly := True\<rparr>, w'),
                         length cs \<noteq> 0)))"

definition OutOfOrder_RunScheduler ::
  "('m, 'd) device \<Rightarrow> ('m, 'd) queue_state \<Rightarrow> (('m, 'd) queue_state \<times> bool) option" where
  "OutOfOrder_RunScheduler dev st = Some (st, False)"

definition RunScheduler ::
  "('m, 'd) device \<Rightarrow> ('m, 'd) queue_state \<Rightarrow> (('m, 'd) queue_state \<times> bool) option" where
  "RunScheduler dev st =
     (case QTy (fst st) of
        InOrder \<Rightarrow> InOrder_RunScheduler dev st
      | OutOfOrder \<Rightarrow> OutOfOrder_RunScheduler dev st)"

definition is_native_kernel :: "command \<Rightarrow> bool" where
  "is_native_kernel cmd = (case CmdPayload cmd of NativeKernel _ _ _ \<Rightarrow> True | _ \<Rightarrow> False)"

text \<open>The value of \<open>Command::Type\<close>, which the event keeps.\<close>

fun command_type :: "payload \<Rightarrow> nat" where
  "command_type (NDRangeKernel _ _) = 0x11F0"
| "command_type (NativeKernel _ _ _) = 0x11F2"
| "command_type (ReadBuffer _ _ _ _) = 0x11F3"
| "command_type (WriteBuffer _ _ _ _) = 0x11F4"
| "command_type (CopyBuffer _ _ _ _ _) = 0x11F5"
| "command_type (ReadImage _ _ _ _ _ _) = 0x11F6"
| "command_type (WriteImage _ _ _ _ _ _) = 0x11F7"
| "command_type (CopyImage _ _ _ _ _ _ _) = 0x11F8"
| "command_type (CopyImageToBuffer _ _ _ _ _ _) = 0x11F9"
| "command_type (CopyBufferToImage _ _ _ _ _ _) = 0x11FA"
| "command_type (MapBuffer _ _ _ _ _) = 0x11FB"
| "command_type (MapImage _ _ _ _ _ _) = 0x11FC"
| "command_type (UnmapMemObject _ _) = 0x11FD"
| "command_type Marker = 0x11FE"
| "command_type (ReadBufferRect _ _ _ _ _ _ _) = 0x1201"
| "command_type (WriteBufferRect _ _ _ _ _ _ _) = 0x1202"
| "command_type (CopyBufferRect _ _ _ _ _ _ _) = 0x1203"
| "command_type Barrier = 0x1205"
| "command_type (FillBuffer _ _ _ _ _) = 0x1207"
| "command_type (FillImage _ _ _ _ _) = 0x1208"

definition enqueue_event :: "cmd_queue \<Rightarrow> command \<Rightarrow> ('m, 'd) world \<Rightarrow> event" where
  "enqueue_event q cmd w =
     NewInternalEvent (QContext (QInfo q)) (QProfiling q) (WEnvProfile w) (command_type (CmdPayload cmd))
       (getSample CommandEnqueued (WClock w))"

text \<open>
  \<open>Enqueue\<close> up to the release of the lock: the checks, the event of the command and the new last
  element of the list. \<open>Inl\<close> is an error code, \<open>Inr e\<close> the event.
\<close>

definition Enqueue_push ::
  "command \<Rightarrow> ('m, 'd) queue_state \<Rightarrow> ('m, 'd) queue_state \<times> (cl_int + event_id)" where
  "Enqueue_push cmd st =
     (case st of (q, w) \<Rightarrow>
      if \<exists>e \<in> set (CmdWaitList cmd). EvContext (WEvents w e) \<noteq> QContext (QInfo q)
      then ((q, w), Inl CL_INVALID_CONTEXT)
      else if is_native_kernel cmd \<and> \<not> NativeKernels (QDevice (QInfo q))
      then ((q, w), Inl CL_INVALID_OPERATION)
      else let e = WNext w;
               w1 = w\<lparr>WEvents := (WEvents w)(e := enqueue_event q cmd w), WNext := Suc e\<rparr>;
               q1 = q\<lparr>QCommands := QCommands q @ [\<lparr>QEvent = e, QCmd = cmd\<rparr>]\<rparr>
           in ((q1, w1), Inr e))"

text \<open>
  \<open>Enqueue\<close>: \<open>Inl\<close> is an error code, \<open>Inr (e, blocks)\<close> the event of the command and whether the
  caller now waits for it.
\<close>

definition Enqueue ::
  "('m, 'd) device \<Rightarrow> command \<Rightarrow> ('m, 'd) queue_state \<Rightarrow>
   (('m, 'd) queue_state \<times> (cl_int + event_id \<times> bool)) option" where
  "Enqueue dev cmd st =
     (case Enqueue_push cmd st of
        (st1, Inl r) \<Rightarrow> Some (st1, Inl r)
      | (st1, Inr e) \<Rightarrow> map_option (\<lambda>(st', again). (st', Inr (e, CmdBlocking cmd))) (RunScheduler dev st1))"

text \<open>
  The first critical section of \<open>InOrderQueue::CommandDone\<close>, and the last one of
  \<open>CommandQueue::CommandDone\<close>. \<open>PendingCommands\<close> is a set of pointers; the event names the command.
\<close>

definition ClearOnFly :: "cmd_queue \<Rightarrow> cmd_queue" where
  "ClearOnFly q = q\<lparr>QOnFly := False\<rparr>"

definition ErasePending :: "event_id \<Rightarrow> cmd_queue \<Rightarrow> cmd_queue" where
  "ErasePending e q = q\<lparr>QPending := filter (\<lambda>c. QEvent c \<noteq> e) (QPending q)\<rparr>"

definition CommandDone_common ::
  "('m, 'd) device \<Rightarrow> event_id \<Rightarrow> ('m, 'd) queue_state \<Rightarrow> ('m, 'd) queue_state option" where
  "CommandDone_common dev e st =
     (case RunScheduler dev st of
        None \<Rightarrow> None
      | Some ((q, w), again) \<Rightarrow> Some (ErasePending e q, w))"

definition CommandDone ::
  "('m, 'd) device \<Rightarrow> event_id \<Rightarrow> ('m, 'd) queue_state \<Rightarrow> ('m, 'd) queue_state option" where
  "CommandDone dev e st =
     (case QTy (fst st) of
        InOrder \<Rightarrow> CommandDone_common dev e (ClearOnFly (fst st), snd st)
      | OutOfOrder \<Rightarrow> Some st)"

text \<open>
  \<open>Flush\<close> polls until the scheduler has nothing left to start. Run alone, with nobody else
  changing the state, it may poll for ever.
\<close>

partial_function (option) Flush ::
  "('m, 'd) device \<Rightarrow> ('m, 'd) queue_state \<Rightarrow> ('m, 'd) queue_state option" where
  "Flush dev st =
     (case RunScheduler dev st of
        None \<Rightarrow> None
      | Some (st', again) \<Rightarrow> if again then Flush dev st' else Some st')"

text \<open>
  \<open>Finish\<close> first calls \<open>Flush\<close>; then a section under the lock copies the events of the pending and
  of the waiting commands, for all of which it waits.
\<close>

definition FinishWaitList :: "cmd_queue \<Rightarrow> event_id list" where
  "FinishWaitList q = map QEvent (QPending q) @ map QEvent (QCommands q)"

definition Finish ::
  "('m, 'd) device \<Rightarrow> ('m, 'd) queue_state \<Rightarrow> (('m, 'd) queue_state \<times> event_id list) option" where
  "Finish dev st =
     (case Flush dev st of
        None \<Rightarrow> None
      | Some (q, w) \<Rightarrow> Some ((q, w), FinishWaitList q))"

lemma Enqueue_unfold:
  "Enqueue dev cmd (q, w) =
     (if \<exists>e \<in> set (CmdWaitList cmd). EvContext (WEvents w e) \<noteq> QContext (QInfo q)
      then Some ((q, w), Inl CL_INVALID_CONTEXT)
      else if is_native_kernel cmd \<and> \<not> NativeKernels (QDevice (QInfo q))
      then Some ((q, w), Inl CL_INVALID_OPERATION)
      else map_option (\<lambda>(st', again). (st', Inr (WNext w, CmdBlocking cmd)))
             (RunScheduler dev
               (q\<lparr>QCommands := QCommands q @ [\<lparr>QEvent = WNext w, QCmd = cmd\<rparr>]\<rparr>,
                w\<lparr>WEvents := (WEvents w)(WNext w := enqueue_event q cmd w), WNext := Suc (WNext w)\<rparr>)))"
  by (simp add: Enqueue_def Enqueue_push_def Let_def)

end
