(* ===== verification/CPU_Exec.thy ===== *)
theory CPU_Exec
  imports Command_Queue
begin

text \<open>
  What the CPU device does with a command: \<open>CPUThread::Execute\<close> in \<open>lib/Device/CPU/CPUThread.cpp\<close>
  with the addresses the command classes of \<open>lib/Device/CPU/Command.h\<close> compute.

  The host and the device share one address space, a map from 64 bit addresses to bytes. The
  storage the device keeps for an object is the parameter \<open>DevPtr\<close>
  (\<open>CPUMemoryDescriptor::ptr\<close>). Code the program only calls, the entry point of a compiled kernel
  and a native function, is a parameter too, and so is the floating point arithmetic of the
  colour conversions, on the bit patterns of the values.
\<close>

record cpu_env =
  DevPtr :: "mem_object \<Rightarrow> ptr"
  KernelBlock :: "kernel_ref \<Rightarrow> dim_info \<Rightarrow> dim_iter \<Rightarrow> dim_iter \<Rightarrow> memory \<Rightarrow> memory"
  HasEntryPoint :: "kernel_ref \<Rightarrow> bool"
  NativeCall :: "ptr \<Rightarrow> byte list \<Rightarrow> memory \<Rightarrow> memory"
  ChannelFromFloat :: "channel_data_type \<Rightarrow> 32 word \<Rightarrow> 32 word"
  PackRGB :: "channel_data_type \<Rightarrow> 32 word \<Rightarrow> 32 word \<Rightarrow> 32 word \<Rightarrow> 32 word"
  Luminance :: "channel_data_type \<Rightarrow> 32 word \<Rightarrow> 32 word \<Rightarrow> 32 word \<Rightarrow> 32 word"

section \<open>Memory operations\<close>

text \<open>
  \<open>memcpy\<close>; the offset of an address in the target range wraps as addresses do. On ranges that
  overlap, where C leaves the result open, the model copies the old content.
\<close>

definition memcpy :: "ptr \<Rightarrow> ptr \<Rightarrow> size_t \<Rightarrow> memory \<Rightarrow> memory" where
  "memcpy Target Source n m = (\<lambda>a. if a - Target < n then m (Source + (a - Target)) else m a)"

definition MemRectCpy ::
  "ptr \<Rightarrow> ptr \<Rightarrow> triple \<Rightarrow> size_t \<Rightarrow> size_t \<Rightarrow> size_t \<Rightarrow> size_t \<Rightarrow> memory \<Rightarrow> memory" where
  "MemRectCpy Target Source Region TargetRowPitch TargetSlicePitch SourceRowPitch SourceSlicePitch m =
     foldl (\<lambda>m Z.
       foldl (\<lambda>m Y. memcpy (Target + TargetRowPitch * of_nat Y + TargetSlicePitch * of_nat Z)
                           (Source + SourceRowPitch * of_nat Y + SourceSlicePitch * of_nat Z) (ix0 Region) m)
         m [0..<unat (ix1 Region)]) m [0..<unat (ix2 Region)]"

definition store_bytes :: "ptr \<Rightarrow> byte list \<Rightarrow> memory \<Rightarrow> memory" where
  "store_bytes a bs m = foldl (\<lambda>m k. m(a + of_nat k := bs ! k)) m [0..<length bs]"

text \<open>\<open>MemFill<T>\<close> and \<open>MemRectFill<T>\<close>, \<open>sz\<close> the size of \<open>T\<close>; the source value is read once.\<close>

definition MemFill :: "nat \<Rightarrow> ptr \<Rightarrow> byte list \<Rightarrow> nat \<Rightarrow> memory \<Rightarrow> memory" where
  "MemFill sz Target bs NumEls m =
     foldl (\<lambda>m I. store_bytes (Target + of_nat (I * sz)) (take sz bs) m) m [0..<NumEls]"

definition MemRectFill :: "nat \<Rightarrow> ptr \<Rightarrow> byte list \<Rightarrow> triple \<Rightarrow> size_t \<Rightarrow> size_t \<Rightarrow> memory \<Rightarrow> memory" where
  "MemRectFill sz Target bs Region TargetRowPitch TargetSlicePitch m =
     foldl (\<lambda>m Z.
       foldl (\<lambda>m Y. MemFill sz (Target + TargetRowPitch * of_nat Y + TargetSlicePitch * of_nat Z) bs
                      (unat (ix0 Region) div sz) m)
         m [0..<unat (ix1 Region)]) m [0..<unat (ix2 Region)]"

section \<open>Colours\<close>

text \<open>The bytes of a value in memory, least significant first, and their inverse on four bytes.\<close>

definition le_bytes :: "nat \<Rightarrow> 32 word \<Rightarrow> byte list" where
  "le_bytes n x = map (\<lambda>k. ucast (drop_bit (8 * k) x)) [0..<n]"

definition word64_bytes :: "64 word \<Rightarrow> byte list" where
  "word64_bytes x = map (\<lambda>k. ucast (drop_bit (8 * k) x)) [0..<8]"

definition word_of_bytes :: "byte list \<Rightarrow> 32 word" where
  "word_of_bytes bs = foldr (\<lambda>b x. ucast b OR push_bit 8 x) bs 0"

definition put_at :: "nat \<Rightarrow> byte list \<Rightarrow> byte list \<Rightarrow> byte list" where
  "put_at i bs data = take i data @ bs @ drop (i + length bs) data"

text \<open>The four components of the fill colour.\<close>

definition component :: "byte list \<Rightarrow> nat \<Rightarrow> 32 word" where
  "component src i = word_of_bytes (take 4 (drop (4 * i) src))"

definition channel_value :: "cpu_env \<Rightarrow> channel_data_type \<Rightarrow> 32 word \<Rightarrow> 32 word option" where
  "channel_value E ty x =
     (case ty of
        DataType_SNorm_Int8 \<Rightarrow> Some (ChannelFromFloat E ty x)
      | DataType_SNorm_Int16 \<Rightarrow> Some (ChannelFromFloat E ty x)
      | DataType_UNorm_Int8 \<Rightarrow> Some (ChannelFromFloat E ty x)
      | DataType_UNorm_Int16 \<Rightarrow> Some (ChannelFromFloat E ty x)
      | DataType_Half_Float \<Rightarrow> Some (ChannelFromFloat E ty x)
      | DataType_Signed_Int8 \<Rightarrow> Some x
      | DataType_Signed_Int16 \<Rightarrow> Some x
      | DataType_Signed_Int32 \<Rightarrow> Some x
      | DataType_Unsigned_Int8 \<Rightarrow> Some x
      | DataType_Unsigned_Int16 \<Rightarrow> Some x
      | DataType_Unsigned_Int32 \<Rightarrow> Some x
      | DataType_Float \<Rightarrow> Some x
      | _ \<Rightarrow> None)"

definition WriteChannel ::
  "cpu_env \<Rightarrow> byte list \<Rightarrow> nat \<Rightarrow> nat \<Rightarrow> channel_data_type \<Rightarrow> byte list \<Rightarrow> byte list" where
  "WriteChannel E src ToCh FromCh ty data =
     (case channel_value E ty (component src FromCh) of
        None \<Rightarrow> data
      | Some x \<Rightarrow>
        let sz = computeImageChannelSizeInBytes ty in put_at (ToCh * sz) (le_bytes sz x) data)"

text \<open>The switches on the channel order, for the 16 bytes \<open>fill_data\<close> that start as zeros.\<close>

definition packed_colour :: "cpu_env \<Rightarrow> byte list \<Rightarrow> channel_data_type \<Rightarrow> byte list \<Rightarrow> byte list" where
  "packed_colour E src ty data =
     (if isPackedChannelType ty
      then put_at 0 (le_bytes (computeImageChannelSizeInBytes ty)
                       (PackRGB E ty (component src 0) (component src 1) (component src 2))) data
      else data)"

definition luminance_colour :: "cpu_env \<Rightarrow> byte list \<Rightarrow> channel_data_type \<Rightarrow> byte list \<Rightarrow> byte list" where
  "luminance_colour E src ty data =
     (if ty \<in> {DataType_UNorm_Int8, DataType_UNorm_Int16, DataType_SNorm_Int8, DataType_SNorm_Int16,
               DataType_Half_Float, DataType_Float}
      then put_at 0 (le_bytes (computeImageChannelSizeInBytes ty)
                       (Luminance E ty (component src 0) (component src 1) (component src 2))) data
      else data)"

definition fill_colour :: "cpu_env \<Rightarrow> byte list \<Rightarrow> channel_order \<Rightarrow> channel_data_type \<Rightarrow> byte list" where
  "fill_colour E src ord ty =
     (let wr = (\<lambda>to from. WriteChannel E src to from ty); z = replicate 16 0
      in case ord of
        Channel_R \<Rightarrow> wr 0 0 z
      | Channel_A \<Rightarrow> wr 0 3 z
      | Channel_Rx \<Rightarrow> wr 0 0 z
      | Channel_RG \<Rightarrow> wr 1 1 (wr 0 0 z)
      | Channel_RGx \<Rightarrow> wr 1 1 (wr 0 0 z)
      | Channel_RA \<Rightarrow> wr 1 3 (wr 0 0 z)
      | Channel_RGB \<Rightarrow> packed_colour E src ty z
      | Channel_RGBx \<Rightarrow> packed_colour E src ty z
      | Channel_RGBA \<Rightarrow> wr 3 3 (wr 2 2 (wr 1 1 (wr 0 0 z)))
      | Channel_ARGB \<Rightarrow> wr 3 2 (wr 2 1 (wr 1 0 (wr 0 3 z)))
      | Channel_BGRA \<Rightarrow> wr 3 3 (wr 2 0 (wr 1 1 (wr 0 2 z)))
      | Channel_Intensity \<Rightarrow> luminance_colour E src ty z
      | Channel_Luminance \<Rightarrow> luminance_colour E src ty z)"

section \<open>Execution\<close>

definition img_row_pitch :: "mem_object \<Rightarrow> size_t" where
  "img_row_pitch Img = RowPitch (Desc (attrsOf Img))"

definition img_slice_pitch :: "mem_object \<Rightarrow> size_t" where
  "img_slice_pitch Img = SlicePitch (Desc (attrsOf Img))"

definition exec_fill_buffer :: "ptr \<Rightarrow> byte list \<Rightarrow> size_t \<Rightarrow> size_t \<Rightarrow> memory \<Rightarrow> memory" where
  "exec_fill_buffer Target Source SourceSize TargetSize m =
     (let NumEls = unat TargetSize div unat SourceSize; sz = unat SourceSize
      in if sz \<in> {1, 2, 4, 8, 16, 32, 64, 128}
         then MemFill sz Target Source NumEls m else m)"

definition exec_fill_image :: "cpu_env \<Rightarrow> mem_object \<Rightarrow> ptr \<Rightarrow> byte list \<Rightarrow> triple \<Rightarrow> memory \<Rightarrow> memory" where
  "exec_fill_image E Img Target Source Region m =
     (let A = attrsOf Img; sz = unat (getElementSize Img);
          data = fill_colour E Source (ChOrder A) (ChDataType A)
      in if sz \<in> {1, 2, 4, 8, 16}
         then MemRectFill sz Target data Region (img_row_pitch Img) (img_slice_pitch Img) m else m)"

text \<open>
  \<open>CPUDevice::Submit\<close> of a native kernel patches the device's addresses of the objects into the
  copied arguments, in the order of the signed offsets. Nothing checks an offset: one outside the
  arguments makes the device write to memory it does not own, here \<open>None\<close>.
\<close>

definition patch_argument :: "cpu_env \<Rightarrow> ptr \<times> mem_object \<Rightarrow> byte list \<Rightarrow> byte list option" where
  "patch_argument E p args =
     (if unat (fst p) + 8 \<le> length args
      then Some (put_at (unat (fst p)) (word64_bytes (DevPtr E (snd p))) args) else None)"

definition patch_arguments :: "cpu_env \<Rightarrow> (ptr \<times> mem_object) list \<Rightarrow> byte list \<Rightarrow> byte list option" where
  "patch_arguments E locs args =
     foldl (\<lambda>r p. Option.bind r (patch_argument E p)) (Some args) (sort_key (\<lambda>p. sint (fst p)) locs)"

definition patched :: "cpu_env \<Rightarrow> command \<Rightarrow> command option" where
  "patched E cmd =
     (case CmdPayload cmd of
        NativeKernel fn args locs \<Rightarrow>
          map_option (\<lambda>a. cmd\<lparr>CmdPayload := NativeKernel fn a locs\<rparr>) (patch_arguments E locs args)
      | _ \<Rightarrow> Some cmd)"

text \<open>
  The command classes of the device: the addresses, sizes and pitches their accessors compute from
  the command of the queue and the storage of its objects.
\<close>

record copy_job =
  cjTarget :: ptr
  cjSource :: ptr
  cjSize :: size_t

record rect_job =
  rjTarget :: ptr
  rjSource :: ptr
  rjRegion :: triple
  rjTargetPitches :: pitches
  rjSourcePitches :: pitches

definition img_pitches :: "mem_object \<Rightarrow> pitches" where
  "img_pitches Img = (img_row_pitch Img, img_slice_pitch Img)"

definition packed_pitches :: "triple \<Rightarrow> pitches" where
  "packed_pitches Region = (ix0 Region, ix0 Region * ix1 Region)"

definition ReadBufferCPUCommand :: "cpu_env \<Rightarrow> ptr \<Rightarrow> mem_object \<Rightarrow> size_t \<Rightarrow> size_t \<Rightarrow> copy_job" where
  "ReadBufferCPUCommand E tgt src off n = \<lparr>cjTarget = tgt, cjSource = DevPtr E src + off, cjSize = n\<rparr>"

definition WriteBufferCPUCommand :: "cpu_env \<Rightarrow> mem_object \<Rightarrow> ptr \<Rightarrow> size_t \<Rightarrow> size_t \<Rightarrow> copy_job" where
  "WriteBufferCPUCommand E tgt src off n = \<lparr>cjTarget = DevPtr E tgt + off, cjSource = src, cjSize = n\<rparr>"

definition CopyBufferCPUCommand ::
  "cpu_env \<Rightarrow> mem_object \<Rightarrow> mem_object \<Rightarrow> size_t \<Rightarrow> size_t \<Rightarrow> size_t \<Rightarrow> copy_job" where
  "CopyBufferCPUCommand E tgt src toff soff n =
     \<lparr>cjTarget = DevPtr E tgt + toff, cjSource = DevPtr E src + soff, cjSize = n\<rparr>"

definition ReadImageCPUCommand ::
  "cpu_env \<Rightarrow> ptr \<Rightarrow> mem_object \<Rightarrow> size_t \<Rightarrow> triple \<Rightarrow> pitches \<Rightarrow> rect_job" where
  "ReadImageCPUCommand E tgt src off reg ps =
     \<lparr>rjTarget = tgt, rjSource = DevPtr E src + off, rjRegion = reg,
      rjTargetPitches = ps, rjSourcePitches = img_pitches src\<rparr>"

definition WriteImageCPUCommand ::
  "cpu_env \<Rightarrow> mem_object \<Rightarrow> ptr \<Rightarrow> size_t \<Rightarrow> triple \<Rightarrow> pitches \<Rightarrow> rect_job" where
  "WriteImageCPUCommand E tgt src off reg ps =
     \<lparr>rjTarget = DevPtr E tgt + off, rjSource = src, rjRegion = reg,
      rjTargetPitches = img_pitches tgt, rjSourcePitches = ps\<rparr>"

definition CopyImageCPUCommand ::
  "cpu_env \<Rightarrow> mem_object \<Rightarrow> mem_object \<Rightarrow> size_t \<Rightarrow> size_t \<Rightarrow> triple \<Rightarrow> rect_job" where
  "CopyImageCPUCommand E tgt src toff soff reg =
     \<lparr>rjTarget = DevPtr E tgt + toff, rjSource = DevPtr E src + soff, rjRegion = reg,
      rjTargetPitches = img_pitches tgt, rjSourcePitches = img_pitches src\<rparr>"

definition CopyImageToBufferCPUCommand ::
  "cpu_env \<Rightarrow> mem_object \<Rightarrow> mem_object \<Rightarrow> size_t \<Rightarrow> size_t \<Rightarrow> triple \<Rightarrow> rect_job" where
  "CopyImageToBufferCPUCommand E tgt src toff soff reg =
     \<lparr>rjTarget = DevPtr E tgt + toff, rjSource = DevPtr E src + soff, rjRegion = reg,
      rjTargetPitches = packed_pitches reg, rjSourcePitches = img_pitches src\<rparr>"

definition CopyBufferToImageCPUCommand ::
  "cpu_env \<Rightarrow> mem_object \<Rightarrow> mem_object \<Rightarrow> size_t \<Rightarrow> size_t \<Rightarrow> triple \<Rightarrow> rect_job" where
  "CopyBufferToImageCPUCommand E tgt src toff soff reg =
     \<lparr>rjTarget = DevPtr E tgt + toff, rjSource = DevPtr E src + soff, rjRegion = reg,
      rjTargetPitches = img_pitches tgt, rjSourcePitches = packed_pitches reg\<rparr>"

definition ReadBufferRectCPUCommand ::
  "cpu_env \<Rightarrow> ptr \<Rightarrow> mem_object \<Rightarrow> triple \<Rightarrow> size_t \<Rightarrow> size_t \<Rightarrow> pitches \<Rightarrow> pitches \<Rightarrow> rect_job" where
  "ReadBufferRectCPUCommand E tgt src reg toff soff tps sps =
     \<lparr>rjTarget = tgt + toff, rjSource = DevPtr E src + soff, rjRegion = reg,
      rjTargetPitches = tps, rjSourcePitches = sps\<rparr>"

definition WriteBufferRectCPUCommand ::
  "cpu_env \<Rightarrow> mem_object \<Rightarrow> ptr \<Rightarrow> triple \<Rightarrow> size_t \<Rightarrow> size_t \<Rightarrow> pitches \<Rightarrow> pitches \<Rightarrow> rect_job" where
  "WriteBufferRectCPUCommand E tgt src reg toff soff tps sps =
     \<lparr>rjTarget = DevPtr E tgt + toff, rjSource = src + soff, rjRegion = reg,
      rjTargetPitches = tps, rjSourcePitches = sps\<rparr>"

definition CopyBufferRectCPUCommand ::
  "cpu_env \<Rightarrow> mem_object \<Rightarrow> mem_object \<Rightarrow> triple \<Rightarrow> size_t \<Rightarrow> size_t \<Rightarrow> pitches \<Rightarrow> pitches \<Rightarrow> rect_job" where
  "CopyBufferRectCPUCommand E tgt src reg toff soff tps sps =
     \<lparr>rjTarget = DevPtr E tgt + toff, rjSource = DevPtr E src + soff, rjRegion = reg,
      rjTargetPitches = tps, rjSourcePitches = sps\<rparr>"

definition FillBufferCPUCommand :: "cpu_env \<Rightarrow> mem_object \<Rightarrow> size_t \<Rightarrow> ptr" where
  "FillBufferCPUCommand E tgt off = DevPtr E tgt + off"

definition FillImageCPUCommand :: "cpu_env \<Rightarrow> mem_object \<Rightarrow> size_t \<Rightarrow> ptr" where
  "FillImageCPUCommand E tgt off = DevPtr E tgt + off"

lemmas CPUCommand_defs = ReadBufferCPUCommand_def WriteBufferCPUCommand_def CopyBufferCPUCommand_def
  ReadImageCPUCommand_def WriteImageCPUCommand_def CopyImageCPUCommand_def CopyImageToBufferCPUCommand_def
  CopyBufferToImageCPUCommand_def ReadBufferRectCPUCommand_def WriteBufferRectCPUCommand_def
  CopyBufferRectCPUCommand_def FillBufferCPUCommand_def FillImageCPUCommand_def img_pitches_def packed_pitches_def

definition run_copy :: "copy_job \<Rightarrow> memory \<Rightarrow> memory" where
  "run_copy j m = memcpy (cjTarget j) (cjSource j) (cjSize j) m"

definition run_rect :: "rect_job \<Rightarrow> memory \<Rightarrow> memory" where
  "run_rect j m =
     MemRectCpy (rjTarget j) (rjSource j) (rjRegion j) (fst (rjTargetPitches j)) (snd (rjTargetPitches j))
       (fst (rjSourcePitches j)) (snd (rjSourcePitches j)) m"

text \<open>
  \<open>Execute\<close> of the commands that run as one job: the new memory and mappings. They all succeed.
  The case of a kernel is in \<open>exec_block\<close>.
\<close>

fun Execute :: "cpu_env \<Rightarrow> payload \<Rightarrow> memory \<times> map_store \<Rightarrow> memory \<times> map_store" where
  "Execute E (ReadBuffer tgt src off n) (m, S) = (run_copy (ReadBufferCPUCommand E tgt src off n) m, S)"
| "Execute E (WriteBuffer tgt src off n) (m, S) = (run_copy (WriteBufferCPUCommand E tgt src off n) m, S)"
| "Execute E (CopyBuffer tgt src toff soff n) (m, S) =
     (run_copy (CopyBufferCPUCommand E tgt src toff soff n) m, S)"
| "Execute E (ReadImage tgt src off org reg ps) (m, S) =
     (run_rect (ReadImageCPUCommand E tgt src off reg ps) m, S)"
| "Execute E (WriteImage tgt src off org reg ps) (m, S) =
     (run_rect (WriteImageCPUCommand E tgt src off reg ps) m, S)"
| "Execute E (CopyImage tgt src toff soff torg sorg reg) (m, S) =
     (run_rect (CopyImageCPUCommand E tgt src toff soff reg) m, S)"
| "Execute E (CopyImageToBuffer tgt src toff soff org reg) (m, S) =
     (run_rect (CopyImageToBufferCPUCommand E tgt src toff soff reg) m, S)"
| "Execute E (CopyBufferToImage tgt src toff soff org reg) (m, S) =
     (run_rect (CopyBufferToImageCPUCommand E tgt src toff soff reg) m, S)"
| "Execute E (MapBuffer src fl off n p) (m, S) = (m, S)"
| "Execute E (MapImage src fl org reg p ps) (m, S) = (m, S)"
| "Execute E (UnmapMemObject mo p) (m, S) = (m, fst (removeMapping mo p S))"
| "Execute E Marker (m, S) = (m, S)"
| "Execute E (ReadBufferRect tgt src reg toff soff tps sps) (m, S) =
     (run_rect (ReadBufferRectCPUCommand E tgt src reg toff soff tps sps) m, S)"
| "Execute E (WriteBufferRect tgt src reg toff soff tps sps) (m, S) =
     (run_rect (WriteBufferRectCPUCommand E tgt src reg toff soff tps sps) m, S)"
| "Execute E (CopyBufferRect tgt src reg toff soff tps sps) (m, S) =
     (run_rect (CopyBufferRectCPUCommand E tgt src reg toff soff tps sps) m, S)"
| "Execute E Barrier (m, S) = (m, S)"
| "Execute E (FillBuffer tgt src sn off n) (m, S) =
     (exec_fill_buffer (FillBufferCPUCommand E tgt off) src sn n m, S)"
| "Execute E (FillImage tgt src off org reg) (m, S) =
     (exec_fill_image E tgt (FillImageCPUCommand E tgt off) src reg m, S)"
| "Execute E (NativeKernel fn args locs) (m, S) = (NativeCall E fn args m, S)"
| "Execute E (NDRangeKernel k D) (m, S) = (m, S)"

text \<open>
  The thread that runs a work-group steps through its items in a ring.
\<close>

definition SwitchToNextWorkItem :: "dim_info \<Rightarrow> dim_iter \<Rightarrow> dim_iter \<Rightarrow> dim_iter \<Rightarrow> dim_iter" where
  "SwitchToNextWorkItem D Begin End Cur = (let Nxt = Advance D Cur 1 in if Nxt = End then Begin else Nxt)"

text \<open>One work-group of a kernel; \<open>CL_INVALID_PROGRAM_EXECUTABLE\<close> when the entry point is missing.\<close>

definition exec_block ::
  "cpu_env \<Rightarrow> kernel_ref \<Rightarrow> dim_info \<Rightarrow> dim_iter \<Rightarrow> dim_iter \<Rightarrow> memory \<Rightarrow> memory \<times> cl_int" where
  "exec_block E k D Begin End m =
     (if \<not> HasEntryPoint E k then (m, CL_INVALID_PROGRAM_EXECUTABLE) else (KernelBlock E k D Begin End m, CL_COMPLETE))"

end
