(* ===== verification/CPU_Exec_Proof.thy ===== *)
theory CPU_Exec_Proof
  imports CPU_Exec Buffer_Builders
begin

text \<open>
  What the memory operations of \<open>CPU_Exec\<close> compute: copies of rows and of rectangular regions, and
  fills with a pattern, byte by byte.
\<close>

section \<open>Ranges of addresses\<close>

definition in_run :: "ptr \<Rightarrow> size_t \<Rightarrow> ptr \<Rightarrow> bool" where
  "in_run base n a \<longleftrightarrow> a - base < n"

lemma in_run_add: "in_run base n (base + k) \<longleftrightarrow> k < n"
  by (simp add: in_run_def)

lemma memcpy_in: "in_run Target n a \<Longrightarrow> memcpy Target Source n m a = m (Source + (a - Target))"
  by (simp add: memcpy_def in_run_def)

lemma memcpy_out: "\<not> in_run Target n a \<Longrightarrow> memcpy Target Source n m a = m a"
  by (simp add: memcpy_def in_run_def)

definition disjoint_ranges :: "ptr \<Rightarrow> size_t \<Rightarrow> ptr \<Rightarrow> size_t \<Rightarrow> bool" where
  "disjoint_ranges p n q k \<longleftrightarrow> (\<forall>a. \<not> (in_run p n a \<and> in_run q k a))"

section \<open>Copies of many rows\<close>

definition copy_rows :: "size_t \<Rightarrow> (ptr \<times> ptr) list \<Rightarrow> memory \<Rightarrow> memory" where
  "copy_rows n rows m = foldl (\<lambda>m r. memcpy (fst r) (snd r) n m) m rows"

text \<open>No row is copied over a row that is still to be read, nor over another copied row.\<close>

definition rows_apart :: "size_t \<Rightarrow> (ptr \<times> ptr) list \<Rightarrow> bool" where
  "rows_apart n rows \<longleftrightarrow>
     (\<forall>r \<in> set rows. \<forall>s \<in> set rows. disjoint_ranges (fst r) n (snd s) n) \<and>
     sorted_wrt (\<lambda>r s. disjoint_ranges (fst r) n (fst s) n) rows"

lemma copy_rows_out:
  "\<forall>r \<in> set rows. \<not> in_run (fst r) n a \<Longrightarrow> copy_rows n rows m a = m a"
  by (induction rows arbitrary: m) (simp_all add: copy_rows_def memcpy_out)

lemma copy_rows_in:
  "rows_apart n rows \<Longrightarrow> r \<in> set rows \<Longrightarrow> k < n \<Longrightarrow> copy_rows n rows m (fst r + k) = m (snd r + k)"
proof (induction rows arbitrary: m)
  case (Cons s rows)
  have apart: "rows_apart n rows" using Cons.prems(1) by (simp add: rows_apart_def)
  have step: "copy_rows n (s # rows) m = copy_rows n rows (memcpy (fst s) (snd s) n m)"
    by (simp add: copy_rows_def)
  have src: "\<not> in_run (fst s) n (snd r + k)"
    using Cons.prems in_run_add [of "snd r" n k] by (auto simp: rows_apart_def disjoint_ranges_def)
  show ?case
  proof (cases "r \<in> set rows")
    case True
    with Cons.IH [OF apart True Cons.prems(3)] src show ?thesis by (simp add: step memcpy_out)
  next
    case False
    then have r: "r = s" using Cons.prems(2) by simp
    have "\<forall>t \<in> set rows. \<not> in_run (fst t) n (fst r + k)"
      using Cons.prems(1,3) in_run_add [of "fst r" n k] by (auto simp: r rows_apart_def disjoint_ranges_def)
    then show ?thesis
      using Cons.prems(3) by (simp add: step copy_rows_out r memcpy_def)
  qed
qed simp

section \<open>Rectangular regions\<close>

definition rect_addr :: "ptr \<Rightarrow> size_t \<Rightarrow> size_t \<Rightarrow> nat \<Rightarrow> nat \<Rightarrow> ptr" where
  "rect_addr base p0 p1 Y Z = base + p0 * of_nat Y + p1 * of_nat Z"

definition rect_rows ::
  "ptr \<Rightarrow> ptr \<Rightarrow> triple \<Rightarrow> size_t \<Rightarrow> size_t \<Rightarrow> size_t \<Rightarrow> size_t \<Rightarrow> (ptr \<times> ptr) list" where
  "rect_rows T S R tp0 tp1 sp0 sp1 =
     concat (map (\<lambda>Z. map (\<lambda>Y. (rect_addr T tp0 tp1 Y Z, rect_addr S sp0 sp1 Y Z)) [0..<unat (ix1 R)])
       [0..<unat (ix2 R)])"

lemma foldl_concat: "foldl f a (concat xss) = foldl (foldl f) a xss"
  by (induction xss arbitrary: a) simp_all

lemma foldl_map': "foldl f a (map g xs) = foldl (\<lambda>a x. f a (g x)) a xs"
  by (induction xs arbitrary: a) simp_all

lemma MemRectCpy_rows:
  "MemRectCpy T S R tp0 tp1 sp0 sp1 m = copy_rows (ix0 R) (rect_rows T S R tp0 tp1 sp0 sp1) m"
  by (simp add: MemRectCpy_def copy_rows_def rect_rows_def foldl_concat foldl_map' rect_addr_def)

lemma rect_rows_set:
  "set (rect_rows T S R tp0 tp1 sp0 sp1) =
     {(rect_addr T tp0 tp1 Y Z, rect_addr S sp0 sp1 Y Z) | Y Z. Y < unat (ix1 R) \<and> Z < unat (ix2 R)}"
  by (fastforce simp: rect_rows_def)

text \<open>Two regions have no byte in common; the rows of one region do not overlap.\<close>

definition rect_disjoint ::
  "triple \<Rightarrow> ptr \<Rightarrow> size_t \<Rightarrow> size_t \<Rightarrow> ptr \<Rightarrow> size_t \<Rightarrow> size_t \<Rightarrow> bool" where
  "rect_disjoint R T tp0 tp1 S sp0 sp1 \<longleftrightarrow>
     (\<forall>Y < unat (ix1 R). \<forall>Z < unat (ix2 R). \<forall>Y' < unat (ix1 R). \<forall>Z' < unat (ix2 R).
        disjoint_ranges (rect_addr T tp0 tp1 Y Z) (ix0 R) (rect_addr S sp0 sp1 Y' Z') (ix0 R))"

definition rect_rows_disjoint :: "triple \<Rightarrow> ptr \<Rightarrow> size_t \<Rightarrow> size_t \<Rightarrow> bool" where
  "rect_rows_disjoint R T p0 p1 \<longleftrightarrow>
     (\<forall>Y < unat (ix1 R). \<forall>Z < unat (ix2 R). \<forall>Y' < unat (ix1 R). \<forall>Z' < unat (ix2 R).
        (Y, Z) \<noteq> (Y', Z') \<longrightarrow> disjoint_ranges (rect_addr T p0 p1 Y Z) (ix0 R) (rect_addr T p0 p1 Y' Z') (ix0 R))"

lemma sorted_wrt_concat_map:
  assumes "\<And>i j. i < j \<Longrightarrow> j < n \<Longrightarrow> \<forall>x \<in> set (f i). \<forall>y \<in> set (f j). P x y"
    and "\<And>i. i < n \<Longrightarrow> sorted_wrt P (f i)"
  shows "sorted_wrt P (concat (map f [0..<n]))"
  using assms by (induction n) (auto simp: sorted_wrt_append)

lemma sorted_wrt_map_upt:
  "(\<And>i j. i < j \<Longrightarrow> j < n \<Longrightarrow> P (f i) (f j)) \<Longrightarrow> sorted_wrt P (map f [0..<n])"
  by (simp add: sorted_wrt_iff_nth_less)

lemma rect_rows_apart:
  assumes "rect_disjoint R T tp0 tp1 S sp0 sp1" "rect_rows_disjoint R T tp0 tp1"
  shows "rows_apart (ix0 R) (rect_rows T S R tp0 tp1 sp0 sp1)"
  unfolding rows_apart_def
proof (intro conjI)
  show "\<forall>r \<in> set (rect_rows T S R tp0 tp1 sp0 sp1). \<forall>s \<in> set (rect_rows T S R tp0 tp1 sp0 sp1).
          disjoint_ranges (fst r) (ix0 R) (snd s) (ix0 R)"
    using assms(1) by (auto simp: rect_rows_set rect_disjoint_def)
  show "sorted_wrt (\<lambda>r s. disjoint_ranges (fst r) (ix0 R) (fst s) (ix0 R)) (rect_rows T S R tp0 tp1 sp0 sp1)"
    unfolding rect_rows_def
    by (rule sorted_wrt_concat_map)
      (use assms(2) in \<open>auto simp: rect_rows_disjoint_def intro!: sorted_wrt_map_upt\<close>)
qed

text \<open>The copy of a region, byte by byte, and that it touches nothing else.\<close>

lemma MemRectCpy_in:
  assumes "rect_disjoint R T tp0 tp1 S sp0 sp1" "rect_rows_disjoint R T tp0 tp1"
    and "X < ix0 R" "Y < unat (ix1 R)" "Z < unat (ix2 R)"
  shows "MemRectCpy T S R tp0 tp1 sp0 sp1 m (rect_addr T tp0 tp1 Y Z + X) = m (rect_addr S sp0 sp1 Y Z + X)"
proof -
  have "(rect_addr T tp0 tp1 Y Z, rect_addr S sp0 sp1 Y Z) \<in> set (rect_rows T S R tp0 tp1 sp0 sp1)"
    using assms(4,5) by (auto simp: rect_rows_set)
  from copy_rows_in [OF rect_rows_apart [OF assms(1,2)] this assms(3)] show ?thesis
    by (simp add: MemRectCpy_rows)
qed

lemma MemRectCpy_out:
  assumes "\<forall>Y < unat (ix1 R). \<forall>Z < unat (ix2 R). \<not> in_run (rect_addr T tp0 tp1 Y Z) (ix0 R) a"
  shows "MemRectCpy T S R tp0 tp1 sp0 sp1 m a = m a"
  using assms by (auto simp: MemRectCpy_rows rect_rows_set intro!: copy_rows_out)

section \<open>Fills\<close>

text \<open>The part of the address space at distance \<open>k\<close> to \<open>k + s\<close> from an address.\<close>

lemma unat_minus64:
  fixes e :: "64 word"
  assumes "e \<noteq> 0"
  shows "unat (- e) = 2 ^ 64 - unat e"
proof -
  have e: "0 < unat e" "unat e < 2 ^ 64" by (use assms in \<open>simp add: unat_gt_0\<close>, rule unat_below64)
  have "of_nat (2 ^ 64 - unat e) = (of_nat (2 ^ 64) - of_nat (unat e) :: 64 word)"
    using e by (intro of_nat_diff) simp
  also have "(of_nat (2 ^ 64) :: 64 word) = 0" by simp
  finally have "- e = of_nat (2 ^ 64 - unat e)" by simp
  moreover have "unat (of_nat (2 ^ 64 - unat e) :: 64 word) = 2 ^ 64 - unat e"
    by (rule unat_of_nat64) (use e in simp)
  ultimately show ?thesis by simp
qed

lemma window:
  fixes d :: "64 word"
  assumes "k + s \<le> 2 ^ 64"
  shows "unat (d - of_nat k) < s \<longleftrightarrow> k \<le> unat d \<and> unat d < k + s"
    and "k \<le> unat d \<Longrightarrow> unat (d - of_nat k) = unat d - k"
proof -
  have d: "unat d < 2 ^ 64" by (rule unat_below64)
  have sub: "unat (d - of_nat k) = unat d - k" if "k \<le> unat d"
  proof -
    have k: "unat (of_nat k :: 64 word) = k" using that d by (intro unat_of_nat64) simp
    then have "of_nat k \<le> d" using that by (simp add: word_le_nat_alt)
    then show ?thesis by (simp add: unat_sub k)
  qed
  then show "k \<le> unat d \<Longrightarrow> unat (d - of_nat k) = unat d - k" .
  show "unat (d - of_nat k) < s \<longleftrightarrow> k \<le> unat d \<and> unat d < k + s"
  proof (cases "k \<le> unat d")
    case True
    with sub show ?thesis by auto
  next
    case False
    show ?thesis
    proof (cases "k = 2 ^ 64")
      case True
      then show ?thesis using assms d by simp
    next
      case k64: False
      then have k: "unat (of_nat k :: 64 word) = k" using assms by (intro unat_of_nat64) simp
      have "unat (of_nat k - d) = k - unat d"
        using False by (subst unat_sub) (simp_all add: word_le_nat_alt k)
      moreover have "of_nat k - d \<noteq> 0" using False k by (metis eq_iff_diff_eq_0 le_refl)
      moreover have "unat (d - of_nat k) = unat (- (of_nat k - d))" by simp
      ultimately have "unat (d - of_nat k) = 2 ^ 64 - (k - unat d)"
        using unat_minus64 [of "of_nat k - d"] by simp
      with False assms show ?thesis by simp
    qed
  qed
qed

lemma store_bytes_value:
  assumes "length bs \<le> 2 ^ 64"
  shows "store_bytes a bs m x = (if unat (x - a) < length bs then bs ! unat (x - a) else m x)"
proof -
  have "n \<le> length bs \<Longrightarrow>
        foldl (\<lambda>m k. m(a + of_nat k := bs ! k)) m [0..<n] x = (if unat (x - a) < n then bs ! unat (x - a) else m x)" for n
  proof (induction n)
    case (Suc n)
    then have "n < 2 ^ 64" using assms by simp
    then have "x = a + of_nat n \<longleftrightarrow> unat (x - a) = n"
      using unat_of_nat64 [of n] by (metis add_diff_cancel_left' diff_add_cancel add.commute word_unat_eq_iff)
    with Suc show ?case by (auto simp: less_Suc_eq)
  qed simp
  from this [of "length bs"] show ?thesis by (simp add: store_bytes_def)
qed

lemma MemFill_value:
  assumes "sz \<le> length bs" "N * sz \<le> 2 ^ 64" "0 < sz"
  shows "MemFill sz T bs N m x = (if unat (x - T) < N * sz then bs ! (unat (x - T) mod sz) else m x)"
  using assms(2)
proof (induction N)
  case 0
  show ?case by (simp add: MemFill_def)
next
  case (Suc N)
  define c :: ptr where "c = of_nat (N * sz)"
  have step: "MemFill sz T bs (Suc N) m = store_bytes (T + c) (take sz bs) (MemFill sz T bs N m)"
    by (simp add: MemFill_def c_def)
  have b: "N * sz + sz \<le> 2 ^ 64" using Suc.prems by simp
  have len: "length (take sz bs) = sz" using assms(1) by simp
  have len64: "length (take sz bs) \<le> 2 ^ 64" using len b by linarith
  have sub: "x - (T + c) = (x - T) - c" by simp
  note w = window [OF b, of "x - T", folded c_def]
  show ?case
  proof (cases "N * sz \<le> unat (x - T) \<and> unat (x - T) < N * sz + sz")
    case True
    then obtain r where r: "unat (x - T) = N * sz + r" "r < sz" by (metis le_Suc_ex nat_add_left_cancel_less)
    have "unat (x - (T + c)) = r" unfolding sub using w(2) r by simp
    with r assms(1) show ?thesis by (simp add: step store_bytes_value [OF len64] len)
  next
    case False
    have "\<not> unat (x - (T + c)) < sz" unfolding sub using w(1) False by simp
    then have "MemFill sz T bs (Suc N) m x = MemFill sz T bs N m x"
      by (simp add: step store_bytes_value [OF len64] len)
    moreover have "unat (x - T) < Suc N * sz \<longleftrightarrow> unat (x - T) < N * sz" using False by auto
    ultimately show ?thesis using Suc.IH b by simp
  qed
qed

section \<open>Disjoint ranges by their distances\<close>

lemma disjoint_rangesI:
  assumes "n \<le> q - p" "k \<le> p - q"
  shows "disjoint_ranges p n q k"
proof -
  have False if "x < n" "x - d < k" "n \<le> d" "k \<le> - d" for x d :: "64 word"
  proof -
    have xd: "x < d" using that(1,3) by simp
    then have d0: "d - x \<noteq> 0" "d \<noteq> 0" by auto
    have "unat (x - d) = 2 ^ 64 - unat (d - x)" using unat_minus64 [OF d0(1)] by simp
    moreover have "unat (d - x) = unat d - unat x" using xd by (simp add: unat_sub)
    moreover have "unat (- d) = 2 ^ 64 - unat d" by (rule unat_minus64 [OF d0(2)])
    moreover have "unat x < unat d" "unat d < 2 ^ 64" using xd unat_below64 [of d] by (simp_all add: word_less_nat_alt)
    ultimately have "unat (- d) \<le> unat (x - d)" by linarith
    then have "- d \<le> x - d" by (simp add: word_le_nat_alt)
    with that(2,4) show False by (meson leD order_trans)
  qed
  from this [of "a - p" "q - p" for a] assms show ?thesis
    by (auto simp: disjoint_ranges_def in_run_def)
qed

section \<open>The ring of work-items\<close>

text \<open>The iterator at the start of group \<open>j\<close>, reached item by item.\<close>

lemma iterate_group:
  assumes wf: "wf_dims D" and j: "j \<le> GetWorkGroupsCount D"
  shows "iterate D (GetLocalWorkItems D) j = iterate D 1 (j * GetLocalWorkItems D)"
proof (cases "j = GetWorkGroupsCount D")
  case True
  have total: "GetWorkGroupsCount D * GetLocalWorkItems D = total_items D"
    by (simp add: GetWorkGroupsCount_wf [OF wf] GetLocalWorkItems_wf [OF wf] mult.commute flip: radix_prod [OF wf])
  moreover have "0 < total_items D"
    using radix_prod [OF wf] group_prod_pos [OF wf] local_prod_pos [OF wf] by (metis nat_0_less_mult_iff)
  ultimately have "iterate D 1 (total_items D) = iter_end D"
    using total_small [OF wf] by (intro iterate_end [OF wf]) simp_all
  then show ?thesis using group_step_end [OF wf] by (simp add: True total)
next
  case False
  then have lt: "j < GetWorkGroupsCount D" using j by simp
  note g = group_step [OF wf lt]
  have "j * GetLocalWorkItems D < total_items D"
    using g(2) rank_bound [OF wf g(1)] by (simp add: GetLocalWorkItems_wf [OF wf])
  then have "in_range D (iterate D 1 (j * GetLocalWorkItems D)) \<and>
      rank D (iterate D 1 (j * GetLocalWorkItems D)) = j * GetLocalWorkItems D"
    using iterate_rank [OF wf, of "j * GetLocalWorkItems D" 1] by simp
  then show ?thesis
    using rank_inject [OF wf g(1)] g(2) by (simp add: GetLocalWorkItems_wf [OF wf])
qed

lemma iterate_distinct:
  assumes wf: "wf_dims D" and "n < m" "m \<le> total_items D"
  shows "iterate D 1 n \<noteq> iterate D 1 m"
proof (cases "m = total_items D")
  case True
  have "iterate D 1 (total_items D) = iter_end D"
    using assms(2) total_small [OF wf] by (intro iterate_end [OF wf]) (simp_all add: True)
  then show ?thesis
    using in_range_not_end [OF wf conjunct1 [OF iterate_rank [OF wf, of n 1]]] assms(2) True by simp
next
  case False
  then show ?thesis using iterate_rank [OF wf, of n 1] iterate_rank [OF wf, of m 1] assms(2,3) by auto
qed

lemma switch_ring:
  assumes wf: "wf_dims D" and j: "j < GetWorkGroupsCount D"
  defines "L \<equiv> GetLocalWorkItems D"
  shows "((SwitchToNextWorkItem D (iterate D L j) (iterate D L (Suc j))) ^^ k) (iterate D L j) =
         iterate D 1 (j * L + k mod L)"
proof (induction k)
  case 0
  show ?case using iterate_group [OF wf, of j] j by (simp add: L_def)
next
  case (Suc k)
  have L: "0 < L" using local_prod_pos [OF wf] by (simp add: L_def GetLocalWorkItems_wf [OF wf])
  let ?n = "j * L + k mod L"
  have fin: "iterate D L (Suc j) = iterate D 1 (Suc j * L)" "iterate D L j = iterate D 1 (j * L)"
    using iterate_group [OF wf, of "Suc j"] iterate_group [OF wf, of j] j by (simp_all only: L_def)
  have "Suc j * L \<le> GetWorkGroupsCount D * L" using j by (intro mult_le_mono1) simp
  also have "\<dots> = total_items D"
    by (simp add: L_def GetWorkGroupsCount_wf [OF wf] GetLocalWorkItems_wf [OF wf] mult.commute flip: radix_prod [OF wf])
  finally have top: "Suc j * L \<le> total_items D" .
  have nxt: "Advance D (iterate D 1 ?n) 1 = iterate D 1 (Suc ?n)" by simp
  have "SwitchToNextWorkItem D (iterate D L j) (iterate D L (Suc j)) (iterate D 1 ?n) = iterate D 1 (j * L + Suc k mod L)"
  proof (cases "Suc (k mod L) = L")
    case True
    then have "Suc ?n = Suc j * L" "Suc k mod L = 0" by (simp_all add: mod_Suc)
    then show ?thesis by (simp only: SwitchToNextWorkItem_def nxt Let_def fin) simp
  next
    case False
    have lt: "Suc (k mod L) < L" using False L mod_less_divisor [OF L, of k] by linarith
    then have "Suc ?n < Suc j * L" by simp
    then have "iterate D 1 (Suc ?n) \<noteq> iterate D 1 (Suc j * L)" by (rule iterate_distinct [OF wf _ top])
    moreover have "j * L + Suc k mod L = Suc ?n" using lt by (simp add: mod_Suc)
    ultimately show ?thesis by (simp only: SwitchToNextWorkItem_def nxt Let_def fin if_False)
  qed
  then show ?case using Suc.IH by simp
qed

section \<open>Pattern sizes\<close>

lemma pattern_sizes:
  assumes "PatternSize \<noteq> 0" "\<not> (PatternSize AND (PatternSize - 1) \<noteq> 0 \<or> PatternSize > (128 :: size_t))"
  shows "unat PatternSize \<in> {1, 2, 4, 8, 16, 32, 64, 128}"
proof -
  have all: "\<forall>k \<in> set [1..<129]. (of_nat k :: size_t) AND (of_nat k - 1) = 0 \<longrightarrow> k \<in> {1, 2, 4, 8, 16, 32, 64, 128}"
    by (simp add: upt_rec)
  have "unat PatternSize \<le> 128" using assms(2) by (simp add: word_le_nat_alt not_less)
  moreover have "0 < unat PatternSize" using assms(1) by (simp add: unat_gt_0)
  ultimately have "unat PatternSize \<in> set [1..<129]" by simp
  from bspec [OF all this] assms(2) show ?thesis by simp
qed

lemma fill_builder_ok:
  assumes "bErr (FillBuffer_Builder Q (Some mo) pat) = CL_SUCCESS"
  shows "FillBuffer_Builder Q (Some mo) pat =
     \<lparr>bCtx = QContext Q, bErr = CL_SUCCESS, bWait = [], bDiag = [], fbTarget = Some mo, fbSource = pat,
      fbSourceSize = 0, fbTargetOffset = 0, fbTargetSize = 0\<rparr>"
  using assms
  by (auto simp: FillBuffer_Builder_def check_pointer_def with_buffer_def cast_buffer_def Let_def check_context_def
           split: if_splits)

lemma fill_command:
  assumes "FillBuffer_Create m (FillBuffer_SetWaitList Ev N Evs (FillBuffer_SetFillRegion off n
             (FillBuffer_SetPatternSize psz (FillBuffer_Builder Q (Some mo) pat)))) = (Some cmd, e)"
  shows "CmdPayload cmd = FillBuffer mo (load_bytes pat (unat psz) m) psz off n" "n mod psz = 0"
    "psz \<noteq> 0" "\<not> (psz AND (psz - 1) \<noteq> 0 \<or> psz > 128)"
proof -
  let ?b0 = "FillBuffer_Builder Q (Some mo) pat"
  let ?b1 = "FillBuffer_SetPatternSize psz ?b0"
  let ?b2 = "FillBuffer_SetFillRegion off n ?b1"
  have ok: "bErr (FillBuffer_SetWaitList Ev N Evs ?b2) = CL_SUCCESS"
    and cmd: "cmd = EnqueueFillBuffer m (the (fbTarget (FillBuffer_SetWaitList Ev N Evs ?b2)))
       (fbSource (FillBuffer_SetWaitList Ev N Evs ?b2)) (fbSourceSize (FillBuffer_SetWaitList Ev N Evs ?b2))
       (fbTargetOffset (FillBuffer_SetWaitList Ev N Evs ?b2)) (fbTargetSize (FillBuffer_SetWaitList Ev N Evs ?b2))
       (bWait (FillBuffer_SetWaitList Ev N Evs ?b2))"
    using assms by (simp_all add: FillBuffer_Create_def create_command_Some)
  have b3: "FillBuffer_SetWaitList Ev N Evs ?b2 = ?b2\<lparr>bWait := bWait ?b2 @ wait_ids N Evs\<rparr>"
    using SetWaitList_plain_value ok unfolding FillBuffer_SetWaitList_def by blast
  have ok2: "bErr ?b2 = CL_SUCCESS"
    using ok unfolding FillBuffer_SetWaitList_def by (simp add: SetWaitList_plain_ok)
  have ok1: "bErr ?b1 = CL_SUCCESS"
    using ok2 by (auto simp: FillBuffer_SetFillRegion_def split: if_splits option.splits)
  have size: "psz \<noteq> 0" "\<not> (psz AND (psz - 1) \<noteq> 0 \<or> psz > 128)" "bErr ?b0 = CL_SUCCESS"
    using ok1 by (auto simp: FillBuffer_SetPatternSize_def split: if_splits)
  note b0 = fill_builder_ok [OF size(3)]
  have b1: "?b1 = \<lparr>bCtx = QContext Q, bErr = CL_SUCCESS, bWait = [], bDiag = [], fbTarget = Some mo, fbSource = pat,
      fbSourceSize = psz, fbTargetOffset = 0, fbTargetSize = 0\<rparr>"
    by (subst b0) (use size(1,2) in \<open>simp add: FillBuffer_SetPatternSize_def\<close>)
  have b2: "n mod psz = 0 \<and> ?b2 = \<lparr>bCtx = QContext Q, bErr = CL_SUCCESS, bWait = [], bDiag = [], fbTarget = Some mo,
      fbSource = pat, fbSourceSize = psz, fbTargetOffset = off, fbTargetSize = n\<rparr>"
    using ok2 size(1) unfolding b1 by (simp add: FillBuffer_SetFillRegion_def split: if_splits)
  show "CmdPayload cmd = FillBuffer mo (load_bytes pat (unat psz) m) psz off n"
    unfolding cmd unfolding b3 unfolding conjunct2 [OF b2] by (simp add: EnqueueFillBuffer_def)
  show "n mod psz = 0" "psz \<noteq> 0" "\<not> (psz AND (psz - 1) \<noteq> 0 \<or> psz > 128)"
    using b2 size by auto
qed

section \<open>Properties\<close>

text \<open>
  C23: a fill does what \<open>clEnqueueFillBuffer\<close> promises, from the arguments of the call to the
  memory: when the chain of builder calls gives a command, running it on the CPU device writes the
  pattern, as it was in memory at the time of the call, over and over into the region, and changes
  no other byte.
\<close>

theorem fill_buffer_repeats_pattern:
  assumes "FillBuffer_Create m (FillBuffer_SetWaitList Ev N Evs (FillBuffer_SetFillRegion off n
             (FillBuffer_SetPatternSize psz (FillBuffer_Builder Q (Some mo) pat)))) = (Some cmd, e)"
  shows "fst (Execute E (CmdPayload cmd) (m', S)) a =
     (if a - (DevPtr E mo + off) < n then m (pat + of_nat (unat (a - (DevPtr E mo + off)) mod unat psz)) else m' a)"
proof -
  note F = fill_command [OF assms]
  let ?T = "DevPtr E mo + off" and ?sz = "unat psz"
  have sz: "?sz \<in> {1, 2, 4, 8, 16, 32, 64, 128}" "0 < ?sz" by (rule pattern_sizes [OF F(3,4)]) (simp add: F(3) unat_gt_0)
  have "unat n mod ?sz = 0" using arg_cong [OF F(2), of unat] by (simp add: unat_mod)
  then have len: "unat n div ?sz * ?sz = unat n" by (metis add.right_neutral div_mult_mod_eq)
  have "fst (Execute E (CmdPayload cmd) (m', S)) a = MemFill ?sz ?T (load_bytes pat ?sz m) (unat n div ?sz) m' a"
    using sz(1) by (simp add: F(1) exec_fill_buffer_def FillBufferCPUCommand_def Let_def)
  also have "\<dots> = (if unat (a - ?T) < unat n then load_bytes pat ?sz m ! (unat (a - ?T) mod ?sz) else m' a)"
    using MemFill_value [of ?sz "load_bytes pat ?sz m" "unat n div ?sz" ?T m' a] len sz(2) unat_below64 [of n]
    by (simp add: load_bytes_def)
  also have "\<dots> = (if a - ?T < n then m (pat + of_nat (unat (a - ?T) mod ?sz)) else m' a)"
    using sz(2) by (simp add: load_bytes_def word_less_nat_alt)
  finally show ?thesis .
qed

definition plain_env :: cpu_env where
  "plain_env = \<lparr>DevPtr = (\<lambda>_. 0), KernelBlock = (\<lambda>_ _ _ _ m. m), HasEntryPoint = (\<lambda>_. True),
              NativeCall = (\<lambda>fn args m. m), ChannelFromFloat = (\<lambda>_ x. x),
              PackRGB = (\<lambda>_ x y z. x), Luminance = (\<lambda>_ x y z. x)\<rparr>"

definition plain_queue :: queue_info where
  "plain_queue = \<lparr>QContext = 0, QDevice = \<lparr>MemoryBaseAddressAlignment = 0, ImageMaxArraySize = 0, ImageMaxBufferSize = 0,
     Image2DMaxWidth = 0, Image2DMaxHeight = 0, Image3DMaxWidth = 0, Image3DMaxHeight = 0, Image3DMaxDepth = 0,
     ImageFormatSupported = (\<lambda>_ _. False), MaxWorkItemDimensions = 3, MaxWorkItemSizes = [], MaxWorkGroupSize = 0,
     SizeTypeMax = 0, NativeKernels = True, ImageSupport = True\<rparr>\<rparr>"

definition fill_call :: "command option \<times> cl_int" where
  "fill_call = FillBuffer_Create (\<lambda>a. ucast a) (FillBuffer_SetWaitList (\<lambda>_. NewUserEvent 0) 0 None
     (FillBuffer_SetFillRegion 8 16 (FillBuffer_SetPatternSize 4
        (FillBuffer_Builder plain_queue (Some (mk_Buffer 1 0 64 0 1)) 256))))"

lemma fill_call_ok: "fill_call = (Some (the (fst fill_call)), CL_SUCCESS)"
  by (simp add: fill_call_def FillBuffer_Builder_def check_pointer_def with_buffer_def cast_buffer_def is_buffer_def
                mk_Buffer_def isSubBuffer_def Let_def check_context_def plain_queue_def FillBuffer_SetPatternSize_def
                FillBuffer_SetFillRegion_def FillBuffer_SetWaitList_def SetWaitList_plain_def
                CommandBuilder_SetWaitList_def check_wait_contexts_def FillBuffer_Create_def create_command_def)

theorem fill_buffer_repeats_pattern_witness:
  "fst (Execute plain_env (CmdPayload (the (fst fill_call))) (\<lambda>_. 0, \<lambda>_. [])) 13 = 1"
  using fill_buffer_repeats_pattern [OF fill_call_ok [unfolded fill_call_def], folded fill_call_def,
      of plain_env "\<lambda>_. 0" "\<lambda>_. []" 13]
  by (simp add: plain_env_def)

text \<open>
  C32: the work-items of one work-group take turns in a ring: after \<open>k\<close> switches the thread is at
  the item with number \<open>k\<close> modulo the size of the group, and never outside its group.
\<close>

theorem work_items_take_turns:
  assumes "wf_dims D" "j < GetWorkGroupsCount D"
  shows "((SwitchToNextWorkItem D (iterate D (GetLocalWorkItems D) j) (iterate D (GetLocalWorkItems D) (Suc j))) ^^ k)
           (iterate D (GetLocalWorkItems D) j) =
         iterate D 1 (j * GetLocalWorkItems D + k mod GetLocalWorkItems D)"
  by (rule switch_ring [OF assms])

theorem work_items_take_turns_witness:
  "((SwitchToNextWorkItem (DimensionInfo [0, 0] [4, 6] [2, 3])
       (iterate (DimensionInfo [0, 0] [4, 6] [2, 3]) (GetLocalWorkItems (DimensionInfo [0, 0] [4, 6] [2, 3])) 1)
       (iterate (DimensionInfo [0, 0] [4, 6] [2, 3]) (GetLocalWorkItems (DimensionInfo [0, 0] [4, 6] [2, 3])) (Suc 1))) ^^ 7)
     (iterate (DimensionInfo [0, 0] [4, 6] [2, 3]) (GetLocalWorkItems (DimensionInfo [0, 0] [4, 6] [2, 3])) 1) =
   iterate (DimensionInfo [0, 0] [4, 6] [2, 3]) 1 (1 * GetLocalWorkItems (DimensionInfo [0, 0] [4, 6] [2, 3]) +
     7 mod GetLocalWorkItems (DimensionInfo [0, 0] [4, 6] [2, 3]))"
  by (rule work_items_take_turns)
    (simp_all add: wf_dims_def DimensionInfo_def GetWorkGroupsCount_def GetGlobalWorkItems_def GetLocalWorkItems_def u32_def)

text \<open>
  C24: writing a region of host memory to a buffer and reading it back: when the source, the region
  of the buffer and the destination are apart, every byte of the destination region is the byte of
  the source region at the same position, whatever the pitches of the three.
\<close>

theorem rect_write_then_read:
  assumes "rect_disjoint R (DevPtr E buf + boff) (fst bps) (snd bps) (src + soff) (fst sps) (snd sps)"
    and "rect_rows_disjoint R (DevPtr E buf + boff) (fst bps) (snd bps)"
    and "rect_disjoint R (dst + doff) (fst dps) (snd dps) (DevPtr E buf + boff) (fst bps) (snd bps)"
    and "rect_rows_disjoint R (dst + doff) (fst dps) (snd dps)"
    and "X < ix0 R" "Y < unat (ix1 R)" "Z < unat (ix2 R)"
  shows "fst (Execute E (ReadBufferRect dst buf R doff boff dps bps)
           (Execute E (WriteBufferRect buf src R boff soff bps sps) (m, S)))
         (rect_addr (dst + doff) (fst dps) (snd dps) Y Z + X) =
         m (rect_addr (src + soff) (fst sps) (snd sps) Y Z + X)"
  using MemRectCpy_in [OF assms(3,4,5,6,7)] MemRectCpy_in [OF assms(1,2,5,6,7)]
  by (simp add: run_rect_def ReadBufferRectCPUCommand_def WriteBufferRectCPUCommand_def)

theorem rect_write_then_read_witness:
  "fst (Execute plain_env (ReadBufferRect 4096 (mk_Buffer 1 0 64 0 1) (triple_of 2 2 1) 0 4 (2, 4) (8, 16))
      (Execute plain_env (WriteBufferRect (mk_Buffer 1 0 64 0 1) 256 (triple_of 2 2 1) 4 0 (8, 16) (4, 8)) (\<lambda>a. ucast a, \<lambda>_. [])))
    (rect_addr 4096 2 4 1 0 + 1) = 5"
proof -
  let ?R = "triple_of 2 2 1" and ?b = "mk_Buffer 1 0 64 0 1"
  have apart: "rect_disjoint ?R (DevPtr plain_env ?b + 4) (fst (8, 16)) (snd (8, 16 :: size_t)) (256 + 0) (fst (4, 8)) (snd (4, 8 :: size_t))"
    "rect_rows_disjoint ?R (DevPtr plain_env ?b + 4) (fst (8, 16)) (snd (8, 16 :: size_t))"
    "rect_disjoint ?R (4096 + 0) (fst (2, 4)) (snd (2, 4 :: size_t)) (DevPtr plain_env ?b + 4) (fst (8, 16)) (snd (8, 16 :: size_t))"
    "rect_rows_disjoint ?R (4096 + 0) (fst (2, 4)) (snd (2, 4 :: size_t))"
    by (auto simp: rect_disjoint_def rect_rows_disjoint_def rect_addr_def plain_env_def less_2_cases_iff
             intro!: disjoint_rangesI)
  show ?thesis
    using rect_write_then_read [OF apart, of 1 1 0 "\<lambda>a. ucast a" "\<lambda>_. []"] by (simp add: rect_addr_def)
qed

end
