(* ===== verification/Queue_Order.thy ===== *)
theory Queue_Order
  imports Command_Queue "HOL-Library.Multiset"
begin

text \<open>
  What a queue guarantees to its clients, whatever the device. The interface \<open>queue_device\<close> states
  what a device may do to the events when it accepts a command. A queue in use is the step
  relation \<open>queue_step\<close>, whose steps are the sections of code that hold the lock of the queue:
  clients push commands, anybody runs the scheduler, the device reports a command it has completed
  in the three sections of \<open>CommandDone\<close>, and in between the events evolve. Next to the state it keeps
  the list of all commands ever enqueued and the list of the reports under way: the event of the
  command and whether the report has already run the scheduler. Several reports can be under way
  at once, because the first section of a report lets the next command start.
\<close>

locale queue_device =
  fixes dev :: "('m, 'd) device"
  assumes submit_next: "DevSubmit dev c w = Some (w', ok) \<Longrightarrow> WNext w' = WNext w"
    and submit_other: "DevSubmit dev c w = Some (w', ok) \<Longrightarrow> e \<noteq> QEvent c \<Longrightarrow> WEvents w' e = WEvents w e"
    and submit_open: "DevSubmit dev c w = Some (w', ok) \<Longrightarrow> \<not> HasCompleted (WEvents w (QEvent c)) \<Longrightarrow>
                      \<not> HasCompleted (WEvents w' (QEvent c))"
    and submit_context: "DevSubmit dev c w = Some (w', ok) \<Longrightarrow>
                         EvContext (WEvents w' (QEvent c)) = EvContext (WEvents w (QEvent c))"

section \<open>Steps\<close>

text \<open>
  Between two steps of the queue, events that exist only move towards completion and keep their
  context, new events may appear, and nobody completes the event of a command that still waits
  in the queue.
\<close>

definition events_evolve :: "cmd_queue \<Rightarrow> ('m, 'd) world \<Rightarrow> ('m, 'd) world \<Rightarrow> bool" where
  "events_evolve q w w' \<longleftrightarrow>
     WNext w \<le> WNext w' \<and>
     (\<forall>e < WNext w. EvContext (WEvents w' e) = EvContext (WEvents w e) \<and>
                    (HasCompleted (WEvents w e) \<longrightarrow> HasCompleted (WEvents w' e))) \<and>
     (\<forall>c \<in> set (QCommands q). HasCompleted (WEvents w' (QEvent c)) \<longrightarrow> HasCompleted (WEvents w (QEvent c)))"

type_synonym report = "event_id \<times> bool"

inductive queue_step ::
  "('m, 'd) device \<Rightarrow> ('m, 'd) queue_state \<times> queued list \<times> report list \<Rightarrow>
   ('m, 'd) queue_state \<times> queued list \<times> report list \<Rightarrow> bool"
  for dev :: "('m, 'd) device" where
  Push_step:
    "\<forall>e \<in> set (CmdWaitList cmd). e < WNext w \<Longrightarrow>
     Enqueue_push cmd (q, w) = (st', Inr e) \<Longrightarrow>
     queue_step dev ((q, w), enq, late) (st', enq @ [\<lparr>QEvent = e, QCmd = cmd\<rparr>], late)"
| Poll_step:
    "RunScheduler dev (q, w) = Some (st', b) \<Longrightarrow> queue_step dev ((q, w), enq, late) (st', enq, late)"
| Clear_step:
    "c \<in> set (QPending q) \<Longrightarrow> HasCompleted (WEvents w (QEvent c)) \<Longrightarrow> QEvent c \<notin> fst ` set late \<Longrightarrow>
     queue_step dev ((q, w), enq, late) ((ClearOnFly q, w), enq, late @ [(QEvent c, False)])"
| Reschedule_step:
    "RunScheduler dev (q, w) = Some (st', b) \<Longrightarrow>
     queue_step dev ((q, w), enq, l1 @ (e, False) # l2) (st', enq, l1 @ (e, True) # l2)"
| Erase_step:
    "queue_step dev ((q, w), enq, l1 @ (e, True) # l2) ((ErasePending e q, w), enq, l1 @ l2)"
| World_step:
    "events_evolve q w w' \<Longrightarrow> queue_step dev ((q, w), enq, late) ((q, w'), enq, late)"

definition queue_reachable ::
  "('m, 'd) device \<Rightarrow> queue_info \<Rightarrow> ('m, 'd) world \<Rightarrow> ('m, 'd) queue_state \<times> queued list \<times> report list \<Rightarrow> bool" where
  "queue_reachable dev Info w0 s \<longleftrightarrow>
     (\<exists>prof. (queue_step dev)\<^sup>*\<^sup>* ((new_queue InOrder Info prof, w0), [], []) s)"

section \<open>The invariant of an in-order queue\<close>

text \<open>
  \<open>started\<close> is the list of the accepted commands, in the order of their acceptance, and \<open>late\<close> holds
  the events whose report is under way. A pending command is one of these or the one on fly.
\<close>

definition pending_inv :: "cmd_queue \<Rightarrow> queued list \<Rightarrow> event_id multiset \<Rightarrow> bool" where
  "pending_inv q started late \<longleftrightarrow>
     set (QPending q) \<subseteq> set started \<and> distinct (map QEvent (QPending q)) \<and>
     mset (map QEvent (QPending q)) = late + (if QOnFly q then {#QEvent (last started)#} else {#})"

definition in_order_inv ::
  "cmd_queue \<Rightarrow> ('m, 'd) world \<Rightarrow> queued list \<Rightarrow> queued list \<Rightarrow> event_id multiset \<Rightarrow> bool" where
  "in_order_inv q w enq started late \<longleftrightarrow>
     QTy q = InOrder \<and> enq = started @ QCommands q \<and> distinct (map QEvent enq) \<and>
     (\<forall>c \<in> set enq. QEvent c < WNext w \<and> EvContext (WEvents w (QEvent c)) = QContext (QInfo q) \<and>
                    (\<forall>e \<in> set (CmdWaitList (QCmd c)). e < WNext w)) \<and>
     (\<forall>c \<in> set (QCommands q). \<not> HasCompleted (WEvents w (QEvent c))) \<and>
     (\<forall>c \<in> set started. \<forall>e \<in> set (CmdWaitList (QCmd c)). HasCompleted (WEvents w e)) \<and>
     pending_inv q started late \<and>
     (if QOnFly q then started \<noteq> [] \<and> (\<forall>c \<in> set (butlast started). HasCompleted (WEvents w (QEvent c)))
      else \<forall>c \<in> set started. HasCompleted (WEvents w (QEvent c)))"

lemma in_order_inv_distinct: "in_order_inv q w enq started late \<Longrightarrow> distinct (map QEvent (started @ QCommands q))"
  unfolding in_order_inv_def by metis

lemma pending_inv_start:
  "pending_inv q started late \<Longrightarrow> \<not> QOnFly q \<Longrightarrow> QEvent c \<notin> QEvent ` set started \<Longrightarrow>
   pending_inv (q\<lparr>QCommands := cs, QPending := QPending q @ [c], QOnFly := True\<rparr>) (started @ [c]) late"
  by (auto simp: pending_inv_def)

lemma in_order_inv_start:
  assumes inv: "in_order_inv q w enq started late" and fly: "\<not> QOnFly q" and cmds: "QCommands q = c # cs"
    and waits: "\<forall>e \<in> set (CmdWaitList (QCmd c)). HasCompleted (WEvents w e)"
  shows "in_order_inv (q\<lparr>QCommands := cs, QPending := QPending q @ [c], QOnFly := True\<rparr>) w enq (started @ [c]) late"
proof -
  have "QEvent c \<notin> QEvent ` set started" using in_order_inv_distinct [OF inv] by (simp add: cmds)
  moreover have "pending_inv q started late" using inv by (simp add: in_order_inv_def)
  ultimately have "pending_inv (q\<lparr>QCommands := cs, QPending := QPending q @ [c], QOnFly := True\<rparr>) (started @ [c]) late"
    using fly by (intro pending_inv_start)
  with inv fly cmds waits show ?thesis
    unfolding in_order_inv_def by (elim conjE, intro conjI) (auto simp: butlast_append)
qed

lemma in_order_inv_init: "in_order_inv (new_queue InOrder Info prof) w [] [] {#}"
  by (simp add: in_order_inv_def pending_inv_def new_queue_def)

text \<open>The sections of \<open>CommandDone\<close> that are not the scheduler.\<close>

lemma reported_on_fly:
  assumes inv: "in_order_inv q w enq started late" and c: "c \<in> set (QPending q)" and new: "QEvent c \<notin># late"
  shows "QOnFly q" "QEvent c = QEvent (last started)"
proof -
  have "QEvent c \<in># mset (map QEvent (QPending q))" using c by simp
  then have "QEvent c \<in># late + (if QOnFly q then {#QEvent (last started)#} else {#})"
    using inv by (simp only: in_order_inv_def pending_inv_def)
  with new show "QOnFly q" "QEvent c = QEvent (last started)" by (auto split: if_splits)
qed

lemma clear_keeps:
  assumes inv: "in_order_inv q w enq started late" and fly: "QOnFly q"
    and comp: "HasCompleted (WEvents w (QEvent (last started)))"
  shows "in_order_inv (ClearOnFly q) w enq started (add_mset (QEvent (last started)) late)"
proof -
  have "started \<noteq> []" using inv fly by (simp add: in_order_inv_def)
  then have "set started = insert (last started) (set (butlast started))"
    by (metis append_butlast_last_id list.simps(15) rotate1.simps(2) set_rotate1)
  moreover have "pending_inv (ClearOnFly q) started (add_mset (QEvent (last started)) late)"
    using inv fly by (simp add: in_order_inv_def pending_inv_def ClearOnFly_def)
  ultimately show ?thesis using inv fly comp by (auto simp: in_order_inv_def ClearOnFly_def)
qed

lemma erase_keeps:
  assumes inv: "in_order_inv q w enq started late" and e: "e \<in># late"
  shows "in_order_inv (ErasePending e q) w enq started (late - {#e#})"
proof -
  have p: "set (QPending q) \<subseteq> set started" "distinct (map QEvent (QPending q))"
    "mset (map QEvent (QPending q)) = late + (if QOnFly q then {#QEvent (last started)#} else {#})"
    using inv by (simp_all add: in_order_inv_def pending_inv_def)
  have "map QEvent (filter (\<lambda>c. QEvent c \<noteq> e) (QPending q)) = remove1 e (map QEvent (QPending q))"
    using distinct_remove1_removeAll [OF p(2), of e]
    by (simp add: removeAll_filter_not_eq filter_map comp_def eq_commute)
  then have "mset (map QEvent (filter (\<lambda>c. QEvent c \<noteq> e) (QPending q))) =
             (late - {#e#}) + (if QOnFly q then {#QEvent (last started)#} else {#})"
    using p(3) e by (simp add: diff_union_swap2)
  then have "pending_inv (ErasePending e q) started (late - {#e#})"
    using p(1,2) by (auto simp: pending_inv_def ErasePending_def distinct_map_filter)
  with inv show ?thesis
    unfolding in_order_inv_def ErasePending_def by (elim conjE, intro conjI) auto
qed

lemma in_order_inv_world:
  assumes inv: "in_order_inv q w enq started late" and ev: "events_evolve q w w'"
  shows "in_order_inv q w' enq started late"
proof -
  have keep: "HasCompleted (WEvents w e) \<Longrightarrow> e < WNext w \<Longrightarrow> HasCompleted (WEvents w' e)" for e
    using ev by (simp add: events_evolve_def)
  have ids: "c \<in> set enq \<Longrightarrow> QEvent c < WNext w" "c \<in> set enq \<Longrightarrow> e \<in> set (CmdWaitList (QCmd c)) \<Longrightarrow> e < WNext w"
    for c e using inv by (auto simp: in_order_inv_def)
  have enq: "enq = started @ QCommands q" using inv by (simp add: in_order_inv_def)
  have sub: "c \<in> set enq" if "c \<in> set started" for c using that enq by simp
  have bsub: "c \<in> set enq" if "c \<in> set (butlast started)" for c using that enq by (auto dest: in_set_butlastD)
  have open': "\<forall>c \<in> set (QCommands q). \<not> HasCompleted (WEvents w' (QEvent c))"
    using inv ev by (auto simp: in_order_inv_def events_evolve_def)
  have ctx: "\<forall>c \<in> set enq. QEvent c < WNext w' \<and> EvContext (WEvents w' (QEvent c)) = QContext (QInfo q) \<and>
                (\<forall>e \<in> set (CmdWaitList (QCmd c)). e < WNext w')"
    using inv ev unfolding in_order_inv_def events_evolve_def by (fastforce elim: less_le_trans)
  have waits: "\<forall>c \<in> set started. \<forall>e \<in> set (CmdWaitList (QCmd c)). HasCompleted (WEvents w' e)"
    using inv keep ids(2) sub unfolding in_order_inv_def by blast
  have compl: "(\<forall>c \<in> S. HasCompleted (WEvents w (QEvent c))) \<longrightarrow> (\<forall>c \<in> S. HasCompleted (WEvents w' (QEvent c)))"
    if "S \<subseteq> set enq" for S using keep ids(1) that by blast
  have fly: "if QOnFly q then started \<noteq> [] \<and> (\<forall>c \<in> set (butlast started). HasCompleted (WEvents w' (QEvent c)))
             else \<forall>c \<in> set started. HasCompleted (WEvents w' (QEvent c))"
  proof (cases "QOnFly q")
    case True
    have "set (butlast started) \<subseteq> set enq" using bsub by blast
    with True inv compl [of "set (butlast started)"] show ?thesis by (simp add: in_order_inv_def)
  next
    case False
    have "set started \<subseteq> set enq" using sub by blast
    with False inv compl [of "set started"] show ?thesis by (simp add: in_order_inv_def)
  qed
  show ?thesis
    using inv open' ctx waits fly unfolding in_order_inv_def by blast
qed

text \<open>What \<open>Enqueue_push\<close> makes of the state when it accepts the command.\<close>

definition pushed :: "cmd_queue \<Rightarrow> command \<Rightarrow> ('m, 'd) world \<Rightarrow> ('m, 'd) queue_state" where
  "pushed q cmd w =
     (q\<lparr>QCommands := QCommands q @ [\<lparr>QEvent = WNext w, QCmd = cmd\<rparr>]\<rparr>,
      w\<lparr>WEvents := (WEvents w)(WNext w := enqueue_event q cmd w), WNext := Suc (WNext w)\<rparr>)"

lemma pushD:
  "Enqueue_push cmd (q, w) = (st', Inr e) \<Longrightarrow> st' = pushed q cmd w \<and> e = WNext w"
  by (auto simp: Enqueue_push_def pushed_def Let_def split: if_splits)

lemma push_schedules:
  "Enqueue dev cmd (q, w) = Some (st', Inr (e, b)) \<Longrightarrow>
   Enqueue_push cmd (q, w) = (pushed q cmd w, Inr e) \<and> e = WNext w \<and> b = CmdBlocking cmd \<and>
   (\<exists>again. RunScheduler dev (pushed q cmd w) = Some (st', again))"
  by (auto simp: Enqueue_def Enqueue_push_def pushed_def Let_def split: if_splits)

context queue_device
begin

lemma submit_frame:
  assumes "submit dev c w = Some (w', ok)"
  shows "WNext w' = WNext w" "e \<noteq> QEvent c \<Longrightarrow> WEvents w' e = WEvents w e"
    "\<not> HasCompleted (WEvents w (QEvent c)) \<Longrightarrow> \<not> HasCompleted (WEvents w' (QEvent c))"
    "EvContext (WEvents w' e) = EvContext (WEvents w e)"
proof -
  obtain T where T: "DevSubmit dev c (w\<lparr>WTrackers := T\<rparr>) = Some (w', ok)"
    using assms by (auto simp: submit_def ensureMemoryCoherency_def Let_def split: option.splits)
  show "WNext w' = WNext w" using submit_next [OF T] by simp
  show "e \<noteq> QEvent c \<Longrightarrow> WEvents w' e = WEvents w e" using submit_other [OF T, of e] by simp
  show "\<not> HasCompleted (WEvents w (QEvent c)) \<Longrightarrow> \<not> HasCompleted (WEvents w' (QEvent c))"
    using submit_open [OF T] by simp
  show "EvContext (WEvents w' e) = EvContext (WEvents w e)"
    using submit_context [OF T] submit_other [OF T, of e] by (cases "e = QEvent c") simp_all
qed

lemma scheduler_inv:
  assumes inv: "in_order_inv q w enq started late" and run: "RunScheduler dev (q, w) = Some ((q', w'), again)"
  shows "(q' = q \<and> in_order_inv q w' enq started late) \<or>
         (\<exists>c cs. \<not> QOnFly q \<and> QCommands q = c # cs \<and> CanRun (WEvents w) (QCmd c) \<and>
                 q' = q\<lparr>QCommands := cs, QPending := QPending q @ [c], QOnFly := True\<rparr> \<and>
                 in_order_inv q' w' enq (started @ [c]) late)"
proof (cases "QCommands q")
  case Nil
  have "QTy q = InOrder" using inv by (simp add: in_order_inv_def)
  with run Nil have "q' = q" "w' = w" by (simp_all add: RunScheduler_def InOrder_RunScheduler_def)
  with inv show ?thesis by simp
next
  case (Cons c cs)
  consider "q' = q" "w' = w" | ok where "\<not> QOnFly q" "CanRun (WEvents w) (QCmd c)" "submit dev c w = Some (w', ok)"
      "q' = (if ok then q\<lparr>QCommands := cs, QPending := QPending q @ [c], QOnFly := True\<rparr> else q)"
    using run inv by (auto simp: RunScheduler_def InOrder_RunScheduler_def in_order_inv_def Cons
                           split: if_splits option.splits)
  then show ?thesis
  proof cases
    case 1
    with inv show ?thesis by simp
  next
    case (2 ok)
    note fr = submit_frame [OF 2(3)]
    have op: "\<forall>c' \<in> set (c # cs). \<not> HasCompleted (WEvents w (QEvent c'))"
      using inv by (simp add: in_order_inv_def Cons)
    have same: "HasCompleted (WEvents w' e) = HasCompleted (WEvents w e)" for e
      using fr(2) [of e] fr(3) op by (cases "e = QEvent c") auto
    have inv': "in_order_inv q w' enq started late"
      using inv unfolding in_order_inv_def fr(1,4) same .
    show ?thesis
    proof (cases ok)
      case False
      with 2(4) inv' show ?thesis by simp
    next
      case True
      have "\<forall>e \<in> set (CmdWaitList (QCmd c)). HasCompleted (WEvents w' e)"
        using 2(2) by (simp add: CanRun_def same)
      then have "in_order_inv (q\<lparr>QCommands := cs, QPending := QPending q @ [c], QOnFly := True\<rparr>) w' enq (started @ [c]) late"
        by (rule in_order_inv_start [OF inv' 2(1) Cons])
      with 2 True show ?thesis by (simp add: Cons)
    qed
  qed
qed

lemma scheduler_keeps:
  assumes "in_order_inv q w enq started late" "RunScheduler dev (q, w) = Some ((q', w'), again)"
  shows "\<exists>more_started. in_order_inv q' w' enq (started @ more_started) late"
  using scheduler_inv [OF assms] by (metis append_Nil2)

lemma push_keeps:
  assumes inv: "in_order_inv q w enq started late"
    and waits: "\<forall>e \<in> set (CmdWaitList cmd). e < WNext w"
    and run: "Enqueue_push cmd (q, w) = ((q', w'), Inr e)"
  shows "in_order_inv q' w' (enq @ [\<lparr>QEvent = e, QCmd = cmd\<rparr>]) started late"
proof -
  let ?c = "\<lparr>QEvent = WNext w, QCmd = cmd\<rparr>"
  let ?w = "w\<lparr>WEvents := (WEvents w)(WNext w := enqueue_event q cmd w), WNext := Suc (WNext w)\<rparr>"
  let ?q = "q\<lparr>QCommands := QCommands q @ [?c]\<rparr>"
  have e: "e = WNext w" and st': "q' = ?q" "w' = ?w"
    using pushD [OF run] by (simp_all add: pushed_def)
  have ids: "\<forall>c \<in> set enq. QEvent c < WNext w \<and> (\<forall>f \<in> set (CmdWaitList (QCmd c)). f < WNext w)"
    using inv by (simp add: in_order_inv_def)
  have old: "QEvent c \<noteq> WNext w" if "c \<in> set enq" for c
    using bspec [OF ids that] by simp
  have w_old: "f \<noteq> WNext w" if "c \<in> set enq" "f \<in> set (CmdWaitList (QCmd c))" for c f
    using bspec [OF ids that(1)] that(2) by auto
  have enq: "enq = started @ QCommands q" using inv by (simp add: in_order_inv_def)
  have new: "\<not> HasCompleted (enqueue_event q cmd w)" "EvContext (enqueue_event q cmd w) = QContext (QInfo q)"
    by (simp_all add: enqueue_event_def NewInternalEvent_def HasCompleted_def)
  have ev: "WEvents ?w (QEvent c) = WEvents w (QEvent c)" if "c \<in> set enq" for c using old [OF that] by simp
  have evs: "WEvents ?w f = WEvents w f" if "c \<in> set enq" "f \<in> set (CmdWaitList (QCmd c))" for c f
    using w_old [OF that] by simp
  have in_st: "c \<in> set enq" if "c \<in> set started \<or> c \<in> set (QCommands q) \<or> c \<in> set (butlast started)" for c
    using that enq by (auto dest: in_set_butlastD)
  have "in_order_inv ?q ?w (enq @ [?c]) started late"
    unfolding in_order_inv_def
  proof (intro conjI)
    show "QTy ?q = InOrder" using inv by (simp add: in_order_inv_def)
    show "enq @ [?c] = started @ QCommands ?q" by (simp add: enq)
    have "distinct (map QEvent enq)" using in_order_inv_distinct [OF inv] by (simp add: enq)
    moreover have "WNext w \<notin> QEvent ` set enq" using old by (metis imageE)
    ultimately show "distinct (map QEvent (enq @ [?c]))" by simp
    show "\<forall>c \<in> set (enq @ [?c]). QEvent c < WNext ?w \<and> EvContext (WEvents ?w (QEvent c)) = QContext (QInfo ?q) \<and>
            (\<forall>e \<in> set (CmdWaitList (QCmd c)). e < WNext ?w)"
      using inv waits ev new(2) by (auto simp: in_order_inv_def less_Suc_eq)
    show "\<forall>c \<in> set (QCommands ?q). \<not> HasCompleted (WEvents ?w (QEvent c))"
      using inv ev in_st new(1) by (auto simp: in_order_inv_def)
    show "\<forall>c \<in> set started. \<forall>e \<in> set (CmdWaitList (QCmd c)). HasCompleted (WEvents ?w e)"
    proof (intro ballI)
      fix d f assume d: "d \<in> set started" and f: "f \<in> set (CmdWaitList (QCmd d))"
      have "HasCompleted (WEvents w f)" using inv d f by (simp add: in_order_inv_def)
      then show "HasCompleted (WEvents ?w f)" using evs [of d f] in_st [of d] d f by simp
    qed
    show "pending_inv ?q started late" using inv by (simp add: in_order_inv_def pending_inv_def)
    show "if QOnFly ?q then started \<noteq> [] \<and> (\<forall>c \<in> set (butlast started). HasCompleted (WEvents ?w (QEvent c)))
          else \<forall>c \<in> set started. HasCompleted (WEvents ?w (QEvent c))"
      using inv ev in_st by (auto simp: in_order_inv_def)
  qed
  then show ?thesis by (simp add: e st')
qed

theorem step_keeps:
  assumes "queue_step dev s s'" "in_order_inv (fst (fst s)) (snd (fst s)) (fst (snd s)) started (mset (map fst (snd (snd s))))"
  shows "\<exists>more_started. in_order_inv (fst (fst s')) (snd (fst s')) (fst (snd s')) (started @ more_started)
           (mset (map fst (snd (snd s'))))"
  using assms
proof (induction rule: queue_step.induct)
  case (Push_step cmd w q st' e enq late)
  from Push_step.prems have "in_order_inv q w enq started (mset (map fst late))" by simp
  from push_keeps [OF this Push_step.hyps(1)] Push_step.hyps(2)
  have "in_order_inv (fst st') (snd st') (enq @ [\<lparr>QEvent = e, QCmd = cmd\<rparr>]) started (mset (map fst late))"
    by (metis prod.collapse)
  then show ?case by (metis append_Nil2 fst_conv snd_conv)
next
  case (Poll_step q w st' b enq late)
  then show ?case using scheduler_keeps [of q w enq started "mset (map fst late)" "fst st'" "snd st'" b] by simp
next
  case (Clear_step c q w late enq)
  from Clear_step.prems have inv: "in_order_inv q w enq started (mset (map fst late))" by simp
  have "QEvent c \<notin># mset (map fst late)" using Clear_step.hyps(3) by simp
  note R = reported_on_fly [OF inv Clear_step.hyps(1) this]
  from clear_keeps [OF inv R(1) Clear_step.hyps(2) [unfolded R(2)]] R(2)
  show ?case by (intro exI [of _ "[]"]) simp
next
  case (Reschedule_step q w st' b enq l1 e l2)
  then show ?case
    using scheduler_keeps [of q w enq started "mset (map fst (l1 @ (e, False) # l2))" "fst st'" "snd st'" b] by simp
next
  case (Erase_step q w enq l1 e l2)
  then show ?case
    using erase_keeps [of q w enq started "mset (map fst (l1 @ (e, True) # l2))" e]
    by (intro exI [of _ "[]"]) simp
next
  case (World_step q w w' enq late)
  then show ?case using in_order_inv_world by (metis append_Nil2 fst_conv snd_conv)
qed

lemma reachable_inv:
  assumes "queue_reachable dev Info w0 s"
  shows "\<exists>started. in_order_inv (fst (fst s)) (snd (fst s)) (fst (snd s)) started (mset (map fst (snd (snd s))))"
proof -
  from assms obtain prof where "(queue_step dev)\<^sup>*\<^sup>* ((new_queue InOrder Info prof, w0), [], []) s"
    by (auto simp: queue_reachable_def)
  then show ?thesis
  proof (induction rule: rtranclp_induct)
    case base
    show ?case using in_order_inv_init by auto
  next
    case (step y z)
    then show ?case using step_keeps by blast
  qed
qed

end

lemma pending_inv_sets:
  assumes "pending_inv q started (mset es)"
  shows "set (QPending q) \<subseteq> set started" "distinct (map QEvent (QPending q))" "distinct es"
    "QEvent ` set (QPending q) = set es \<union> (if QOnFly q then {QEvent (last started)} else {})"
    "QOnFly q \<Longrightarrow> QEvent (last started) \<notin> set es"
proof -
  let ?es = "es @ (if QOnFly q then [QEvent (last started)] else [])"
  have p: "set (QPending q) \<subseteq> set started" "distinct (map QEvent (QPending q))" "mset (map QEvent (QPending q)) = mset ?es"
    using assms by (auto simp: pending_inv_def)
  show "set (QPending q) \<subseteq> set started" "distinct (map QEvent (QPending q))" by (rule p(1), rule p(2))
  have d: "distinct ?es" using p(2) mset_eq_imp_distinct_iff [OF p(3)] by simp
  then show "distinct es" and "QOnFly q \<Longrightarrow> QEvent (last started) \<notin> set es" by (simp_all split: if_splits)
  show "QEvent ` set (QPending q) = set es \<union> (if QOnFly q then {QEvent (last started)} else {})"
    using mset_eq_setD [OF p(3)] by (simp split: if_splits)
qed

text \<open>Every command that is not complete is in one of the two containers, so a \<open>Finish\<close> waits for it.\<close>

lemma finish_misses_none:
  assumes inv: "in_order_inv q w enq started late" and c: "c \<in> set enq" and open_ev: "\<not> HasCompleted (WEvents w (QEvent c))"
  shows "QEvent c \<in> set (FinishWaitList q)"
proof (cases "c \<in> set (QCommands q)")
  case True
  then show ?thesis by (simp add: FinishWaitList_def)
next
  case False
  then have st: "c \<in> set started" using inv c by (auto simp: in_order_inv_def)
  then have fly: "QOnFly q" using inv open_ev by (auto simp: in_order_inv_def split: if_splits)
  have "started = butlast started @ [last started]" and "c \<notin> set (butlast started)"
    using inv fly open_ev by (auto simp: in_order_inv_def)
  then have "c = last started" using st by (metis Un_iff empty_iff empty_set set_ConsD set_append)
  moreover have "mset (map QEvent (QPending q)) = late + {#QEvent (last started)#}"
    using inv fly by (simp add: in_order_inv_def pending_inv_def)
  then have "QEvent (last started) \<in> set (map QEvent (QPending q))" by (metis set_mset_mset union_iff union_single_eq_member)
  ultimately show ?thesis by (simp add: FinishWaitList_def)
qed

end
