(* ===== verification/CPU_Runtime.thy ===== *)
theory CPU_Runtime
  imports CPU_Exec Queue_Order "HOL-Library.Multiset"
begin

text \<open>
  The CPU device at run time: \<open>CPUDevice::Submit\<close> and its policies (\<open>lib/Device/CPU/CPUDevice.cpp\<close>),
  the worker threads (\<open>lib/Device/CPU/CPUThread.cpp\<close>) and the jobs with their notifications
  (\<open>lib/Device/CPU/Command.cpp\<close>).

  A thread owns a list of jobs and goes through a cycle for each of them: it takes the job,
  notifies its start, executes it and notifies its completion, and, if that was the completion of
  the whole command, tells the queue. These are the operations \<open>Thread_take\<close>, \<open>Thread_start\<close>,
  \<open>Thread_finish\<close> and \<open>Thread_report\<close>; threads interleave between them. Telling an in-order queue
  takes three sections under its lock: \<open>Thread_report\<close> is the first, and \<open>Thread_reschedule\<close> and
  \<open>Thread_erase\<close> are the other two. In between the thread is in a state of its own, and other
  threads may use the queue.
\<close>

section \<open>State\<close>

datatype cpu_job =
    StopJob
  | ExecJob queued
  | BlockJob queued nat dim_iter dim_iter

datatype working_mode = FullyOperational | TearDown | Stopped

datatype activity =
    Idle
  | Taken cpu_job
  | Started cpu_job
  | Reporting queued
  | Rescheduling queued
  | Erasing queued

record cpu_thread =
  TMode :: working_mode
  TCommands :: "cpu_job list"
  TActivity :: activity

definition new_thread :: cpu_thread where
  "new_thread = \<lparr>TMode = FullyOperational, TCommands = [], TActivity = Idle\<rparr>"

text \<open>\<open>CPUMultiExecContext\<close>, one for each kernel command, named by the event of the command.\<close>

record exec_context =
  StartedCount :: "64 word"
  WaitCount :: "64 word"
  Errors :: bool

record cpu_state =
  CThreads :: "cpu_thread list"
  CContexts :: "event_id \<Rightarrow> exec_context"
  CMemory :: memory

type_synonym 'm cpu_world = "('m, cpu_state) world"

definition upd_device :: "(cpu_state \<Rightarrow> cpu_state) \<Rightarrow> 'm cpu_world \<Rightarrow> 'm cpu_world" where
  "upd_device f w = w\<lparr>WDevice := f (WDevice w)\<rparr>"

definition upd_event :: "event_id \<Rightarrow> (event \<Rightarrow> event) \<Rightarrow> 'm cpu_world \<Rightarrow> 'm cpu_world" where
  "upd_event e f w = w\<lparr>WEvents := (WEvents w)(e := f (WEvents w e))\<rparr>"

section \<open>Execution contexts\<close>

definition CPUMultiExecContext :: "nat \<Rightarrow> exec_context" where
  "CPUMultiExecContext N = \<lparr>StartedCount = 0, WaitCount = of_nat N, Errors = False\<rparr>"

definition ctx_start :: "exec_context \<Rightarrow> exec_context \<times> bool" where
  "ctx_start x = (x\<lparr>StartedCount := StartedCount x + 1\<rparr>, StartedCount x = 0)"

definition ctx_finish :: "bool \<Rightarrow> exec_context \<Rightarrow> exec_context \<times> bool" where
  "ctx_finish Error x =
     (let x1 = (if Error then x\<lparr>Errors := True\<rparr> else x); x2 = x1\<lparr>WaitCount := WaitCount x1 - 1\<rparr>
      in (x2, WaitCount x2 = 0))"

section \<open>Submission\<close>

definition Thread_Submit :: "cpu_job \<Rightarrow> cpu_thread \<Rightarrow> cpu_thread \<times> bool" where
  "Thread_Submit job t =
     (if TMode t \<noteq> FullyOperational then (t, False)
      else let t1 = (case job of StopJob \<Rightarrow> t\<lparr>TMode := TearDown\<rparr> | _ \<Rightarrow> t)
           in (t1\<lparr>TCommands := TCommands t1 @ [job]\<rparr>, True))"

text \<open>
  The thread with the fewest waiting jobs, the first of them. The code compares the numbers as
  single precision values, which are exact up to \<open>2 ^ 24\<close> jobs.
\<close>

definition GetLoadIndicator :: "cpu_thread \<Rightarrow> nat" where
  "GetLoadIndicator t = length (TCommands t)"

fun pick_loop :: "nat \<Rightarrow> nat option \<Rightarrow> nat \<Rightarrow> cpu_thread list \<Rightarrow> nat option" where
  "pick_loop i Thr MinLoad [] = Thr"
| "pick_loop i Thr MinLoad (T # Ts) =
     (if Thr = None \<or> GetLoadIndicator T < MinLoad then pick_loop (Suc i) (Some i) (GetLoadIndicator T) Ts
      else pick_loop (Suc i) Thr MinLoad Ts)"

definition pickLeastLoadedThread :: "cpu_thread list \<Rightarrow> nat option" where
  "pickLeastLoadedThread Ts = pick_loop 0 None 0 Ts"

definition pickThread :: "cpu_thread list \<Rightarrow> nat option" where
  "pickThread Ts = (case Ts of [] \<Rightarrow> None | t # ts \<Rightarrow> Some 0)"

definition submit_to :: "nat option \<Rightarrow> cpu_job \<Rightarrow> cpu_thread list \<Rightarrow> (cpu_thread list \<times> bool) option" where
  "submit_to i job Ts =
     (case i of None \<Rightarrow> None
      | Some i \<Rightarrow> let (t, ok) = Thread_Submit job (Ts ! i) in Some (Ts[i := t], ok))"

text \<open>The loop over the work-groups of a kernel; \<open>None\<close> if the iteration never meets its end.\<close>

partial_function (option) block_loop ::
  "dim_info \<Rightarrow> queued \<Rightarrow> dim_iter \<Rightarrow> cpu_thread list \<Rightarrow> (cpu_thread list \<times> bool) option" where
  "block_loop D c I Ts =
     (if I = iter_end D then Some (Ts, True)
      else let J = Advance D I (GetLocalWorkItems D) in
        case submit_to (pickLeastLoadedThread Ts) (BlockJob c (GetWorkGroup D I) I J) Ts of
          None \<Rightarrow> None
        | Some (Ts', ok) \<Rightarrow> if \<not> ok then Some (Ts', False) else block_loop D c J Ts')"

definition BlockParallelSubmit :: "dim_info \<Rightarrow> queued \<Rightarrow> cpu_state \<Rightarrow> (cpu_state \<times> bool) option" where
  "BlockParallelSubmit D c s =
     (let s1 = s\<lparr>CContexts := (CContexts s)(QEvent c := CPUMultiExecContext (GetWorkGroupsCount D))\<rparr>
      in map_option (\<lambda>(Ts, ok). (s1\<lparr>CThreads := Ts\<rparr>, ok)) (block_loop D c (iter_begin D) (CThreads s1)))"

text \<open>All other commands become one job of the first thread.\<close>

definition Submit_single :: "queued \<Rightarrow> cpu_state \<Rightarrow> (cpu_state \<times> bool) option" where
  "Submit_single c s =
     map_option (\<lambda>(Ts, ok). (s\<lparr>CThreads := Ts\<rparr>, ok))
       (submit_to (pickThread (CThreads s)) (ExecJob c) (CThreads s))"

definition Submit_command :: "cpu_env \<Rightarrow> queued \<Rightarrow> cpu_state \<Rightarrow> (cpu_state \<times> bool) option" where
  "Submit_command E c s =
     (case patched E (QCmd c) of
        None \<Rightarrow> None
      | Some cmd \<Rightarrow>
        (case CmdPayload cmd of
           NDRangeKernel k D \<Rightarrow> BlockParallelSubmit D (c\<lparr>QCmd := cmd\<rparr>) s
         | _ \<Rightarrow> Submit_single (c\<lparr>QCmd := cmd\<rparr>) s))"

text \<open>\<open>CPUDevice::Submit\<close>: the sample is taken first, the event is marked last.\<close>

definition cpu_Submit :: "cpu_env \<Rightarrow> queued \<Rightarrow> 'm cpu_world \<Rightarrow> ('m cpu_world \<times> bool) option" where
  "cpu_Submit E c w =
     (let Sample = getSample CommandSubmitted (WClock w) in
      case Submit_command E c (WDevice w) of
        None \<Rightarrow> None
      | Some (s, Submitted) \<Rightarrow>
        let w1 = w\<lparr>WDevice := s\<rparr> in
        Some (if Submitted then upd_event (QEvent c) (\<lambda>ev. MarkSubmitted ev Sample) w1 else w1, Submitted))"

definition cpu_device :: "cpu_env \<Rightarrow> nat \<Rightarrow> (mem_id \<Rightarrow> 'm descs) \<Rightarrow> ('m, cpu_state) device" where
  "cpu_device E I V = \<lparr>DevIndex = I, DevDescs = V, DevSubmit = cpu_Submit E\<rparr>"

section \<open>Worker threads\<close>

definition set_thread :: "nat \<Rightarrow> cpu_thread \<Rightarrow> 'm cpu_world \<Rightarrow> 'm cpu_world" where
  "set_thread i t w = upd_device (\<lambda>s. s\<lparr>CThreads := (CThreads s)[i := t]\<rparr>) w"

definition set_context :: "event_id \<Rightarrow> exec_context \<Rightarrow> 'm cpu_world \<Rightarrow> 'm cpu_world" where
  "set_context e x w = upd_device (\<lambda>s. s\<lparr>CContexts := (CContexts s)(e := x)\<rparr>) w"

text \<open>The loop of \<open>Run\<close>: \<open>None\<close> while the thread waits, has ended, or is busy.\<close>

definition Thread_take :: "nat \<Rightarrow> 'm cpu_world \<Rightarrow> 'm cpu_world option" where
  "Thread_take i w =
     (let t = CThreads (WDevice w) ! i in
      case (TActivity t, TCommands t) of
        (Idle, job # jobs) \<Rightarrow>
          if TMode t = Stopped then None
          else Some (set_thread i (t\<lparr>TCommands := jobs, TActivity := Taken job\<rparr>) w)
      | _ \<Rightarrow> None)"

text \<open>\<open>notifyStart\<close>.\<close>

definition notifyStart :: "cpu_job \<Rightarrow> 'm cpu_world \<Rightarrow> 'm cpu_world" where
  "notifyStart job w =
     (case job of
        StopJob \<Rightarrow> w
      | ExecJob c \<Rightarrow> upd_event (QEvent c) (\<lambda>ev. MarkRunning ev (getSample CommandRunning (WClock w))) w
      | BlockJob c I _ _ \<Rightarrow>
          let (x, frst) = ctx_start (CContexts (WDevice w) (QEvent c));
              w1 = set_context (QEvent c) x w;
              w2 = (if frst then upd_event (QEvent c) (\<lambda>ev. MarkRunning ev (getSample CommandRunning (WClock w))) w1
                    else w1)
          in upd_event (QEvent c) (\<lambda>ev. MarkSubRunning ev (getSubSample CommandRunning (of_nat I) (WClock w))) w2)"

definition Thread_start :: "nat \<Rightarrow> 'm cpu_world \<Rightarrow> 'm cpu_world option" where
  "Thread_start i w =
     (let t = CThreads (WDevice w) ! i in
      case TActivity t of
        Taken job \<Rightarrow> Some (set_thread i (t\<lparr>TActivity := Started job\<rparr>) (notifyStart job w))
      | _ \<Rightarrow> None)"

text \<open>
  \<open>notifyCompletion\<close> up to the call of the queue: the result tells whether the whole command is
  complete. Every error of a job becomes the status \<open>-1\<close>.
\<close>

definition notifyCompletion :: "cpu_job \<Rightarrow> bool \<Rightarrow> 'm cpu_world \<Rightarrow> 'm cpu_world \<times> bool" where
  "notifyCompletion job Error w =
     (case job of
        StopJob \<Rightarrow> (w, False)
      | ExecJob c \<Rightarrow>
          (upd_event (QEvent c)
             (\<lambda>ev. fst (MarkCompleted ev (if Error then -1 else 0) (getSample CommandCompleted (WClock w)))) w, True)
      | BlockJob c I _ _ \<Rightarrow>
          let w1 = upd_event (QEvent c) (\<lambda>ev. MarkSubCompleted ev (getSubSample CommandCompleted (of_nat I) (WClock w))) w;
              (x, lst) = ctx_finish Error (CContexts (WDevice w1) (QEvent c));
              w2 = set_context (QEvent c) x w1
          in if lst
             then (upd_event (QEvent c) (\<lambda>ev. fst (MarkCompleted ev (if Errors x then -1 else 0)
                     (getSample CommandCompleted (WClock w)))) w2, True)
             else (w2, False))"

text \<open>\<open>Execute\<close> of a job: the new memory and mappings, and the exit status.\<close>

definition run_job :: "cpu_env \<Rightarrow> cpu_job \<Rightarrow> memory \<times> map_store \<Rightarrow> (memory \<times> map_store) \<times> cl_int" where
  "run_job E job st =
     (case job of
        StopJob \<Rightarrow> (st, CL_COMPLETE)
      | ExecJob c \<Rightarrow> (Execute E (CmdPayload (QCmd c)) st, CL_COMPLETE)
      | BlockJob c I B F \<Rightarrow>
          (case CmdPayload (QCmd c) of
             NDRangeKernel k D \<Rightarrow> (case exec_block E k D B F (fst st) of (m, r) \<Rightarrow> ((m, snd st), r))
           | _ \<Rightarrow> (st, CL_INVALID_OPERATION)))"

definition job_command :: "cpu_job \<Rightarrow> queued option" where
  "job_command job = (case job of StopJob \<Rightarrow> None | ExecJob c \<Rightarrow> Some c | BlockJob c _ _ _ \<Rightarrow> Some c)"

definition Thread_finish :: "cpu_env \<Rightarrow> nat \<Rightarrow> 'm cpu_world \<Rightarrow> 'm cpu_world option" where
  "Thread_finish E i w =
     (let t = CThreads (WDevice w) ! i in
      case TActivity t of
        Started StopJob \<Rightarrow> Some (set_thread i (t\<lparr>TMode := Stopped, TActivity := Idle\<rparr>) w)
      | Started job \<Rightarrow>
          (case run_job E job (CMemory (WDevice w), WMaps w) of
             ((m, S), r) \<Rightarrow>
               let w1 = upd_device (\<lambda>s. s\<lparr>CMemory := m\<rparr>) (w\<lparr>WMaps := S\<rparr>);
                   (w2, lst) = notifyCompletion job (r \<noteq> CL_COMPLETE) w1
               in Some (set_thread i (t\<lparr>TActivity := (if lst then Reporting (the (job_command job)) else Idle)\<rparr>) w2))
      | _ \<Rightarrow> None)"

text \<open>
  \<open>CommandDone\<close> of the queue, section by section. The scheduler may give the thread itself new jobs,
  so its state is read again after it.
\<close>

definition Thread_report :: "nat \<Rightarrow> ('m, cpu_state) queue_state \<Rightarrow> ('m, cpu_state) queue_state option" where
  "Thread_report i st =
     (case st of (q, w) \<Rightarrow>
      let t = CThreads (WDevice w) ! i in
      case TActivity t of
        Reporting c \<Rightarrow>
          (case QTy q of
             InOrder \<Rightarrow> Some (ClearOnFly q, set_thread i (t\<lparr>TActivity := Rescheduling c\<rparr>) w)
           | OutOfOrder \<Rightarrow> Some (q, set_thread i (t\<lparr>TActivity := Idle\<rparr>) w))
      | _ \<Rightarrow> None)"

definition Thread_reschedule ::
  "('m, cpu_state) device \<Rightarrow> nat \<Rightarrow> ('m, cpu_state) queue_state \<Rightarrow> ('m, cpu_state) queue_state option" where
  "Thread_reschedule dev i st =
     (case st of (q, w) \<Rightarrow>
      case TActivity (CThreads (WDevice w) ! i) of
        Rescheduling c \<Rightarrow>
          map_option (\<lambda>((q', w'), again). (q', set_thread i ((CThreads (WDevice w') ! i)\<lparr>TActivity := Erasing c\<rparr>) w'))
            (RunScheduler dev (q, w))
      | _ \<Rightarrow> None)"

definition Thread_erase :: "nat \<Rightarrow> ('m, cpu_state) queue_state \<Rightarrow> ('m, cpu_state) queue_state option" where
  "Thread_erase i st =
     (case st of (q, w) \<Rightarrow>
      let t = CThreads (WDevice w) ! i in
      case TActivity t of
        Erasing c \<Rightarrow> Some (ErasePending (QEvent c) q, set_thread i (t\<lparr>TActivity := Idle\<rparr>) w)
      | _ \<Rightarrow> None)"

end
