(* ===== verification/CPU_Order.thy ===== *)
theory CPU_Order
  imports CPU_Runtime
begin

text \<open>
  A queue with its CPU device as one system, \<open>cpu_step\<close>: clients push commands, anybody polls
  the queue, the worker threads go through their cycles, other events evolve. The invariant
  \<open>cpu_inv\<close> relates the queue, the jobs of the threads, the counter of a kernel command and the
  memory: what the memory holds is the effect of the commands in the order they were enqueued.
  The reports under way are those of the threads inside \<open>CommandDone\<close>, \<open>late_in\<close>.
\<close>

section \<open>The CPU device keeps the interface of the queues\<close>

lemma upd_event_sel [simp]:
  "WEvents (upd_event e f w) = (WEvents w)(e := f (WEvents w e))" "WNext (upd_event e f w) = WNext w"
  "WClock (upd_event e f w) = WClock w" "WDevice (upd_event e f w) = WDevice w" "WMaps (upd_event e f w) = WMaps w"
  "WTrackers (upd_event e f w) = WTrackers w"
  by (simp_all add: upd_event_def)

lemma upd_device_sel [simp]:
  "WEvents (upd_device g w) = WEvents w" "WNext (upd_device g w) = WNext w" "WClock (upd_device g w) = WClock w"
  "WDevice (upd_device g w) = g (WDevice w)" "WMaps (upd_device g w) = WMaps w"
  by (simp_all add: upd_device_def)

lemma cpu_device_sel [simp]: "DevSubmit (cpu_device E I V) = cpu_Submit E"
  by (simp add: cpu_device_def)

lemma cpu_Submit_cases:
  "cpu_Submit E c w = Some (w', ok) \<longleftrightarrow>
     (\<exists>s. Submit_command E c (WDevice w) = Some (s, ok) \<and>
          w' = (if ok then upd_event (QEvent c) (\<lambda>ev. MarkSubmitted ev (getSample CommandSubmitted (WClock w)))
                             (w\<lparr>WDevice := s\<rparr>) else w\<lparr>WDevice := s\<rparr>))"
  by (auto simp: cpu_Submit_def Let_def split: option.splits prod.splits)

lemma MarkSubmitted_facts [simp]:
  "HasCompleted (MarkSubmitted ev S) = HasCompleted ev" "EvContext (MarkSubmitted ev S) = EvContext ev"
  by (auto simp: HasCompleted_iff MarkSubmitted_def)

interpretation cpu: queue_device "cpu_device E I V" for E I V
  by unfold_locales (auto simp: cpu_Submit_cases split: if_splits)

section \<open>Jobs and reports\<close>

definition activity_jobs :: "activity \<Rightarrow> cpu_job list" where
  "activity_jobs a = (case a of Taken j \<Rightarrow> [j] | Started j \<Rightarrow> [j] | _ \<Rightarrow> [])"

definition activity_reports :: "activity \<Rightarrow> queued list" where
  "activity_reports a = (case a of Reporting c \<Rightarrow> [c] | _ \<Rightarrow> [])"

definition activity_late :: "activity \<Rightarrow> event_id list" where
  "activity_late a = (case a of Rescheduling c \<Rightarrow> [QEvent c] | Erasing c \<Rightarrow> [QEvent c] | _ \<Rightarrow> [])"

definition thread_jobs :: "cpu_thread \<Rightarrow> cpu_job list" where
  "thread_jobs t = activity_jobs (TActivity t) @ TCommands t"

definition jobs_of :: "cpu_thread list \<Rightarrow> cpu_job multiset" where
  "jobs_of Ts = mset (concat (map thread_jobs Ts))"

definition reports_of :: "cpu_thread list \<Rightarrow> queued multiset" where
  "reports_of Ts = mset (concat (map (\<lambda>t. activity_reports (TActivity t)) Ts))"

definition late_of :: "cpu_thread list \<Rightarrow> event_id multiset" where
  "late_of Ts = mset (concat (map (\<lambda>t. activity_late (TActivity t)) Ts))"

definition threads_ok :: "cpu_thread list \<Rightarrow> bool" where
  "threads_ok Ts \<longleftrightarrow> Ts \<noteq> [] \<and> (\<forall>t \<in> set Ts. TMode t = FullyOperational)"

lemma activity_simps [simp]:
  "activity_jobs Idle = []" "activity_jobs (Taken j) = [j]" "activity_jobs (Started j) = [j]"
  "activity_jobs (Reporting c) = []" "activity_jobs (Rescheduling c) = []" "activity_jobs (Erasing c) = []"
  "activity_reports Idle = []" "activity_reports (Taken j) = []" "activity_reports (Started j) = []"
  "activity_reports (Reporting c) = [c]" "activity_reports (Rescheduling c) = []" "activity_reports (Erasing c) = []"
  "activity_late Idle = []" "activity_late (Taken j) = []" "activity_late (Started j) = []"
  "activity_late (Reporting c) = []" "activity_late (Rescheduling c) = [QEvent c]" "activity_late (Erasing c) = [QEvent c]"
  by (simp_all add: activity_jobs_def activity_reports_def activity_late_def)

lemma mset_concat_update:
  "i < length xs \<Longrightarrow>
   mset (concat (map f (xs[i := x]))) + mset (f (xs ! i)) = mset (concat (map f xs)) + mset (f x)"
proof (induction xs arbitrary: i)
  case (Cons y ys)
  then show ?case by (cases i) (simp_all add: add.assoc add.commute add.left_commute)
qed simp

lemma jobs_of_update:
  "i < length Ts \<Longrightarrow> jobs_of (Ts[i := t]) + mset (thread_jobs (Ts ! i)) = jobs_of Ts + mset (thread_jobs t)"
  unfolding jobs_of_def by (rule mset_concat_update)

lemma reports_of_update:
  "i < length Ts \<Longrightarrow>
   reports_of (Ts[i := t]) + mset (activity_reports (TActivity (Ts ! i))) =
   reports_of Ts + mset (activity_reports (TActivity t))"
  unfolding reports_of_def by (rule mset_concat_update)

lemma late_of_update:
  "i < length Ts \<Longrightarrow>
   late_of (Ts[i := t]) + mset (activity_late (TActivity (Ts ! i))) = late_of Ts + mset (activity_late (TActivity t))"
  unfolding late_of_def by (rule mset_concat_update)

lemma threads_ok_update: "threads_ok Ts \<Longrightarrow> TMode t = FullyOperational \<Longrightarrow> threads_ok (Ts[i := t])"
  by (auto simp: threads_ok_def dest!: set_update_subset_insert [THEN subsetD])

lemma threads_ok_nth: "threads_ok Ts \<Longrightarrow> i < length Ts \<Longrightarrow> TMode (Ts ! i) = FullyOperational"
  by (simp add: threads_ok_def)

section \<open>Submitting jobs\<close>

text \<open>\<open>adds js Ts Ts'\<close>: the threads got the jobs \<open>js\<close> and nothing else changed.\<close>

definition adds :: "cpu_job multiset \<Rightarrow> cpu_thread list \<Rightarrow> cpu_thread list \<Rightarrow> bool" where
  "adds js Ts Ts' \<longleftrightarrow>
     threads_ok Ts' \<and> map TActivity Ts' = map TActivity Ts \<and> jobs_of Ts' = jobs_of Ts + js"

lemma adds_refl: "threads_ok Ts \<Longrightarrow> adds {#} Ts Ts"
  by (simp add: adds_def)

lemma adds_trans: "adds js Ts Ts' \<Longrightarrow> adds ks Ts' Ts'' \<Longrightarrow> adds (js + ks) Ts Ts''"
  by (simp add: adds_def)

lemma adds_threads: "adds js Ts Ts' \<Longrightarrow> threads_ok Ts'"
  by (simp add: adds_def)

lemma pick_loop_bound:
  "pick_loop i Thr m Ts = Some j \<Longrightarrow> Thr = None \<or> the Thr < i \<Longrightarrow> j < i + length Ts"
proof (induction i Thr m Ts rule: pick_loop.induct)
  case (2 i Thr m T Ts)
  then show ?case by (fastforce split: if_splits)
qed auto

lemma pick_loop_some: "Thr \<noteq> None \<Longrightarrow> pick_loop i Thr m Ts \<noteq> None"
  by (induction i Thr m Ts rule: pick_loop.induct) auto

lemma pickLeastLoadedThread_ok:
  assumes "threads_ok Ts"
  obtains i where "pickLeastLoadedThread Ts = Some i" "i < length Ts"
proof -
  obtain t ts where Ts: "Ts = t # ts" using assms by (cases Ts) (auto simp: threads_ok_def)
  have "pickLeastLoadedThread Ts \<noteq> None"
    by (simp add: Ts pickLeastLoadedThread_def pick_loop_some)
  then obtain i where "pickLeastLoadedThread Ts = Some i" by blast
  moreover from this have "i < length Ts" using pick_loop_bound by (fastforce simp: pickLeastLoadedThread_def)
  ultimately show thesis by (rule that)
qed

lemma submit_to_ok:
  assumes ok: "threads_ok Ts" and i: "i < length Ts" and job: "job \<noteq> StopJob"
  obtains Ts' where "submit_to (Some i) job Ts = Some (Ts', True)" "adds {#job#} Ts Ts'"
proof -
  let ?t = "(Ts ! i)\<lparr>TCommands := TCommands (Ts ! i) @ [job]\<rparr>"
  have m: "TMode (Ts ! i) = FullyOperational" by (rule threads_ok_nth [OF ok i])
  have "submit_to (Some i) job Ts = Some (Ts[i := ?t], True)"
    using job by (cases job) (simp_all add: submit_to_def Thread_Submit_def Let_def m)
  moreover have "adds {#job#} Ts (Ts[i := ?t])"
    unfolding adds_def
  proof (intro conjI)
    show "threads_ok (Ts[i := ?t])" by (rule threads_ok_update [OF ok]) (simp add: m)
    show "map TActivity (Ts[i := ?t]) = map TActivity Ts"
      using i by (simp add: map_update list_update_same_conv)
    have "jobs_of (Ts[i := ?t]) + mset (thread_jobs (Ts ! i)) =
          (jobs_of Ts + {#job#}) + mset (thread_jobs (Ts ! i))"
      using jobs_of_update [OF i, of ?t] by (simp add: thread_jobs_def ac_simps)
    then show "jobs_of (Ts[i := ?t]) = jobs_of Ts + {#job#}" by simp
  qed
  ultimately show thesis by (rule that)
qed

text \<open>The work-group with number \<open>i\<close> of a kernel as a job.\<close>

definition block_job :: "dim_info \<Rightarrow> queued \<Rightarrow> nat \<Rightarrow> cpu_job" where
  "block_job D c i =
     BlockJob c (GetWorkGroup D (iterate D (GetLocalWorkItems D) i))
       (iterate D (GetLocalWorkItems D) i) (iterate D (GetLocalWorkItems D) (Suc i))"

lemma block_loop_ok:
  assumes wf: "wf_dims D"
  shows "j \<le> GetWorkGroupsCount D \<Longrightarrow> threads_ok Ts \<Longrightarrow>
         \<exists>Ts'. block_loop D c (iterate D (GetLocalWorkItems D) j) Ts = Some (Ts', True) \<and>
               adds (mset (map (block_job D c) [j..<GetWorkGroupsCount D])) Ts Ts'"
proof (induction "GetWorkGroupsCount D - j" arbitrary: j Ts)
  case 0
  then have "j = GetWorkGroupsCount D" by simp
  then show ?case using 0 group_step_end [OF wf] by (simp add: block_loop.simps adds_refl)
next
  case (Suc n)
  let ?L = "GetLocalWorkItems D"
  have j: "j < GetWorkGroupsCount D" using Suc.hyps(2) by simp
  have ne: "iterate D ?L j \<noteq> iter_end D" by (rule in_range_not_end [OF wf group_step(1) [OF wf j]])
  obtain i where i: "pickLeastLoadedThread Ts = Some i" "i < length Ts"
    by (rule pickLeastLoadedThread_ok [OF Suc.prems(2)])
  have job: "block_job D c j \<noteq> StopJob" by (simp add: block_job_def)
  obtain Ts1 where s: "submit_to (Some i) (block_job D c j) Ts = Some (Ts1, True)" "adds {#block_job D c j#} Ts Ts1"
    by (rule submit_to_ok [OF Suc.prems(2) i(2) job])
  have n: "n = GetWorkGroupsCount D - Suc j" and le: "Suc j \<le> GetWorkGroupsCount D"
    using Suc.hyps(2) j by simp_all
  obtain Ts' where t: "block_loop D c (iterate D ?L (Suc j)) Ts1 = Some (Ts', True)"
      "adds (mset (map (block_job D c) [Suc j..<GetWorkGroupsCount D])) Ts1 Ts'"
    using Suc.hyps(1) [OF n le adds_threads [OF s(2)]] by blast
  have "block_loop D c (iterate D ?L j) Ts = Some (Ts', True)"
    using ne i(1) s(1) t(1) by (subst block_loop.simps) (simp add: block_job_def Let_def)
  moreover have "adds (mset (map (block_job D c) [j..<GetWorkGroupsCount D])) Ts Ts'"
    using adds_trans [OF s(2) t(2)] j by (simp add: upt_conv_Cons)
  ultimately show ?case by blast
qed

section \<open>The effect of a command\<close>

definition run_block :: "cpu_env \<Rightarrow> kernel_ref \<Rightarrow> dim_info \<Rightarrow> nat \<Rightarrow> memory \<Rightarrow> memory" where
  "run_block E k D i m =
     fst (exec_block E k D (iterate D (GetLocalWorkItems D) i) (iterate D (GetLocalWorkItems D) (Suc i)) m)"

text \<open>A kernel runs each of its work-groups once, in any order.\<close>

definition payload_effect :: "cpu_env \<Rightarrow> payload \<Rightarrow> memory \<Rightarrow> memory \<Rightarrow> bool" where
  "payload_effect E P m m' \<longleftrightarrow>
     (case P of
        NDRangeKernel k D \<Rightarrow> \<exists>ds. mset ds = mset [0..<GetWorkGroupsCount D] \<and> m' = fold (run_block E k D) ds m
      | _ \<Rightarrow> m' = fst (Execute E P (m, \<lambda>_. [])))"

definition command_effect :: "cpu_env \<Rightarrow> queued \<Rightarrow> memory \<Rightarrow> memory \<Rightarrow> bool" where
  "command_effect E c m m' \<longleftrightarrow> (\<exists>cmd. patched E (QCmd c) = Some cmd \<and> payload_effect E (CmdPayload cmd) m m')"

inductive executed :: "cpu_env \<Rightarrow> queued list \<Rightarrow> memory \<Rightarrow> memory \<Rightarrow> bool" for E :: cpu_env where
  executed_Nil: "executed E [] m m"
| executed_snoc: "executed E cs m m1 \<Longrightarrow> command_effect E c m1 m2 \<Longrightarrow> executed E (cs @ [c]) m m2"

text \<open>The status of the event when the command is complete.\<close>

definition command_status :: "cpu_env \<Rightarrow> queued \<Rightarrow> cl_int" where
  "command_status E c =
     (case CmdPayload (QCmd c) of NDRangeKernel k D \<Rightarrow> if HasEntryPoint E k then 0 else -1 | _ \<Rightarrow> 0)"

lemma Execute_memory: "fst (Execute E P (m, S)) = fst (Execute E P (m, S'))"
  by (cases P) simp_all

lemma patched_kernel:
  "patched E cmd = Some cmd' \<Longrightarrow>
   CmdPayload cmd' = NDRangeKernel k D \<longleftrightarrow> CmdPayload cmd = NDRangeKernel k D"
  by (auto simp: patched_def split: payload.splits option.splits)

text \<open>The kernels the builder creates, as far as their work-items can be counted in 32 bits.\<close>

definition command_ok :: "queued \<Rightarrow> bool" where
  "command_ok c \<longleftrightarrow> (\<forall>k D. CmdPayload (QCmd c) = NDRangeKernel k D \<longrightarrow> wf_dims D)"

section \<open>The invariant\<close>

definition jobs_in :: "'m cpu_world \<Rightarrow> cpu_job multiset" where
  "jobs_in w = jobs_of (CThreads (WDevice w))"

definition reports_in :: "'m cpu_world \<Rightarrow> queued multiset" where
  "reports_in w = reports_of (CThreads (WDevice w))"

definition late_in :: "'m cpu_world \<Rightarrow> event_id multiset" where
  "late_in w = late_of (CThreads (WDevice w))"

text \<open>
  The command \<open>c\<close> is with the device and not complete; \<open>m\<close> is the memory before it. Of a kernel,
  the groups \<open>ds\<close> have run and the groups \<open>js\<close> have not.
\<close>

definition kernel_on_fly ::
  "cpu_env \<Rightarrow> queued \<Rightarrow> kernel_ref \<Rightarrow> dim_info \<Rightarrow> memory \<Rightarrow> 'm cpu_world \<Rightarrow> bool" where
  "kernel_on_fly E c k D m w \<longleftrightarrow>
     (\<exists>ds js. mset ds + mset js = mset [0..<GetWorkGroupsCount D] \<and> js \<noteq> [] \<and>
        jobs_in w = mset (map (block_job D c) js) \<and>
        WaitCount (CContexts (WDevice w) (QEvent c)) = of_nat (length js) \<and>
        (Errors (CContexts (WDevice w) (QEvent c)) \<longleftrightarrow> ds \<noteq> [] \<and> \<not> HasEntryPoint E k) \<and>
        CMemory (WDevice w) = fold (run_block E k D) ds m)"

definition on_fly :: "cpu_env \<Rightarrow> queued \<Rightarrow> memory \<Rightarrow> 'm cpu_world \<Rightarrow> bool" where
  "on_fly E c m w \<longleftrightarrow>
     \<not> HasCompleted (WEvents w (QEvent c)) \<and>
     (\<exists>cmd. patched E (QCmd c) = Some cmd \<and>
        (case CmdPayload cmd of
           NDRangeKernel k D \<Rightarrow> kernel_on_fly E (c\<lparr>QCmd := cmd\<rparr>) k D m w
         | _ \<Rightarrow> jobs_in w = {#ExecJob (c\<lparr>QCmd := cmd\<rparr>)#} \<and> CMemory (WDevice w) = m))"

definition landed :: "cpu_env \<Rightarrow> queued \<Rightarrow> memory \<Rightarrow> 'm cpu_world \<Rightarrow> bool" where
  "landed E c m w \<longleftrightarrow>
     jobs_in w = {#} \<and> (\<exists>c'. QEvent c' = QEvent c \<and> reports_in w = {#c'#}) \<and>
     Status (WEvents w (QEvent c)) = command_status E c \<and> command_effect E c m (CMemory (WDevice w))"

definition cpu_inv ::
  "cpu_env \<Rightarrow> memory \<Rightarrow> cmd_queue \<Rightarrow> 'm cpu_world \<Rightarrow> queued list \<Rightarrow> queued list \<Rightarrow> bool" where
  "cpu_inv E m0 q w enq started \<longleftrightarrow>
     in_order_inv q w enq started (late_in w) \<and> threads_ok (CThreads (WDevice w)) \<and> (\<forall>c \<in> set enq. command_ok c) \<and>
     (if QOnFly q
      then (\<forall>c \<in> set (butlast started). Status (WEvents w (QEvent c)) = command_status E c) \<and>
           (\<exists>m. executed E (butlast started) m0 m \<and>
             (on_fly E (last started) m w \<and> reports_in w = {#} \<or> landed E (last started) m w))
      else (\<forall>c \<in> set started. Status (WEvents w (QEvent c)) = command_status E c) \<and>
           jobs_in w = {#} \<and> reports_in w = {#} \<and> executed E started m0 (CMemory (WDevice w)))"

section \<open>Submission of a command\<close>

lemma Submit_command_ok:
  assumes ok: "threads_ok (CThreads s)" and cmd: "command_ok c"
    and run: "Submit_command E c s = Some (s', b)"
  obtains cmd where "b" "patched E (QCmd c) = Some cmd" "CMemory s' = CMemory s"
    "adds (case CmdPayload cmd of
             NDRangeKernel k D \<Rightarrow> mset (map (block_job D (c\<lparr>QCmd := cmd\<rparr>)) [0..<GetWorkGroupsCount D])
           | _ \<Rightarrow> {#ExecJob (c\<lparr>QCmd := cmd\<rparr>)#}) (CThreads s) (CThreads s')"
    "\<forall>k D. CmdPayload cmd = NDRangeKernel k D \<longrightarrow>
       CContexts s' (QEvent c) = CPUMultiExecContext (GetWorkGroupsCount D)"
proof -
  obtain cmd' where p: "patched E (QCmd c) = Some cmd'" using run by (auto simp: Submit_command_def split: option.splits)
  show thesis
  proof (cases "\<exists>k D. CmdPayload cmd' = NDRangeKernel k D")
    case True
    then obtain k D where P: "CmdPayload cmd' = NDRangeKernel k D" by blast
    have wf: "wf_dims D" using cmd P patched_kernel [OF p] by (simp add: command_ok_def)
    from block_loop_ok [OF wf, of 0 "CThreads s" "c\<lparr>QCmd := cmd'\<rparr>"] ok obtain Ts
      where Ts: "block_loop D (c\<lparr>QCmd := cmd'\<rparr>) (iter_begin D) (CThreads s) = Some (Ts, True)"
        "adds (mset (map (block_job D (c\<lparr>QCmd := cmd'\<rparr>)) [0..<GetWorkGroupsCount D])) (CThreads s) Ts"
      by auto
    have "b" "s' = s\<lparr>CContexts := (CContexts s)(QEvent c := CPUMultiExecContext (GetWorkGroupsCount D)), CThreads := Ts\<rparr>"
      using run by (simp_all add: Submit_command_def p P BlockParallelSubmit_def Let_def Ts(1))
    with Ts(2) p P show thesis by (intro that [of cmd']) simp_all
  next
    case False
    have "pickThread (CThreads s) = Some 0" "0 < length (CThreads s)"
      using ok by (auto simp: pickThread_def threads_ok_def split: list.split)
    moreover from submit_to_ok [OF ok this(2), of "ExecJob (c\<lparr>QCmd := cmd'\<rparr>)"] obtain Ts
      where Ts: "submit_to (Some 0) (ExecJob (c\<lparr>QCmd := cmd'\<rparr>)) (CThreads s) = Some (Ts, True)"
        "adds {#ExecJob (c\<lparr>QCmd := cmd'\<rparr>)#} (CThreads s) Ts" by blast
    moreover have "Submit_command E c s = Submit_single (c\<lparr>QCmd := cmd'\<rparr>) s"
      using False by (simp add: Submit_command_def p split: payload.split)
    ultimately have "b" "s' = s\<lparr>CThreads := Ts\<rparr>"
      using run by (simp_all add: Submit_single_def)
    with Ts(2) p False show thesis by (intro that [of cmd']) (simp_all split: payload.split)
  qed
qed

lemma reports_of_activity: "map TActivity Ts' = map TActivity Ts \<Longrightarrow> reports_of Ts' = reports_of Ts"
proof -
  have r: "reports_of Ts = mset (concat (map activity_reports (map TActivity Ts)))" for Ts
    by (simp add: reports_of_def comp_def)
  show "map TActivity Ts' = map TActivity Ts \<Longrightarrow> reports_of Ts' = reports_of Ts" by (simp only: r)
qed

lemma late_of_activity: "map TActivity Ts' = map TActivity Ts \<Longrightarrow> late_of Ts' = late_of Ts"
proof -
  have r: "late_of Ts = mset (concat (map activity_late (map TActivity Ts)))" for Ts
    by (simp add: late_of_def comp_def)
  show "map TActivity Ts' = map TActivity Ts \<Longrightarrow> late_of Ts' = late_of Ts" by (simp only: r)
qed

lemma submit_cpu:
  assumes run: "submit (cpu_device E I V) c w = Some (w', b)"
    and ok: "threads_ok (CThreads (WDevice w))" and cmd: "command_ok c"
    and jobs: "jobs_in w = {#}" and open_ev: "\<not> HasCompleted (WEvents w (QEvent c))"
  shows "b" "on_fly E c (CMemory (WDevice w)) w'" "threads_ok (CThreads (WDevice w'))"
    "map TActivity (CThreads (WDevice w')) = map TActivity (CThreads (WDevice w))"
proof -
  obtain T where "cpu_Submit E c (w\<lparr>WTrackers := T\<rparr>) = Some (w', b)"
    using run by (auto simp: submit_def ensureMemoryCoherency_def Let_def split: option.splits)
  then obtain s where s: "Submit_command E c (WDevice w) = Some (s, b)" "WDevice w' = s"
    by (auto simp: cpu_Submit_cases)
  obtain cmd' where r: "b" "patched E (QCmd c) = Some cmd'" "CMemory s = CMemory (WDevice w)"
    "adds (case CmdPayload cmd' of
             NDRangeKernel k D \<Rightarrow> mset (map (block_job D (c\<lparr>QCmd := cmd'\<rparr>)) [0..<GetWorkGroupsCount D])
           | _ \<Rightarrow> {#ExecJob (c\<lparr>QCmd := cmd'\<rparr>)#}) (CThreads (WDevice w)) (CThreads s)"
    "\<forall>k D. CmdPayload cmd' = NDRangeKernel k D \<longrightarrow>
       CContexts s (QEvent c) = CPUMultiExecContext (GetWorkGroupsCount D)"
    by (rule Submit_command_ok [OF ok cmd s(1)])
  show b by (rule r(1))
  show "threads_ok (CThreads (WDevice w'))" using adds_threads [OF r(4)] s(2) by simp
  show "map TActivity (CThreads (WDevice w')) = map TActivity (CThreads (WDevice w))"
    using r(4) s(2) by (simp add: adds_def)
  have ev: "\<not> HasCompleted (WEvents w' (QEvent c))" by (rule cpu.submit_frame(3) [OF run open_ev])
  have J: "jobs_in w' = (case CmdPayload cmd' of
             NDRangeKernel k D \<Rightarrow> mset (map (block_job D (c\<lparr>QCmd := cmd'\<rparr>)) [0..<GetWorkGroupsCount D])
           | _ \<Rightarrow> {#ExecJob (c\<lparr>QCmd := cmd'\<rparr>)#})"
    using r(4) jobs s(2) by (simp add: adds_def jobs_in_def)
  show "on_fly E c (CMemory (WDevice w)) w'"
  proof (cases "\<exists>k D. CmdPayload cmd' = NDRangeKernel k D")
    case True
    then obtain k D where P: "CmdPayload cmd' = NDRangeKernel k D" by blast
    have wf: "wf_dims D" using cmd P patched_kernel [OF r(2)] by (simp add: command_ok_def)
    have "0 < GetWorkGroupsCount D" by (simp add: GetWorkGroupsCount_wf [OF wf] group_prod_pos [OF wf])
    then have "kernel_on_fly E (c\<lparr>QCmd := cmd'\<rparr>) k D (CMemory (WDevice w)) w'"
      unfolding kernel_on_fly_def using J P r(3,5) s(2)
      by (intro exI [of _ "[]"] exI [of _ "[0..<GetWorkGroupsCount D]"]) (simp add: CPUMultiExecContext_def)
    with ev r(2) P show ?thesis by (auto simp: on_fly_def)
  next
    case False
    with ev r(2,3) J s(2) show ?thesis by (auto simp: on_fly_def split: payload.split)
  qed
qed

definition quiet :: "cpu_env \<Rightarrow> memory \<Rightarrow> 'm cpu_world \<Rightarrow> queued list \<Rightarrow> bool" where
  "quiet E m0 w started \<longleftrightarrow>
     (\<forall>c \<in> set started. Status (WEvents w (QEvent c)) = command_status E c) \<and>
     jobs_in w = {#} \<and> executed E started m0 (CMemory (WDevice w))"

definition busy :: "cpu_env \<Rightarrow> memory \<Rightarrow> 'm cpu_world \<Rightarrow> queued list \<Rightarrow> bool" where
  "busy E m0 w started \<longleftrightarrow>
     (\<forall>c \<in> set (butlast started). Status (WEvents w (QEvent c)) = command_status E c) \<and>
     (\<exists>m. executed E (butlast started) m0 m \<and> on_fly E (last started) m w)"

lemma scheduler_cpu:
  assumes run: "RunScheduler (cpu_device E I V) (q, w) = Some ((q', w'), again)"
    and inv: "in_order_inv q w enq started late" and ok: "threads_ok (CThreads (WDevice w))"
    and cmds: "\<forall>c \<in> set enq. command_ok c" and idle: "\<not> QOnFly q" "quiet E m0 w started"
  shows "\<exists>started'. in_order_inv q' w' enq started' late \<and> threads_ok (CThreads (WDevice w')) \<and>
           map TActivity (CThreads (WDevice w')) = map TActivity (CThreads (WDevice w)) \<and>
           (if QOnFly q' then busy E m0 w' started' else quiet E m0 w' started')"
proof -
  have ty: "QTy q = InOrder" and enq: "enq = started @ QCommands q"
    using inv by (simp_all add: in_order_inv_def)
  consider "q' = q" "w' = w" | c cs b where "QCommands q = c # cs" "submit (cpu_device E I V) c w = Some (w', b)"
      "q' = (if b then q\<lparr>QCommands := cs, QPending := QPending q @ [c], QOnFly := True\<rparr> else q)"
    using run by (auto simp: RunScheduler_def InOrder_RunScheduler_def ty idle(1) split: if_splits list.splits option.splits)
  then show ?thesis
  proof cases
    case 1
    with inv ok idle show ?thesis by auto
  next
    case (2 c cs b)
    have c: "command_ok c" "\<not> HasCompleted (WEvents w (QEvent c))"
      using cmds inv 2(1) by (auto simp: enq in_order_inv_def)
    have jobs: "jobs_in w = {#}" using idle(2) by (simp add: quiet_def)
    note sub = submit_cpu [OF 2(2) ok c(1) jobs c(2)]
    have q': "QOnFly q'" using 2(3) sub(1) by simp
    then have "q' \<noteq> q" using idle(1) by blast
    then have inv': "in_order_inv q' w' enq (started @ [c]) late"
      using cpu.scheduler_inv [OF inv run] 2(1) by auto
    have "distinct (map QEvent (started @ c # cs))" using in_order_inv_distinct [OF inv] 2(1) by simp
    then have other: "QEvent d \<noteq> QEvent c" if "d \<in> set started" for d using that by (auto simp: image_iff)
    have "busy E m0 w' (started @ [c])"
      using idle(2) sub(2) cpu.submit_frame(2) [OF 2(2) other] by (auto simp: busy_def quiet_def)
    with inv' q' sub(3,4) show ?thesis by auto
  qed
qed

lemma cpu_inv_parts:
  "cpu_inv E m0 q w enq started \<longleftrightarrow>
     in_order_inv q w enq started (late_in w) \<and> threads_ok (CThreads (WDevice w)) \<and> (\<forall>c \<in> set enq. command_ok c) \<and>
     (if QOnFly q
      then busy E m0 w started \<and> reports_in w = {#} \<or>
           (\<forall>c \<in> set (butlast started). Status (WEvents w (QEvent c)) = command_status E c) \<and>
           (\<exists>m. executed E (butlast started) m0 m \<and> landed E (last started) m w)
      else quiet E m0 w started \<and> reports_in w = {#})"
  by (auto simp: cpu_inv_def busy_def quiet_def)

end
