(* ===== verification/CPU_System.thy ===== *)
theory CPU_System
  imports CPU_Order
begin

text \<open>
  The steps of a queue with its CPU device, and the proof that each keeps the invariant of
  \<open>CPU_Order\<close>; then what that means for a program that uses the queue.
\<close>

section \<open>Steps\<close>

text \<open>What happens outside the queue and its device leaves the statuses of their events alone.\<close>

definition foreign :: "cmd_queue \<Rightarrow> queued list \<Rightarrow> 'm cpu_world \<Rightarrow> 'm cpu_world \<Rightarrow> bool" where
  "foreign q enq w w' \<longleftrightarrow>
     events_evolve q w w' \<and> WDevice w' = WDevice w \<and>
     (\<forall>c \<in> set enq. Status (WEvents w' (QEvent c)) = Status (WEvents w (QEvent c)))"

text \<open>A step of one of the worker threads; the last three are the sections of \<open>CommandDone\<close>.\<close>

inductive thread_step ::
  "cpu_env \<Rightarrow> ('m, cpu_state) device \<Rightarrow> ('m, cpu_state) queue_state \<Rightarrow> ('m, cpu_state) queue_state \<Rightarrow> bool"
  for E :: cpu_env and dev :: "('m, cpu_state) device" where
  Take_step: "i < length (CThreads (WDevice w)) \<Longrightarrow> Thread_take i w = Some w' \<Longrightarrow> thread_step E dev (q, w) (q, w')"
| Start_step: "i < length (CThreads (WDevice w)) \<Longrightarrow> Thread_start i w = Some w' \<Longrightarrow> thread_step E dev (q, w) (q, w')"
| Finish_step: "i < length (CThreads (WDevice w)) \<Longrightarrow> Thread_finish E i w = Some w' \<Longrightarrow> thread_step E dev (q, w) (q, w')"
| Report_step: "i < length (CThreads (WDevice w)) \<Longrightarrow> Thread_report i (q, w) = Some st' \<Longrightarrow> thread_step E dev (q, w) st'"
| Reschedule_step:
    "i < length (CThreads (WDevice w)) \<Longrightarrow> Thread_reschedule dev i (q, w) = Some st' \<Longrightarrow> thread_step E dev (q, w) st'"
| Erase_step: "i < length (CThreads (WDevice w)) \<Longrightarrow> Thread_erase i (q, w) = Some st' \<Longrightarrow> thread_step E dev (q, w) st'"

inductive cpu_step ::
  "cpu_env \<Rightarrow> ('m, cpu_state) device \<Rightarrow> ('m, cpu_state) queue_state \<times> queued list \<Rightarrow>
   ('m, cpu_state) queue_state \<times> queued list \<Rightarrow> bool"
  for E :: cpu_env and dev :: "('m, cpu_state) device" where
  Push_cpu:
    "\<forall>e \<in> set (CmdWaitList cmd). e < WNext w \<Longrightarrow> command_ok \<lparr>QEvent = e, QCmd = cmd\<rparr> \<Longrightarrow>
     Enqueue_push cmd (q, w) = (st', Inr e) \<Longrightarrow>
     cpu_step E dev ((q, w), enq) (st', enq @ [\<lparr>QEvent = e, QCmd = cmd\<rparr>])"
| Poll_cpu: "RunScheduler dev (q, w) = Some (st', b) \<Longrightarrow> cpu_step E dev ((q, w), enq) (st', enq)"
| Thread_cpu: "thread_step E dev (q, w) st' \<Longrightarrow> cpu_step E dev ((q, w), enq) (st', enq)"
| Foreign_cpu: "foreign q enq w w' \<Longrightarrow> cpu_step E dev ((q, w), enq) ((q, w'), enq)"

text \<open>A new in-order queue on a device whose threads have nothing to do.\<close>

definition cpu_start :: "memory \<Rightarrow> ('m, cpu_state) queue_state \<times> queued list \<Rightarrow> bool" where
  "cpu_start m0 s \<longleftrightarrow>
     (\<exists>Info prof w n. s = ((new_queue InOrder Info prof, w), []) \<and> 0 < n \<and>
        CThreads (WDevice w) = replicate n new_thread \<and> CMemory (WDevice w) = m0)"

definition cpu_reachable ::
  "cpu_env \<Rightarrow> ('m, cpu_state) device \<Rightarrow> memory \<Rightarrow> ('m, cpu_state) queue_state \<times> queued list \<Rightarrow> bool" where
  "cpu_reachable E dev m0 s \<longleftrightarrow> (\<exists>s0. cpu_start m0 s0 \<and> (cpu_step E dev)\<^sup>*\<^sup>* s0 s)"

text \<open>\<open>Enqueue\<close> of a client nobody interrupts is two steps: it pushes the command, then polls.\<close>

lemma enqueue_steps:
  assumes "\<forall>e \<in> set (CmdWaitList cmd). e < WNext w" "command_ok \<lparr>QEvent = e, QCmd = cmd\<rparr>"
    and "Enqueue dev cmd (q, w) = Some (st', Inr (e, b))"
  shows "(cpu_step E dev)\<^sup>*\<^sup>* ((q, w), enq) (st', enq @ [\<lparr>QEvent = e, QCmd = cmd\<rparr>])"
proof -
  obtain again where p: "Enqueue_push cmd (q, w) = (pushed q cmd w, Inr e)"
    and r: "RunScheduler dev (pushed q cmd w) = Some (st', again)"
    using push_schedules [OF assms(3)] by blast
  have "cpu_step E dev ((q, w), enq) (pushed q cmd w, enq @ [\<lparr>QEvent = e, QCmd = cmd\<rparr>])"
    by (rule Push_cpu [OF assms(1,2) p])
  moreover have "cpu_step E dev (pushed q cmd w, enq @ [\<lparr>QEvent = e, QCmd = cmd\<rparr>]) (st', enq @ [\<lparr>QEvent = e, QCmd = cmd\<rparr>])"
    using Poll_cpu [where q = "fst (pushed q cmd w)" and w = "snd (pushed q cmd w)"] r by simp
  ultimately show ?thesis by (meson converse_rtranclp_into_rtranclp rtranclp.rtrancl_refl)
qed

section \<open>Changes the invariant does not see\<close>

lemma command_status_le: "command_status E c \<le> 0"
  by (simp add: command_status_def split: payload.split)

text \<open>The two worlds agree on the progress of all events, and on what the invariant says of the device.\<close>

definition same_progress :: "'m cpu_world \<Rightarrow> 'm cpu_world \<Rightarrow> bool" where
  "same_progress w w' \<longleftrightarrow>
     WNext w' = WNext w \<and>
     (\<forall>e. EvContext (WEvents w' e) = EvContext (WEvents w e) \<and>
          HasCompleted (WEvents w' e) = HasCompleted (WEvents w e) \<and>
          (HasCompleted (WEvents w e) \<longrightarrow> Status (WEvents w' e) = Status (WEvents w e)))"

definition same_device :: "'m cpu_world \<Rightarrow> 'm cpu_world \<Rightarrow> bool" where
  "same_device w w' \<longleftrightarrow>
     threads_ok (CThreads (WDevice w')) \<and> jobs_in w' = jobs_in w \<and> reports_in w' = reports_in w \<and> late_in w' = late_in w \<and>
     CMemory (WDevice w') = CMemory (WDevice w) \<and>
     (\<forall>e. WaitCount (CContexts (WDevice w') e) = WaitCount (CContexts (WDevice w) e) \<and>
          Errors (CContexts (WDevice w') e) = Errors (CContexts (WDevice w) e))"

lemma on_fly_frame:
  "same_device w w' \<Longrightarrow> HasCompleted (WEvents w' (QEvent c)) = HasCompleted (WEvents w (QEvent c)) \<Longrightarrow>
   on_fly E c m w' = on_fly E c m w"
  by (simp add: on_fly_def kernel_on_fly_def same_device_def cong: payload.case_cong)

lemma cpu_inv_frame:
  assumes inv: "cpu_inv E m0 q w enq started" and io: "in_order_inv q w' enq started (late_in w)"
    and dev: "same_device w w'"
    and st: "\<forall>c \<in> set started. HasCompleted (WEvents w' (QEvent c)) = HasCompleted (WEvents w (QEvent c)) \<and>
               (HasCompleted (WEvents w (QEvent c)) \<longrightarrow> Status (WEvents w' (QEvent c)) = Status (WEvents w (QEvent c)))"
  shows "cpu_inv E m0 q w' enq started"
proof -
  have status: "Status (WEvents w' (QEvent c)) = command_status E c"
    if "c \<in> set started" "Status (WEvents w (QEvent c)) = command_status E c" for c
    using st that command_status_le [of E c] by (auto simp: HasCompleted_iff)
  have l: "last started \<in> set started" if "QOnFly q" using io that by (simp add: in_order_inv_def)
  have fly: "on_fly E (last started) m w' = on_fly E (last started) m w" if "QOnFly q" for m
    using on_fly_frame [OF dev] st l [OF that] by blast
  have land: "landed E (last started) m w'" if "QOnFly q" "landed E (last started) m w" for m
    using dev that l [OF that(1)] status by (simp add: landed_def same_device_def)
  have base: "threads_ok (CThreads (WDevice w'))" "\<forall>c \<in> set enq. command_ok c"
    using inv dev by (simp_all add: cpu_inv_def same_device_def)
  have io: "in_order_inv q w' enq started (late_in w')" using io dev by (simp add: same_device_def)
  show ?thesis
  proof (cases "QOnFly q")
    case True
    have "\<forall>c \<in> set (butlast started). Status (WEvents w' (QEvent c)) = command_status E c"
      using inv True status by (auto simp: cpu_inv_def dest: in_set_butlastD)
    moreover have "\<exists>m. executed E (butlast started) m0 m \<and>
        (on_fly E (last started) m w' \<and> reports_in w' = {#} \<or> landed E (last started) m w')"
      using inv True fly land dev by (simp add: cpu_inv_def same_device_def) blast
    ultimately show ?thesis using True io base by (simp add: cpu_inv_def)
  next
    case False
    with inv io base status dev show ?thesis by (simp add: cpu_inv_def same_device_def)
  qed
qed

lemma same_progress_in_order:
  assumes inv: "in_order_inv q w enq started late" and same: "same_progress w w'"
  shows "in_order_inv q w' enq started late"
proof -
  have eqs: "WNext w' = WNext w" "EvContext (WEvents w' e) = EvContext (WEvents w e)"
    "HasCompleted (WEvents w' e) = HasCompleted (WEvents w e)" for e
    using same by (simp_all add: same_progress_def)
  show ?thesis using inv unfolding in_order_inv_def eqs .
qed

lemma cpu_inv_same:
  "cpu_inv E m0 q w enq started \<Longrightarrow> same_progress w w' \<Longrightarrow> same_device w w' \<Longrightarrow> cpu_inv E m0 q w' enq started"
  by (rule cpu_inv_frame)
    (auto simp: cpu_inv_def same_progress_def intro: same_progress_in_order)

section \<open>Taking and starting a job\<close>

lemma set_thread_sel [simp]:
  "WEvents (set_thread i t w) = WEvents w" "WNext (set_thread i t w) = WNext w"
  "CThreads (WDevice (set_thread i t w)) = (CThreads (WDevice w))[i := t]"
  "CMemory (WDevice (set_thread i t w)) = CMemory (WDevice w)"
  "CContexts (WDevice (set_thread i t w)) = CContexts (WDevice w)"
  by (simp_all add: set_thread_def)

lemma set_context_sel [simp]:
  "WEvents (set_context e x w) = WEvents w" "WNext (set_context e x w) = WNext w"
  "WClock (set_context e x w) = WClock w"
  "CThreads (WDevice (set_context e x w)) = CThreads (WDevice w)"
  "CMemory (WDevice (set_context e x w)) = CMemory (WDevice w)"
  "CContexts (WDevice (set_context e x w)) = (CContexts (WDevice w))(e := x)"
  by (simp_all add: set_context_def)

lemma same_progress_set_thread [simp]: "same_progress w (set_thread i t w)"
  by (simp add: same_progress_def)

lemma same_progress_trans: "same_progress a b \<Longrightarrow> same_progress b c \<Longrightarrow> same_progress a c"
  by (simp add: same_progress_def)

lemma same_device_set_thread:
  assumes "threads_ok (CThreads (WDevice w))" "i < length (CThreads (WDevice w))"
    and "TMode t = FullyOperational"
    and "mset (thread_jobs t) = mset (thread_jobs (CThreads (WDevice w) ! i))"
    and "activity_reports (TActivity t) = activity_reports (TActivity (CThreads (WDevice w) ! i))"
    and "activity_late (TActivity t) = activity_late (TActivity (CThreads (WDevice w) ! i))"
  shows "same_device w (set_thread i t w)"
  using jobs_of_update [OF assms(2), of t] reports_of_update [OF assms(2), of t] late_of_update [OF assms(2), of t]
    threads_ok_update [OF assms(1,3)] assms
  by (simp add: same_device_def jobs_in_def reports_in_def late_in_def)

lemma take_keeps:
  assumes inv: "cpu_inv E m0 q w enq started" and i: "i < length (CThreads (WDevice w))"
    and take: "Thread_take i w = Some w'"
  shows "cpu_inv E m0 q w' enq started"
proof -
  have ok: "threads_ok (CThreads (WDevice w))" using inv by (simp add: cpu_inv_def)
  obtain job jobs where t: "TActivity (CThreads (WDevice w) ! i) = Idle" "TCommands (CThreads (WDevice w) ! i) = job # jobs"
    "w' = set_thread i ((CThreads (WDevice w) ! i)\<lparr>TCommands := jobs, TActivity := Taken job\<rparr>) w"
    using take by (auto simp: Thread_take_def Let_def split: activity.splits list.splits if_splits)
  have "same_device w w'"
    unfolding t(3) by (rule same_device_set_thread [OF ok i])
      (simp_all add: thread_jobs_def t(1,2) threads_ok_nth [OF ok i])
  then show ?thesis using cpu_inv_same [OF inv] by (simp add: t(3))
qed

lemma notifyStart_same:
  "same_progress w (notifyStart job w)" "CThreads (WDevice (notifyStart job w)) = CThreads (WDevice w)"
  "threads_ok (CThreads (WDevice w)) \<Longrightarrow> same_device w (notifyStart job w)"
  by (auto simp: notifyStart_def ctx_start_def Let_def same_progress_def HasCompleted_iff MarkRunning_def
                 MarkSubRunning_def same_device_def jobs_in_def reports_in_def late_in_def split: cpu_job.split)

lemma same_device_trans: "same_device a b \<Longrightarrow> same_device b c \<Longrightarrow> same_device a c"
  by (simp add: same_device_def)

lemma start_keeps:
  assumes inv: "cpu_inv E m0 q w enq started" and i: "i < length (CThreads (WDevice w))"
    and start: "Thread_start i w = Some w'"
  shows "cpu_inv E m0 q w' enq started"
proof -
  have ok: "threads_ok (CThreads (WDevice w))" using inv by (simp add: cpu_inv_def)
  obtain job where t: "TActivity (CThreads (WDevice w) ! i) = Taken job"
    "w' = set_thread i ((CThreads (WDevice w) ! i)\<lparr>TActivity := Started job\<rparr>) (notifyStart job w)"
    using start by (auto simp: Thread_start_def Let_def split: activity.splits)
  have "same_device (notifyStart job w) w'"
    unfolding t(2)
    by (rule same_device_set_thread) (simp_all add: notifyStart_same ok i thread_jobs_def t(1) threads_ok_nth)
  then have "same_device w w'" by (rule same_device_trans [OF notifyStart_same(3) [OF ok]])
  moreover have "same_progress w w'"
    unfolding t(2) by (rule same_progress_trans [OF notifyStart_same(1) same_progress_set_thread])
  ultimately show ?thesis using cpu_inv_same [OF inv] by blast
qed

section \<open>Finishing a job\<close>

lemma job_busy:
  assumes inv: "cpu_inv E m0 q w enq started" and i: "i < length (CThreads (WDevice w))"
    and job: "job \<in> set (thread_jobs (CThreads (WDevice w) ! i))"
  obtains m where "QOnFly q" "job \<in># jobs_in w" "reports_in w = {#}"
    "\<forall>c \<in> set (butlast started). Status (WEvents w (QEvent c)) = command_status E c"
    "executed E (butlast started) m0 m" "on_fly E (last started) m w" "last started \<in> set started"
proof -
  have j: "job \<in># jobs_in w"
    using i job by (auto simp: jobs_in_def jobs_of_def intro!: bexI [of _ "CThreads (WDevice w) ! i"])
  then have "jobs_in w \<noteq> {#}" by auto
  moreover from this inv have f: "QOnFly q" by (cases "QOnFly q") (simp_all add: cpu_inv_def)
  moreover have "last started \<in> set started" using inv f by (simp add: cpu_inv_def in_order_inv_def)
  ultimately show thesis using inv j that by (auto simp: cpu_inv_def landed_def)
qed

lemma in_order_event:
  fixes w w' :: "'m cpu_world"
  assumes inv: "in_order_inv q w enq started late" and fly: "QOnFly q"
    and w': "WNext w' = WNext w" "\<And>e. e \<noteq> QEvent (last started) \<Longrightarrow> WEvents w' e = WEvents w e"
      "EvContext (WEvents w' (QEvent (last started))) = EvContext (WEvents w (QEvent (last started)))"
    and up: "HasCompleted (WEvents w (QEvent (last started))) \<Longrightarrow> HasCompleted (WEvents w' (QEvent (last started)))"
  shows "in_order_inv q w' enq started late"
proof (rule in_order_inv_world [OF inv])
  have "last started \<in> set started" using inv fly by (simp add: in_order_inv_def)
  then have "QEvent c \<noteq> QEvent (last started)" if "c \<in> set (QCommands q)" for c
    using in_order_inv_distinct [OF inv] that by (force simp: image_iff)
  then show "events_evolve q w w'"
    unfolding events_evolve_def using w' up by (metis order_refl)
qed

lemma last_event_new:
  assumes io: "in_order_inv q w enq started late" and "last started \<in> set started" and c: "c \<in> set (butlast started)"
  shows "QEvent c \<noteq> QEvent (last started)"
proof -
  have "started = butlast started @ [last started]"
    using assms(2) by (metis append_butlast_last_id empty_iff empty_set)
  then have "distinct (map QEvent (butlast started @ [last started]))"
    using in_order_inv_distinct [OF io] by (metis distinct_append map_append)
  with c show ?thesis by (auto simp: image_iff)
qed

text \<open>The last job of the command on fly has run: the command has landed.\<close>

lemma land:
  fixes w w' :: "'m cpu_world"
  assumes inv: "cpu_inv E m0 q w enq started" and fly: "QOnFly q" and started: "last started \<in> set started"
    and st: "\<forall>c \<in> set (butlast started). Status (WEvents w (QEvent c)) = command_status E c"
    and ex: "executed E (butlast started) m0 m" and land: "landed E (last started) m w'"
    and ok: "threads_ok (CThreads (WDevice w'))" and late: "late_in w' = late_in w"
    and w': "WNext w' = WNext w" "\<And>e. e \<noteq> QEvent (last started) \<Longrightarrow> WEvents w' e = WEvents w e"
      "EvContext (WEvents w' (QEvent (last started))) = EvContext (WEvents w (QEvent (last started)))"
  shows "cpu_inv E m0 q w' enq started"
proof -
  have io: "in_order_inv q w enq started (late_in w)" and cmds: "\<forall>c \<in> set enq. command_ok c" using inv by (simp_all add: cpu_inv_def)
  have "HasCompleted (WEvents w' (QEvent (last started)))"
    using land command_status_le [of E "last started"] by (simp add: landed_def HasCompleted_iff)
  then have io': "in_order_inv q w' enq started (late_in w')"
    unfolding late by (intro in_order_event [OF io fly w']) simp_all
  have "QEvent c \<noteq> QEvent (last started)" if "c \<in> set (butlast started)" for c
    by (rule last_event_new [OF io started that])
  with st w'(2) have "\<forall>c \<in> set (butlast started). Status (WEvents w' (QEvent c)) = command_status E c" by simp
  with io' ok cmds ex land fly show ?thesis by (auto simp: cpu_inv_def)
qed

lemma MarkCompleted_facts:
  "st \<le> 0 \<Longrightarrow> \<not> HasCompleted ev \<Longrightarrow> Status (fst (MarkCompleted ev st S)) = st"
  "EvContext (fst (MarkCompleted ev st S)) = EvContext ev"
  by (auto simp: Status_MarkCompleted HasCompleted_iff MarkCompleted_def)

lemma not_block_job: "ExecJob c \<notin># mset (map (block_job D c') js)" "StopJob \<notin># mset (map (block_job D c') js)"
  by (auto simp: block_job_def)

lemma on_fly_kernel_case:
  assumes "on_fly E c m w" "patched E (QCmd c) = Some cmd" "CmdPayload cmd = NDRangeKernel k D"
  shows "kernel_on_fly E (c\<lparr>QCmd := cmd\<rparr>) k D m w"
  using assms by (simp add: on_fly_def)

lemma on_fly_other_case:
  assumes "on_fly E c m w" "patched E (QCmd c) = Some cmd" "\<not> (\<exists>k D. CmdPayload cmd = NDRangeKernel k D)"
  shows "jobs_in w = {#ExecJob (c\<lparr>QCmd := cmd\<rparr>)#}" "CMemory (WDevice w) = m"
  using assms by (simp_all add: on_fly_def split: payload.splits)

lemma on_fly_single:
  assumes fly: "on_fly E d m w" and job: "ExecJob c \<in># jobs_in w"
  obtains cmd where "patched E (QCmd d) = Some cmd"
    "jobs_in w = {#ExecJob c#}" "c = d\<lparr>QCmd := cmd\<rparr>" "CMemory (WDevice w) = m"
    "\<not> (\<exists>k D. CmdPayload cmd = NDRangeKernel k D)" "\<not> HasCompleted (WEvents w (QEvent d))"
proof -
  obtain cmd where p: "patched E (QCmd d) = Some cmd" and n: "\<not> HasCompleted (WEvents w (QEvent d))"
    using fly by (auto simp: on_fly_def)
  have k: "\<not> (\<exists>k D. CmdPayload cmd = NDRangeKernel k D)"
  proof
    assume "\<exists>k D. CmdPayload cmd = NDRangeKernel k D"
    then obtain k D where "CmdPayload cmd = NDRangeKernel k D" by blast
    from on_fly_kernel_case [OF fly p this] obtain js where "jobs_in w = mset (map (block_job D (d\<lparr>QCmd := cmd\<rparr>)) js)"
      by (auto simp: kernel_on_fly_def)
    with job not_block_job show False by metis
  qed
  note o = on_fly_other_case [OF fly p k]
  have "c = d\<lparr>QCmd := cmd\<rparr>" using job o(1) by simp
  with p n k o show thesis by (intro that [of cmd]) simp_all
qed

lemma finish_single:
  assumes inv: "cpu_inv E m0 q w enq started" and i: "i < length (CThreads (WDevice w))"
    and act: "TActivity (CThreads (WDevice w) ! i) = Started (ExecJob c)" and run: "Thread_finish E i w = Some w'"
  shows "cpu_inv E m0 q w' enq started"
proof -
  have io: "in_order_inv q w enq started (late_in w)" and cmds: "\<forall>c \<in> set enq. command_ok c"
    and ok: "threads_ok (CThreads (WDevice w))" using inv by (simp_all add: cpu_inv_def)
  obtain m where b: "QOnFly q" "ExecJob c \<in># jobs_in w" "reports_in w = {#}"
    "\<forall>c \<in> set (butlast started). Status (WEvents w (QEvent c)) = command_status E c"
    "executed E (butlast started) m0 m" "on_fly E (last started) m w" "last started \<in> set started"
    by (rule job_busy [OF inv i, of "ExecJob c"]) (simp_all add: thread_jobs_def act)
  obtain cmd where cmd: "patched E (QCmd (last started)) = Some cmd"
    "jobs_in w = {#ExecJob c#}" "c = last started\<lparr>QCmd := cmd\<rparr>" "CMemory (WDevice w) = m"
    "\<not> (\<exists>k D. CmdPayload cmd = NDRangeKernel k D)" "\<not> HasCompleted (WEvents w (QEvent (last started)))"
    by (rule on_fly_single [OF b(6,2)])
  let ?r = "Execute E (CmdPayload cmd) (m, WMaps w)"
  let ?t = "(CThreads (WDevice w) ! i)\<lparr>TActivity := Reporting c\<rparr>"
  have pc: "QCmd c = cmd" by (simp add: cmd(3))
  have w': "w' = set_thread i ?t (upd_event (QEvent c) (\<lambda>ev. fst (MarkCompleted ev 0 (getSample CommandCompleted (WClock w))))
                    (upd_device (\<lambda>s. s\<lparr>CMemory := fst ?r\<rparr>) (w\<lparr>WMaps := snd ?r\<rparr>)))"
    using run by (simp add: Thread_finish_def Let_def act run_job_def notifyCompletion_def job_command_def pc cmd(4) split_beta)
  have th: "CThreads (WDevice w') = (CThreads (WDevice w))[i := ?t]" "CMemory (WDevice w') = fst ?r" "WNext w' = WNext w"
    and ev: "WEvents w' = (WEvents w)(QEvent c := fst (MarkCompleted (WEvents w (QEvent c)) 0
                                        (getSample CommandCompleted (WClock w))))"
    by (simp_all add: w')
  have c: "QEvent c = QEvent (last started)" by (simp add: cmd(3))
  have kind: "command_status E (last started) = 0" "payload_effect E (CmdPayload cmd) m (fst ?r)"
    using cmd(5) patched_kernel [OF cmd(1)] Execute_memory [of E "CmdPayload cmd" m "WMaps w" "\<lambda>_. []"]
    by (auto simp: command_status_def payload_effect_def split: payload.split)
  have "landed E (last started) m w'"
    unfolding landed_def
  proof (intro conjI)
    show "jobs_in w' = {#}"
      using jobs_of_update [OF i, of ?t] cmd(2) by (simp add: jobs_in_def th(1) thread_jobs_def act)
    show "\<exists>c'. QEvent c' = QEvent (last started) \<and> reports_in w' = {#c'#}"
      using reports_of_update [OF i, of ?t] b(3) c by (simp add: reports_in_def th(1) act)
    show "Status (WEvents w' (QEvent (last started))) = command_status E (last started)"
      using cmd(6) by (simp add: ev c kind(1) MarkCompleted_facts)
    show "command_effect E (last started) m (CMemory (WDevice w'))"
      using cmd(1) kind(2) by (auto simp: command_effect_def th(2))
  qed
  moreover have "late_in w' = late_in w"
    using late_of_update [OF i, of ?t] by (simp add: late_in_def th(1) act)
  ultimately show ?thesis
    by (intro land [OF inv b(1,7,4,5)])
      (simp_all add: th ev c MarkCompleted_facts threads_ok_update threads_ok_nth ok i)
qed

text \<open>A work-group of the kernel on fly.\<close>

lemma on_fly_block:
  assumes fly: "on_fly E d m w" and job: "BlockJob c I B F \<in># jobs_in w"
  obtains cmd k D ds js i where "patched E (QCmd d) = Some cmd" "CmdPayload cmd = NDRangeKernel k D"
    "c = d\<lparr>QCmd := cmd\<rparr>" "BlockJob c I B F = block_job D c i" "i \<in> set js"
    "mset ds + mset js = mset [0..<GetWorkGroupsCount D]" "jobs_in w = mset (map (block_job D c) js)"
    "WaitCount (CContexts (WDevice w) (QEvent d)) = of_nat (length js)"
    "Errors (CContexts (WDevice w) (QEvent d)) \<longleftrightarrow> ds \<noteq> [] \<and> \<not> HasEntryPoint E k"
    "CMemory (WDevice w) = fold (run_block E k D) ds m" "\<not> HasCompleted (WEvents w (QEvent d))"
proof -
  obtain cmd where p: "patched E (QCmd d) = Some cmd" and n: "\<not> HasCompleted (WEvents w (QEvent d))"
    using fly by (auto simp: on_fly_def)
  have "\<exists>k D. CmdPayload cmd = NDRangeKernel k D"
  proof (rule ccontr)
    assume "\<not> (\<exists>k D. CmdPayload cmd = NDRangeKernel k D)"
    from on_fly_other_case(1) [OF fly p this] job show False by simp
  qed
  then obtain k D where k: "CmdPayload cmd = NDRangeKernel k D" by blast
  let ?c = "d\<lparr>QCmd := cmd\<rparr>"
  obtain ds js where K: "mset ds + mset js = mset [0..<GetWorkGroupsCount D]"
    "jobs_in w = mset (map (block_job D ?c) js)"
    "WaitCount (CContexts (WDevice w) (QEvent d)) = of_nat (length js)"
    "Errors (CContexts (WDevice w) (QEvent d)) \<longleftrightarrow> ds \<noteq> [] \<and> \<not> HasEntryPoint E k"
    "CMemory (WDevice w) = fold (run_block E k D) ds m"
    using on_fly_kernel_case [OF fly p k] by (auto simp: kernel_on_fly_def)
  obtain i where i: "i \<in> set js" "BlockJob c I B F = block_job D ?c i"
    using job unfolding K(2) by auto
  then have "c = ?c" by (simp add: block_job_def)
  with p k i K n show thesis by (intro that [of cmd k D i js ds]) simp_all
qed

lemma exec_block_cases:
  "exec_block E k D B F m = (fst (exec_block E k D B F m), r) \<longleftrightarrow>
     r = (if HasEntryPoint E k then CL_COMPLETE else CL_INVALID_PROGRAM_EXECUTABLE)"
  by (auto simp: exec_block_def)

text \<open>What finishing a work-group does to the world.\<close>

lemma finish_block_world:
  assumes act: "TActivity (CThreads (WDevice w) ! i) = Started (BlockJob c I B F)"
    and pay: "CmdPayload (QCmd c) = NDRangeKernel k D" and run: "Thread_finish E i w = Some w'"
  defines "x \<equiv> CContexts (WDevice w) (QEvent c)"
  defines "lst \<equiv> WaitCount x = 1"
  shows "CThreads (WDevice w') =
      (CThreads (WDevice w))[i := (CThreads (WDevice w) ! i)\<lparr>TActivity := (if lst then Reporting c else Idle)\<rparr>]"
    "CMemory (WDevice w') = fst (exec_block E k D B F (CMemory (WDevice w)))" "WNext w' = WNext w"
    "WaitCount (CContexts (WDevice w') (QEvent c)) = WaitCount x - 1"
    "Errors (CContexts (WDevice w') (QEvent c)) \<longleftrightarrow> Errors x \<or> \<not> HasEntryPoint E k"
    "e \<noteq> QEvent c \<Longrightarrow> WEvents w' e = WEvents w e"
    "EvContext (WEvents w' (QEvent c)) = EvContext (WEvents w (QEvent c))"
    "\<not> HasCompleted (WEvents w (QEvent c)) \<Longrightarrow>
     Status (WEvents w' (QEvent c)) =
       (if lst then if Errors x \<or> \<not> HasEntryPoint E k then -1 else 0 else Status (WEvents w (QEvent c)))"
  using run
  by (auto simp: Thread_finish_def Let_def act run_job_def pay exec_block_def notifyCompletion_def ctx_finish_def
                 job_command_def x_def lst_def MarkCompleted_facts MarkSubCompleted_def HasCompleted_iff
                 Status_MarkCompleted split: if_splits)

lemma mset_map_remove1:
  "i \<in> set js \<Longrightarrow> mset (map f js) = {#f i#} + mset (map f (remove1 i js))"
  by (induction js) auto

lemma finish_block:
  assumes inv: "cpu_inv E m0 q w enq started" and i: "i < length (CThreads (WDevice w))"
    and act: "TActivity (CThreads (WDevice w) ! i) = Started (BlockJob c I B F)" and run: "Thread_finish E i w = Some w'"
  shows "cpu_inv E m0 q w' enq started"
proof -
  have io: "in_order_inv q w enq started (late_in w)" and cmds: "\<forall>c \<in> set enq. command_ok c"
    and ok: "threads_ok (CThreads (WDevice w))" using inv by (simp_all add: cpu_inv_def)
  obtain m where b: "QOnFly q" "BlockJob c I B F \<in># jobs_in w" "reports_in w = {#}"
    "\<forall>c \<in> set (butlast started). Status (WEvents w (QEvent c)) = command_status E c"
    "executed E (butlast started) m0 m" "on_fly E (last started) m w" "last started \<in> set started"
    by (rule job_busy [OF inv i, of "BlockJob c I B F"]) (simp_all add: thread_jobs_def act)
  obtain cmd k D ds js j where K: "patched E (QCmd (last started)) = Some cmd" "CmdPayload cmd = NDRangeKernel k D"
    "c = last started\<lparr>QCmd := cmd\<rparr>" "BlockJob c I B F = block_job D c j" "j \<in> set js"
    "mset ds + mset js = mset [0..<GetWorkGroupsCount D]" "jobs_in w = mset (map (block_job D c) js)"
    "WaitCount (CContexts (WDevice w) (QEvent (last started))) = of_nat (length js)"
    "Errors (CContexts (WDevice w) (QEvent (last started))) \<longleftrightarrow> ds \<noteq> [] \<and> \<not> HasEntryPoint E k"
    "CMemory (WDevice w) = fold (run_block E k D) ds m" "\<not> HasCompleted (WEvents w (QEvent (last started)))"
    by (rule on_fly_block [OF b(6,2)])
  have c: "QEvent c = QEvent (last started)" and pay: "CmdPayload (QCmd c) = NDRangeKernel k D"
    using K(2) by (simp_all add: K(3))
  note W = finish_block_world [OF act pay run]
  let ?js = "remove1 j js" and ?ds = "ds @ [j]"
  have "length js \<le> GetWorkGroupsCount D" using arg_cong [OF K(6), of size] by simp
  also have "GetWorkGroupsCount D < 2 ^ 64"
  proof -
    have "last started \<in> set enq" using b(7) io by (simp add: in_order_inv_def)
    then have wf: "wf_dims D" using cmds K(2) patched_kernel [OF K(1)] by (auto simp: command_ok_def)
    show ?thesis using group_prod_small [OF wf] by (simp add: GetWorkGroupsCount_wf [OF wf])
  qed
  finally have small: "length js < 2 ^ 64" .
  have len: "length js = Suc (length ?js)" using K(5) by (simp add: length_remove1) (metis Suc_pred length_pos_if_in_set)
  have lst: "WaitCount (CContexts (WDevice w) (QEvent c)) = 1 \<longleftrightarrow> ?js = []"
  proof -
    have "(of_nat (length js) :: 64 word) = 1 \<longleftrightarrow> length js = 1"
      using unat_of_nat64 [OF small] by (metis of_nat_1 unat_1)
    then show ?thesis using len by (auto simp: K(8) c)
  qed
  have mem: "CMemory (WDevice w') = fold (run_block E k D) ?ds m"
    using K(4) by (simp add: W(2) K(10) run_block_def block_job_def)
  have perm: "mset ?ds + mset ?js = mset [0..<GetWorkGroupsCount D]"
    using K(5) by (simp only: K(6) [symmetric] mset_append) simp
  have jobs: "jobs_in w' = mset (map (block_job D c) ?js)"
    using jobs_of_update [OF i, of "(CThreads (WDevice w) ! i)\<lparr>TActivity := (if WaitCount (CContexts (WDevice w) (QEvent c)) = 1
                              then Reporting c else Idle)\<rparr>"] K(7) mset_map_remove1 [OF K(5), of "block_job D c"]
    by (auto simp: jobs_in_def W(1) thread_jobs_def act K(4) split: if_splits)
  have reports: "reports_in w' = (if ?js = [] then {#c#} else {#})"
    using reports_of_update [OF i, of "(CThreads (WDevice w) ! i)\<lparr>TActivity := (if WaitCount (CContexts (WDevice w) (QEvent c)) = 1
                              then Reporting c else Idle)\<rparr>"] b(3) lst
    by (auto simp: reports_in_def W(1) act split: if_splits)
  have late: "late_in w' = late_in w"
    using late_of_update [OF i, of "(CThreads (WDevice w) ! i)\<lparr>TActivity := (if WaitCount (CContexts (WDevice w) (QEvent c)) = 1
                              then Reporting c else Idle)\<rparr>"]
    by (auto simp: late_in_def W(1) act split: if_splits)
  have thr: "threads_ok (CThreads (WDevice w'))"
    unfolding W(1) by (rule threads_ok_update [OF ok]) (simp add: threads_ok_nth [OF ok i])
  have err: "Errors (CContexts (WDevice w) (QEvent c)) \<or> \<not> HasEntryPoint E k \<longleftrightarrow> \<not> HasEntryPoint E k"
    using K(9) c by auto
  show ?thesis
  proof (cases "?js = []")
    case True
    have "landed E (last started) m w'"
      unfolding landed_def
    proof (intro conjI)
      show "jobs_in w' = {#}" using jobs True by simp
      show "\<exists>c'. QEvent c' = QEvent (last started) \<and> reports_in w' = {#c'#}" using reports True c by auto
      show "Status (WEvents w' (QEvent (last started))) = command_status E (last started)"
        using W(8) K(11) True lst err K(2) patched_kernel [OF K(1), of k D] by (simp add: c command_status_def)
      show "command_effect E (last started) m (CMemory (WDevice w'))"
        unfolding command_effect_def
      proof (intro exI conjI)
        show "payload_effect E (CmdPayload cmd) m (CMemory (WDevice w'))"
          by (simp only: payload_effect_def K(2) payload.case)
            (rule exI [of _ ?ds], use mem perm True in simp)
      qed (rule K(1))
    qed
    then show ?thesis
      by (rule land [OF inv b(1,7,4,5)]) (simp_all add: thr late W(3,6,7) c [symmetric])
  next
    case False
    have st: "Status (WEvents w' (QEvent c)) = Status (WEvents w (QEvent c))"
      using W(8) K(11) False lst c by simp
    then have nc: "\<not> HasCompleted (WEvents w' (QEvent (last started)))" using K(11) c by (simp add: HasCompleted_iff)
    have io': "in_order_inv q w' enq started (late_in w')"
      unfolding late by (rule in_order_event [OF io b(1)]) (simp_all add: W(3,6,7) c [symmetric] K(11) [folded c])
    have "kernel_on_fly E c k D m w'"
      unfolding kernel_on_fly_def
      using perm False jobs mem W(4,5) K(8) len err
      by (intro exI [of _ ?ds] exI [of _ ?js]) (simp add: c)
    then have fly: "on_fly E (last started) m w'"
      using nc K(1,2) by (simp add: on_fly_def K(3))
    have other: "QEvent d \<noteq> QEvent (last started)" if "d \<in> set (butlast started)" for d
      by (rule last_event_new [OF io b(7) that])
    show ?thesis
      using io' thr cmds b(1,4,5) fly reports False other by (auto simp: cpu_inv_def W(6) c)
  qed
qed

lemma on_fly_no_stop:
  assumes fly: "on_fly E d m w"
  shows "StopJob \<notin># jobs_in w"
proof -
  obtain cmd where p: "patched E (QCmd d) = Some cmd" using fly by (auto simp: on_fly_def)
  show ?thesis
  proof (cases "\<exists>k D. CmdPayload cmd = NDRangeKernel k D")
    case True
    then obtain k D where "CmdPayload cmd = NDRangeKernel k D" by blast
    from on_fly_kernel_case [OF fly p this] obtain js where "jobs_in w = mset (map (block_job D (d\<lparr>QCmd := cmd\<rparr>)) js)"
      by (auto simp: kernel_on_fly_def)
    then show ?thesis by (simp only: not_block_job simp_thms)
  next
    case False
    from on_fly_other_case(1) [OF fly p this] show ?thesis by simp
  qed
qed

lemma finish_keeps:
  assumes inv: "cpu_inv E m0 q w enq started" and i: "i < length (CThreads (WDevice w))"
    and run: "Thread_finish E i w = Some w'"
  shows "cpu_inv E m0 q w' enq started"
proof -
  obtain job where act: "TActivity (CThreads (WDevice w) ! i) = Started job"
    using run by (auto simp: Thread_finish_def Let_def split: activity.splits)
  show ?thesis
  proof (cases job)
    case StopJob
    obtain m where "StopJob \<in># jobs_in w" "on_fly E (last started) m w"
      by (rule job_busy [OF inv i, of StopJob]) (simp_all add: thread_jobs_def act StopJob)
    then show ?thesis using on_fly_no_stop by blast
  next
    case (ExecJob c)
    with act finish_single [OF inv i _ run] show ?thesis by simp
  next
    case (BlockJob c I B F)
    with act finish_block [OF inv i _ run] show ?thesis by simp
  qed
qed

section \<open>The scheduler\<close>

lemma poll_keeps:
  assumes inv: "cpu_inv E m0 q w enq started"
    and run: "RunScheduler (cpu_device E I V) (q, w) = Some ((q', w'), again)"
  shows "\<exists>started'. cpu_inv E m0 q' w' enq started' \<and>
           map TActivity (CThreads (WDevice w')) = map TActivity (CThreads (WDevice w))"
proof (cases "QOnFly q")
  case True
  have "QTy q = InOrder" using inv by (simp add: cpu_inv_def in_order_inv_def)
  with True run have "q' = q" "w' = w"
    by (auto simp: RunScheduler_def InOrder_RunScheduler_def split: list.splits)
  with inv show ?thesis by blast
next
  case False
  have io: "in_order_inv q w enq started (late_in w)" "threads_ok (CThreads (WDevice w))" "\<forall>c \<in> set enq. command_ok c"
    and quiet: "quiet E m0 w started" and rep: "reports_in w = {#}"
    using inv False by (simp_all add: cpu_inv_parts)
  obtain started' where s: "in_order_inv q' w' enq started' (late_in w)" "threads_ok (CThreads (WDevice w'))"
    "map TActivity (CThreads (WDevice w')) = map TActivity (CThreads (WDevice w))"
    "if QOnFly q' then busy E m0 w' started' else quiet E m0 w' started'"
    using scheduler_cpu [OF run io False quiet] by blast
  have "reports_in w' = {#}" using reports_of_activity [OF s(3)] rep by (simp add: reports_in_def)
  moreover have "late_in w' = late_in w" using late_of_activity [OF s(3)] by (simp add: late_in_def)
  ultimately show ?thesis using s io(3) by (auto simp: cpu_inv_parts)
qed

lemma push_cpu_keeps:
  assumes inv: "cpu_inv E m0 q w enq started" and waits: "\<forall>e \<in> set (CmdWaitList cmd). e < WNext w"
    and cmd: "command_ok \<lparr>QEvent = e, QCmd = cmd\<rparr>"
    and run: "Enqueue_push cmd (q, w) = ((q', w'), Inr e)"
  shows "cpu_inv E m0 q' w' (enq @ [\<lparr>QEvent = e, QCmd = cmd\<rparr>]) started"
proof -
  have io: "in_order_inv q w enq started (late_in w)" using inv by (simp add: cpu_inv_def)
  have dev: "WDevice w' = WDevice w" "QOnFly q' = QOnFly q" "\<And>f. f \<noteq> WNext w \<Longrightarrow> WEvents w' f = WEvents w f"
    using pushD [OF run] by (auto simp: pushed_def)
  then have late: "late_in w' = late_in w" by (simp add: late_in_def)
  note P = cpu.push_keeps [OF io waits run, folded late]
  have ids: "\<forall>c \<in> set enq. QEvent c < WNext w" "enq = started @ QCommands q"
    using io by (simp_all add: in_order_inv_def)
  have old: "QEvent c \<noteq> WNext w" if "c \<in> set started" for c
    using bspec [OF ids(1), of c] that ids(2) by auto
  show ?thesis
  proof (cases "QOnFly q")
    case True
    then have l: "last started \<in> set started" using io by (simp add: in_order_inv_def)
    have fr: "on_fly E (last started) m w' = on_fly E (last started) m w"
      "landed E (last started) m w' = landed E (last started) m w" for m
      using dev(3) [OF old [OF l]] dev(1)
      by (simp_all add: on_fly_def kernel_on_fly_def landed_def jobs_in_def reports_in_def cong: payload.case_cong)
    have "reports_in w' = reports_in w" by (simp add: reports_in_def dev(1))
    have bold: "WEvents w' (QEvent c) = WEvents w (QEvent c)" if "c \<in> set (butlast started)" for c
      using dev(3) [OF old [OF in_set_butlastD [OF that]]] .
    show ?thesis
      using inv P True \<open>reports_in w' = reports_in w\<close> by (simp add: cpu_inv_def cmd fr dev(1,2) bold)
  next
    case False
    with inv P dev old show ?thesis by (auto simp: cpu_inv_def cmd jobs_in_def reports_in_def)
  qed
qed

lemma foreign_keeps:
  assumes inv: "cpu_inv E m0 q w enq started" and f: "foreign q enq w w'"
  shows "cpu_inv E m0 q w' enq started"
proof -
  have io: "in_order_inv q w enq started (late_in w)" and ok: "threads_ok (CThreads (WDevice w))"
    using inv by (simp_all add: cpu_inv_def)
  have sub: "c \<in> set enq" if "c \<in> set started" for c using io that by (simp add: in_order_inv_def)
  have st: "Status (WEvents w' (QEvent c)) = Status (WEvents w (QEvent c))" if "c \<in> set started" for c
    using f sub [OF that] by (simp add: foreign_def)
  show ?thesis
  proof (rule cpu_inv_frame [OF inv])
    show "in_order_inv q w' enq started (late_in w)"
      by (rule in_order_inv_world [OF io]) (use f in \<open>simp add: foreign_def\<close>)
    show "same_device w w'" using f ok by (simp add: foreign_def same_device_def jobs_in_def reports_in_def late_in_def)
    show "\<forall>c \<in> set started. HasCompleted (WEvents w' (QEvent c)) = HasCompleted (WEvents w (QEvent c)) \<and>
            (HasCompleted (WEvents w (QEvent c)) \<longrightarrow> Status (WEvents w' (QEvent c)) = Status (WEvents w (QEvent c)))"
      using st by (simp add: HasCompleted_iff)
  qed
qed

section \<open>The report of a completed command\<close>

lemma landed_complete: "landed E c m w \<Longrightarrow> HasCompleted (WEvents w (QEvent c))"
  using command_status_le [of E c] by (simp add: landed_def HasCompleted_iff)

text \<open>A thread about to report: its command is the last one started, and it has landed.\<close>

lemma report_landed:
  assumes inv: "cpu_inv E m0 q w enq started" and i: "i < length (CThreads (WDevice w))"
    and act: "TActivity (CThreads (WDevice w) ! i) = Reporting c"
  shows "QOnFly q" "QEvent c = QEvent (last started)" "HasCompleted (WEvents w (QEvent (last started)))"
    "reports_in w = {#c#}" "quiet E m0 w started"
proof -
  have "c \<in># reports_in w"
    using i act by (auto simp: reports_in_def reports_of_def intro!: bexI [of _ "CThreads (WDevice w) ! i"])
  then have r: "c \<in># reports_in w" "reports_in w \<noteq> {#}" by auto
  then show fly: "QOnFly q" using inv by (cases "QOnFly q") (simp_all add: cpu_inv_def)
  then obtain m where st: "\<forall>c \<in> set (butlast started). Status (WEvents w (QEvent c)) = command_status E c"
    and ex: "executed E (butlast started) m0 m" and ld: "landed E (last started) m w"
    using inv r by (auto simp: cpu_inv_def)
  show "QEvent c = QEvent (last started)" and "reports_in w = {#c#}" using ld r(1) by (auto simp: landed_def)
  show "HasCompleted (WEvents w (QEvent (last started)))" by (rule landed_complete [OF ld])
  have "started \<noteq> []" using inv fly by (simp add: cpu_inv_def in_order_inv_def)
  then have sp: "started = butlast started @ [last started]" by simp
  show "quiet E m0 w started"
    unfolding quiet_def
  proof (intro conjI)
    show "\<forall>c \<in> set started. Status (WEvents w (QEvent c)) = command_status E c"
      using st ld by (subst sp) (simp add: landed_def)
    show "jobs_in w = {#}" using ld by (simp add: landed_def)
    show "executed E started m0 (CMemory (WDevice w))"
      using executed_snoc [OF ex, of "last started"] ld sp by (simp add: landed_def)
  qed
qed

lemma set_activity:
  assumes "threads_ok (CThreads (WDevice w))" "i < length (CThreads (WDevice w))"
    and w': "w' = set_thread i ((CThreads (WDevice w) ! i)\<lparr>TActivity := a\<rparr>) w"
    and "activity_jobs a = activity_jobs (TActivity (CThreads (WDevice w) ! i))"
  shows "threads_ok (CThreads (WDevice w'))" "jobs_in w' = jobs_in w"
    "reports_in w' + mset (activity_reports (TActivity (CThreads (WDevice w) ! i))) = reports_in w + mset (activity_reports a)"
    "late_in w' + mset (activity_late (TActivity (CThreads (WDevice w) ! i))) = late_in w + mset (activity_late a)"
  using assms(1,2,4) jobs_of_update [OF assms(2), of "(CThreads (WDevice w) ! i)\<lparr>TActivity := a\<rparr>"]
    reports_of_update [OF assms(2), of "(CThreads (WDevice w) ! i)\<lparr>TActivity := a\<rparr>"]
    late_of_update [OF assms(2), of "(CThreads (WDevice w) ! i)\<lparr>TActivity := a\<rparr>"]
  by (simp_all add: w' jobs_in_def reports_in_def late_in_def thread_jobs_def threads_ok_update threads_ok_nth)

lemma report_keeps:
  assumes inv: "cpu_inv E m0 q w enq started" and i: "i < length (CThreads (WDevice w))"
    and run: "Thread_report i (q, w) = Some (q', w')"
  shows "cpu_inv E m0 q' w' enq started"
proof -
  have io: "in_order_inv q w enq started (late_in w)" and cmds: "\<forall>c \<in> set enq. command_ok c"
    and ok: "threads_ok (CThreads (WDevice w))" using inv by (simp_all add: cpu_inv_def)
  then have ty: "QTy q = InOrder" by (simp add: in_order_inv_def)
  obtain c where act: "TActivity (CThreads (WDevice w) ! i) = Reporting c" and q': "q' = ClearOnFly q"
    and w': "w' = set_thread i ((CThreads (WDevice w) ! i)\<lparr>TActivity := Rescheduling c\<rparr>) w"
    using run by (auto simp: Thread_report_def Let_def ty split: activity.splits)
  note R = report_landed [OF inv i act]
  have a: "activity_jobs (Rescheduling c) = activity_jobs (TActivity (CThreads (WDevice w) ! i))" by (simp add: act)
  note S = set_activity [OF ok i w' a, unfolded act]
  have late: "late_in w' = add_mset (QEvent (last started)) (late_in w)" using S(4) by (simp add: R(2))
  have "in_order_inv q' w' enq started (late_in w')"
    unfolding late q' by (rule same_progress_in_order [OF clear_keeps [OF io R(1,3)]]) (simp add: w')
  moreover have "reports_in w' = {#}" using S(3) by (simp add: R(4))
  moreover have "quiet E m0 w' started" using R(5) S(2) by (simp add: quiet_def w')
  ultimately show ?thesis using S(1) cmds by (simp add: cpu_inv_parts q' ClearOnFly_def)
qed

lemma reschedule_keeps:
  assumes inv: "cpu_inv E m0 q w enq started" and i: "i < length (CThreads (WDevice w))"
    and run: "Thread_reschedule (cpu_device E I V) i (q, w) = Some (q', w')"
  shows "\<exists>started'. cpu_inv E m0 q' w' enq started'"
proof -
  obtain c w1 again where act: "TActivity (CThreads (WDevice w) ! i) = Rescheduling c"
    and R: "RunScheduler (cpu_device E I V) (q, w) = Some ((q', w1), again)"
    and w': "w' = set_thread i ((CThreads (WDevice w1) ! i)\<lparr>TActivity := Erasing c\<rparr>) w1"
    using run by (auto simp: Thread_reschedule_def split: activity.splits)
  obtain started' where inv1: "cpu_inv E m0 q' w1 enq started'"
    and ta: "map TActivity (CThreads (WDevice w1)) = map TActivity (CThreads (WDevice w))"
    using poll_keeps [OF inv R] by blast
  have i1: "i < length (CThreads (WDevice w1))" using i arg_cong [OF ta, of length] by simp
  have act1: "TActivity (CThreads (WDevice w1) ! i) = Rescheduling c"
    using arg_cong [OF ta, of "\<lambda>l. l ! i"] i i1 act by simp
  have ok: "threads_ok (CThreads (WDevice w1))" using inv1 by (simp add: cpu_inv_def)
  have "same_device w1 w'"
    unfolding w' by (rule same_device_set_thread [OF ok i1]) (simp_all add: thread_jobs_def act1 threads_ok_nth [OF ok i1])
  moreover have "same_progress w1 w'" by (simp add: w')
  ultimately show ?thesis using cpu_inv_same [OF inv1] by blast
qed

lemma erase_cpu_keeps:
  assumes inv: "cpu_inv E m0 q w enq started" and i: "i < length (CThreads (WDevice w))"
    and run: "Thread_erase i (q, w) = Some (q', w')"
  shows "cpu_inv E m0 q' w' enq started"
proof -
  have io: "in_order_inv q w enq started (late_in w)" and ok: "threads_ok (CThreads (WDevice w))"
    using inv by (simp_all add: cpu_inv_def)
  obtain c where act: "TActivity (CThreads (WDevice w) ! i) = Erasing c" and q': "q' = ErasePending (QEvent c) q"
    and w': "w' = set_thread i ((CThreads (WDevice w) ! i)\<lparr>TActivity := Idle\<rparr>) w"
    using run by (auto simp: Thread_erase_def Let_def split: activity.splits)
  have a: "activity_jobs Idle = activity_jobs (TActivity (CThreads (WDevice w) ! i))" by (simp add: act)
  note S = set_activity [OF ok i w' a, unfolded act]
  have late: "late_in w = add_mset (QEvent c) (late_in w')" using S(4) by simp
  have "in_order_inv q' w enq started (late_in w')"
    using erase_keeps [OF io, of "QEvent c"] by (simp add: late q')
  then have io': "in_order_inv q' w' enq started (late_in w')"
    by (rule same_progress_in_order) (simp add: w')
  have fly: "on_fly E c' m w' = on_fly E c' m w" for c' m
    using S(2) by (simp add: on_fly_def kernel_on_fly_def w' cong: payload.case_cong)
  have "landed E c' m w' = landed E c' m w" "quiet E m0 w' started = quiet E m0 w started"
    "busy E m0 w' started = busy E m0 w started" "reports_in w' = reports_in w" for c' m
    using S(2,3) fly by (simp_all add: landed_def quiet_def busy_def) (simp_all add: w')
  with inv io' S(1) show ?thesis by (simp add: cpu_inv_parts q' ErasePending_def) (simp add: w')
qed

end
