(* ===== verification/CPU_Guarantees.thy ===== *)
theory CPU_Guarantees
  imports CPU_System
begin

text \<open>
  What a client of an in-order queue on the CPU device can rely on: the order in which commands
  run, the memory and the statuses they leave, and that accepted commands complete. Two further
  properties show where the queues do not make progress.
\<close>

section \<open>The invariant holds in every reachable state\<close>

abbreviation state_inv ::
  "cpu_env \<Rightarrow> memory \<Rightarrow> ('m, cpu_state) queue_state \<times> queued list \<Rightarrow> queued list \<Rightarrow> bool" where
  "state_inv E m0 s \<equiv> cpu_inv E m0 (fst (fst s)) (snd (fst s)) (snd s)"

lemma thread_keeps:
  assumes "thread_step E (cpu_device E I V) st st'" "cpu_inv E m0 (fst st) (snd st) enq started"
  shows "\<exists>started'. cpu_inv E m0 (fst st') (snd st') enq started'"
  using assms
proof (induction rule: thread_step.induct)
  case (Take_step i w w' q)
  then show ?case using take_keeps by fastforce
next
  case (Start_step i w w' q)
  then show ?case using start_keeps by fastforce
next
  case (Finish_step i w w' q)
  then show ?case using finish_keeps by fastforce
next
  case (Report_step i w q st')
  then show ?case using report_keeps [of E m0 q w enq started i "fst st'" "snd st'"] by auto
next
  case (Reschedule_step i w q st')
  then show ?case using reschedule_keeps [of E m0 q w enq started i I V "fst st'" "snd st'"] by simp
next
  case (Erase_step i w q st')
  then show ?case using erase_cpu_keeps [of E m0 q w enq started i "fst st'" "snd st'"] by auto
qed

lemma cpu_step_keeps:
  assumes "cpu_step E (cpu_device E I V) s s'" "state_inv E m0 s started"
  shows "\<exists>started'. state_inv E m0 s' started'"
  using assms
proof (induction rule: cpu_step.induct)
  case (Push_cpu cmd w e q st' enq)
  then show ?case using push_cpu_keeps [of E m0 q w enq started cmd e "fst st'" "snd st'"] by auto
next
  case (Poll_cpu q w st' b enq)
  then show ?case using poll_keeps [of E m0 q w enq started I V "fst st'" "snd st'" b] by auto
next
  case (Thread_cpu q w st' enq)
  then show ?case using thread_keeps [of E I V "(q, w)" st' m0 enq started] by simp
next
  case (Foreign_cpu q enq w w')
  then show ?case using foreign_keeps by fastforce
qed

lemma new_threads:
  "jobs_of (replicate n new_thread) = {#}" "reports_of (replicate n new_thread) = {#}"
  "late_of (replicate n new_thread) = {#}"
  "0 < n \<Longrightarrow> threads_ok (replicate n new_thread)"
  by (auto simp: jobs_of_def reports_of_def late_of_def threads_ok_def new_thread_def thread_jobs_def)

lemma start_inv: "cpu_start m0 s \<Longrightarrow> state_inv E m0 s []"
  using in_order_inv_init
  by (auto simp: cpu_start_def cpu_inv_def new_threads jobs_in_def reports_in_def late_in_def new_queue_def executed_Nil)

lemma reachable_cpu_inv:
  assumes "cpu_reachable E (cpu_device E I V) m0 s"
  shows "\<exists>started. state_inv E m0 s started"
proof -
  from assms obtain s0 where s0: "cpu_start m0 s0" and run: "(cpu_step E (cpu_device E I V))\<^sup>*\<^sup>* s0 s"
    by (auto simp: cpu_reachable_def)
  from run show ?thesis
  proof (induction rule: rtranclp_induct)
    case base
    show ?case using start_inv [OF s0] by blast
  next
    case (step y z)
    then show ?case using cpu_step_keeps by blast
  qed
qed

lemma all_complete:
  assumes inv: "cpu_inv E m0 q w enq started" and comp: "\<forall>c \<in> set enq. HasCompleted (WEvents w (QEvent c))"
  shows "executed E enq m0 (CMemory (WDevice w))" "c \<in> set enq \<Longrightarrow> Status (WEvents w (QEvent c)) = command_status E c"
proof -
  have io: "in_order_inv q w enq started (late_in w)" using inv by (simp add: cpu_inv_def)
  have split: "enq = started @ QCommands q" and "\<forall>c \<in> set (QCommands q). \<not> HasCompleted (WEvents w (QEvent c))"
    using io by (simp_all add: in_order_inv_def)
  then have "QCommands q = []" using comp by (cases "QCommands q") auto
  then have enq: "enq = started" using split by simp
  have "executed E enq m0 (CMemory (WDevice w)) \<and> (\<forall>c \<in> set enq. Status (WEvents w (QEvent c)) = command_status E c)"
  proof (cases "QOnFly q")
    case True
    then have ne: "enq \<noteq> []" using io enq by (simp add: in_order_inv_def)
    then have sp: "enq = butlast enq @ [last enq]" by simp
    have "\<not> on_fly E (last enq) m w" for m using comp ne by (simp add: on_fly_def)
    then obtain m where st: "\<forall>c \<in> set (butlast enq). Status (WEvents w (QEvent c)) = command_status E c"
      and ex: "executed E (butlast enq) m0 m" and ld: "landed E (last enq) m w"
      using inv True by (auto simp: cpu_inv_def enq)
    have "executed E enq m0 (CMemory (WDevice w))"
      using executed_snoc [OF ex, of "last enq"] ld sp by (simp add: landed_def)
    moreover have "\<forall>c \<in> set enq. Status (WEvents w (QEvent c)) = command_status E c"
      using st ld by (subst sp) (simp add: landed_def)
    ultimately show ?thesis by blast
  next
    case False
    with inv show ?thesis by (simp add: cpu_inv_def enq)
  qed
  then show "executed E enq m0 (CMemory (WDevice w))" "c \<in> set enq \<Longrightarrow> Status (WEvents w (QEvent c)) = command_status E c"
    by blast+
qed

text \<open>The command a job belongs to is the last one started; all before it are complete.\<close>

lemma job_of_last:
  assumes inv: "cpu_inv E m0 q w enq started" and job: "job \<in># jobs_in w"
  shows "started \<noteq> []" "enq = butlast started @ last started # QCommands q"
    "\<forall>d \<in> set (butlast started). HasCompleted (WEvents w (QEvent d))"
    "\<forall>e \<in> set (CmdWaitList (QCmd (last started))). HasCompleted (WEvents w e)"
    "\<not> HasCompleted (WEvents w (QEvent (last started)))"
    "\<exists>c. job_command job = Some c \<and> QEvent c = QEvent (last started)"
proof -
  have "jobs_in w \<noteq> {#}" using job by auto
  then have fly: "QOnFly q" using inv by (cases "QOnFly q") (simp_all add: cpu_inv_def)
  have io: "in_order_inv q w enq started (late_in w)" using inv by (simp add: cpu_inv_def)
  then show ne: "started \<noteq> []" and "\<forall>d \<in> set (butlast started). HasCompleted (WEvents w (QEvent d))"
    using fly by (simp_all add: in_order_inv_def)
  have "enq = started @ QCommands q" using io by (simp add: in_order_inv_def)
  then show "enq = butlast started @ last started # QCommands q"
    using ne by (metis append.assoc append_Cons append_Nil append_butlast_last_id)
  have waits: "\<forall>c \<in> set started. \<forall>e \<in> set (CmdWaitList (QCmd c)). HasCompleted (WEvents w e)"
    using io by (simp add: in_order_inv_def)
  then show "\<forall>e \<in> set (CmdWaitList (QCmd (last started))). HasCompleted (WEvents w e)"
    using last_in_set [OF ne] by (rule bspec)
  obtain m where on: "on_fly E (last started) m w"
    using inv fly \<open>jobs_in w \<noteq> {#}\<close> by (auto simp: cpu_inv_def landed_def)
  then show "\<not> HasCompleted (WEvents w (QEvent (last started)))" by (simp add: on_fly_def)
  show "\<exists>c. job_command job = Some c \<and> QEvent c = QEvent (last started)"
  proof (cases job)
    case StopJob
    with job on_fly_no_stop [OF on] show ?thesis by simp
  next
    case (ExecJob c)
    obtain cmd where "c = last started\<lparr>QCmd := cmd\<rparr>"
      by (rule on_fly_single [OF on job [unfolded ExecJob]])
    with ExecJob show ?thesis by (simp add: job_command_def)
  next
    case (BlockJob c N B F)
    obtain cmd where "c = last started\<lparr>QCmd := cmd\<rparr>"
      by (rule on_fly_block [OF on job [unfolded BlockJob]])
    with BlockJob show ?thesis by (simp add: job_command_def)
  qed
qed

section \<open>Work of the threads\<close>

text \<open>
  A bound for the steps the threads can still make while nobody enqueues or polls: six for each
  job (take, start, finish and the three sections of the report), and as many for each job the
  waiting commands will bring.
\<close>

definition activity_work :: "activity \<Rightarrow> nat" where
  "activity_work a =
     (case a of Idle \<Rightarrow> 0 | Taken j \<Rightarrow> 5 | Started j \<Rightarrow> 4 | Reporting c \<Rightarrow> 3 | Rescheduling c \<Rightarrow> 2 | Erasing c \<Rightarrow> 1)"

lemma activity_work_simps [simp]:
  "activity_work Idle = 0" "activity_work (Taken j) = 5" "activity_work (Started j) = 4" "activity_work (Reporting c) = 3"
  "activity_work (Rescheduling c) = 2" "activity_work (Erasing c) = 1"
  by (simp_all add: activity_work_def)

definition thread_work :: "cpu_thread \<Rightarrow> nat" where
  "thread_work t = 6 * length (TCommands t) + activity_work (TActivity t)"

definition command_jobs :: "queued \<Rightarrow> nat" where
  "command_jobs c = (case CmdPayload (QCmd c) of NDRangeKernel k D \<Rightarrow> GetWorkGroupsCount D | _ \<Rightarrow> 1)"

definition threads_work :: "'m cpu_world \<Rightarrow> nat" where
  "threads_work w = sum_list (map thread_work (CThreads (WDevice w)))"

definition work_left :: "cmd_queue \<Rightarrow> 'm cpu_world \<Rightarrow> nat" where
  "work_left q w = threads_work w + sum_list (map (\<lambda>c. 6 * command_jobs c) (QCommands q))"

lemma sum_list_update_less:
  fixes f :: "'a \<Rightarrow> nat"
  shows "i < length xs \<Longrightarrow> f x < f (xs ! i) \<Longrightarrow> sum_list (map f (xs[i := x])) < sum_list (map f xs)"
proof (induction xs arbitrary: i)
  case (Cons y ys)
  then show ?case by (cases i) auto
qed simp

lemma update_lowers:
  assumes "CThreads (WDevice w') = (CThreads (WDevice w))[i := t]" "i < length (CThreads (WDevice w))"
    and "thread_work t < thread_work (CThreads (WDevice w) ! i)"
  shows "threads_work w' < threads_work w"
  using sum_list_update_less [OF assms(2,3)] by (simp add: threads_work_def assms(1))

lemma notifyCompletion_threads:
  "CThreads (WDevice (fst (notifyCompletion job b w))) = CThreads (WDevice w)"
  by (simp add: notifyCompletion_def Let_def split_beta split: cpu_job.split)

lemma finish_threads:
  assumes "Thread_finish E i w = Some w'" "i < length (CThreads (WDevice w))"
  shows "\<exists>job. TActivity (CThreads (WDevice w) ! i) = Started job"
    "TCommands (CThreads (WDevice w') ! i) = TCommands (CThreads (WDevice w) ! i)"
    "activity_work (TActivity (CThreads (WDevice w') ! i)) \<le> 3"
    "CThreads (WDevice w') = (CThreads (WDevice w))[i := CThreads (WDevice w') ! i]"
  using assms
  by (auto simp: Thread_finish_def Let_def split_beta notifyCompletion_threads split: activity.splits cpu_job.splits)

text \<open>The scheduler turns the work of a waiting command into work of the threads.\<close>

lemma on_fly_jobs_bound:
  assumes fly: "on_fly E c m w"
  shows "size (jobs_in w) \<le> command_jobs c"
proof -
  obtain cmd where p: "patched E (QCmd c) = Some cmd" using fly by (auto simp: on_fly_def)
  show ?thesis
  proof (cases "\<exists>k D. CmdPayload cmd = NDRangeKernel k D")
    case True
    then obtain k D where k: "CmdPayload cmd = NDRangeKernel k D" by blast
    obtain ds js where K: "mset ds + mset js = mset [0..<GetWorkGroupsCount D]"
      "jobs_in w = mset (map (block_job D (c\<lparr>QCmd := cmd\<rparr>)) js)"
      using on_fly_kernel_case [OF fly p k] by (auto simp: kernel_on_fly_def)
    have "length ds + length js = GetWorkGroupsCount D" using arg_cong [OF K(1), of size] by simp
    moreover have "CmdPayload (QCmd c) = NDRangeKernel k D" using k patched_kernel [OF p] by simp
    ultimately show ?thesis by (simp add: command_jobs_def K(2))
  next
    case False
    then have "\<not> (\<exists>k D. CmdPayload (QCmd c) = NDRangeKernel k D)" using patched_kernel [OF p] by simp
    then have "command_jobs c = 1" by (simp add: command_jobs_def split: payload.split)
    then show ?thesis using on_fly_other_case(1) [OF fly p False] by simp
  qed
qed

lemma threads_work_jobs:
  "sum_list (map thread_work Ts) \<le> 6 * size (jobs_of Ts) + sum_list (map activity_work (map TActivity Ts))"
  "sum_list (map activity_work (map TActivity Ts)) \<le> sum_list (map thread_work Ts)"
  by (induction Ts) (auto simp: thread_work_def jobs_of_def thread_jobs_def)

lemma poll_work:
  assumes inv: "cpu_inv E m0 q w enq started"
    and run: "RunScheduler (cpu_device E I V) (q, w) = Some ((q', w'), again)"
  shows "work_left q' w' \<le> work_left q w"
proof (cases "QOnFly q")
  case True
  have "QTy q = InOrder" using inv by (simp add: cpu_inv_def in_order_inv_def)
  with True run have "q' = q" "w' = w"
    by (auto simp: RunScheduler_def InOrder_RunScheduler_def split: list.splits)
  then show ?thesis by simp
next
  case False
  have io: "in_order_inv q w enq started (late_in w)" "threads_ok (CThreads (WDevice w))" "\<forall>c \<in> set enq. command_ok c"
    and quiet: "quiet E m0 w started"
    using inv False by (simp_all add: cpu_inv_parts)
  obtain started' where s: "in_order_inv q' w' enq started' (late_in w)"
    "map TActivity (CThreads (WDevice w')) = map TActivity (CThreads (WDevice w))"
    "if QOnFly q' then busy E m0 w' started' else quiet E m0 w' started'"
    using scheduler_cpu [OF run io False quiet] by blast
  have new: "threads_work w' \<le> 6 * size (jobs_in w') + threads_work w"
    using threads_work_jobs(1) [of "CThreads (WDevice w')"] threads_work_jobs(2) [of "CThreads (WDevice w)"] s(2)
    by (simp add: threads_work_def jobs_in_def)
  show ?thesis
    using cpu.scheduler_inv [OF io(1) run]
  proof (elim disjE exE conjE)
    assume "q' = q"
    with s(3) False have "jobs_in w' = {#}" by (simp add: quiet_def)
    with new \<open>q' = q\<close> show ?thesis by (simp add: work_left_def)
  next
    fix c cs
    assume q: "QCommands q = c # cs" and q': "q' = q\<lparr>QCommands := cs, QPending := QPending q @ [c], QOnFly := True\<rparr>"
      and io': "in_order_inv q' w' enq (started @ [c]) (late_in w)"
    have "started' @ QCommands q' = (started @ [c]) @ QCommands q'"
      using s(1) io' unfolding in_order_inv_def by metis
    then have "last started' = c" by simp
    then obtain m where "on_fly E c m w'" using s(3) q' by (auto simp: busy_def)
    from on_fly_jobs_bound [OF this] new show ?thesis by (simp add: work_left_def q q')
  qed
qed

lemma thread_step_lowers:
  assumes "thread_step E (cpu_device E I V) st st'" "cpu_inv E m0 (fst st) (snd st) enq started"
  shows "work_left (fst st') (snd st') < work_left (fst st) (snd st)"
  using assms
proof (induction rule: thread_step.induct)
  case (Take_step i w w' q)
  then have "threads_work w' < threads_work w"
    by (auto simp: Thread_take_def Let_def thread_work_def
             intro!: update_lowers split: activity.splits list.splits if_splits)
  then show ?case by (simp add: work_left_def)
next
  case (Start_step i w w' q)
  then have "threads_work w' < threads_work w"
    by (auto simp: Thread_start_def Let_def thread_work_def notifyStart_same(2)
             intro!: update_lowers split: activity.splits)
  then show ?case by (simp add: work_left_def)
next
  case (Finish_step i w w' q)
  note F = finish_threads [OF Finish_step.hyps(2,1)]
  have "threads_work w' < threads_work w"
    by (rule update_lowers [OF F(4) Finish_step.hyps(1)])
      (use F(1-3) in \<open>auto simp: thread_work_def\<close>)
  then show ?case by (simp add: work_left_def)
next
  case (Report_step i w q st')
  then have "threads_work (snd st') < threads_work w \<and> QCommands (fst st') = QCommands q"
    by (auto simp: Thread_report_def Let_def thread_work_def ClearOnFly_def
             intro!: update_lowers split: activity.splits queue_type.splits)
  then show ?case by (simp add: work_left_def)
next
  case (Reschedule_step i w q st')
  then obtain c q' w1 again where act: "TActivity (CThreads (WDevice w) ! i) = Rescheduling c"
    and R: "RunScheduler (cpu_device E I V) (q, w) = Some ((q', w1), again)"
    and st': "st' = (q', set_thread i ((CThreads (WDevice w1) ! i)\<lparr>TActivity := Erasing c\<rparr>) w1)"
    by (auto simp: Thread_reschedule_def split: activity.splits)
  have inv: "cpu_inv E m0 q w enq started" using Reschedule_step.prems by simp
  have ta: "map TActivity (CThreads (WDevice w1)) = map TActivity (CThreads (WDevice w))"
    using poll_keeps [OF inv R] by blast
  have i1: "i < length (CThreads (WDevice w1))" using Reschedule_step.hyps(1) arg_cong [OF ta, of length] by simp
  have act1: "TActivity (CThreads (WDevice w1) ! i) = Rescheduling c"
    using arg_cong [OF ta, of "\<lambda>l. l ! i"] Reschedule_step.hyps(1) i1 act by simp
  have "CThreads (WDevice (snd st')) = (CThreads (WDevice w1))[i := (CThreads (WDevice w1) ! i)\<lparr>TActivity := Erasing c\<rparr>]"
    by (simp add: st')
  from update_lowers [OF this i1] have "threads_work (snd st') < threads_work w1"
    by (simp add: thread_work_def act1)
  with poll_work [OF inv R] show ?case by (simp add: work_left_def st')
next
  case (Erase_step i w q st')
  then have "threads_work (snd st') < threads_work w \<and> QCommands (fst st') = QCommands q"
    by (auto simp: Thread_erase_def Let_def thread_work_def ErasePending_def
             intro!: update_lowers split: activity.splits)
  then show ?case by (simp add: work_left_def)
qed

lemma thread_steps_keep:
  "(thread_step E (cpu_device E I V))\<^sup>*\<^sup>* st st' \<Longrightarrow> cpu_inv E m0 (fst st) (snd st) enq started \<Longrightarrow>
   \<exists>started'. cpu_inv E m0 (fst st') (snd st') enq started'"
proof (induction rule: rtranclp_induct)
  case (step y z)
  then show ?case using thread_keeps by blast
qed blast

lemma work_bound:
  "(thread_step E (cpu_device E I V) ^^ n) st st' \<Longrightarrow> cpu_inv E m0 (fst st) (snd st) enq started \<Longrightarrow>
   n + work_left (fst st') (snd st') \<le> work_left (fst st) (snd st)"
proof (induction n arbitrary: st')
  case (Suc n)
  then obtain st1 where s: "(thread_step E (cpu_device E I V) ^^ n) st st1" "thread_step E (cpu_device E I V) st1 st'"
    by auto
  then obtain started' where "cpu_inv E m0 (fst st1) (snd st1) enq started'"
    using thread_steps_keep [OF relpowp_imp_rtranclp Suc.prems(2)] by blast
  from thread_step_lowers [OF s(2) this] Suc.IH [OF s(1) Suc.prems(2)] show ?case by simp
qed simp

text \<open>While a command is on fly, some thread can make a step.\<close>

lemma on_fly_jobs:
  assumes fly: "on_fly E c m w"
  shows "jobs_in w \<noteq> {#}"
proof -
  obtain cmd where p: "patched E (QCmd c) = Some cmd" using fly by (auto simp: on_fly_def)
  show ?thesis
  proof (cases "\<exists>k D. CmdPayload cmd = NDRangeKernel k D")
    case True
    then obtain k D where "CmdPayload cmd = NDRangeKernel k D" by blast
    from on_fly_kernel_case [OF fly p this] show ?thesis by (auto simp: kernel_on_fly_def)
  next
    case False
    from on_fly_other_case(1) [OF fly p this] show ?thesis by simp
  qed
qed

lemma work_available:
  assumes inv: "cpu_inv E m0 q w enq started" and fly: "on_fly E (last started) m w"
  shows "\<exists>st'. thread_step E (cpu_device E I V) (q, w) st'"
proof -
  let ?Ts = "CThreads (WDevice w)"
  have ok: "threads_ok ?Ts" using inv by (simp add: cpu_inv_def)
  have ne: "jobs_in w \<noteq> {#}" by (rule on_fly_jobs [OF fly])
  then obtain t where "t \<in> set ?Ts" "thread_jobs t \<noteq> []"
    by (auto simp: jobs_in_def jobs_of_def)
  then obtain i where i: "i < length ?Ts" "thread_jobs (?Ts ! i) \<noteq> []" by (metis in_set_conv_nth)
  have on: "QOnFly q" using inv ne by (cases "QOnFly q") (simp_all add: cpu_inv_def)
  then have "reports_in w = {#}" using inv ne by (auto simp: cpu_inv_def landed_def)
  then have rep: "TActivity (?Ts ! i) \<noteq> Reporting c" for c
    using i(1) by (auto simp: reports_in_def reports_of_def dest!: bspec [of _ _ "?Ts ! i"])
  show ?thesis
  proof (cases "TActivity (?Ts ! i)")
    case Idle
    then obtain j js where "TCommands (?Ts ! i) = j # js"
      using i(2) by (cases "TCommands (?Ts ! i)") (auto simp: thread_jobs_def)
    with Idle threads_ok_nth [OF ok i(1)] have "Thread_take i w \<noteq> None" by (simp add: Thread_take_def Let_def)
    then show ?thesis using Take_step [OF i(1)] by blast
  next
    case (Taken j)
    then have "Thread_start i w \<noteq> None" by (simp add: Thread_start_def Let_def)
    then show ?thesis using Start_step [OF i(1)] by blast
  next
    case (Started j)
    then have "Thread_finish E i w \<noteq> None" by (simp add: Thread_finish_def Let_def split_beta split: cpu_job.split)
    then show ?thesis using Finish_step [OF i(1)] by blast
  next
    case (Reporting c)
    with rep [of c] show ?thesis by simp
  next
    case (Rescheduling c)
    have "QTy q = InOrder" using inv by (simp add: cpu_inv_def in_order_inv_def)
    with on have "RunScheduler (cpu_device E I V) (q, w) = Some ((q, w), False)"
      by (simp add: RunScheduler_def InOrder_RunScheduler_def split: list.split)
    with Rescheduling have "Thread_reschedule (cpu_device E I V) i (q, w) \<noteq> None"
      by (simp add: Thread_reschedule_def)
    then show ?thesis using Reschedule_step [OF i(1)] by blast
  next
    case (Erasing c)
    then have "Thread_erase i (q, w) \<noteq> None" by (simp add: Thread_erase_def Let_def)
    then show ?thesis using Erase_step [OF i(1)] by blast
  qed
qed

text \<open>When no thread can make a step, every command the device has accepted is complete.\<close>

lemma stuck_complete:
  assumes inv: "cpu_inv E m0 q w enq started" and stuck: "\<nexists>st'. thread_step E (cpu_device E I V) (q, w) st'"
    and c: "c \<in> set started"
  shows "HasCompleted (WEvents w (QEvent c))"
proof (cases "QOnFly q")
  case True
  have io: "in_order_inv q w enq started (late_in w)" using inv by (simp add: cpu_inv_def)
  have "\<not> on_fly E (last started) m w" for m using work_available [OF inv] stuck by blast
  then obtain m where "landed E (last started) m w" using inv True by (auto simp: cpu_inv_def)
  from landed_complete [OF this] have l: "HasCompleted (WEvents w (QEvent (last started)))" .
  have b: "started = butlast started @ [last started]" "\<forall>c \<in> set (butlast started). HasCompleted (WEvents w (QEvent c))"
    using io True by (simp_all add: in_order_inv_def)
  from c b(1) have "c \<in> set (butlast started) \<or> c = last started" by (metis Un_iff empty_iff empty_set set_ConsD set_append)
  with l b(2) show ?thesis by blast
next
  case False
  with inv c show ?thesis by (simp add: cpu_inv_def in_order_inv_def)
qed

lemma thread_step_commands: "thread_step E dev st st' \<Longrightarrow> set (QCommands (fst st')) \<subseteq> set (QCommands (fst st))"
  by (induction rule: thread_step.induct)
    (auto simp: Thread_report_def Thread_reschedule_def Thread_erase_def Let_def ClearOnFly_def ErasePending_def
                RunScheduler_def InOrder_RunScheduler_def OutOfOrder_RunScheduler_def
          split: activity.splits queue_type.splits list.splits if_splits option.splits)

lemma thread_steps_commands: "(thread_step E dev)\<^sup>*\<^sup>* st st' \<Longrightarrow> set (QCommands (fst st')) \<subseteq> set (QCommands (fst st))"
  by (induction rule: rtranclp_induct) (auto dest: thread_step_commands)

lemma pending_started:
  "cpu_inv E m0 q w enq started \<Longrightarrow> c \<in> set (QPending q) \<Longrightarrow> c \<in> set started"
  by (auto simp: cpu_inv_def in_order_inv_def pending_inv_def)

lemma stuck_landed:
  assumes inv: "cpu_inv E m0 q w enq started" and c: "c \<in> set (QPending q)"
    and run: "(thread_step E (cpu_device E I V))\<^sup>*\<^sup>* (q, w) (q', w')"
    and stuck: "\<nexists>st''. thread_step E (cpu_device E I V) (q', w') st''"
  shows "HasCompleted (WEvents w' (QEvent c))" "\<forall>d \<in> set (QPending q'). HasCompleted (WEvents w' (QEvent d))"
proof -
  obtain started' where inv': "cpu_inv E m0 q' w' enq started'"
    using thread_steps_keep [OF run, of m0 enq started] inv by auto
  have io: "in_order_inv q w enq started (late_in w)" "in_order_inv q' w' enq started' (late_in w')"
    using inv inv' by (simp_all add: cpu_inv_def)
  have enq: "enq = started @ QCommands q" "enq = started' @ QCommands q'"
    using io unfolding in_order_inv_def by metis+
  note dist = in_order_inv_distinct [OF io(1)]
  have st: "c \<in> set started" by (rule pending_started [OF inv c])
  then have "c \<notin> set (QCommands q)" using dist by (auto simp: image_iff)
  then have "c \<notin> set (QCommands q')" using thread_steps_commands [OF run] by auto
  moreover have "c \<in> set (started' @ QCommands q')" using st enq(1,2) by (metis Un_iff set_append)
  ultimately have "c \<in> set started'" by simp
  then show "HasCompleted (WEvents w' (QEvent c))" by (rule stuck_complete [OF inv' stuck])
  show "\<forall>d \<in> set (QPending q'). HasCompleted (WEvents w' (QEvent d))"
    using stuck_complete [OF inv' stuck] pending_started [OF inv'] by blast
qed

section \<open>A small system for the witnesses\<close>

definition wit_env :: cpu_env where
  "wit_env = \<lparr>DevPtr = (\<lambda>_. 0), KernelBlock = (\<lambda>_ _ _ _ m. m), HasEntryPoint = (\<lambda>_. True),
              NativeCall = (\<lambda>fn args m. m(fn := 1)), ChannelFromFloat = (\<lambda>_ x. x),
              PackRGB = (\<lambda>_ x y z. x), Luminance = (\<lambda>_ x y z. x)\<rparr>"

definition wit_info :: queue_info where
  "wit_info = \<lparr>QContext = 0, QDevice = \<lparr>MemoryBaseAddressAlignment = 0, ImageMaxArraySize = 0, ImageMaxBufferSize = 0,
     Image2DMaxWidth = 0, Image2DMaxHeight = 0, Image3DMaxWidth = 0, Image3DMaxHeight = 0, Image3DMaxDepth = 0,
     ImageFormatSupported = (\<lambda>_ _. False), MaxWorkItemDimensions = 3, MaxWorkItemSizes = [], MaxWorkGroupSize = 0,
     SizeTypeMax = 0, NativeKernels = True, ImageSupport = True\<rparr>\<rparr>"

definition wit_world :: "unit cpu_world" where
  "wit_world = \<lparr>WEvents = (\<lambda>_. NewUserEvent 0), WNext = 0, WClock = 0, WEnvProfile = False,
     WTrackers = (\<lambda>_. ([], ())), WMaps = (\<lambda>_. []),
     WDevice = \<lparr>CThreads = [new_thread], CContexts = (\<lambda>_. CPUMultiExecContext 0), CMemory = (\<lambda>_. 0)\<rparr>\<rparr>"

definition wit_dev :: "(unit, cpu_state) device" where
  "wit_dev = cpu_device wit_env 0 (\<lambda>_. \<lparr>NumDevs = 0, ObjSize = 0, UseHost = False, CopyHost = False,
     dmap = (\<lambda>_ m. m), dalias = (\<lambda>_ _. False), dsame = (\<lambda>_. False), dread = (\<lambda>_ _ _. 0),
     dwrite = (\<lambda>_ _ _ m. m)\<rparr>)"

definition wit_cmd :: command where
  "wit_cmd = Command (NativeKernel 16 [] []) [] False"

definition wit_st1 :: "(unit, cpu_state) queue_state" where
  "wit_st1 = fst (the (Enqueue wit_dev wit_cmd (new_queue InOrder wit_info False, wit_world)))"

definition wit_w2 :: "unit cpu_world" where "wit_w2 = the (Thread_take 0 (snd wit_st1))"
definition wit_w3 :: "unit cpu_world" where "wit_w3 = the (Thread_start 0 wit_w2)"
definition wit_w4 :: "unit cpu_world" where "wit_w4 = the (Thread_finish wit_env 0 wit_w3)"

text \<open>
  The three sections of the report; and what a client that enqueues again makes of the state after
  the first of them: the queue has two pending commands.
\<close>

definition wit_st5 :: "(unit, cpu_state) queue_state" where "wit_st5 = the (Thread_report 0 (fst wit_st1, wit_w4))"
definition wit_st6 :: "(unit, cpu_state) queue_state" where "wit_st6 = the (Thread_reschedule wit_dev 0 wit_st5)"
definition wit_st7 :: "(unit, cpu_state) queue_state" where "wit_st7 = the (Thread_erase 0 wit_st6)"

definition wit_cleared :: "(unit, cpu_state) queue_state" where "wit_cleared = (ClearOnFly (fst wit_st1), wit_w4)"
definition wit_pushed :: "(unit, cpu_state) queue_state" where "wit_pushed = fst (Enqueue_push wit_cmd wit_cleared)"
definition wit_two :: "(unit, cpu_state) queue_state" where "wit_two = fst (the (RunScheduler wit_dev wit_pushed))"

lemmas wit_defs = wit_env_def wit_info_def wit_world_def wit_dev_def wit_cmd_def wit_st1_def wit_w2_def wit_w3_def
  wit_w4_def wit_st5_def wit_st6_def wit_st7_def wit_cleared_def wit_pushed_def wit_two_def

lemmas run_defs = Enqueue_def Enqueue_push_def Thread_report_def Thread_reschedule_def Thread_erase_def ClearOnFly_def
  ErasePending_def new_queue_def is_native_kernel_def enqueue_event_def RunScheduler_def
  InOrder_RunScheduler_def CanRun_def submit_def ensureMemoryCoherency_def cpu_device_def cpu_Submit_def
  Submit_command_def patched_def patch_arguments_def Submit_single_def submit_to_def pickThread_def Thread_Submit_def
  new_thread_def upd_event_def upd_device_def set_thread_def Thread_take_def Thread_start_def Thread_finish_def
  run_job_def notifyStart_def notifyCompletion_def job_command_def Let_def NewInternalEvent_def NewUserEvent_def

lemma wit_st1_value:
  "Enqueue wit_dev wit_cmd (new_queue InOrder wit_info False, wit_world) = Some (wit_st1, Inr (0, False))"
  "CThreads (WDevice (snd wit_st1)) = [\<lparr>TMode = FullyOperational, TCommands = [ExecJob \<lparr>QEvent = 0, QCmd = wit_cmd\<rparr>],
     TActivity = Idle\<rparr>]"
  by (simp_all add: wit_defs run_defs)

lemma wit_steps:
  "Thread_take 0 (snd wit_st1) = Some wit_w2" "Thread_start 0 wit_w2 = Some wit_w3"
  "Thread_finish wit_env 0 wit_w3 = Some wit_w4"
  "length (CThreads (WDevice (snd wit_st1))) = 1" "length (CThreads (WDevice wit_w2)) = 1"
  "length (CThreads (WDevice wit_w3)) = 1" "Status (WEvents wit_w4 0) = 0"
  by (simp_all add: wit_defs run_defs MarkCompleted_def MarkRunning_def MarkSubmitted_def)

lemma wit_reachable:
  "cpu_reachable wit_env wit_dev (\<lambda>_. 0) ((fst wit_st1, snd wit_st1), [\<lparr>QEvent = 0, QCmd = wit_cmd\<rparr>])"
  "cpu_reachable wit_env wit_dev (\<lambda>_. 0) ((fst wit_st1, wit_w4), [\<lparr>QEvent = 0, QCmd = wit_cmd\<rparr>])"
proof -
  let ?step = "cpu_step wit_env wit_dev" and ?enq = "[\<lparr>QEvent = 0, QCmd = wit_cmd\<rparr>]"
  let ?s0 = "((new_queue InOrder wit_info False, wit_world), [])"
  have start: "cpu_start (\<lambda>_. 0) ?s0"
    unfolding cpu_start_def by (intro exI [of _ wit_info] exI [of _ False] exI [of _ wit_world] exI [of _ 1])
      (simp add: wit_world_def)
  have s1: "?step\<^sup>*\<^sup>* ?s0 (wit_st1, ?enq)"
    using enqueue_steps [OF _ _ wit_st1_value(1), where enq = "[]"] by (simp add: wit_cmd_def command_ok_def)
  have "thread_step wit_env wit_dev (fst wit_st1, snd wit_st1) (fst wit_st1, wit_w2)"
    by (rule Take_step [of 0]) (simp_all add: wit_steps)
  then have s2: "?step (wit_st1, ?enq) ((fst wit_st1, wit_w2), ?enq)"
    by (metis Thread_cpu prod.collapse)
  have s3: "?step ((fst wit_st1, wit_w2), ?enq) ((fst wit_st1, wit_w3), ?enq)"
    by (rule Thread_cpu, rule Start_step [of 0]) (simp_all add: wit_steps)
  have s4: "?step ((fst wit_st1, wit_w3), ?enq) ((fst wit_st1, wit_w4), ?enq)"
    by (rule Thread_cpu, rule Finish_step [of 0]) (simp_all add: wit_steps)
  show "cpu_reachable wit_env wit_dev (\<lambda>_. 0) ((fst wit_st1, snd wit_st1), ?enq)"
    unfolding cpu_reachable_def prod.collapse using start s1 by blast
  show "cpu_reachable wit_env wit_dev (\<lambda>_. 0) ((fst wit_st1, wit_w4), ?enq)"
    unfolding cpu_reachable_def using start s1 s2 s3 s4 by (meson rtranclp.rtrancl_into_rtrancl)
qed

lemma wit_pending: "QPending (fst wit_st1) = [\<lparr>QEvent = 0, QCmd = wit_cmd\<rparr>]"
  by (simp add: wit_defs run_defs)

lemma wit_reports:
  "Thread_report 0 (fst wit_st1, wit_w4) = Some wit_st5" "Thread_reschedule wit_dev 0 wit_st5 = Some wit_st6"
  "Thread_erase 0 wit_st6 = Some wit_st7" "length (CThreads (WDevice wit_w4)) = 1"
  "length (CThreads (WDevice (snd wit_st5))) = 1" "length (CThreads (WDevice (snd wit_st6))) = 1"
  "CThreads (WDevice (snd wit_st7)) = [new_thread]"
  by (simp_all add: wit_defs run_defs)

lemma wit_work: "(thread_step wit_env wit_dev)\<^sup>*\<^sup>* wit_st1 wit_st7"
proof -
  let ?step = "thread_step wit_env wit_dev" and ?q = "fst wit_st1"
  have s: "?step (?q, snd wit_st1) (?q, wit_w2)" "?step (?q, wit_w2) (?q, wit_w3)" "?step (?q, wit_w3) (?q, wit_w4)"
    by (rule Take_step [of 0] Start_step [of 0] Finish_step [of 0]; simp add: wit_steps)+
  have r: "?step (?q, wit_w4) wit_st5" by (rule Report_step [of 0]) (simp_all add: wit_reports)
  have "?step (fst wit_st5, snd wit_st5) wit_st6" by (rule Reschedule_step [of 0]) (simp_all add: wit_reports)
  moreover have "?step (fst wit_st6, snd wit_st6) wit_st7" by (rule Erase_step [of 0]) (simp_all add: wit_reports)
  ultimately show ?thesis
    using s r by (simp only: prod.collapse)
qed

lemma wit_stuck: "\<not> thread_step wit_env wit_dev wit_st7 st'"
proof
  obtain q w where st: "wit_st7 = (q, w)" "CThreads (WDevice w) = [new_thread]"
    using wit_reports(7) by (metis prod.collapse)
  assume "thread_step wit_env wit_dev wit_st7 st'"
  then have "thread_step wit_env wit_dev (q, w) st'" by (simp only: st(1))
  then show False
    by cases (simp_all add: st(2) Thread_take_def Thread_start_def Thread_finish_def Thread_report_def
        Thread_reschedule_def Thread_erase_def new_thread_def Let_def)
qed

lemma wit_two_reachable:
  "queue_reachable wit_dev wit_info wit_world
     (wit_two, [\<lparr>QEvent = 0, QCmd = wit_cmd\<rparr>, \<lparr>QEvent = 1, QCmd = wit_cmd\<rparr>], [(0, False)])"
proof -
  let ?step = "queue_step wit_dev" and ?c = "\<lparr>QEvent = 0, QCmd = wit_cmd\<rparr>" and ?d = "\<lparr>QEvent = 1, QCmd = wit_cmd\<rparr>"
  let ?s0 = "((new_queue InOrder wit_info False, wit_world), [], [])"
  obtain again where P: "Enqueue_push wit_cmd (new_queue InOrder wit_info False, wit_world) =
      (pushed (new_queue InOrder wit_info False) wit_cmd wit_world, Inr 0)"
    "RunScheduler wit_dev (pushed (new_queue InOrder wit_info False) wit_cmd wit_world) = Some (wit_st1, again)"
    using push_schedules [OF wit_st1_value(1)] by blast
  have w: "\<forall>e \<in> set (CmdWaitList wit_cmd). e < WNext v" for v :: "unit cpu_world" by (simp add: wit_cmd_def)
  have s1: "?step ?s0 (pushed (new_queue InOrder wit_info False) wit_cmd wit_world, [?c], [])"
    using Push_step [OF w P(1), where dev = wit_dev and enq = "[]" and late = "[]"] by simp
  have s2: "?step (pushed (new_queue InOrder wit_info False) wit_cmd wit_world, [?c], []) ((fst wit_st1, snd wit_st1), [?c], [])"
    using Poll_step [where q = "fst (pushed (new_queue InOrder wit_info False) wit_cmd wit_world)"
        and w = "snd (pushed (new_queue InOrder wit_info False) wit_cmd wit_world)"] P(2) by simp
  have s3: "?step ((fst wit_st1, snd wit_st1), [?c], []) ((fst wit_st1, wit_w4), [?c], [])"
    by (rule World_step)
      (simp add: events_evolve_def wit_defs run_defs HasCompleted_iff MarkCompleted_def MarkRunning_def MarkSubmitted_def)
  have s4: "?step ((fst wit_st1, wit_w4), [?c], []) (wit_cleared, [?c], [(0, False)])"
    using Clear_step [where c = ?c and q = "fst wit_st1" and w = wit_w4 and late = "[]" and dev = wit_dev and enq = "[?c]"]
    by (simp add: wit_pending HasCompleted_iff wit_steps(7) wit_cleared_def)
  have "Enqueue_push wit_cmd (fst wit_cleared, snd wit_cleared) = (wit_pushed, Inr 1)"
    by (simp add: wit_defs run_defs)
  then have s5: "?step (wit_cleared, [?c], [(0, False)]) (wit_pushed, [?c, ?d], [(0, False)])"
    using Push_step [OF w, where q = "fst wit_cleared" and w = "snd wit_cleared" and dev = wit_dev and enq = "[?c]"
        and late = "[(0, False)]"] by simp
  have "RunScheduler wit_dev (fst wit_pushed, snd wit_pushed) = Some (wit_two, False)"
    by (simp add: wit_defs run_defs)
  then have s6: "?step (wit_pushed, [?c, ?d], [(0, False)]) (wit_two, [?c, ?d], [(0, False)])"
    using Poll_step [where dev = wit_dev and q = "fst wit_pushed" and w = "snd wit_pushed"] by (simp only: prod.collapse)
  show ?thesis
    unfolding queue_reachable_def
    using s1 s2 s3 s4 s5 s6 by (meson rtranclp.rtrancl_into_rtrancl rtranclp.rtrancl_refl)
qed

section \<open>Properties\<close>

text \<open>
  C1: an in-order queue is sequential. Whatever the interleaving of the enqueuing threads, the
  polls, the worker threads and foreign events, when all commands enqueued so far are complete
  the memory is that of running them one after the other in the order they were enqueued, a kernel
  running each of its work-groups once, and every event has the status of its command.
\<close>

theorem in_order_memory_is_sequential:
  assumes "cpu_reachable E (cpu_device E I V) m0 ((q, w), enq)"
    and "\<forall>c \<in> set enq. HasCompleted (WEvents w (QEvent c))"
  shows "executed E enq m0 (CMemory (WDevice w)) \<and> (\<forall>c \<in> set enq. Status (WEvents w (QEvent c)) = command_status E c)"
proof -
  obtain started where inv: "cpu_inv E m0 q w enq started"
    using reachable_cpu_inv [OF assms(1)] by auto
  show ?thesis using all_complete [OF inv assms(2)] by blast
qed

theorem in_order_memory_is_sequential_witness:
  "executed wit_env [\<lparr>QEvent = 0, QCmd = wit_cmd\<rparr>] (\<lambda>_. 0) (CMemory (WDevice wit_w4))"
  using in_order_memory_is_sequential [OF wit_reachable(2) [unfolded wit_dev_def]]
  by (simp add: HasCompleted_iff wit_steps(7))

text \<open>
  C6: a worker thread has a job only for the oldest command that is not complete: all commands
  enqueued before it are complete, and so are the events of its wait list.
\<close>

theorem jobs_respect_order:
  assumes "cpu_reachable E (cpu_device E I V) m0 ((q, w), enq)"
    and "t \<in> set (CThreads (WDevice w))" "job \<in> set (thread_jobs t)"
  shows "\<exists>before c after c'. enq = before @ c # after \<and> job_command job = Some c' \<and> QEvent c' = QEvent c \<and>
           (\<forall>d \<in> set before. HasCompleted (WEvents w (QEvent d))) \<and>
           (\<forall>e \<in> set (CmdWaitList (QCmd c)). HasCompleted (WEvents w e)) \<and>
           \<not> HasCompleted (WEvents w (QEvent c))"
proof -
  obtain started where inv: "cpu_inv E m0 q w enq started"
    using reachable_cpu_inv [OF assms(1)] by auto
  have "job \<in># jobs_in w" using assms(2,3) by (auto simp: jobs_in_def jobs_of_def)
  note J = job_of_last [OF inv this]
  from J(6) obtain c' where "job_command job = Some c'" "QEvent c' = QEvent (last started)" by blast
  with J(2-5) show ?thesis by blast
qed

theorem jobs_respect_order_witness:
  "\<exists>before c after c'. [\<lparr>QEvent = 0, QCmd = wit_cmd\<rparr>] = before @ c # after \<and>
     job_command (ExecJob \<lparr>QEvent = 0, QCmd = wit_cmd\<rparr>) = Some c' \<and> QEvent c' = QEvent c \<and>
     (\<forall>d \<in> set before. HasCompleted (WEvents (snd wit_st1) (QEvent d))) \<and>
     (\<forall>e \<in> set (CmdWaitList (QCmd c)). HasCompleted (WEvents (snd wit_st1) e)) \<and>
     \<not> HasCompleted (WEvents (snd wit_st1) (QEvent c))"
  by (rule jobs_respect_order [OF wit_reachable(1) [unfolded wit_dev_def],
        of "\<lparr>TMode = FullyOperational, TCommands = [ExecJob \<lparr>QEvent = 0, QCmd = wit_cmd\<rparr>], TActivity = Idle\<rparr>"])
    (simp_all add: wit_st1_value(2) thread_jobs_def)

text \<open>
  C5: a command the device has accepted completes. Once nobody enqueues or polls any more, the
  worker threads can make no more than \<open>work_left\<close> steps, the scheduling of their own reports included;
  and whenever none of them can make a step, the event of the command is complete, and so are
  those of all commands accepted in the meantime.
\<close>

theorem accepted_commands_complete:
  assumes "cpu_reachable E (cpu_device E I V) m0 ((q, w), enq)" "c \<in> set (QPending q)"
  shows "(\<forall>n st'. (thread_step E (cpu_device E I V) ^^ n) (q, w) st' \<longrightarrow> n \<le> work_left q w) \<and>
         (\<forall>q' w'. (thread_step E (cpu_device E I V))\<^sup>*\<^sup>* (q, w) (q', w') \<and>
                  (\<nexists>st''. thread_step E (cpu_device E I V) (q', w') st'') \<longrightarrow>
            HasCompleted (WEvents w' (QEvent c)) \<and> (\<forall>d \<in> set (QPending q'). HasCompleted (WEvents w' (QEvent d))))"
proof -
  obtain started where inv: "cpu_inv E m0 q w enq started"
    using reachable_cpu_inv [OF assms(1)] by auto
  have "n \<le> work_left q w" if "(thread_step E (cpu_device E I V) ^^ n) (q, w) st'" for n st'
    using work_bound [OF that, of m0 enq started] inv by simp
  then show ?thesis using stuck_landed [OF inv assms(2)] by blast
qed

theorem accepted_commands_complete_witness:
  "HasCompleted (WEvents (snd wit_st7) 0)"
proof -
  have run: "(thread_step wit_env wit_dev)\<^sup>*\<^sup>* (fst wit_st1, snd wit_st1) (fst wit_st7, snd wit_st7)"
    using wit_work by (simp only: prod.collapse)
  have stuck: "\<nexists>st''. thread_step wit_env wit_dev (fst wit_st7, snd wit_st7) st''"
    using wit_stuck by (simp only: prod.collapse) blast
  have "\<lparr>QEvent = 0, QCmd = wit_cmd\<rparr> \<in> set (QPending (fst wit_st1))" by (simp add: wit_pending)
  from accepted_commands_complete [OF wit_reachable(1) [unfolded wit_dev_def] this, folded wit_dev_def] run stuck
  have "HasCompleted (WEvents (snd wit_st7) (QEvent \<lparr>QEvent = 0, QCmd = wit_cmd\<rparr>))" by blast
  then show ?thesis by simp
qed

text \<open>
  C7: what the queue itself guarantees between any two sections that hold its lock, whoever completes
  its commands. The commands started are a prefix of those enqueued; the wait list of each of them
  has completed, and so has each of them except the one on fly. The pending commands are exactly
  those whose report is under way, at any of its stages, and the one on fly, so several can be
  pending. Every command that is not complete is in the list of a \<open>Finish\<close> that reads it now.
\<close>

theorem in_order_queue_starts_a_prefix:
  assumes "queue_reachable (cpu_device E I V) Info w0 ((q, w), enq, late)"
  shows "\<exists>started. enq = started @ QCommands q \<and> distinct (map QEvent enq) \<and>
           (\<forall>c \<in> set (if QOnFly q then butlast started else started). HasCompleted (WEvents w (QEvent c))) \<and>
           (\<forall>c \<in> set started. \<forall>e \<in> set (CmdWaitList (QCmd c)). HasCompleted (WEvents w e)) \<and>
           set (QPending q) \<subseteq> set started \<and> distinct (map QEvent (QPending q)) \<and> distinct (map fst late) \<and>
           QEvent ` set (QPending q) = fst ` set late \<union> (if QOnFly q then {QEvent (last started)} else {}) \<and>
           (QOnFly q \<longrightarrow> started \<noteq> [] \<and> QEvent (last started) \<notin> fst ` set late) \<and>
           (\<forall>c \<in> set enq. HasCompleted (WEvents w (QEvent c)) \<or> QEvent c \<in> set (FinishWaitList q))"
proof -
  obtain started where inv: "in_order_inv q w enq started (mset (map fst late))"
    using cpu.reachable_inv [OF assms] by auto
  have enq: "enq = started @ QCommands q" using inv unfolding in_order_inv_def by metis
  have dist: "distinct (map QEvent enq)" using in_order_inv_distinct [OF inv] by (simp only: enq)
  have compl: "\<forall>c \<in> set (if QOnFly q then butlast started else started). HasCompleted (WEvents w (QEvent c))"
    using inv by (cases "QOnFly q") (simp_all add: in_order_inv_def)
  have waits: "\<forall>c \<in> set started. \<forall>e \<in> set (CmdWaitList (QCmd c)). HasCompleted (WEvents w e)"
    using inv by (simp add: in_order_inv_def)
  have "pending_inv q started (mset (map fst late))" using inv by (simp add: in_order_inv_def)
  note P = pending_inv_sets [OF this]
  have pend: "QEvent ` set (QPending q) = fst ` set late \<union> (if QOnFly q then {QEvent (last started)} else {})"
    using P(4) by simp
  have fly: "QOnFly q \<longrightarrow> started \<noteq> [] \<and> QEvent (last started) \<notin> fst ` set late"
    using inv P(5) by (simp add: in_order_inv_def)
  have fin: "\<forall>c \<in> set enq. HasCompleted (WEvents w (QEvent c)) \<or> QEvent c \<in> set (FinishWaitList q)"
    using finish_misses_none [OF inv] by blast
  show ?thesis
    by (rule exI [of _ started], intro conjI) (fact enq dist compl waits P(1) P(2) P(3) pend fly fin)+
qed

theorem in_order_queue_starts_a_prefix_witness:
  "map QEvent (QPending (fst wit_two)) = [0, 1] \<and>
   (\<exists>started. [\<lparr>QEvent = 0, QCmd = wit_cmd\<rparr>, \<lparr>QEvent = 1, QCmd = wit_cmd\<rparr>] = started @ QCommands (fst wit_two) \<and>
      (\<forall>c \<in> set (if QOnFly (fst wit_two) then butlast started else started).
         HasCompleted (WEvents (snd wit_two) (QEvent c))) \<and>
      QEvent ` set (QPending (fst wit_two)) =
        fst ` set [(0, False)] \<union> (if QOnFly (fst wit_two) then {QEvent (last started)} else {}))"
proof (rule conjI)
  show "map QEvent (QPending (fst wit_two)) = [0, 1]" by (simp add: wit_defs run_defs)
  have "queue_reachable wit_dev wit_info wit_world
     ((fst wit_two, snd wit_two), [\<lparr>QEvent = 0, QCmd = wit_cmd\<rparr>, \<lparr>QEvent = 1, QCmd = wit_cmd\<rparr>], [(0, False)])"
    using wit_two_reachable by simp
  from in_order_queue_starts_a_prefix [OF this [unfolded wit_dev_def]]
  show "\<exists>started. [\<lparr>QEvent = 0, QCmd = wit_cmd\<rparr>, \<lparr>QEvent = 1, QCmd = wit_cmd\<rparr>] = started @ QCommands (fst wit_two) \<and>
      (\<forall>c \<in> set (if QOnFly (fst wit_two) then butlast started else started).
         HasCompleted (WEvents (snd wit_two) (QEvent c))) \<and>
      QEvent ` set (QPending (fst wit_two)) =
        fst ` set [(0, False)] \<union> (if QOnFly (fst wit_two) then {QEvent (last started)} else {})"
    by (elim exE conjE) (rule exI, intro conjI)
qed

section \<open>Where a queue makes no progress\<close>

text \<open>
  C39: an out-of-order queue never runs a command. Enqueuing only appends the command; neither the
  scheduler nor \<open>Flush\<close> nor the report of a completion gives anything to the device, so
  \<open>Finish\<close> waits for the events of all commands, which stay as they are.
\<close>

theorem out_of_order_never_runs:
  assumes "QTy q = OutOfOrder"
  shows "RunScheduler dev (q, w) = Some ((q, w), False) \<and> Flush dev (q, w) = Some (q, w) \<and>
         CommandDone dev e (q, w) = Some (q, w) \<and>
         Finish dev (q, w) = Some ((q, w), map QEvent (QPending q) @ map QEvent (QCommands q)) \<and>
         (\<forall>cmd q' w' f b. Enqueue dev cmd (q, w) = Some ((q', w'), Inr (f, b)) \<longrightarrow>
            QCommands q' = QCommands q @ [\<lparr>QEvent = f, QCmd = cmd\<rparr>] \<and> QTy q' = OutOfOrder \<and>
            WDevice w' = WDevice w \<and> Status (WEvents w' f) = CL_QUEUED)"
proof -
  have R: "RunScheduler dev (q, w) = Some ((q, w), False)" if "QTy q = OutOfOrder"
    for q w using that by (simp add: RunScheduler_def OutOfOrder_RunScheduler_def)
  have F: "Flush dev (q, w) = Some (q, w)" by (subst Flush.simps) (simp add: R [OF assms])
  show ?thesis
    using R [OF assms] F assms
    by (auto simp: CommandDone_def Finish_def FinishWaitList_def Enqueue_unfold R enqueue_event_def NewInternalEvent_def split: if_splits)
qed

theorem out_of_order_never_runs_witness:
  "Flush wit_dev (new_queue OutOfOrder wit_info False, wit_world) = Some (new_queue OutOfOrder wit_info False, wit_world)"
  using out_of_order_never_runs [of "new_queue OutOfOrder wit_info False" wit_dev wit_world 0] by (simp add: new_queue_def)

text \<open>
  C40: as long as the first command of an idle in-order queue waits for an event, \<open>Flush\<close> polls
  without end.
\<close>

theorem flush_of_blocked_queue_diverges:
  assumes "QTy q = InOrder" "\<not> QOnFly q" "QCommands q = c # cs" "\<not> CanRun (WEvents w) (QCmd c)"
  shows "Flush dev (q, w) = None"
proof -
  have poll: "RunScheduler d (q, w) = Some ((q, w), True)" for d :: "('a, 'b) device"
    by (simp add: RunScheduler_def InOrder_RunScheduler_def assms)
  have "st \<noteq> (q, w)" if run: "Flush dev st = Some st'" for st st'
  proof (rule Flush.raw_induct [where P = "\<lambda>d st y. st \<noteq> (q, w)", OF _ run])
    fix F :: "('a, 'b) device \<Rightarrow> ('a, 'b) queue_state \<Rightarrow> ('a, 'b) queue_state option" and d st y
    assume IH: "\<And>st b y. F st b = Some y \<Longrightarrow> b \<noteq> (q, w)"
      and body: "(case RunScheduler d st of None \<Rightarrow> None | Some (st', again) \<Rightarrow> if again then F d st' else Some st') = Some y"
    show "st \<noteq> (q, w)"
    proof
      assume "st = (q, w)"
      with body poll [of d] have "F d (q, w) = Some y" by simp
      from IH [OF this] show False by simp
    qed
  qed
  then show ?thesis by (metis not_None_eq)
qed

theorem flush_of_blocked_queue_diverges_witness:
  "Flush wit_dev ((new_queue InOrder wit_info False)\<lparr>QCommands := [\<lparr>QEvent = 0, QCmd = wit_cmd\<lparr>CmdWaitList := [1]\<rparr>\<rparr>]\<rparr>,
     wit_world) = None"
  by (rule flush_of_blocked_queue_diverges [where c = "\<lparr>QEvent = 0, QCmd = wit_cmd\<lparr>CmdWaitList := [1]\<rparr>\<rparr>" and cs = "[]"])
    (simp_all add: new_queue_def CanRun_def wit_world_def NewUserEvent_def HasCompleted_def)

end
