(* ===== verification/Enqueue_API.thy ===== *)
theory Enqueue_API
  imports Buffer_Builders Map_Builders Rect_Builders Kernel_Builders Command_Queue
begin

text \<open>
  The entry points of \<open>tools/libOpenCRun/EnqueueCommand.cpp\<close>: each runs the chain of its builder,
  gives the command to the queue and hands out the event.

  The handle of a queue is \<open>None\<close> for null. \<open>want\<close> says whether the caller passes a place for the
  event. The outer \<open>None\<close> is a crash: a null pointer that is used, or a failed assertion.
\<close>

section \<open>Replies\<close>

text \<open>
  \<open>Refused\<close> holds the error code. \<open>Accepted ev blocks\<close> is \<open>CL_SUCCESS\<close> with the event, when the
  caller asked for it, and whether the call now waits for that event. \<open>Mapped\<close> is the same for the
  mapping calls, with the address they return.
\<close>

datatype reply =
    Refused cl_int
  | Accepted "event_id option" bool
  | Mapped ptr "event_id option" bool

type_synonym ('m, 'd) api_state = "cmd_queue option \<times> ('m, 'd) world"

type_synonym ('m, 'd) api_result = "(('m, 'd) api_state \<times> reply) option"

definition with_queue ::
  "(('m, 'd) queue_state \<Rightarrow> (('m, 'd) queue_state \<times> reply) option) \<Rightarrow> ('m, 'd) api_state \<Rightarrow> ('m, 'd) api_result" where
  "with_queue f st =
     (case st of
        (None, w) \<Rightarrow> Some (st, Refused CL_INVALID_COMMAND_QUEUE)
      | (Some q, w) \<Rightarrow> map_option (\<lambda>((q', w'), r). ((Some q', w'), r)) (f (q, w)))"

text \<open>What every entry point does with the result of \<open>Create\<close>.\<close>

definition enqueue_created ::
  "('m, 'd) device \<Rightarrow> bool \<Rightarrow> command option \<times> cl_int \<Rightarrow> ('m, 'd) queue_state \<Rightarrow>
   (('m, 'd) queue_state \<times> reply) option" where
  "enqueue_created dev want created st =
     (case created of
        (None, ErrCode) \<Rightarrow> Some (st, Refused ErrCode)
      | (Some Cmd, ErrCode) \<Rightarrow>
        map_option
          (\<lambda>(st', r). (st', case r of
                              Inl e \<Rightarrow> Refused e
                            | Inr (ev, blocks) \<Rightarrow> Accepted (if want then Some ev else None) blocks))
          (Enqueue dev Cmd st))"

definition image_guard ::
  "(('m, 'd) queue_state \<Rightarrow> (('m, 'd) queue_state \<times> reply) option) \<Rightarrow>
   ('m, 'd) queue_state \<Rightarrow> (('m, 'd) queue_state \<times> reply) option" where
  "image_guard f st =
     (if \<not> ImageSupport (QDevice (QInfo (fst st))) then Some (st, Refused CL_INVALID_OPERATION) else f st)"

abbreviation events_of :: "('m, 'd) queue_state \<Rightarrow> event_id \<Rightarrow> event" where
  "events_of st \<equiv> WEvents (snd st)"

abbreviation info_of :: "('m, 'd) queue_state \<Rightarrow> queue_info" where
  "info_of st \<equiv> QInfo (fst st)"

section \<open>Buffers\<close>

definition clEnqueueReadBuffer ::
  "('m, 'd) device \<Rightarrow> cl_mem \<Rightarrow> bool \<Rightarrow> size_t \<Rightarrow> size_t \<Rightarrow> ptr \<Rightarrow> nat \<Rightarrow> event_id option list option \<Rightarrow> bool \<Rightarrow>
   ('m, 'd) api_state \<Rightarrow> ('m, 'd) api_result" where
  "clEnqueueReadBuffer dev buffer blocking_read off cb p num_events event_wait_list want = with_queue (\<lambda>st.
     if cb = 0 then Some (st, Refused CL_INVALID_VALUE)
     else enqueue_created dev want
       (ReadBuffer_Create
         (ReadBuffer_SetWaitList (events_of st) num_events event_wait_list
           (ReadBuffer_SetCopyArea off cb
             (ReadBuffer_SetBlocking (events_of st) blocking_read
               (ReadBuffer_Builder (info_of st) buffer p))))) st)"

definition clEnqueueReadBufferRect ::
  "('m, 'd) device \<Rightarrow> cl_mem \<Rightarrow> bool \<Rightarrow> triple option \<Rightarrow> triple option \<Rightarrow> triple option \<Rightarrow>
   size_t \<Rightarrow> size_t \<Rightarrow> size_t \<Rightarrow> size_t \<Rightarrow> ptr \<Rightarrow> nat \<Rightarrow> event_id option list option \<Rightarrow> bool \<Rightarrow>
   ('m, 'd) api_state \<Rightarrow> ('m, 'd) api_result" where
  "clEnqueueReadBufferRect dev buffer blocking_read buffer_origin host_origin region
     buffer_row_pitch buffer_slice_pitch host_row_pitch host_slice_pitch p num_events event_wait_list want =
   with_queue (\<lambda>st. enqueue_created dev want
     (ReadBufferRect_Create
       (ReadBufferRect_SetWaitList (events_of st) num_events event_wait_list
         (ReadBufferRect_SetSourceOffset buffer_origin buffer_row_pitch buffer_slice_pitch
           (ReadBufferRect_SetTargetOffset host_origin host_row_pitch host_slice_pitch
             (ReadBufferRect_SetRegion region
               (ReadBufferRect_SetBlocking (events_of st) blocking_read
                 (ReadBufferRect_Builder (info_of st) buffer p))))))) st)"

definition clEnqueueWriteBuffer ::
  "('m, 'd) device \<Rightarrow> cl_mem \<Rightarrow> bool \<Rightarrow> size_t \<Rightarrow> size_t \<Rightarrow> ptr \<Rightarrow> nat \<Rightarrow> event_id option list option \<Rightarrow> bool \<Rightarrow>
   ('m, 'd) api_state \<Rightarrow> ('m, 'd) api_result" where
  "clEnqueueWriteBuffer dev buffer blocking_write off cb p num_events event_wait_list want = with_queue (\<lambda>st.
     if cb = 0 then Some (st, Refused CL_INVALID_VALUE)
     else enqueue_created dev want
       (WriteBuffer_Create
         (WriteBuffer_SetWaitList (events_of st) num_events event_wait_list
           (WriteBuffer_SetCopyArea off cb
             (WriteBuffer_SetBlocking (events_of st) blocking_write
               (WriteBuffer_Builder (info_of st) buffer p))))) st)"

definition clEnqueueWriteBufferRect ::
  "('m, 'd) device \<Rightarrow> cl_mem \<Rightarrow> bool \<Rightarrow> triple option \<Rightarrow> triple option \<Rightarrow> triple option \<Rightarrow>
   size_t \<Rightarrow> size_t \<Rightarrow> size_t \<Rightarrow> size_t \<Rightarrow> ptr \<Rightarrow> nat \<Rightarrow> event_id option list option \<Rightarrow> bool \<Rightarrow>
   ('m, 'd) api_state \<Rightarrow> ('m, 'd) api_result" where
  "clEnqueueWriteBufferRect dev buffer blocking_write buffer_origin host_origin region
     buffer_row_pitch buffer_slice_pitch host_row_pitch host_slice_pitch p num_events event_wait_list want =
   with_queue (\<lambda>st. enqueue_created dev want
     (WriteBufferRect_Create
       (WriteBufferRect_SetWaitList (events_of st) num_events event_wait_list
         (WriteBufferRect_SetSourceOffset host_origin host_row_pitch host_slice_pitch
           (WriteBufferRect_SetTargetOffset buffer_origin buffer_row_pitch buffer_slice_pitch
             (WriteBufferRect_SetRegion region
               (WriteBufferRect_SetBlocking (events_of st) blocking_write
                 (WriteBufferRect_Builder (info_of st) buffer p))))))) st)"

text \<open>\<open>m\<close> is the memory of the host at the time of the call, from which the pattern is copied.\<close>

definition clEnqueueFillBuffer ::
  "('m, 'd) device \<Rightarrow> memory \<Rightarrow> cl_mem \<Rightarrow> ptr \<Rightarrow> size_t \<Rightarrow> size_t \<Rightarrow> size_t \<Rightarrow> nat \<Rightarrow>
   event_id option list option \<Rightarrow> bool \<Rightarrow> ('m, 'd) api_state \<Rightarrow> ('m, 'd) api_result" where
  "clEnqueueFillBuffer dev m buffer pattern pattern_size off n num_events event_wait_list want =
   with_queue (\<lambda>st. enqueue_created dev want
     (FillBuffer_Create m
       (FillBuffer_SetWaitList (events_of st) num_events event_wait_list
         (FillBuffer_SetFillRegion off n
           (FillBuffer_SetPatternSize pattern_size
             (FillBuffer_Builder (info_of st) buffer pattern))))) st)"

definition clEnqueueCopyBuffer ::
  "('m, 'd) device \<Rightarrow> cl_mem \<Rightarrow> cl_mem \<Rightarrow> size_t \<Rightarrow> size_t \<Rightarrow> size_t \<Rightarrow> nat \<Rightarrow>
   event_id option list option \<Rightarrow> bool \<Rightarrow> ('m, 'd) api_state \<Rightarrow> ('m, 'd) api_result" where
  "clEnqueueCopyBuffer dev src_buffer dst_buffer src_offset dst_offset cb num_events event_wait_list want =
   with_queue (\<lambda>st.
     if cb = 0 then Some (st, Refused CL_INVALID_VALUE)
     else enqueue_created dev want
       (CopyBuffer_Create
         (CopyBuffer_SetWaitList (events_of st) num_events event_wait_list
           (CopyBuffer_SetCopyArea dst_offset src_offset cb
             (CopyBuffer_Builder (info_of st) dst_buffer src_buffer)))) st)"

definition clEnqueueCopyBufferRect ::
  "('m, 'd) device \<Rightarrow> cl_mem \<Rightarrow> cl_mem \<Rightarrow> triple option \<Rightarrow> triple option \<Rightarrow> triple option \<Rightarrow>
   size_t \<Rightarrow> size_t \<Rightarrow> size_t \<Rightarrow> size_t \<Rightarrow> nat \<Rightarrow> event_id option list option \<Rightarrow> bool \<Rightarrow>
   ('m, 'd) api_state \<Rightarrow> ('m, 'd) api_result" where
  "clEnqueueCopyBufferRect dev src_buffer dst_buffer src_origin dst_origin region
     src_row_pitch src_slice_pitch dst_row_pitch dst_slice_pitch num_events event_wait_list want =
   with_queue (\<lambda>st.
     case CopyBufferRect_SetRegion region (CopyBufferRect_Builder (info_of st) dst_buffer src_buffer) of
       None \<Rightarrow> None
     | Some Bld \<Rightarrow>
       enqueue_created dev want
         (CopyBufferRect_Create
           (CopyBufferRect_SetWaitList (events_of st) num_events event_wait_list
             (CopyBufferRect_CheckCopyOverlap
               (CopyBufferRect_SetSourceOffset src_origin src_row_pitch src_slice_pitch
                 (CopyBufferRect_SetTargetOffset dst_origin dst_row_pitch dst_slice_pitch Bld))))) st)"

section \<open>Images\<close>

definition clEnqueueReadImage ::
  "('m, 'd) device \<Rightarrow> cl_mem \<Rightarrow> bool \<Rightarrow> triple option \<Rightarrow> triple option \<Rightarrow> size_t \<Rightarrow> size_t \<Rightarrow> ptr \<Rightarrow> nat \<Rightarrow>
   event_id option list option \<Rightarrow> bool \<Rightarrow> ('m, 'd) api_state \<Rightarrow> ('m, 'd) api_result" where
  "clEnqueueReadImage dev img blocking_read origin region row_pitch slice_pitch p num_events event_wait_list want =
   with_queue (image_guard (\<lambda>st. enqueue_created dev want
     (ReadImage_Create
       (ReadImage_SetWaitList (events_of st) num_events event_wait_list
         (ReadImage_SetCopyArea origin region row_pitch slice_pitch
           (ReadImage_SetBlocking (events_of st) blocking_read
             (ReadImage_Builder (info_of st) img p))))) st))"

definition clEnqueueWriteImage ::
  "('m, 'd) device \<Rightarrow> cl_mem \<Rightarrow> bool \<Rightarrow> triple option \<Rightarrow> triple option \<Rightarrow> size_t \<Rightarrow> size_t \<Rightarrow> ptr \<Rightarrow> nat \<Rightarrow>
   event_id option list option \<Rightarrow> bool \<Rightarrow> ('m, 'd) api_state \<Rightarrow> ('m, 'd) api_result" where
  "clEnqueueWriteImage dev img blocking_write origin region input_row_pitch input_slice_pitch p
     num_events event_wait_list want =
   with_queue (image_guard (\<lambda>st. enqueue_created dev want
     (WriteImage_Create
       (WriteImage_SetWaitList (events_of st) num_events event_wait_list
         (WriteImage_SetCopyArea origin region input_row_pitch input_slice_pitch
           (WriteImage_SetBlocking (events_of st) blocking_write
             (WriteImage_Builder (info_of st) img p))))) st))"

definition clEnqueueFillImage ::
  "('m, 'd) device \<Rightarrow> memory \<Rightarrow> cl_mem \<Rightarrow> ptr \<Rightarrow> triple option \<Rightarrow> triple option \<Rightarrow> nat \<Rightarrow>
   event_id option list option \<Rightarrow> bool \<Rightarrow> ('m, 'd) api_state \<Rightarrow> ('m, 'd) api_result" where
  "clEnqueueFillImage dev m img fill_color origin region num_events event_wait_list want =
   with_queue (image_guard (\<lambda>st. enqueue_created dev want
     (FillImage_Create m
       (FillImage_SetWaitList (events_of st) num_events event_wait_list
         (FillImage_SetFillRegion origin region
           (FillImage_Builder (info_of st) img fill_color)))) st))"

definition clEnqueueCopyImage ::
  "('m, 'd) device \<Rightarrow> cl_mem \<Rightarrow> cl_mem \<Rightarrow> triple option \<Rightarrow> triple option \<Rightarrow> triple option \<Rightarrow> nat \<Rightarrow>
   event_id option list option \<Rightarrow> bool \<Rightarrow> ('m, 'd) api_state \<Rightarrow> ('m, 'd) api_result" where
  "clEnqueueCopyImage dev src_image dst_image src_origin dst_origin region num_events event_wait_list want =
   with_queue (image_guard (\<lambda>st.
     case CopyImage_Builder (info_of st) dst_image src_image of
       None \<Rightarrow> None
     | Some Bld \<Rightarrow>
       enqueue_created dev want
         (CopyImage_Create
           (CopyImage_SetWaitList (events_of st) num_events event_wait_list
             (CopyImage_SetCopyArea dst_origin src_origin region Bld))) st))"

definition clEnqueueCopyImageToBuffer ::
  "('m, 'd) device \<Rightarrow> cl_mem \<Rightarrow> cl_mem \<Rightarrow> triple option \<Rightarrow> triple option \<Rightarrow> size_t \<Rightarrow> nat \<Rightarrow>
   event_id option list option \<Rightarrow> bool \<Rightarrow> ('m, 'd) api_state \<Rightarrow> ('m, 'd) api_result" where
  "clEnqueueCopyImageToBuffer dev src_image dst_buffer src_origin region dst_offset num_events event_wait_list want =
   with_queue (image_guard (\<lambda>st. enqueue_created dev want
     (CopyImageToBuffer_Create
       (CopyImageToBuffer_SetWaitList (events_of st) num_events event_wait_list
         (CopyImageToBuffer_SetCopyArea dst_offset src_origin region
           (CopyImageToBuffer_Builder (info_of st) dst_buffer src_image)))) st))"

definition clEnqueueCopyBufferToImage ::
  "('m, 'd) device \<Rightarrow> cl_mem \<Rightarrow> cl_mem \<Rightarrow> size_t \<Rightarrow> triple option \<Rightarrow> triple option \<Rightarrow> nat \<Rightarrow>
   event_id option list option \<Rightarrow> bool \<Rightarrow> ('m, 'd) api_state \<Rightarrow> ('m, 'd) api_result" where
  "clEnqueueCopyBufferToImage dev src_buffer dst_image src_offset dst_origin region num_events event_wait_list want =
   with_queue (image_guard (\<lambda>st. enqueue_created dev want
     (CopyBufferToImage_Create
       (CopyBufferToImage_SetWaitList (events_of st) num_events event_wait_list
         (CopyBufferToImage_SetCopyArea dst_origin region src_offset
           (CopyBufferToImage_Builder (info_of st) dst_image src_buffer)))) st))"

section \<open>Mapping\<close>

definition clValidMapField :: "mem_flags \<Rightarrow> bool" where
  "clValidMapField map_flags \<longleftrightarrow>
     map_flags AND NOT (CL_MAP_READ OR CL_MAP_WRITE OR CL_MAP_WRITE_INVALIDATE_REGION) = 0"

definition mapped_reply :: "ptr \<Rightarrow> reply \<Rightarrow> reply" where
  "mapped_reply p r = (case r of Accepted ev blocks \<Rightarrow> Mapped p ev blocks | _ \<Rightarrow> r)"

text \<open>
  \<open>SetMapBuffer\<close> changes the mappings of the world. \<open>dev_map\<close> is the address the device maps an
  object at, \<open>junk\<close> the content of the uninitialised record of \<open>SetMapBuffer\<close>.
\<close>

definition clEnqueueMapBuffer ::
  "('m, 'd) device \<Rightarrow> (mem_object \<Rightarrow> ptr) \<Rightarrow> map_info \<Rightarrow> cl_mem \<Rightarrow> bool \<Rightarrow> mem_flags \<Rightarrow> size_t \<Rightarrow> size_t \<Rightarrow> nat \<Rightarrow>
   event_id option list option \<Rightarrow> bool \<Rightarrow> ('m, 'd) api_state \<Rightarrow> ('m, 'd) api_result" where
  "clEnqueueMapBuffer dev dev_map junk buffer blocking_map map_flags off cb num_events event_wait_list want =
   with_queue (\<lambda>st.
     if \<not> clValidMapField map_flags then Some (st, Refused CL_INVALID_VALUE)
     else if cb = 0 then Some (st, Refused CL_INVALID_VALUE)
     else
       let Bld = MapBuffer_SetMapArea off cb
                   (MapBuffer_SetMapFlags map_flags
                     (MapBuffer_SetBlocking (events_of st) blocking_map
                       (MapBuffer_Builder (info_of st) buffer)));
           (S, Bld1) = MapBuffer_SetMapBuffer dev_map junk (WMaps (snd st)) Bld;
           st1 = (fst st, (snd st)\<lparr>WMaps := S\<rparr>)
       in map_option (\<lambda>(st', r). (st', mapped_reply (mbMapBuf Bld1) r))
            (enqueue_created dev want
              (MapBuffer_Create
                (MapBuffer_SetWaitList (events_of st1) num_events event_wait_list Bld1)) st1))"

text \<open>The pitches are asked for before the region is known.\<close>

definition clEnqueueMapImage ::
  "('m, 'd) device \<Rightarrow> (mem_object \<Rightarrow> ptr) \<Rightarrow> map_info \<Rightarrow> cl_mem \<Rightarrow> bool \<Rightarrow> mem_flags \<Rightarrow> triple option \<Rightarrow>
   triple option \<Rightarrow> bool \<Rightarrow> bool \<Rightarrow> nat \<Rightarrow> event_id option list option \<Rightarrow> bool \<Rightarrow>
   ('m, 'd) api_state \<Rightarrow> ('m, 'd) api_result" where
  "clEnqueueMapImage dev dev_map junk img blocking_map map_flags origin region row_given slice_given
     num_events event_wait_list want =
   with_queue (\<lambda>st.
     if \<not> clValidMapField map_flags then Some (st, Refused CL_INVALID_VALUE)
     else image_guard (\<lambda>st.
       case MapImage_SetMapPitches row_given slice_given
              (MapImage_SetMapFlags map_flags
                (MapImage_SetBlocking (events_of st) blocking_map
                  (MapImage_Builder (info_of st) img))) of
         None \<Rightarrow> None
       | Some Bld \<Rightarrow>
         let (S, Bld1) = MapImage_SetMapBuffer dev_map junk (WMaps (snd st))
                           (MapImage_SetMapArea origin region Bld);
             st1 = (fst st, (snd st)\<lparr>WMaps := S\<rparr>)
         in map_option (\<lambda>(st', r). (st', mapped_reply (miMapBuf Bld1) r))
              (enqueue_created dev want
                (MapImage_Create
                  (MapImage_SetWaitList (events_of st1) num_events event_wait_list Bld1)) st1)) st)"

text \<open>The handle of the object is used without a test for null.\<close>

definition clEnqueueUnmapMemObject ::
  "('m, 'd) device \<Rightarrow> cl_mem \<Rightarrow> ptr \<Rightarrow> nat \<Rightarrow> event_id option list option \<Rightarrow> bool \<Rightarrow>
   ('m, 'd) api_state \<Rightarrow> ('m, 'd) api_result" where
  "clEnqueueUnmapMemObject dev memobj mapped_ptr num_events event_wait_list want =
   with_queue (\<lambda>st.
     if mapped_ptr = NULL then Some (st, Refused CL_INVALID_VALUE)
     else case memobj of
         None \<Rightarrow> None
       | Some MemObj \<Rightarrow>
         if \<not> isValidMapping MemObj mapped_ptr (WMaps (snd st)) then Some (st, Refused CL_INVALID_VALUE)
         else enqueue_created dev want
           (UnmapMemObject_Create
             (UnmapMemObject_SetWaitList num_events event_wait_list
               (UnmapMemObject_Builder (QContext (info_of st)) memobj mapped_ptr))) st)"

text \<open>Not implemented: the call does not return.\<close>

definition clEnqueueMigrateMemObjects ::
  "('m, 'd) device \<Rightarrow> nat \<Rightarrow> cl_mem list option \<Rightarrow> nat \<Rightarrow> nat \<Rightarrow> event_id option list option \<Rightarrow> bool \<Rightarrow>
   ('m, 'd) api_state \<Rightarrow> ('m, 'd) api_result" where
  "clEnqueueMigrateMemObjects dev num_mem_objects mem_objects flags num_events event_wait_list want st = None"

section \<open>Kernels\<close>

definition clEnqueueNDRangeKernel ::
  "('m, 'd) device \<Rightarrow> kernel_desc option \<Rightarrow> nat \<Rightarrow> size_t list option \<Rightarrow> size_t list option \<Rightarrow> size_t list option \<Rightarrow>
   nat \<Rightarrow> event_id option list option \<Rightarrow> bool \<Rightarrow> ('m, 'd) api_state \<Rightarrow> ('m, 'd) api_result" where
  "clEnqueueNDRangeKernel dev kern work_dim global_work_offset global_work_size local_work_size
     num_events event_wait_list want =
   with_queue (\<lambda>st.
     case NDRange_Builder (QContext (info_of st)) (QDevice (info_of st)) kern work_dim global_work_size of
       None \<Rightarrow> None
     | Some Bld \<Rightarrow>
      (case NDRange_SetGlobalWorkOffset global_work_offset Bld of
         None \<Rightarrow> None
       | Some Bld1 \<Rightarrow>
        (case NDRange_SetLocalWorkSize local_work_size Bld1 of
           None \<Rightarrow> None
         | Some Bld2 \<Rightarrow>
           enqueue_created dev want
             (NDRange_Create (NDRange_SetWaitList num_events event_wait_list Bld2)) st)))"

definition clEnqueueTask ::
  "('m, 'd) device \<Rightarrow> kernel_desc option \<Rightarrow> nat \<Rightarrow> event_id option list option \<Rightarrow> bool \<Rightarrow>
   ('m, 'd) api_state \<Rightarrow> ('m, 'd) api_result" where
  "clEnqueueTask dev kern num_events event_wait_list want =
     clEnqueueNDRangeKernel dev kern 1 None (Some [1]) (Some [1]) num_events event_wait_list want"

definition clEnqueueNativeKernel ::
  "('m, 'd) device \<Rightarrow> memory \<Rightarrow> ptr \<Rightarrow> ptr \<Rightarrow> size_t \<Rightarrow> nat \<Rightarrow> cl_mem list option \<Rightarrow> ptr list option \<Rightarrow>
   nat \<Rightarrow> event_id option list option \<Rightarrow> bool \<Rightarrow> ('m, 'd) api_state \<Rightarrow> ('m, 'd) api_result" where
  "clEnqueueNativeKernel dev m user_func args cb_args num_mem_objects mem_list args_mem_loc
     num_events event_wait_list want =
   with_queue (\<lambda>st. enqueue_created dev want
     (Native_Create m
       (Native_SetWaitList num_events event_wait_list
         (Native_SetMemoryLocations num_mem_objects mem_list args_mem_loc
           (Native_Builder (QContext (info_of st)) user_func (args, cb_args))))) st)"

section \<open>Markers and barriers\<close>

definition clEnqueueMarkerWithWaitList ::
  "('m, 'd) device \<Rightarrow> nat \<Rightarrow> event_id option list option \<Rightarrow> bool \<Rightarrow> ('m, 'd) api_state \<Rightarrow> ('m, 'd) api_result" where
  "clEnqueueMarkerWithWaitList dev num_events event_wait_list want =
   with_queue (\<lambda>st. enqueue_created dev want
     (Marker_Create
       (Marker_SetWaitList (events_of st) num_events event_wait_list (Marker_Builder (info_of st)))) st)"

definition clEnqueueMarker ::
  "('m, 'd) device \<Rightarrow> bool \<Rightarrow> ('m, 'd) api_state \<Rightarrow> ('m, 'd) api_result" where
  "clEnqueueMarker dev want st =
     (if \<not> want then Some (st, Refused CL_INVALID_VALUE)
      else clEnqueueMarkerWithWaitList dev 0 None want st)"

definition clEnqueueBarrierWithWaitList ::
  "('m, 'd) device \<Rightarrow> nat \<Rightarrow> event_id option list option \<Rightarrow> bool \<Rightarrow> ('m, 'd) api_state \<Rightarrow> ('m, 'd) api_result" where
  "clEnqueueBarrierWithWaitList dev num_events event_wait_list want =
   with_queue (\<lambda>st. enqueue_created dev want
     (Barrier_Create
       (Barrier_SetWaitList (events_of st) num_events event_wait_list (Barrier_Builder (info_of st)))) st)"

definition clEnqueueWaitForEvents ::
  "('m, 'd) device \<Rightarrow> nat \<Rightarrow> event_id option list option \<Rightarrow> ('m, 'd) api_state \<Rightarrow> ('m, 'd) api_result" where
  "clEnqueueWaitForEvents dev num_events event_list st =
     (case event_list of
        None \<Rightarrow> Some (st, Refused CL_INVALID_VALUE)
      | Some es \<Rightarrow>
        if num_events = 0 then Some (st, Refused CL_INVALID_VALUE)
        else if None \<in> set (take num_events es) then Some (st, Refused CL_INVALID_EVENT)
        else clEnqueueBarrierWithWaitList dev num_events event_list False st)"

definition clEnqueueBarrier :: "('m, 'd) device \<Rightarrow> ('m, 'd) api_state \<Rightarrow> ('m, 'd) api_result" where
  "clEnqueueBarrier dev = clEnqueueBarrierWithWaitList dev 0 None False"

end
