(* ===== verification/API_Waits.thy ===== *)
theory API_Waits
  imports Enqueue_API
begin

text \<open>
  The events a created command waits for are those of the wait list argument: no method of a
  builder but \<open>SetWaitList\<close> changes its wait list.
\<close>

named_theorems waits

section \<open>The shared tests\<close>

lemma bWait_support [waits]:
  "bWait (CheckDevImgSupport Q Img b) = bWait b" "bWait (check_support Q I b) = bWait b"
  "bWait (check_context Q msg mo b) = bWait b" "bWait (check_access Q f msg cmsg mo b) = bWait b"
  "bWait (check_pointer p msg b) = bWait b" "bWait (SetBlocking_common E B c) = bWait c"
  by (simp_all add: CheckDevImgSupport_def Let_def check_support_def check_context_def check_access_def
                    check_pointer_def SetBlocking_common_def split: option.split)

lemma bWait_region [waits]: "IsValidImgRegion Img Or R b = (b1, valid) \<Longrightarrow> bWait b1 = bWait b"
  by (auto simp: IsValidImgRegion_def split: option.splits)

lemma bWait_with_buffer [waits]:
  "(\<And>mo b. bWait (store mo b) = bWait b) \<Longrightarrow> (\<And>mo b. bWait (rest mo b) = bWait b) \<Longrightarrow>
   bWait (with_buffer Q Buf m1 m2 m3 store rest b) = bWait b"
  by (simp add: with_buffer_def Let_def split: option.split)

lemma bWait_with_image [waits]:
  "(\<And>mo b. bWait (store mo b) = bWait b) \<Longrightarrow> (\<And>mo b. bWait (rest mo b) = bWait b) \<Longrightarrow>
   bWait (with_image Img m1 m2 store rest b) = bWait b"
  by (simp add: with_image_def split: option.split)

lemma bWait_rect_pitches [waits]:
  "(\<And>p b. bWait (row p b) = bWait b) \<Longrightarrow> (\<And>p b. bWait (sl p b) = bWait b) \<Longrightarrow>
   (\<And>p q b. bWait (k p q b) = bWait b) \<Longrightarrow>
   bWait (with_rect_pitches m1 m2 R rp sp row sl k b) = bWait b"
  by (simp add: with_rect_pitches_def Let_def split: option.split)

section \<open>Wait lists\<close>

definition handle_events :: "nat \<Rightarrow> event_id option list option \<Rightarrow> event_id set" where
  "handle_events N Evs = {e. \<exists>hs. Evs = Some hs \<and> Some e \<in> set (take N hs)}"

lemma push_events_waits: "set (bWait (push_events hs b)) \<subseteq> set (bWait b) \<union> {e. Some e \<in> set hs}"
  by (induction hs b rule: push_events.induct) auto

lemma SetWaitList_waits:
  "set (bWait (CommandBuilder_SetWaitList N Evs b)) \<subseteq> set (bWait b) \<union> handle_events N Evs"
  using push_events_waits [of "take N (the Evs)" b]
  by (auto simp: CommandBuilder_SetWaitList_def handle_events_def split: option.splits)

lemma bWait_check_wait_contexts [simp]: "bWait (check_wait_contexts E b) = bWait b"
  by (simp add: check_wait_contexts_def)

lemma SetWaitList_waits':
  "set (bWait (SetWaitList_plain E N Evs b)) \<subseteq> set (bWait b) \<union> handle_events N Evs"
  "set (bWait (SetWaitList_blocking E N Evs c)) \<subseteq> set (bWait c) \<union> handle_events N Evs"
  using SetWaitList_waits [of N Evs b] SetWaitList_waits [of N Evs c]
  by (simp_all add: SetWaitList_plain_def SetWaitList_blocking_def Let_def)


section \<open>The builders\<close>

lemma read_buffer_waits [waits]:
  "bWait (ReadBuffer_Builder Q Buf p) = []" "bWait (ReadBuffer_SetBlocking E B b) = bWait b"
  "bWait (ReadBuffer_SetCopyArea off n b) = bWait b"
  by (simp_all add: ReadBuffer_Builder_def ReadBuffer_SetBlocking_def ReadBuffer_SetCopyArea_def waits split: option.split)

lemma write_buffer_waits [waits]:
  "bWait (WriteBuffer_Builder Q Buf p) = []" "bWait (WriteBuffer_SetBlocking E B b) = bWait b"
  "bWait (WriteBuffer_SetCopyArea off n b) = bWait b"
  by (simp_all add: WriteBuffer_Builder_def WriteBuffer_SetBlocking_def WriteBuffer_SetCopyArea_def waits split: option.split)

lemma copy_buffer_waits [waits]:
  "bWait (CopyBuffer_Builder Q T S) = []" "bWait (CopyBuffer_SetCopyArea tgt src n c) = bWait c"
  by (simp_all add: CopyBuffer_Builder_def CopyBuffer_SetCopyArea_def waits split: option.split)

lemma fill_buffer_waits [waits]:
  "bWait (FillBuffer_Builder Q Buf p) = []" "bWait (FillBuffer_SetPatternSize n b) = bWait b"
  "bWait (FillBuffer_SetFillRegion off n b) = bWait b"
  by (simp_all add: FillBuffer_Builder_def FillBuffer_SetPatternSize_def FillBuffer_SetFillRegion_def waits split: option.split)

lemma read_rect_waits [waits]:
  "bWait (ReadBufferRect_Builder Q Buf p) = []" "bWait (ReadBufferRect_SetBlocking E B b) = bWait b"
  "bWait (ReadBufferRect_SetRegion R b) = bWait b" "bWait (ReadBufferRect_SetTargetOffset T rp sp b) = bWait b"
  "bWait (ReadBufferRect_SetSourceOffset T rp sp b) = bWait b"
  by (simp_all add: ReadBufferRect_Builder_def ReadBufferRect_SetBlocking_def ReadBufferRect_SetRegion_def
        ReadBufferRect_SetTargetOffset_def ReadBufferRect_SetSourceOffset_def waits split: option.split)

lemma write_rect_waits [waits]:
  "bWait (WriteBufferRect_Builder Q Buf p) = []" "bWait (WriteBufferRect_SetBlocking E B b) = bWait b"
  "bWait (WriteBufferRect_SetRegion R b) = bWait b" "bWait (WriteBufferRect_SetTargetOffset T rp sp b) = bWait b"
  "bWait (WriteBufferRect_SetSourceOffset T rp sp b) = bWait b"
  by (simp_all add: WriteBufferRect_Builder_def WriteBufferRect_SetBlocking_def WriteBufferRect_SetRegion_def
        WriteBufferRect_SetTargetOffset_def WriteBufferRect_SetSourceOffset_def waits split: option.split)

lemma copy_rect_waits [waits]:
  "bWait (CopyBufferRect_Builder Q T S) = []"
  "CopyBufferRect_SetRegion R b = Some b' \<Longrightarrow> bWait b' = bWait b"
  "bWait (CopyBufferRect_SetTargetOffset Or rp sp b) = bWait b"
  "bWait (CopyBufferRect_SetSourceOffset Or rp sp b) = bWait b"
  "bWait (CopyBufferRect_CheckCopyOverlap b) = bWait b"
  by (auto simp: CopyBufferRect_Builder_def CopyBufferRect_SetRegion_def CopyBufferRect_SetTargetOffset_def
        CopyBufferRect_SetSourceOffset_def CopyBufferRect_CheckCopyOverlap_def waits split: option.splits if_splits)

lemma read_image_waits [waits]:
  "bWait (ReadImage_Builder Q I p) = []" "bWait (ReadImage_SetBlocking E B b) = bWait b"
  "bWait (ReadImage_SetCopyArea Or R rp sp b) = bWait b"
  by (auto simp: ReadImage_Builder_def ReadImage_SetBlocking_def ReadImage_SetCopyArea_def Let_def waits
        split: option.split prod.split)

lemma write_image_waits [waits]:
  "bWait (WriteImage_Builder Q I p) = []" "bWait (WriteImage_SetBlocking E B b) = bWait b"
  "bWait (WriteImage_SetCopyArea Or R rp sp b) = bWait b"
  by (auto simp: WriteImage_Builder_def WriteImage_SetBlocking_def WriteImage_SetCopyArea_def Let_def waits
        split: option.split prod.split)

lemma copy_image_waits [waits]:
  "CopyImage_Builder Q T S = Some b \<Longrightarrow> bWait b = []" "bWait (CopyImage_SetCopyArea TO SO R c) = bWait c"
  by (auto simp: CopyImage_Builder_def CopyImage_SetCopyArea_def check_formats_def Let_def waits
        split: option.splits prod.splits if_splits)

lemma image_to_buffer_waits [waits]:
  "bWait (CopyImageToBuffer_Builder Q T S) = []" "bWait (CopyImageToBuffer_SetCopyArea off Or R b) = bWait b"
  by (auto simp: CopyImageToBuffer_Builder_def CopyImageToBuffer_SetCopyArea_def Let_def waits
        split: option.split prod.split)

lemma buffer_to_image_waits [waits]:
  "bWait (CopyBufferToImage_Builder Q T S) = []" "bWait (CopyBufferToImage_SetCopyArea Or R off b) = bWait b"
  by (auto simp: CopyBufferToImage_Builder_def CopyBufferToImage_SetCopyArea_def Let_def waits
        split: option.split prod.split)

lemma fill_image_waits [waits]:
  "bWait (FillImage_Builder Q I p) = []" "bWait (FillImage_SetFillRegion Or R b) = bWait b"
  by (auto simp: FillImage_Builder_def FillImage_SetFillRegion_def Let_def waits split: option.split prod.split)

lemma map_buffer_waits [waits]:
  "bWait (MapBuffer_Builder Q Buf) = []" "bWait (MapBuffer_SetBlocking E B b) = bWait b"
  "bWait (MapBuffer_SetMapFlags fl b) = bWait b" "bWait (MapBuffer_SetMapArea off n b) = bWait b"
  "MapBuffer_SetMapBuffer dm junk S b = (S', b') \<Longrightarrow> bWait b' = bWait b"
  by (auto simp: MapBuffer_Builder_def MapBuffer_SetBlocking_def MapBuffer_SetMapFlags_def MapBuffer_SetMapArea_def
        MapBuffer_SetMapBuffer_def Let_def waits split: option.splits prod.splits if_splits)

lemma map_image_waits [waits]:
  "bWait (MapImage_Builder Q Buf) = []" "bWait (MapImage_SetBlocking E B b) = bWait b"
  "bWait (MapImage_SetMapFlags fl b) = bWait b"
  "MapImage_SetMapPitches rg sg b = Some b' \<Longrightarrow> bWait b' = bWait b"
  "bWait (MapImage_SetMapArea Or R b) = bWait b"
  "MapImage_SetMapBuffer dm junk S b = (S', b') \<Longrightarrow> bWait b' = bWait b"
  by (auto simp: MapImage_Builder_def MapImage_SetBlocking_def MapImage_SetMapFlags_def MapImage_SetMapArea_def
        MapImage_SetMapPitches_def MapImage_SetMapBuffer_def Let_def waits split: option.splits prod.splits if_splits)

lemma unmap_waits [waits]: "bWait (UnmapMemObject_Builder C M p) = []"
  by (simp add: UnmapMemObject_Builder_def Let_def waits split: option.split)

lemma native_waits [waits]:
  "bWait (Native_Builder C fn raw) = []" "bWait (push_locations ls b) = bWait b"
  "bWait (Native_SetMemoryLocations N Os Ls b) = bWait b"
proof -
  show push: "bWait (push_locations ls b) = bWait b" for ls b
    by (induction ls b rule: push_locations.induct) simp_all
  show "bWait (Native_Builder C fn raw) = []" "bWait (Native_SetMemoryLocations N Os Ls b) = bWait b"
    by (simp_all add: Native_Builder_def Native_SetMemoryLocations_def Let_def waits push)
qed

lemma marker_waits [waits]: "bWait (Marker_Builder Q) = []" "bWait (Barrier_Builder Q) = []"
  by (simp_all add: Marker_Builder_def Barrier_Builder_def)

end
