(* ===== verification/Kernel_Dims.thy ===== *)
theory Kernel_Dims
  imports API_Waits
begin

text \<open>
  What the chain of \<open>clEnqueueNDRangeKernel\<close> checks: the dimensions of an accepted kernel command
  are well formed in the sense of \<open>Dimension_Info\<close>.
\<close>

section \<open>The loops of the builder\<close>

lemma push_global_sizes_ok:
  "bErr (push_global_sizes ss b) = CL_SUCCESS \<Longrightarrow>
   bErr b = CL_SUCCESS \<and> (\<forall>s \<in> set ss. 0 < s) \<and>
   push_global_sizes ss b = b\<lparr>ndGlobalWorkSizes := ndGlobalWorkSizes b @ ss\<rparr>"
proof (induction ss b rule: push_global_sizes.induct)
  case (2 s ss b)
  then show ?case by (auto simp: word_neq_0_conv split: if_splits)
qed simp

lemma push_global_offsets_ok:
  "push_global_offsets i os b = Some b' \<Longrightarrow> bErr b' = CL_SUCCESS \<Longrightarrow>
   bErr b = CL_SUCCESS \<and> b' = b\<lparr>ndGlobalWorkOffsets := ndGlobalWorkOffsets b @ os\<rparr>"
proof (induction i os b rule: push_global_offsets.induct)
  case (2 i o1 os b)
  then show ?case by (auto split: if_splits)
qed simp

text \<open>The local sizes that passed, against the global sizes from dimension \<open>i\<close> on.\<close>

lemma push_local_sizes_ok:
  "push_local_sizes req RS i ls wgs b = Some (Inr (wgs', b')) \<Longrightarrow>
   b' = b\<lparr>ndLocalWorkSizes := ndLocalWorkSizes b @ ls\<rparr> \<and>
   (\<forall>j < length ls. i + j < length (ndGlobalWorkSizes b) \<and> 0 < ls ! j \<and>
      ndGlobalWorkSizes b ! (i + j) mod ls ! j = 0)"
proof (induction req RS i ls wgs b rule: push_local_sizes.induct)
  case (2 req RS i l ls wgs b)
  then have IH: "b' = b\<lparr>ndLocalWorkSizes := (ndLocalWorkSizes b @ [l]) @ ls\<rparr>"
    "\<forall>j < length ls. Suc i + j < length (ndGlobalWorkSizes b) \<and> 0 < ls ! j \<and>
        ndGlobalWorkSizes b ! (Suc i + j) mod ls ! j = 0"
    and here: "i < length (ndGlobalWorkSizes b)" "l \<noteq> 0" "ndGlobalWorkSizes b ! i mod l = 0"
    by (auto split: if_splits)
  show ?case
  proof (intro conjI allI impI)
    show "b' = b\<lparr>ndLocalWorkSizes := ndLocalWorkSizes b @ l # ls\<rparr>" using IH(1) by simp
    fix j assume "j < length (l # ls)"
    then show "i + j < length (ndGlobalWorkSizes b)" "0 < (l # ls) ! j"
      "ndGlobalWorkSizes b ! (i + j) mod (l # ls) ! j = 0"
      using IH(2) here by (cases j; simp add: word_neq_0_conv)+
  qed
qed simp

lemma push_local_sizes_error:
  "push_local_sizes req RS i ls wgs b = Some (Inl b') \<Longrightarrow> bErr b' \<noteq> CL_SUCCESS"
  by (induction req RS i ls wgs b rule: push_local_sizes.induct) (auto split: if_splits)

text \<open>The partition the device chooses divides the work, in one and two dimensions.\<close>

lemma partition_ok:
  assumes "ComputeGlobalWorkPartition GW = Some (LW, ok)" "\<forall>s \<in> set GW. 0 < s"
  shows "length LW = length GW" "j < length GW \<Longrightarrow> 0 < LW ! j \<and> GW ! j mod LW ! j = 0"
proof -
  let ?P = "\<lambda>j. partition_presets ! length GW ! j"
  have LW: "LW = map (\<lambda>j. if ?P j < GW ! j then word_of_nat (gcd (unat (GW ! j)) (unat (?P j))) else GW ! j)
                   [0..<length GW]"
    using assms(1) by (simp add: ComputeGlobalWorkPartition_def Let_def split: if_splits)
  then show "length LW = length GW" by simp
  assume j: "j < length GW"
  have pos: "0 < unat (GW ! j)" using assms(2) j by (simp add: unat_gt_0 word_neq_0_conv)
  let ?g = "gcd (unat (GW ! j)) (unat (?P j))"
  have g: "0 < ?g" "?g dvd unat (GW ! j)" "?g \<le> unat (GW ! j)" using pos by (auto intro: dvd_imp_le)
  then have "?g < 2 ^ 64" using unat_below64 [of "GW ! j"] by simp
  then have "unat (word_of_nat ?g :: size_t) = ?g" by (rule unat_of_nat64)
  then have "0 < (word_of_nat ?g :: size_t)" "GW ! j mod word_of_nat ?g = 0"
    using g(1,2) by (simp_all add: word_less_nat_alt word_arith_nat_mod unat_mod flip: unat_eq_zero)
  with LW j assms(2) show "0 < LW ! j \<and> GW ! j mod LW ! j = 0" by simp
qed

section \<open>The whole chain\<close>

definition sizes_given :: "nat \<Rightarrow> size_t list option \<Rightarrow> bool" where
  "sizes_given N ss \<longleftrightarrow> (\<forall>l. ss = Some l \<longrightarrow> length l = N)"

lemma ndrange_builder_ok:
  assumes "NDRange_Builder Ctx Dev K N gs = Some b" "bErr b = CL_SUCCESS" "sizes_given N gs"
  shows "\<exists>k ss. K = Some k \<and> gs = Some ss \<and> 0 < N \<and> length ss = N \<and> (\<forall>s \<in> set ss. 0 < s) \<and> KBuiltFor k \<and>
           b = \<lparr>bCtx = Ctx, bErr = CL_SUCCESS, bWait = [], bDiag = [], ndDev = Dev, ndKern = k, ndWorkDimensions = N,
                ndGlobalWorkSizes = ss, ndGlobalWorkOffsets = [], ndLocalWorkSizes = []\<rparr>"
proof -
  obtain k where k: "K = Some k" using assms(1) by (auto simp: NDRange_Builder_def split: option.splits)
  have "gs \<noteq> None"
  proof
    assume "gs = None"
    then have "bErr b = CL_INVALID_GLOBAL_WORK_SIZE" using assms(1) by (simp add: NDRange_Builder_def k Let_def) (erule subst, simp)
    with assms(2) show False by simp
  qed
  then obtain ss where ss: "gs = Some ss" by blast
  have len: "length ss = N" using assms(3) by (simp add: sizes_given_def ss)
  let ?b0 = "\<lparr>bCtx = Ctx, bErr = CL_SUCCESS, bWait = [], bDiag = [], ndDev = Dev, ndKern = k, ndWorkDimensions = 0,
               ndGlobalWorkSizes = [], ndGlobalWorkOffsets = [], ndLocalWorkSizes = []\<rparr>"
  define b4 where "b4 =
    (let b1 = (if \<not> KBuiltFor k
               then NotifyError CL_INVALID_PROGRAM_EXECUTABLE ''kernel not built for current device'' ?b0 else ?b0);
         b2 = (if KContext k \<noteq> Ctx
               then NotifyError CL_INVALID_CONTEXT
                      ''cannot enqueue a kernel into a command queue with a different context'' b1 else b1);
         b3 = (if \<not> AreAllArgsSpecified k
               then NotifyError CL_INVALID_KERNEL_ARGS ''not all kernel arguments have been specified'' b2 else b2)
     in if N < 1 \<or> N > MaxWorkItemDimensions Dev
        then NotifyError CL_INVALID_WORK_DIMENSION ''given work dimensions is out of range'' b3
        else b3\<lparr>ndWorkDimensions := N\<rparr>)"
  have b: "b = push_global_sizes ss b4"
    using assms(1) len by (simp add: NDRange_Builder_def k ss b4_def Let_def)
  have b4: "bErr b4 = CL_SUCCESS \<Longrightarrow> KBuiltFor k \<and> \<not> N < 1 \<and> b4 = ?b0\<lparr>ndWorkDimensions := N\<rparr>"
    unfolding b4_def Let_def by (auto split: if_splits)
  note P = push_global_sizes_ok [OF assms(2) [unfolded b]]
  show ?thesis using P b4 b k ss len by (intro exI [of _ k] exI [of _ ss]) auto
qed

lemma ndrange_offsets_ok:
  assumes "NDRange_SetGlobalWorkOffset os b = Some b'" "bErr b' = CL_SUCCESS"
    and "ndWorkDimensions b = N" "sizes_given N os" "0 < N" "length (ndGlobalWorkSizes b) = N"
  shows "bErr b = CL_SUCCESS \<and>
         b' = b\<lparr>ndGlobalWorkOffsets := (case os of None \<Rightarrow> replicate N 0 | Some l \<Rightarrow> ndGlobalWorkOffsets b @ l)\<rparr>"
proof -
  have "ndWorkDimensions b \<noteq> 0" "ndGlobalWorkSizes b \<noteq> []" using assms(3,5,6) by auto
  then show ?thesis
    using assms(1-4) push_global_offsets_ok [of 0 "the os" b b']
    by (auto simp: NDRange_SetGlobalWorkOffset_def sizes_given_def split: option.splits)
qed

lemma ndrange_local_ok:
  assumes "NDRange_SetLocalWorkSize ls b = Some b'" "bErr b' = CL_SUCCESS"
    and "ndWorkDimensions b = N" "sizes_given N ls" "length (ndGlobalWorkSizes b) = N"
    and "\<forall>s \<in> set (ndGlobalWorkSizes b). 0 < s"
  shows "\<exists>LW. length LW = N \<and> b' = b\<lparr>ndLocalWorkSizes := ndLocalWorkSizes b @ LW\<rparr> \<and>
           (\<forall>j < N. 0 < LW ! j \<and> ndGlobalWorkSizes b ! j mod LW ! j = 0)"
proof (cases ls)
  case None
  then obtain LW ok where "ComputeGlobalWorkPartition (ndGlobalWorkSizes b) = Some (LW, ok)"
    "b' = b\<lparr>ndLocalWorkSizes := ndLocalWorkSizes b @ LW\<rparr>"
    using assms(1,2) by (auto simp: NDRange_SetLocalWorkSize_def Let_def split: option.splits if_splits prod.splits)
  with partition_ok [of "ndGlobalWorkSizes b" LW ok] assms(5,6) show ?thesis by auto
next
  case (Some l)
  then obtain req RS wgs where "push_local_sizes req RS 0 l 1 b = Some (Inr (wgs, b'))"
    using assms by (auto simp: NDRange_SetLocalWorkSize_def sizes_given_def split: option.splits sum.splits if_splits prod.splits
                      dest: push_local_sizes_error)
  from push_local_sizes_ok [OF this] Some assms(4) show ?thesis
    by (intro exI [of _ l]) (auto simp: sizes_given_def)
qed

lemma ndrange_waits:
  "bErr (NDRange_SetWaitList n Evs b) = CL_SUCCESS \<Longrightarrow>
   bErr b = CL_SUCCESS \<and> wait_args_ok n Evs \<and> NDRange_SetWaitList n Evs b = b\<lparr>bWait := bWait b @ wait_ids n Evs\<rparr>"
  unfolding NDRange_SetWaitList_def by (metis CommandBuilder_SetWaitList_ok CommandBuilder_SetWaitList_value)

lemma DimensionInfo_wf:
  assumes "length gs = length ls" "gs \<noteq> []" "\<forall>j < length gs. 0 < ls ! j \<and> 0 < gs ! j \<and> ls ! j dvd gs ! j"
    and "prod_list gs < 2 ^ 32"
  shows "wf_dims (DimensionInfo os gs ls)" "map GlobalSize (DimensionInfo os gs ls) = gs"
proof -
  show sizes: "map GlobalSize (DimensionInfo os gs ls) = gs"
    using assms(1) by (simp add: DimensionInfo_def comp_def) (metis map_nth)
  show "wf_dims (DimensionInfo os gs ls)"
    unfolding wf_dims_def sizes using assms by (auto simp: DimensionInfo_def)
qed

lemma ndrange_dims:
  assumes "NDRange_Builder Ctx Dev K N gs = Some b0" "NDRange_SetGlobalWorkOffset os b0 = Some b1"
    and "NDRange_SetLocalWorkSize ls b1 = Some b2"
    and "NDRange_Create (NDRange_SetWaitList n Evs b2) = (Some cmd, e)"
    and "sizes_given N gs" "sizes_given N os" "sizes_given N ls"
    and "prod_list (map unat (the gs)) < 2 ^ 32"
  shows "\<exists>D. CmdPayload cmd = NDRangeKernel (KRef (the K)) D \<and> wf_dims D \<and> map GlobalSize D = map unat (the gs)"
    and "CmdWaitList cmd = wait_ids n Evs" and "\<not> CmdBlocking cmd" and "wait_args_ok n Evs"
proof -
  let ?b3 = "NDRange_SetWaitList n Evs b2"
  have e: "bErr ?b3 = CL_SUCCESS" and cmd: "cmd = EnqueueNDRangeKernel (KRef (ndKern ?b3))
      (DimensionInfo (map unat (ndGlobalWorkOffsets ?b3)) (map unat (ndGlobalWorkSizes ?b3))
         (map unat (ndLocalWorkSizes ?b3))) (bWait ?b3)"
    using assms(4) by (simp_all add: NDRange_Create_def create_command_Some)
  note W = ndrange_waits [OF e]
  have e2: "bErr b2 = CL_SUCCESS" using W by blast
  have e1: "bErr b1 = CL_SUCCESS"
    using assms(3) e2
    by (auto simp: NDRange_SetLocalWorkSize_def Let_def split: option.splits sum.splits if_splits prod.splits
             dest: push_local_sizes_error push_local_sizes_ok)
  have e0: "bErr b0 = CL_SUCCESS"
    using assms(2) e1 by (auto simp: NDRange_SetGlobalWorkOffset_def split: option.splits if_splits dest: push_global_offsets_ok)
  obtain k ss where k: "K = Some k" and ss: "gs = Some ss" "0 < N" "length ss = N" "\<forall>s \<in> set ss. 0 < s"
    and b0: "b0 = \<lparr>bCtx = Ctx, bErr = CL_SUCCESS, bWait = [], bDiag = [], ndDev = Dev, ndKern = k, ndWorkDimensions = N,
                ndGlobalWorkSizes = ss, ndGlobalWorkOffsets = [], ndLocalWorkSizes = []\<rparr>"
    using ndrange_builder_ok [OF assms(1) e0 assms(5)] by blast
  have f0: "ndWorkDimensions b0 = N" "ndGlobalWorkSizes b0 = ss" "ndKern b0 = k" "ndLocalWorkSizes b0 = []" "bWait b0 = []"
    by (simp_all add: b0)
  obtain os' where b1: "b1 = b0\<lparr>ndGlobalWorkOffsets := os'\<rparr>"
    using ndrange_offsets_ok [OF assms(2) e1 f0(1) assms(6) ss(2)] f0(2) ss(3) by auto
  have f1: "ndWorkDimensions b1 = N" "ndGlobalWorkSizes b1 = ss" "ndKern b1 = k" "ndLocalWorkSizes b1 = []" "bWait b1 = []"
    by (simp_all add: b1 f0)
  obtain LW where LW: "length LW = N" "b2 = b1\<lparr>ndLocalWorkSizes := LW\<rparr>"
      "\<forall>j < N. 0 < LW ! j \<and> ss ! j mod LW ! j = 0"
    using ndrange_local_ok [OF assms(3) e2 f1(1) assms(7)] f1(2,4) ss(3,4) by auto
  let ?D = "DimensionInfo (map unat os') (map unat ss) (map unat LW)"
  have P: "CmdPayload cmd = NDRangeKernel (KRef k) ?D"
    using W by (simp add: cmd EnqueueNDRangeKernel_def LW(2) f1 b1 f0)
  have "0 < unat (LW ! j) \<and> 0 < unat (ss ! j) \<and> unat (LW ! j) dvd unat (ss ! j)" if "j < N" for j
  proof -
    have "unat (ss ! j mod LW ! j) = 0" using LW(3) that by simp
    then have "unat (LW ! j) dvd unat (ss ! j)" by (simp only: unat_mod mod_eq_0_iff_dvd)
    then show ?thesis using LW(3) ss(3,4) that by (simp add: unat_gt_0 word_neq_0_conv)
  qed
  then have "wf_dims ?D" "map GlobalSize ?D = map unat ss"
    using DimensionInfo_wf [of "map unat ss" "map unat LW" "map unat os'"] ss(1,2,3) LW(1) assms(8) by auto
  with P show "\<exists>D. CmdPayload cmd = NDRangeKernel (KRef (the K)) D \<and> wf_dims D \<and> map GlobalSize D = map unat (the gs)"
    using k ss(1) by auto
  show "CmdWaitList cmd = wait_ids n Evs" "\<not> CmdBlocking cmd" "wait_args_ok n Evs"
    using W by (simp_all add: cmd EnqueueNDRangeKernel_def LW(2) f1)
qed

end
