(* ===== verification/API_History.thy ===== *)
theory API_History
  imports Kernel_Dims CPU_Guarantees
begin

text \<open>
  Every entry point has the same contract, the locale \<open>entry_point\<close>: it refuses with an error
  code and leaves the queue, the events and the device alone, or it enqueues one command, which
  waits for events of its wait list argument only. With it a history of calls is a run of the
  queue with its device.
\<close>

section \<open>The contract\<close>

text \<open>\<open>H\<close> holds the events named by the wait list argument.\<close>

definition created_ok :: "event_id set \<Rightarrow> command option \<times> cl_int \<Rightarrow> bool" where
  "created_ok H c =
     (case c of
        (None, e) \<Rightarrow> e \<noteq> CL_SUCCESS
      | (Some cmd, e) \<Rightarrow> set (CmdWaitList cmd) \<subseteq> H \<and> (\<forall>n. command_ok \<lparr>QEvent = n, QCmd = cmd\<rparr>))"

definition refusal :: "('m, 'd) queue_state \<Rightarrow> ('m, 'd) queue_state \<Rightarrow> reply \<Rightarrow> bool" where
  "refusal st st' r \<longleftrightarrow>
     (\<exists>e S. r = Refused e \<and> e \<noteq> CL_SUCCESS \<and> st' = (fst st, (snd st)\<lparr>WMaps := S\<rparr>))"

definition reply_event :: "reply \<Rightarrow> event_id option" where
  "reply_event r = (case r of Refused _ \<Rightarrow> None | Accepted ev _ \<Rightarrow> ev | Mapped _ ev _ \<Rightarrow> ev)"

definition acceptance ::
  "('m, 'd) device \<Rightarrow> event_id set \<Rightarrow> ('m, 'd) queue_state \<Rightarrow> ('m, 'd) queue_state \<Rightarrow> reply \<Rightarrow> queued \<Rightarrow> bool" where
  "acceptance dev H st st' r c \<longleftrightarrow>
     (\<exists>S b. Enqueue dev (QCmd c) (fst st, (snd st)\<lparr>WMaps := S\<rparr>) = Some (st', Inr (QEvent c, b)) \<and>
        set (CmdWaitList (QCmd c)) \<subseteq> H \<and> command_ok c \<and> reply_event r \<in> {None, Some (QEvent c)} \<and>
        (\<forall>e. r \<noteq> Refused e))"

locale entry_point =
  fixes dev :: "('m, 'd) device" and H :: "event_id set"
    and call :: "('m, 'd) api_state \<Rightarrow> ('m, 'd) api_result"
  assumes no_queue: "\<exists>e. e \<noteq> CL_SUCCESS \<and> call (None, w) = Some ((None, w), Refused e)"
    and some_queue: "call (Some q, w) = Some (st', r) \<Longrightarrow>
      \<exists>q' w'. st' = (Some q', w') \<and>
        (refusal (q, w) (q', w') r \<or> (\<exists>c. acceptance dev H (q, w) (q', w') r c))"
begin

lemma refused_keeps:
  assumes "call (Some q, w) = Some ((q', w'), Refused e)"
  shows "e \<noteq> CL_SUCCESS" "q' = Some q" "\<exists>S. w' = w\<lparr>WMaps := S\<rparr>"
  using some_queue [OF assms] by (auto simp: refusal_def acceptance_def)

lemma accepted_enqueues:
  assumes "call (Some q, w) = Some ((Some q', w'), r)" "\<forall>e. r \<noteq> Refused e"
  shows "\<exists>c. acceptance dev H (q, w) (q', w') r c"
  using some_queue [OF assms(1)] assms(2) by (auto simp: refusal_def)

end

section \<open>Every entry point keeps it\<close>

definition outcome ::
  "('m, 'd) device \<Rightarrow> event_id set \<Rightarrow> (('m, 'd) queue_state \<Rightarrow> (('m, 'd) queue_state \<times> reply) option) \<Rightarrow>
   ('m, 'd) queue_state \<Rightarrow> bool" where
  "outcome dev H f st \<longleftrightarrow>
     (\<forall>st' r. f st = Some (st', r) \<longrightarrow> refusal st st' r \<or> (\<exists>c. acceptance dev H st st' r c))"

lemma with_queue_entry:
  assumes "\<And>q w. outcome dev H f (q, w)"
  shows "entry_point dev H (with_queue f)"
proof
  show "\<exists>e. e \<noteq> CL_SUCCESS \<and> with_queue f (None, w) = Some ((None, w), Refused e)" for w
    by (intro exI [of _ CL_INVALID_COMMAND_QUEUE]) (simp add: with_queue_def)
  show "\<exists>q' w'. st' = (Some q', w') \<and>
      (refusal (q, w) (q', w') r \<or> (\<exists>c. acceptance dev H (q, w) (q', w') r c))"
    if "with_queue f (Some q, w) = Some (st', r)" for q w st' r
    using that assms [of q w] by (auto simp: with_queue_def outcome_def)
qed

lemma WMaps_same [simp]: "w\<lparr>WMaps := WMaps w\<rparr> = w"
  by simp

lemma refusal_same: "e \<noteq> CL_SUCCESS \<Longrightarrow> refusal st st (Refused e)"
  unfolding refusal_def by (intro exI [of _ e] exI [of _ "WMaps (snd st)"]) simp

lemma refused_now: "e \<noteq> CL_SUCCESS \<Longrightarrow> f st = Some (st, Refused e) \<Longrightarrow> outcome dev H f st"
  by (simp add: outcome_def refusal_same)

lemma Enqueue_error: "Enqueue dev cmd st = Some (st', Inl e) \<Longrightarrow> e \<noteq> CL_SUCCESS \<and> st' = st"
  by (cases st) (auto simp: Enqueue_unfold Let_def split: if_splits)

lemma created_outcome:
  assumes "created_ok H created" "enqueue_created dev want created (fst st, (snd st)\<lparr>WMaps := S\<rparr>) = Some (st', r)"
  shows "refusal st st' r \<or> (\<exists>c. acceptance dev H st st' r c)" "\<forall>p ev b. r \<noteq> Mapped p ev b"
proof -
  let ?st = "(fst st, (snd st)\<lparr>WMaps := S\<rparr>)"
  have "(refusal st st' r \<or> (\<exists>c. acceptance dev H st st' r c)) \<and> (\<forall>p ev b. r \<noteq> Mapped p ev b)"
  proof (cases created)
    case (Pair oc e)
    show ?thesis
    proof (cases oc)
      case None
      with Pair assms show ?thesis by (auto simp: enqueue_created_def created_ok_def refusal_def)
    next
      case (Some cmd)
      then obtain x where E: "Enqueue dev cmd ?st = Some (st', x)"
        and r: "r = (case x of Inl e \<Rightarrow> Refused e | Inr (ev, blocks) \<Rightarrow> Accepted (if want then Some ev else None) blocks)"
        using assms(2) by (auto simp: enqueue_created_def Pair)
      show ?thesis
      proof (cases x)
        case (Inl e)
        with Enqueue_error [of dev cmd ?st st' e] E r show ?thesis by (auto simp: refusal_def)
      next
        case (Inr p)
        obtain ev b where p: "p = (ev, b)" by fastforce
        have "acceptance dev H st st' r \<lparr>QEvent = ev, QCmd = cmd\<rparr>"
          using assms(1) E r Inr p Some Pair
          by (auto simp: acceptance_def created_ok_def reply_event_def intro!: exI [of _ S])
        with r Inr p show ?thesis by auto
      qed
    qed
  qed
  then show "refusal st st' r \<or> (\<exists>c. acceptance dev H st st' r c)" "\<forall>p ev b. r \<noteq> Mapped p ev b" by blast+
qed

lemma enqueue_outcome:
  "created_ok H created \<Longrightarrow> f st = enqueue_created dev want created st \<Longrightarrow> outcome dev H f st"
  using created_outcome(1) [of H created dev want st "WMaps (snd st)"] by (simp add: outcome_def)

lemma mapped_refusal: "refusal st st' r \<Longrightarrow> refusal st st' (mapped_reply p r)"
  by (auto simp: refusal_def mapped_reply_def)

lemma mapped_acceptance: "acceptance dev H st st' r c \<Longrightarrow> acceptance dev H st st' (mapped_reply p r) c"
  unfolding acceptance_def by (cases r) (simp_all add: mapped_reply_def reply_event_def)

lemma mapped_outcome:
  assumes "created_ok H created"
    and "f st = map_option (\<lambda>(st', r). (st', mapped_reply p r))
                  (enqueue_created dev want created (fst st, (snd st)\<lparr>WMaps := S\<rparr>))"
  shows "outcome dev H f st"
  unfolding outcome_def
proof (intro allI impI)
  fix st' r assume "f st = Some (st', r)"
  then obtain r1 where "enqueue_created dev want created (fst st, (snd st)\<lparr>WMaps := S\<rparr>) = Some (st', r1)"
    and "r = mapped_reply p r1"
    using assms(2) by auto
  then show "refusal st st' r \<or> (\<exists>c. acceptance dev H st st' r c)"
    using created_outcome(1) [OF assms(1)] mapped_refusal mapped_acceptance by metis
qed

lemma image_outcome: "outcome dev H f st \<Longrightarrow> outcome dev H (image_guard f) st"
  by (simp add: outcome_def image_guard_def refusal_same)

lemma outcome_None: "f st = None \<Longrightarrow> outcome dev H f st"
  by (simp add: outcome_def)

section \<open>The created commands\<close>

lemma create_command_ok:
  "set (CmdWaitList cmd) \<subseteq> H \<Longrightarrow> (\<And>k D. CmdPayload cmd \<noteq> NDRangeKernel k D) \<Longrightarrow>
   created_ok H (create_command b cmd)"
  by (simp add: created_ok_def create_command_def command_ok_def)

lemma fresh_waits:
  "bWait b = [] \<Longrightarrow> set (bWait (SetWaitList_plain E N Evs b)) \<subseteq> handle_events N Evs"
  "bWait c = [] \<Longrightarrow> set (bWait (SetWaitList_blocking E N Evs c)) \<subseteq> handle_events N Evs"
  "bWait b = [] \<Longrightarrow> set (bWait (CommandBuilder_SetWaitList N Evs b)) \<subseteq> handle_events N Evs"
  using SetWaitList_waits'(1) [of E N Evs b] SetWaitList_waits'(2) [of E N Evs c] SetWaitList_waits [of N Evs b]
  by simp_all

named_theorems created

lemma created_blocking [created]:
  "bWait rb = [] \<Longrightarrow> created_ok (handle_events N Evs) (ReadBuffer_Create (ReadBuffer_SetWaitList E N Evs rb))"
  "bWait wb = [] \<Longrightarrow> created_ok (handle_events N Evs) (WriteBuffer_Create (WriteBuffer_SetWaitList E N Evs wb))"
  "bWait rr = [] \<Longrightarrow> created_ok (handle_events N Evs) (ReadBufferRect_Create (ReadBufferRect_SetWaitList E N Evs rr))"
  "bWait wr = [] \<Longrightarrow> created_ok (handle_events N Evs) (WriteBufferRect_Create (WriteBufferRect_SetWaitList E N Evs wr))"
  "bWait ri = [] \<Longrightarrow> created_ok (handle_events N Evs) (ReadImage_Create (ReadImage_SetWaitList E N Evs ri))"
  "bWait wi = [] \<Longrightarrow> created_ok (handle_events N Evs) (WriteImage_Create (WriteImage_SetWaitList E N Evs wi))"
  "bWait mb = [] \<Longrightarrow> created_ok (handle_events N Evs) (MapBuffer_Create (MapBuffer_SetWaitList E N Evs mb))"
  "bWait mi = [] \<Longrightarrow> created_ok (handle_events N Evs) (MapImage_Create (MapImage_SetWaitList E N Evs mi))"
  by (simp_all add: ReadBuffer_Create_def WriteBuffer_Create_def ReadBufferRect_Create_def WriteBufferRect_Create_def
        ReadImage_Create_def WriteImage_Create_def MapBuffer_Create_def MapImage_Create_def create_command_ok fresh_waits
        ReadBuffer_SetWaitList_def WriteBuffer_SetWaitList_def ReadBufferRect_SetWaitList_def
        WriteBufferRect_SetWaitList_def ReadImage_SetWaitList_def WriteImage_SetWaitList_def MapBuffer_SetWaitList_def
        MapImage_SetWaitList_def EnqueueReadBuffer_def EnqueueWriteBuffer_def EnqueueReadBufferRect_def
        EnqueueWriteBufferRect_def EnqueueReadImage_def EnqueueWriteImage_def EnqueueMapBuffer_def EnqueueMapImage_def)

lemma created_plain [created]:
  "bWait cb = [] \<Longrightarrow> created_ok (handle_events N Evs) (CopyBuffer_Create (CopyBuffer_SetWaitList E N Evs cb))"
  "bWait fb = [] \<Longrightarrow> created_ok (handle_events N Evs) (FillBuffer_Create m (FillBuffer_SetWaitList E N Evs fb))"
  "bWait cr = [] \<Longrightarrow> created_ok (handle_events N Evs) (CopyBufferRect_Create (CopyBufferRect_SetWaitList E N Evs cr))"
  "bWait ci = [] \<Longrightarrow> created_ok (handle_events N Evs) (CopyImage_Create (CopyImage_SetWaitList E N Evs ci))"
  "bWait ib = [] \<Longrightarrow> created_ok (handle_events N Evs) (CopyImageToBuffer_Create (CopyImageToBuffer_SetWaitList E N Evs ib))"
  "bWait bi = [] \<Longrightarrow> created_ok (handle_events N Evs) (CopyBufferToImage_Create (CopyBufferToImage_SetWaitList E N Evs bi))"
  "bWait fi = [] \<Longrightarrow> created_ok (handle_events N Evs) (FillImage_Create m (FillImage_SetWaitList E N Evs fi))"
  "bWait um = [] \<Longrightarrow> created_ok (handle_events N Evs) (UnmapMemObject_Create (UnmapMemObject_SetWaitList N Evs um))"
  "bWait nk = [] \<Longrightarrow> created_ok (handle_events N Evs) (Native_Create m (Native_SetWaitList N Evs nk))"
  "bWait mk = [] \<Longrightarrow> created_ok (handle_events N Evs) (Marker_Create (Marker_SetWaitList E N Evs mk))"
  "bWait ba = [] \<Longrightarrow> created_ok (handle_events N Evs) (Barrier_Create (Barrier_SetWaitList E N Evs ba))"
  by (simp_all add: CopyBuffer_Create_def FillBuffer_Create_def CopyBufferRect_Create_def CopyImage_Create_def
        CopyImageToBuffer_Create_def CopyBufferToImage_Create_def FillImage_Create_def UnmapMemObject_Create_def
        Native_Create_def Marker_Create_def Barrier_Create_def create_command_ok fresh_waits
        CopyBuffer_SetWaitList_def FillBuffer_SetWaitList_def CopyBufferRect_SetWaitList_def CopyImage_SetWaitList_def
        CopyImageToBuffer_SetWaitList_def CopyBufferToImage_SetWaitList_def FillImage_SetWaitList_def
        UnmapMemObject_SetWaitList_def Native_SetWaitList_def Marker_SetWaitList_def Barrier_SetWaitList_def
        EnqueueCopyBuffer_def EnqueueFillBuffer_def EnqueueCopyBufferRect_def EnqueueCopyImage_def
        EnqueueCopyImageToBuffer_def EnqueueCopyBufferToImage_def EnqueueFillImage_def EnqueueUnmapMemObject_def
        EnqueueNativeKernel_def EnqueueMarker_def EnqueueBarrier_def)

section \<open>The entry points\<close>

text \<open>The sizes of a kernel must be given for each dimension, and its work-items fit 32 bits.\<close>

definition kernel_args_ok ::
  "nat \<Rightarrow> size_t list option \<Rightarrow> size_t list option \<Rightarrow> size_t list option \<Rightarrow> bool" where
  "kernel_args_ok N os gs ls \<longleftrightarrow>
     sizes_given N os \<and> sizes_given N gs \<and> sizes_given N ls \<and> prod_list (map unat (the gs)) < 2 ^ 32"

lemma wait_ids_events: "wait_args_ok N Evs \<Longrightarrow> set (wait_ids N Evs) \<subseteq> handle_events N Evs"
  by (auto simp: wait_ids_def wait_args_ok_def handle_events_def split: option.splits) (metis option.collapse)

lemma created_ndrange:
  assumes "NDRange_Builder Ctx Dev K N gs = Some b0" "NDRange_SetGlobalWorkOffset os b0 = Some b1"
    and "NDRange_SetLocalWorkSize ls b1 = Some b2" "kernel_args_ok N os gs ls"
  shows "created_ok (handle_events n Evs) (NDRange_Create (NDRange_SetWaitList n Evs b2))"
proof (cases "NDRange_Create (NDRange_SetWaitList n Evs b2)")
  case (Pair oc e)
  show ?thesis
  proof (cases oc)
    case None
    with Pair show ?thesis by (auto simp: created_ok_def NDRange_Create_def create_command_def split: if_splits)
  next
    case (Some cmd)
    have a: "sizes_given N gs" "sizes_given N os" "sizes_given N ls" "prod_list (map unat (the gs)) < 2 ^ 32"
      using assms(4) by (simp_all add: kernel_args_ok_def)
    note D = ndrange_dims [OF assms(1-3) Pair [unfolded Some] a]
    from D(1) have "command_ok \<lparr>QEvent = i, QCmd = cmd\<rparr>" for i by (auto simp: command_ok_def)
    with D(2) wait_ids_events [OF D(4)] Pair Some show ?thesis by (simp add: created_ok_def)
  qed
qed

lemma ndrange_entry:
  assumes "kernel_args_ok N os gs ls"
  shows "entry_point dev (handle_events n Evs) (clEnqueueNDRangeKernel dev K N os gs ls n Evs want)"
  unfolding clEnqueueNDRangeKernel_def
proof (rule with_queue_entry)
  show "outcome dev (handle_events n Evs)
     (\<lambda>st. case NDRange_Builder (QContext (info_of st)) (QDevice (info_of st)) K N gs of None \<Rightarrow> None
       | Some Bld \<Rightarrow> (case NDRange_SetGlobalWorkOffset os Bld of None \<Rightarrow> None
       | Some Bld1 \<Rightarrow> (case NDRange_SetLocalWorkSize ls Bld1 of None \<Rightarrow> None
       | Some Bld2 \<Rightarrow> enqueue_created dev want (NDRange_Create (NDRange_SetWaitList n Evs Bld2)) st))) (q, w)" for q w
  proof (cases "NDRange_Builder (QContext (QInfo q)) (QDevice (QInfo q)) K N gs")
    case None
    then show ?thesis by (simp add: outcome_None)
  next
    case b0: (Some b0)
    show ?thesis
    proof (cases "NDRange_SetGlobalWorkOffset os b0")
      case None
      with b0 show ?thesis by (simp add: outcome_None)
    next
      case b1: (Some b1)
      show ?thesis
      proof (cases "NDRange_SetLocalWorkSize ls b1")
        case None
        with b0 b1 show ?thesis by (simp add: outcome_None)
      next
        case b2: (Some b2)
        show ?thesis
          by (rule enqueue_outcome [OF created_ndrange [OF b0 b1 b2 assms]]) (simp add: b0 b1 b2)
      qed
    qed
  qed
qed

lemma outcome_if:
  "e \<noteq> CL_SUCCESS \<Longrightarrow> outcome dev H f st \<Longrightarrow> outcome dev H (\<lambda>st. if c st then Some (st, Refused e) else f st) st"
  by (simp add: outcome_def refusal_same)

lemma outcome_enqueue: "created_ok H (F st) \<Longrightarrow> outcome dev H (\<lambda>st. enqueue_created dev want (F st) st) st"
  by (rule enqueue_outcome) simp_all

lemma outcome_opened:
  "(\<And>Bld. Op st = Some Bld \<Longrightarrow> created_ok H (F st Bld)) \<Longrightarrow>
   outcome dev H (\<lambda>st. case Op st of None \<Rightarrow> None | Some Bld \<Rightarrow> enqueue_created dev want (F st Bld) st) st"
  by (cases "Op st") (simp_all add: outcome_None enqueue_outcome)

lemmas entry_rules = with_queue_entry outcome_if image_outcome outcome_enqueue outcome_opened created

text \<open>The entry points without a mapping, and then the others.\<close>

interpretation ReadBuffer: entry_point dev "handle_events N Evs" "clEnqueueReadBuffer dev buf B off cb p N Evs want"
  for dev buf B off cb p N Evs want
  unfolding clEnqueueReadBuffer_def by (intro entry_rules) (auto simp: waits)

interpretation WriteBuffer: entry_point dev "handle_events N Evs" "clEnqueueWriteBuffer dev buf B off cb p N Evs want"
  for dev buf B off cb p N Evs want
  unfolding clEnqueueWriteBuffer_def by (intro entry_rules) (auto simp: waits)

interpretation ReadBufferRect: entry_point dev "handle_events N Evs" "clEnqueueReadBufferRect dev buf B bo ho reg brp bsp hrp hsp p N Evs want"
  for dev buf B bo ho reg brp bsp hrp hsp p N Evs want
  unfolding clEnqueueReadBufferRect_def by (intro entry_rules) (auto simp: waits)

interpretation WriteBufferRect: entry_point dev "handle_events N Evs" "clEnqueueWriteBufferRect dev buf B bo ho reg brp bsp hrp hsp p N Evs want"
  for dev buf B bo ho reg brp bsp hrp hsp p N Evs want
  unfolding clEnqueueWriteBufferRect_def by (intro entry_rules) (auto simp: waits)

interpretation FillBuffer: entry_point dev "handle_events N Evs" "clEnqueueFillBuffer dev m buf pat psz off n N Evs want"
  for dev m buf pat psz off n N Evs want
  unfolding clEnqueueFillBuffer_def by (intro entry_rules) (auto simp: waits)

interpretation CopyBuffer: entry_point dev "handle_events N Evs" "clEnqueueCopyBuffer dev src dst so to cb N Evs want"
  for dev src dst so to cb N Evs want
  unfolding clEnqueueCopyBuffer_def by (intro entry_rules) (auto simp: waits)

interpretation CopyBufferRect: entry_point dev "handle_events N Evs" "clEnqueueCopyBufferRect dev src dst so dor reg srp ssp drp dsp N Evs want"
  for dev src dst so dor reg srp ssp drp dsp N Evs want
  unfolding clEnqueueCopyBufferRect_def by (intro entry_rules) (auto simp: waits)

interpretation ReadImage: entry_point dev "handle_events N Evs" "clEnqueueReadImage dev img B org reg rp sp p N Evs want"
  for dev img B org reg rp sp p N Evs want
  unfolding clEnqueueReadImage_def by (intro entry_rules) (auto simp: waits)

interpretation WriteImage: entry_point dev "handle_events N Evs" "clEnqueueWriteImage dev img B org reg rp sp p N Evs want"
  for dev img B org reg rp sp p N Evs want
  unfolding clEnqueueWriteImage_def by (intro entry_rules) (auto simp: waits)

interpretation FillImage: entry_point dev "handle_events N Evs" "clEnqueueFillImage dev m img col org reg N Evs want"
  for dev m img col org reg N Evs want
  unfolding clEnqueueFillImage_def by (intro entry_rules) (auto simp: waits)

interpretation CopyImage: entry_point dev "handle_events N Evs" "clEnqueueCopyImage dev src dst so dor reg N Evs want"
  for dev src dst so dor reg N Evs want
  unfolding clEnqueueCopyImage_def by (intro entry_rules) (auto simp: waits)

interpretation CopyImageToBuffer: entry_point dev "handle_events N Evs" "clEnqueueCopyImageToBuffer dev src dst so reg off N Evs want"
  for dev src dst so reg off N Evs want
  unfolding clEnqueueCopyImageToBuffer_def by (intro entry_rules) (auto simp: waits)

interpretation CopyBufferToImage: entry_point dev "handle_events N Evs" "clEnqueueCopyBufferToImage dev src dst off dor reg N Evs want"
  for dev src dst off dor reg N Evs want
  unfolding clEnqueueCopyBufferToImage_def by (intro entry_rules) (auto simp: waits)

interpretation NativeKernel: entry_point dev "handle_events N Evs" "clEnqueueNativeKernel dev m fn arg cbarg nm ms locs N Evs want"
  for dev m fn arg cbarg nm ms locs N Evs want
  unfolding clEnqueueNativeKernel_def by (intro entry_rules) (auto simp: waits)

interpretation MarkerWithWaitList: entry_point dev "handle_events N Evs" "clEnqueueMarkerWithWaitList dev N Evs want"
  for dev N Evs want
  unfolding clEnqueueMarkerWithWaitList_def by (intro entry_rules) (auto simp: waits)

interpretation BarrierWithWaitList: entry_point dev "handle_events N Evs" "clEnqueueBarrierWithWaitList dev N Evs want"
  for dev N Evs want
  unfolding clEnqueueBarrierWithWaitList_def by (intro entry_rules) (auto simp: waits)

text \<open>Marking and waiting test their own arguments before the queue.\<close>

interpretation Marker: entry_point dev "{}" "clEnqueueMarker dev want" for dev want
proof -
  have H: "handle_events 0 None = {}" by (simp add: handle_events_def)
  show "entry_point dev {} (clEnqueueMarker dev want)"
  proof (cases want)
    case True
    then have "clEnqueueMarker dev want = clEnqueueMarkerWithWaitList dev 0 None want"
      by (auto simp: clEnqueueMarker_def)
    then show ?thesis using MarkerWithWaitList.entry_point_axioms [of dev 0 None want] by (simp add: H)
  next
    case False
    then have "clEnqueueMarker dev want st = Some (st, Refused CL_INVALID_VALUE)" for st
      by (simp add: clEnqueueMarker_def)
    then show ?thesis by unfold_locales (auto simp: refusal_same)
  qed
qed

interpretation WaitForEvents: entry_point dev "handle_events N Evs" "clEnqueueWaitForEvents dev N Evs" for dev N Evs
proof -
  have "clEnqueueWaitForEvents dev N Evs = clEnqueueBarrierWithWaitList dev N Evs False \<or>
        (\<exists>e. e \<noteq> CL_SUCCESS \<and> (\<forall>st. clEnqueueWaitForEvents dev N Evs st = Some (st, Refused e)))"
  proof (cases Evs)
    case None
    then show ?thesis by (intro disjI2 exI [of _ CL_INVALID_VALUE]) (simp add: clEnqueueWaitForEvents_def)
  next
    case (Some es)
    consider "N = 0" | "N \<noteq> 0" "None \<in> set (take N es)" | "N \<noteq> 0" "None \<notin> set (take N es)" by blast
    then show ?thesis
    proof cases
      case 1
      with Some show ?thesis by (intro disjI2 exI [of _ CL_INVALID_VALUE]) (simp add: clEnqueueWaitForEvents_def)
    next
      case 2
      with Some show ?thesis by (intro disjI2 exI [of _ CL_INVALID_EVENT]) (simp add: clEnqueueWaitForEvents_def)
    next
      case 3
      with Some show ?thesis by (intro disjI1 ext) (simp add: clEnqueueWaitForEvents_def)
    qed
  qed
  then consider "clEnqueueWaitForEvents dev N Evs = clEnqueueBarrierWithWaitList dev N Evs False"
    | e where "e \<noteq> CL_SUCCESS" "\<And>st. clEnqueueWaitForEvents dev N Evs st = Some (st, Refused e)"
    by blast
  then show "entry_point dev (handle_events N Evs) (clEnqueueWaitForEvents dev N Evs)"
  proof cases
    case 1
    then show ?thesis using BarrierWithWaitList.entry_point_axioms [of dev N Evs False] by simp
  next
    case (2 e)
    then show ?thesis by unfold_locales (auto simp: refusal_same)
  qed
qed

interpretation Barrier: entry_point dev "{}" "clEnqueueBarrier dev" for dev
  using BarrierWithWaitList.entry_point_axioms [of dev 0 None False]
  by (simp add: clEnqueueBarrier_def handle_events_def)

interpretation Task: entry_point dev "handle_events N Evs" "clEnqueueTask dev K N Evs want" for dev K N Evs want
  unfolding clEnqueueTask_def by (rule ndrange_entry) (simp add: kernel_args_ok_def sizes_given_def)

text \<open>Mapping changes the records of mappings before it enqueues.\<close>

interpretation UnmapMemObject: entry_point dev "handle_events N Evs" "clEnqueueUnmapMemObject dev mo p N Evs want"
  for dev mo p N Evs want
proof (cases mo)
  case None
  show "entry_point dev (handle_events N Evs) (clEnqueueUnmapMemObject dev mo p N Evs want)"
    unfolding clEnqueueUnmapMemObject_def None by (intro entry_rules) (simp_all add: outcome_None)
next
  case (Some MemObj)
  show "entry_point dev (handle_events N Evs) (clEnqueueUnmapMemObject dev mo p N Evs want)"
    unfolding clEnqueueUnmapMemObject_def Some option.case by (intro entry_rules) (simp_all add: waits)
qed

interpretation MapBuffer: entry_point dev "handle_events N Evs"
    "clEnqueueMapBuffer dev dm junk buf B fl off cb N Evs want"
  for dev dm junk buf B fl off cb N Evs want
  unfolding clEnqueueMapBuffer_def
proof (intro with_queue_entry outcome_if)
  show "outcome dev (handle_events N Evs) (\<lambda>st.
      let Bld = MapBuffer_SetMapArea off cb (MapBuffer_SetMapFlags fl (MapBuffer_SetBlocking (events_of st) B
                  (MapBuffer_Builder (info_of st) buf)));
          (S, Bld1) = MapBuffer_SetMapBuffer dm junk (WMaps (snd st)) Bld;
          st1 = (fst st, (snd st)\<lparr>WMaps := S\<rparr>)
      in map_option (\<lambda>(st', r). (st', mapped_reply (mbMapBuf Bld1) r))
           (enqueue_created dev want
              (MapBuffer_Create (MapBuffer_SetWaitList (events_of st1) N Evs Bld1)) st1)) (q, w)" for q w
  proof -
    let ?Bld = "MapBuffer_SetMapArea off cb (MapBuffer_SetMapFlags fl (MapBuffer_SetBlocking (WEvents w) B
                  (MapBuffer_Builder (QInfo q) buf)))"
    obtain S Bld1 where B: "MapBuffer_SetMapBuffer dm junk (WMaps w) ?Bld = (S, Bld1)" by fastforce
    have "bWait Bld1 = []" using map_buffer_waits(5) [OF B] by (simp add: waits)
    then show ?thesis
      by (intro mapped_outcome [where S = S and p = "mbMapBuf Bld1" and want = want,
            OF created_blocking(7) [of Bld1 N Evs "WEvents w"]]) (simp_all add: B)
  qed
qed simp_all

interpretation MapImage: entry_point dev "handle_events N Evs"
    "clEnqueueMapImage dev dm junk img B fl org reg rg sg N Evs want"
  for dev dm junk img B fl org reg rg sg N Evs want
  unfolding clEnqueueMapImage_def
proof (intro with_queue_entry outcome_if)
  show "outcome dev (handle_events N Evs) (image_guard (\<lambda>st.
      case MapImage_SetMapPitches rg sg (MapImage_SetMapFlags fl (MapImage_SetBlocking (events_of st) B
             (MapImage_Builder (info_of st) img))) of
        None \<Rightarrow> None
      | Some Bld \<Rightarrow>
        let (S, Bld1) = MapImage_SetMapBuffer dm junk (WMaps (snd st)) (MapImage_SetMapArea org reg Bld);
            st1 = (fst st, (snd st)\<lparr>WMaps := S\<rparr>)
        in map_option (\<lambda>(st', r). (st', mapped_reply (miMapBuf Bld1) r))
             (enqueue_created dev want
                (MapImage_Create (MapImage_SetWaitList (events_of st1) N Evs Bld1)) st1))) (q, w)" for q w
  proof (rule image_outcome, cases "MapImage_SetMapPitches rg sg (MapImage_SetMapFlags fl
           (MapImage_SetBlocking (WEvents w) B (MapImage_Builder (QInfo q) img)))")
    case (Some Bld)
    obtain S Bld1 where B: "MapImage_SetMapBuffer dm junk (WMaps w) (MapImage_SetMapArea org reg Bld) = (S, Bld1)"
      by fastforce
    have "bWait Bld1 = []" using map_image_waits(6) [OF B] map_image_waits(4) [OF Some] by (simp add: waits)
    then show "outcome dev (handle_events N Evs) (\<lambda>st.
      case MapImage_SetMapPitches rg sg (MapImage_SetMapFlags fl (MapImage_SetBlocking (events_of st) B
             (MapImage_Builder (info_of st) img))) of
        None \<Rightarrow> None
      | Some Bld \<Rightarrow>
        let (S, Bld1) = MapImage_SetMapBuffer dm junk (WMaps (snd st)) (MapImage_SetMapArea org reg Bld);
            st1 = (fst st, (snd st)\<lparr>WMaps := S\<rparr>)
        in map_option (\<lambda>(st', r). (st', mapped_reply (miMapBuf Bld1) r))
             (enqueue_created dev want
                (MapImage_Create (MapImage_SetWaitList (events_of st1) N Evs Bld1)) st1)) (q, w)"
      by (intro mapped_outcome [where S = S and p = "miMapBuf Bld1" and want = want,
            OF created_blocking(8) [of Bld1 N Evs "WEvents w"]]) (simp_all add: Some B)
  qed (simp add: outcome_None)
qed simp_all

end
