(* ===== verification/API_Buffers.thy ===== *)
theory API_Buffers
  imports Enqueue_API Queue_Order
begin

text \<open>
  When \<open>clEnqueueReadBuffer\<close> and \<open>clEnqueueWriteBuffer\<close> accept a call, and the command they then
  enqueue.
\<close>

section \<open>What the two chains test\<close>

text \<open>The object can be accessed by the host in the direction that is not \<open>forbidden\<close>.\<close>

definition host_access_ok :: "queue_info \<Rightarrow> mem_flags \<Rightarrow> mem_object \<Rightarrow> bool" where
  "host_access_ok Q forbidden mo \<longleftrightarrow>
     buffer_accepted Q (\<lambda>mo. access_allowed forbidden mo \<and> getContext mo = QContext Q) mo"

definition waits_ok ::
  "(event_id \<Rightarrow> event) \<Rightarrow> ctx_id \<Rightarrow> bool \<Rightarrow> nat \<Rightarrow> event_id option list option \<Rightarrow> bool" where
  "waits_ok E ctx blocking N Evs \<longleftrightarrow>
     wait_args_ok N Evs \<and> same_context_events E ctx (wait_ids N Evs) \<and>
     \<not> (blocking \<and> (\<exists>e \<in> set (wait_ids N Evs). IsError (E e)))"

definition transfer_ok ::
  "queue_info \<Rightarrow> mem_flags \<Rightarrow> (event_id \<Rightarrow> event) \<Rightarrow> cl_mem \<Rightarrow> bool \<Rightarrow> size_t \<Rightarrow> size_t \<Rightarrow> ptr \<Rightarrow> nat \<Rightarrow>
   event_id option list option \<Rightarrow> bool" where
  "transfer_ok Q forbidden E buf blocking off n p N Evs \<longleftrightarrow>
     p \<noteq> NULL \<and> (\<exists>mo. buf = Some mo \<and> host_access_ok Q forbidden mo \<and> off + n \<le> getSize mo) \<and>
     waits_ok E (QContext Q) blocking N Evs"

abbreviation read_chain where
  "read_chain Q E buf B off n p N Evs \<equiv>
     ReadBuffer_SetWaitList E N Evs
       (ReadBuffer_SetCopyArea off n (ReadBuffer_SetBlocking E B (ReadBuffer_Builder Q buf p)))"

abbreviation write_chain where
  "write_chain Q E buf B off n p N Evs \<equiv>
     WriteBuffer_SetWaitList E N Evs
       (WriteBuffer_SetCopyArea off n (WriteBuffer_SetBlocking E B (WriteBuffer_Builder Q buf p)))"

lemma ReadBuffer_Builder_ok:
  "bErr (ReadBuffer_Builder Q buf p) = CL_SUCCESS \<longleftrightarrow>
     p \<noteq> NULL \<and> (\<exists>mo. buf = Some mo \<and> host_access_ok Q CL_MEM_HOST_WRITE_ONLY mo)"
  unfolding ReadBuffer_Builder_def check_pointer_ok host_access_ok_def
  by (subst with_buffer_ok) auto

lemma WriteBuffer_Builder_ok:
  "bErr (WriteBuffer_Builder Q buf p) = CL_SUCCESS \<longleftrightarrow>
     p \<noteq> NULL \<and> (\<exists>mo. buf = Some mo \<and> host_access_ok Q CL_MEM_HOST_READ_ONLY mo)"
  unfolding WriteBuffer_Builder_def check_pointer_ok host_access_ok_def
  by (subst with_buffer_ok) auto

lemma ReadBuffer_Builder_value:
  assumes "p \<noteq> NULL" "host_access_ok Q CL_MEM_HOST_WRITE_ONLY mo"
  shows "ReadBuffer_Builder Q (Some mo) p =
    \<lparr>bCtx = QContext Q, bErr = CL_SUCCESS, bWait = [], bDiag = [], bBlocking = False,
     rbSource = Some mo, rbTarget = p, rbOffset = 0, rbSize = 0\<rparr>"
  unfolding ReadBuffer_Builder_def check_pointer_ok(2) [OF assms(1)]
  by (subst with_buffer_value [OF _ assms(2) [unfolded host_access_ok_def]]) simp_all

lemma WriteBuffer_Builder_value:
  assumes "p \<noteq> NULL" "host_access_ok Q CL_MEM_HOST_READ_ONLY mo"
  shows "WriteBuffer_Builder Q (Some mo) p =
    \<lparr>bCtx = QContext Q, bErr = CL_SUCCESS, bWait = [], bDiag = [], bBlocking = False,
     wbTarget = Some mo, wbSource = p, wbOffset = 0, wbSize = 0\<rparr>"
  unfolding WriteBuffer_Builder_def check_pointer_ok(2) [OF assms(1)]
  by (subst with_buffer_value [OF _ assms(2) [unfolded host_access_ok_def]]) simp_all

lemma ReadBuffer_SetCopyArea_error: "bErr b \<noteq> CL_SUCCESS \<Longrightarrow> bErr (ReadBuffer_SetCopyArea off n b) \<noteq> CL_SUCCESS"
  by (simp add: ReadBuffer_SetCopyArea_def split: option.split)

lemma WriteBuffer_SetCopyArea_error: "bErr b \<noteq> CL_SUCCESS \<Longrightarrow> bErr (WriteBuffer_SetCopyArea off n b) \<noteq> CL_SUCCESS"
  by (simp add: WriteBuffer_SetCopyArea_def split: option.split)

lemma SetBlocking_error: "bErr b \<noteq> CL_SUCCESS \<Longrightarrow> bErr (SetBlocking_common E B b) \<noteq> CL_SUCCESS"
  by (simp add: SetBlocking_common_def)

lemma SetWaitList_error: "bErr b \<noteq> CL_SUCCESS \<Longrightarrow> bErr (SetWaitList_blocking E N Evs b) \<noteq> CL_SUCCESS"
  by (simp add: SetWaitList_blocking_ok)

lemma read_chain_ok:
  "bErr (read_chain Q E buf B off n p N Evs) = CL_SUCCESS \<longleftrightarrow>
     transfer_ok Q CL_MEM_HOST_WRITE_ONLY E buf B off n p N Evs"
proof (cases "bErr (ReadBuffer_Builder Q buf p) = CL_SUCCESS")
  case False
  then have "bErr (read_chain Q E buf B off n p N Evs) \<noteq> CL_SUCCESS"
    by (simp add: ReadBuffer_SetWaitList_def ReadBuffer_SetBlocking_def SetWaitList_error SetBlocking_error
                  ReadBuffer_SetCopyArea_error)
  with False show ?thesis unfolding ReadBuffer_Builder_ok transfer_ok_def by blast
next
  case True
  then obtain mo where b: "p \<noteq> NULL" "buf = Some mo" "host_access_ok Q CL_MEM_HOST_WRITE_ONLY mo"
    by (auto simp: ReadBuffer_Builder_ok)
  show ?thesis
    by (auto simp: b ReadBuffer_Builder_value ReadBuffer_SetBlocking_def ReadBuffer_SetCopyArea_def
         ReadBuffer_SetWaitList_def SetWaitList_blocking_ok transfer_ok_def waits_ok_def not_less)
qed

lemma read_chain_value:
  assumes "transfer_ok Q CL_MEM_HOST_WRITE_ONLY E (Some mo) B off n p N Evs"
  shows "ReadBuffer_Create (read_chain Q E (Some mo) B off n p N Evs) =
           (Some (EnqueueReadBuffer p mo B off n (wait_ids N Evs)), CL_SUCCESS)"
proof -
  have e: "bErr (read_chain Q E (Some mo) B off n p N Evs) = CL_SUCCESS" using assms by (simp add: read_chain_ok)
  have "p \<noteq> NULL" "host_access_ok Q CL_MEM_HOST_WRITE_ONLY mo" "\<not> getSize mo < off + n"
    using assms by (auto simp: transfer_ok_def)
  note V = ReadBuffer_Builder_value [OF this(1,2)] this(3)
  show ?thesis
    using SetWaitList_blocking_value [OF e [unfolded ReadBuffer_SetWaitList_def]] e
    by (simp add: ReadBuffer_Create_def create_command_def ReadBuffer_SetWaitList_def)
      (simp add: V ReadBuffer_SetBlocking_def ReadBuffer_SetCopyArea_def)
qed

lemma write_chain_ok:
  "bErr (write_chain Q E buf B off n p N Evs) = CL_SUCCESS \<longleftrightarrow>
     transfer_ok Q CL_MEM_HOST_READ_ONLY E buf B off n p N Evs"
proof (cases "bErr (WriteBuffer_Builder Q buf p) = CL_SUCCESS")
  case False
  then have "bErr (write_chain Q E buf B off n p N Evs) \<noteq> CL_SUCCESS"
    by (simp add: WriteBuffer_SetWaitList_def WriteBuffer_SetBlocking_def SetWaitList_error SetBlocking_error
                  WriteBuffer_SetCopyArea_error)
  with False show ?thesis unfolding WriteBuffer_Builder_ok transfer_ok_def by blast
next
  case True
  then obtain mo where b: "p \<noteq> NULL" "buf = Some mo" "host_access_ok Q CL_MEM_HOST_READ_ONLY mo"
    by (auto simp: WriteBuffer_Builder_ok)
  show ?thesis
    by (auto simp: b WriteBuffer_Builder_value WriteBuffer_SetBlocking_def WriteBuffer_SetCopyArea_def
         WriteBuffer_SetWaitList_def SetWaitList_blocking_ok transfer_ok_def waits_ok_def not_less)
qed

lemma write_chain_value:
  assumes "transfer_ok Q CL_MEM_HOST_READ_ONLY E (Some mo) B off n p N Evs"
  shows "WriteBuffer_Create (write_chain Q E (Some mo) B off n p N Evs) =
           (Some (EnqueueWriteBuffer mo p B off n (wait_ids N Evs)), CL_SUCCESS)"
proof -
  have e: "bErr (write_chain Q E (Some mo) B off n p N Evs) = CL_SUCCESS" using assms by (simp add: write_chain_ok)
  have "p \<noteq> NULL" "host_access_ok Q CL_MEM_HOST_READ_ONLY mo" "\<not> getSize mo < off + n"
    using assms by (auto simp: transfer_ok_def)
  note V = WriteBuffer_Builder_value [OF this(1,2)] this(3)
  show ?thesis
    using SetWaitList_blocking_value [OF e [unfolded WriteBuffer_SetWaitList_def]] e
    by (simp add: WriteBuffer_Create_def create_command_def WriteBuffer_SetWaitList_def)
      (simp add: V WriteBuffer_SetBlocking_def WriteBuffer_SetCopyArea_def)
qed

section \<open>The outcome of a call\<close>

definition accepted_run ::
  "('m, 'd) device \<Rightarrow> bool \<Rightarrow> command \<Rightarrow> cmd_queue \<Rightarrow> ('m, 'd) world \<Rightarrow> ('m, 'd) api_result" where
  "accepted_run dev want cmd q w =
     map_option (\<lambda>((q', w'), again). ((Some q', w'), Accepted (if want then Some (WNext w) else None) (CmdBlocking cmd)))
       (RunScheduler dev (pushed q cmd w))"

lemma created_accepted:
  assumes "same_context_events (WEvents w) (QContext (QInfo q)) (CmdWaitList cmd)" "\<not> is_native_kernel cmd"
  shows "map_option (\<lambda>((q', w'), r). ((Some q', w'), r)) (enqueue_created dev want (Some cmd, e) (q, w)) =
           accepted_run dev want cmd q w"
  using assms
  by (auto simp: enqueue_created_def Enqueue_unfold accepted_run_def pushed_def same_context_events_def Let_def
           option.map_comp comp_def split_beta intro!: map_option_cong)

lemma read_buffer_run:
  assumes "n \<noteq> 0" "transfer_ok (QInfo q) CL_MEM_HOST_WRITE_ONLY (WEvents w) (Some mo) B off n p N Evs"
  shows "clEnqueueReadBuffer dev (Some mo) B off n p N Evs want (Some q, w) =
           accepted_run dev want (EnqueueReadBuffer p mo B off n (wait_ids N Evs)) q w"
proof -
  have "same_context_events (WEvents w) (QContext (QInfo q)) (wait_ids N Evs)"
    using assms(2) by (simp add: transfer_ok_def waits_ok_def)
  then show ?thesis
    using assms(1) created_accepted [of w q "EnqueueReadBuffer p mo B off n (wait_ids N Evs)" dev want CL_SUCCESS]
    by (simp add: clEnqueueReadBuffer_def with_queue_def read_chain_value [OF assms(2)] EnqueueReadBuffer_def
                  is_native_kernel_def)
qed

lemma write_buffer_run:
  assumes "n \<noteq> 0" "transfer_ok (QInfo q) CL_MEM_HOST_READ_ONLY (WEvents w) (Some mo) B off n p N Evs"
  shows "clEnqueueWriteBuffer dev (Some mo) B off n p N Evs want (Some q, w) =
           accepted_run dev want (EnqueueWriteBuffer mo p B off n (wait_ids N Evs)) q w"
proof -
  have "same_context_events (WEvents w) (QContext (QInfo q)) (wait_ids N Evs)"
    using assms(2) by (simp add: transfer_ok_def waits_ok_def)
  then show ?thesis
    using assms(1) created_accepted [of w q "EnqueueWriteBuffer mo p B off n (wait_ids N Evs)" dev want CL_SUCCESS]
    by (simp add: clEnqueueWriteBuffer_def with_queue_def write_chain_value [OF assms(2)] EnqueueWriteBuffer_def
                  is_native_kernel_def)
qed

lemma read_buffer_refused:
  assumes "\<not> (n \<noteq> 0 \<and> transfer_ok (QInfo q) CL_MEM_HOST_WRITE_ONLY (WEvents w) buf B off n p N Evs)"
  shows "\<exists>e. e \<noteq> CL_SUCCESS \<and>
             clEnqueueReadBuffer dev buf B off n p N Evs want (Some q, w) = Some ((Some q, w), Refused e)"
proof (cases "n = 0")
  case True
  then show ?thesis
    by (intro exI [of _ CL_INVALID_VALUE]) (simp add: clEnqueueReadBuffer_def with_queue_def)
next
  case False
  then have e: "bErr (read_chain (QInfo q) (WEvents w) buf B off n p N Evs) \<noteq> CL_SUCCESS"
    using assms by (simp add: read_chain_ok)
  with False show ?thesis
    by (intro exI [of _ "bErr (read_chain (QInfo q) (WEvents w) buf B off n p N Evs)"])
      (simp add: clEnqueueReadBuffer_def with_queue_def enqueue_created_def ReadBuffer_Create_def create_command_def)
qed

lemma write_buffer_refused:
  assumes "\<not> (n \<noteq> 0 \<and> transfer_ok (QInfo q) CL_MEM_HOST_READ_ONLY (WEvents w) buf B off n p N Evs)"
  shows "\<exists>e. e \<noteq> CL_SUCCESS \<and>
             clEnqueueWriteBuffer dev buf B off n p N Evs want (Some q, w) = Some ((Some q, w), Refused e)"
proof (cases "n = 0")
  case True
  then show ?thesis
    by (intro exI [of _ CL_INVALID_VALUE]) (simp add: clEnqueueWriteBuffer_def with_queue_def)
next
  case False
  then have e: "bErr (write_chain (QInfo q) (WEvents w) buf B off n p N Evs) \<noteq> CL_SUCCESS"
    using assms by (simp add: write_chain_ok)
  with False show ?thesis
    by (intro exI [of _ "bErr (write_chain (QInfo q) (WEvents w) buf B off n p N Evs)"])
      (simp add: clEnqueueWriteBuffer_def with_queue_def enqueue_created_def WriteBuffer_Create_def create_command_def)
qed

section \<open>Properties\<close>

text \<open>
  C25: \<open>clEnqueueReadBuffer\<close> accepts exactly the calls with a positive size, a pointer, a buffer the host
  may read (of the queue's context, or an aligned sub-buffer), a region whose end, computed in 64
  bits, is not above the size, and a wait list that agrees with its length, holds valid events of the
  context and no failed one when the call blocks. It then hands the queue the read of that region and
  gives out the next event; otherwise it returns an error and changes nothing.
\<close>

theorem read_buffer_outcome:
  "if n \<noteq> 0 \<and> transfer_ok (QInfo q) CL_MEM_HOST_WRITE_ONLY (WEvents w) buf B off n p N Evs
   then clEnqueueReadBuffer dev buf B off n p N Evs want (Some q, w) =
          accepted_run dev want (EnqueueReadBuffer p (the buf) B off n (wait_ids N Evs)) q w
   else (\<exists>e. e \<noteq> CL_SUCCESS \<and>
          clEnqueueReadBuffer dev buf B off n p N Evs want (Some q, w) = Some ((Some q, w), Refused e))"
proof (cases "n \<noteq> 0 \<and> transfer_ok (QInfo q) CL_MEM_HOST_WRITE_ONLY (WEvents w) buf B off n p N Evs")
  case True
  then obtain mo where "buf = Some mo" by (auto simp: transfer_ok_def)
  with True read_buffer_run [of n q w mo B off p N Evs dev want] show ?thesis by simp
next
  case False
  with read_buffer_refused [OF False] show ?thesis by (simp only: if_False)
qed

text \<open>
  The end of the region is computed in 64 bits, so an offset far outside any buffer is accepted
  when the sum wraps: a write of \<open>n\<close> bytes at offset \<open>2^64 - 1\<close> is accepted and enqueued as long as
  \<open>n - 1\<close> is not above the size of the buffer.
\<close>

lemma wrapped_region_accepted:
  assumes "n \<noteq> 0" "n - 1 \<le> getSize mo" "p \<noteq> NULL"
    and "host_access_ok (QInfo q) CL_MEM_HOST_READ_ONLY mo"
  shows "clEnqueueWriteBuffer dev (Some mo) False (-1) n p 0 None want (Some q, w) =
           accepted_run dev want (EnqueueWriteBuffer mo p False (-1) n []) q w"
proof -
  have "transfer_ok (QInfo q) CL_MEM_HOST_READ_ONLY (WEvents w) (Some mo) False (-1) n p 0 None"
    using assms(2-4)
    by (auto simp: transfer_ok_def waits_ok_def wait_args_ok_def wait_ids_def same_context_events_def)
  from write_buffer_run [OF assms(1) this] show ?thesis by (simp add: wait_ids_def)
qed

definition idle_device :: "(unit, unit) device" where
  "idle_device = \<lparr>DevIndex = 0,
     DevDescs = (\<lambda>_. \<lparr>NumDevs = 0, ObjSize = 0, UseHost = False, CopyHost = False, dmap = (\<lambda>_ m. m),
                       dalias = (\<lambda>_ _. False), dsame = (\<lambda>_. False), dread = (\<lambda>_ _ _. 0), dwrite = (\<lambda>_ _ _ m. m)\<rparr>),
     DevSubmit = (\<lambda>c w. Some (w, False))\<rparr>"

definition idle_world :: "(unit, unit) world" where
  "idle_world = \<lparr>WEvents = (\<lambda>_. NewUserEvent 0), WNext = 0, WClock = 0, WEnvProfile = False,
     WTrackers = (\<lambda>_. ([], ())), WMaps = (\<lambda>_. []), WDevice = ()\<rparr>"

definition idle_queue :: cmd_queue where
  "idle_queue = new_queue OutOfOrder
     \<lparr>QContext = 0, QDevice = \<lparr>MemoryBaseAddressAlignment = 0, ImageMaxArraySize = 0, ImageMaxBufferSize = 0,
        Image2DMaxWidth = 0, Image2DMaxHeight = 0, Image3DMaxWidth = 0, Image3DMaxHeight = 0, Image3DMaxDepth = 0,
        ImageFormatSupported = (\<lambda>_ _. False), MaxWorkItemDimensions = 3, MaxWorkItemSizes = [], MaxWorkGroupSize = 0,
        SizeTypeMax = 0, NativeKernels = True, ImageSupport = True\<rparr>\<rparr> False"

end
