(* ===== verification/API_Witness.thy ===== *)
theory API_Witness
  imports API_History API_Buffers
begin

text \<open>
  A small system for the witnesses of \<open>API_System\<close>: one buffer of 64 bytes, one worker thread, an
  in-order queue, and how it runs one command from its call to its report.
\<close>

definition rt_buffer :: mem_object where
  "rt_buffer = mk_Buffer 1 0 64 NULL CL_MEM_READ_WRITE"

definition rt_trackers :: "unit trackers" where
  "rt_trackers = (\<lambda>_. ([\<lparr>Off = 0, Sz = 64, Validity = [True, True]\<rparr>], ()))"

definition rt_descs :: "unit descs" where
  "rt_descs = \<lparr>NumDevs = 1, ObjSize = 64, UseHost = False, CopyHost = False,
     dmap = (\<lambda>_ m. m), dalias = (\<lambda>_ _. True), dsame = (\<lambda>_. False), dread = (\<lambda>_ _ _. 0),
     dwrite = (\<lambda>_ _ _ m. m)\<rparr>"

definition rt_dev :: "(unit, cpu_state) device" where
  "rt_dev = cpu_device wit_env 0 (\<lambda>_. rt_descs)"

definition rt_world :: "unit cpu_world" where
  "rt_world = wit_world\<lparr>WTrackers := rt_trackers, WDevice := (WDevice wit_world)\<lparr>CMemory := (\<lambda>a. ucast a)\<rparr>\<rparr>"

definition rt_queue :: cmd_queue where "rt_queue = new_queue InOrder wit_info False"

lemma rt_region: "findRangeFor [\<lparr>Off = 0, Sz = 64, Validity = [True, True]\<rparr>] 0 64 = (0, 1)"
  by (simp add: findRangeFor_def findChunk_def chunk_lower_bound_def)

lemma rt_valid:
  "dev \<Longrightarrow> updateValidity rt_descs SM dev 0 () \<lparr>Off = 0, Sz = 64, Validity = [True, True]\<rparr> =
            \<lparr>Off = 0, Sz = 64, Validity = [True, True]\<rparr>"
  by (simp add: updateValidity_def updateHostValidity_def rt_descs_def getHostIndex_def getNumDevices_def upt_rec)

lemma rt_sync:
  "synchronizeFor (\<lambda>_. rt_descs) rt_buffer 0 SyncRead rt_trackers = Some rt_trackers"
  "synchronizeFor (\<lambda>_. rt_descs) rt_buffer 0 (SyncRead OR SyncWrite) rt_trackers = Some rt_trackers"
proof -
  have D: "device_update rt_descs SM" for SM by (simp add: device_update_def rt_descs_def)
  have C: "computeChunksToTransfer [\<lparr>Off = 0, Sz = 64, Validity = [True, True]\<rparr>] 0 64 SM =
           Some [\<lparr>Off = 0, Sz = 64, Validity = [True, True]\<rparr>]" if "has_flag SM SyncRead" for SM
    using that by (simp add: computeChunksToTransfer_def rt_region)
  have T: "transferToDevice rt_descs 0 \<lparr>Off = 0, Sz = 64, Validity = [True, True]\<rparr> () = Some ()"
    by (simp add: transferToDevice_def)
  show "synchronizeFor (\<lambda>_. rt_descs) rt_buffer 0 SyncRead rt_trackers = Some rt_trackers"
    "synchronizeFor (\<lambda>_. rt_descs) rt_buffer 0 (SyncRead OR SyncWrite) rt_trackers = Some rt_trackers"
    by (simp_all add: synchronizeFor_def updateRegion_def rt_trackers_def rt_buffer_def mk_Buffer_def isSubBuffer_def
          C D T rt_region rt_valid has_flag_def fun_upd_def)
qed

section \<open>One command\<close>

definition rt_transfer :: "command \<Rightarrow> bool" where
  "rt_transfer cmd \<longleftrightarrow> CmdWaitList cmd = [] \<and>
     (\<exists>p off n. CmdPayload cmd = WriteBuffer rt_buffer p off n \<or> CmdPayload cmd = ReadBuffer p rt_buffer off n)"

definition rt_idle :: "cmd_queue \<Rightarrow> unit cpu_world \<Rightarrow> bool" where
  "rt_idle q w \<longleftrightarrow> QTy q = InOrder \<and> QInfo q = wit_info \<and> QCommands q = [] \<and> QPending q = [] \<and> \<not> QOnFly q \<and>
     WTrackers w = rt_trackers \<and> CThreads (WDevice w) = [new_thread]"

definition rt_submitted :: "queued \<Rightarrow> cmd_queue \<Rightarrow> unit cpu_world \<Rightarrow> bool" where
  "rt_submitted c q w \<longleftrightarrow> QTy q = InOrder \<and> QInfo q = wit_info \<and> QCommands q = [] \<and> QPending q = [c] \<and> QOnFly q \<and>
     WTrackers w = rt_trackers \<and> CThreads (WDevice w) = [new_thread\<lparr>TCommands := [ExecJob c]\<rparr>]"

lemma rt_submit:
  assumes "rt_idle q w" "rt_transfer cmd"
  shows "\<exists>q' w'. accepted_run rt_dev True cmd q w = Some ((Some q', w'), Accepted (Some (WNext w)) (CmdBlocking cmd)) \<and>
           rt_submitted \<lparr>QEvent = WNext w, QCmd = cmd\<rparr> q' w' \<and> WNext w' = Suc (WNext w) \<and>
           (\<forall>e < WNext w. WEvents w' e = WEvents w e)"
proof -
  let ?c = "\<lparr>QEvent = WNext w, QCmd = cmd\<rparr>"
  have sync: "ensureMemoryCoherency rt_dev cmd rt_trackers = Some (rt_trackers, True)"
    using assms(2) by (auto simp: rt_transfer_def ensureMemoryCoherency_def rt_dev_def cpu_device_def rt_sync [simplified])
  have patch: "patched wit_env cmd = Some cmd"
    using assms(2) by (auto simp: rt_transfer_def patched_def)
  have run: "Submit_command wit_env ?c s = Some (s\<lparr>CThreads := [new_thread\<lparr>TCommands := [ExecJob ?c]\<rparr>]\<rparr>, True)"
    if "CThreads s = [new_thread]" for s
    using assms(2) that
    by (auto simp: rt_transfer_def Submit_command_def patch Submit_single_def submit_to_def pickThread_def Thread_Submit_def
          new_thread_def)
  have can: "CanRun E cmd" for E using assms(2) by (simp add: rt_transfer_def CanRun_def)
  from assms(1) show ?thesis
    unfolding rt_idle_def
    by (auto simp: accepted_run_def pushed_def RunScheduler_def InOrder_RunScheduler_def can submit_def sync Let_def
          cpu_Submit_def rt_dev_def cpu_device_def run rt_submitted_def upd_event_def rt_trackers_def
          sync [unfolded rt_dev_def cpu_device_def rt_trackers_def]
          enqueue_event_def NewInternalEvent_def)
qed

lemma rt_work:
  assumes "rt_submitted c q w"
  shows "\<exists>w2 w3 w4 q5 w5 q6 w6 st7. Thread_take 0 w = Some w2 \<and> Thread_start 0 w2 = Some w3 \<and>
    Thread_finish wit_env 0 w3 = Some w4 \<and> Thread_report 0 (q, w4) = Some (q5, w5) \<and>
    Thread_reschedule rt_dev 0 (q5, w5) = Some (q6, w6) \<and> Thread_erase 0 (q6, w6) = Some st7 \<and>
    length (CThreads (WDevice w)) = 1 \<and> length (CThreads (WDevice w2)) = 1 \<and> length (CThreads (WDevice w3)) = 1 \<and>
    length (CThreads (WDevice w4)) = 1 \<and> length (CThreads (WDevice w5)) = 1 \<and> length (CThreads (WDevice w6)) = 1 \<and>
    rt_idle (fst st7) (snd st7) \<and> WNext (snd st7) = WNext w \<and>
    HasCompleted (WEvents (snd st7) (QEvent c)) \<and>
    (\<forall>e. HasCompleted (WEvents w e) \<longrightarrow> HasCompleted (WEvents (snd st7) e))"
  using assms
  by (auto simp: rt_submitted_def Thread_take_def Thread_start_def Thread_finish_def Thread_report_def new_thread_def
        set_thread_def upd_device_def run_job_def notifyStart_def notifyCompletion_def job_command_def Let_def
        upd_event_def Thread_reschedule_def Thread_erase_def ClearOnFly_def ErasePending_def RunScheduler_def
        InOrder_RunScheduler_def rt_idle_def HasCompleted_iff Status_MarkCompleted split: prod.split)

end
