(* ===== verification/API_System.thy ===== *)
theory API_System
  imports API_Witness
begin

text \<open>
  Programs that use a queue of the CPU device through the enqueue calls only. A history of such
  calls, interleaved with the worker threads, is a run of the system of \<open>CPU_System\<close>, so that its
  guarantees hold for the API.
\<close>

section \<open>Histories of calls\<close>

inductive api_call ::
  "('m, 'd) device \<Rightarrow> event_id set \<Rightarrow> (('m, 'd) api_state \<Rightarrow> ('m, 'd) api_result) \<Rightarrow> bool"
  for dev :: "('m, 'd) device" where
  "api_call dev (handle_events N Evs) (clEnqueueReadBuffer dev buf B off cb p N Evs want)"
| "api_call dev (handle_events N Evs) (clEnqueueWriteBuffer dev buf B off cb p N Evs want)"
| "api_call dev (handle_events N Evs) (clEnqueueReadBufferRect dev buf B bo ho reg brp bsp hrp hsp p N Evs want)"
| "api_call dev (handle_events N Evs) (clEnqueueWriteBufferRect dev buf B bo ho reg brp bsp hrp hsp p N Evs want)"
| "api_call dev (handle_events N Evs) (clEnqueueFillBuffer dev m buf pat psz off n N Evs want)"
| "api_call dev (handle_events N Evs) (clEnqueueCopyBuffer dev src dst so to cb N Evs want)"
| "api_call dev (handle_events N Evs) (clEnqueueCopyBufferRect dev src dst so dor reg srp ssp drp dsp N Evs want)"
| "api_call dev (handle_events N Evs) (clEnqueueReadImage dev img B org reg rp sp p N Evs want)"
| "api_call dev (handle_events N Evs) (clEnqueueWriteImage dev img B org reg rp sp p N Evs want)"
| "api_call dev (handle_events N Evs) (clEnqueueFillImage dev m img col org reg N Evs want)"
| "api_call dev (handle_events N Evs) (clEnqueueCopyImage dev src dst so dor reg N Evs want)"
| "api_call dev (handle_events N Evs) (clEnqueueCopyImageToBuffer dev src dst so reg off N Evs want)"
| "api_call dev (handle_events N Evs) (clEnqueueCopyBufferToImage dev src dst off dor reg N Evs want)"
| "api_call dev (handle_events N Evs) (clEnqueueMapBuffer dev dm junk buf B fl off cb N Evs want)"
| "api_call dev (handle_events N Evs) (clEnqueueMapImage dev dm junk img B fl org reg rg sg N Evs want)"
| "api_call dev (handle_events N Evs) (clEnqueueUnmapMemObject dev mo p N Evs want)"
| "kernel_args_ok dim os gs ls \<Longrightarrow>
   api_call dev (handle_events N Evs) (clEnqueueNDRangeKernel dev K dim os gs ls N Evs want)"
| "api_call dev (handle_events N Evs) (clEnqueueTask dev K N Evs want)"
| "api_call dev (handle_events N Evs) (clEnqueueNativeKernel dev m fn arg cbarg nm ms locs N Evs want)"
| "api_call dev (handle_events N Evs) (clEnqueueMarkerWithWaitList dev N Evs want)"
| "api_call dev {} (clEnqueueMarker dev want)"
| "api_call dev (handle_events N Evs) (clEnqueueWaitForEvents dev N Evs)"
| "api_call dev (handle_events N Evs) (clEnqueueBarrierWithWaitList dev N Evs want)"
| "api_call dev {} (clEnqueueBarrier dev)"

lemma api_call_entry: "api_call dev H call \<Longrightarrow> entry_point dev H call"
  by (induction rule: api_call.induct)
    (rule ReadBuffer.entry_point_axioms WriteBuffer.entry_point_axioms ReadBufferRect.entry_point_axioms
       WriteBufferRect.entry_point_axioms FillBuffer.entry_point_axioms CopyBuffer.entry_point_axioms
       CopyBufferRect.entry_point_axioms ReadImage.entry_point_axioms WriteImage.entry_point_axioms
       FillImage.entry_point_axioms CopyImage.entry_point_axioms CopyImageToBuffer.entry_point_axioms
       CopyBufferToImage.entry_point_axioms MapBuffer.entry_point_axioms MapImage.entry_point_axioms
       UnmapMemObject.entry_point_axioms ndrange_entry Task.entry_point_axioms NativeKernel.entry_point_axioms
       MarkerWithWaitList.entry_point_axioms Marker.entry_point_axioms WaitForEvents.entry_point_axioms
       BarrierWithWaitList.entry_point_axioms Barrier.entry_point_axioms; assumption?)+

text \<open>
  The state is that of the queue with the events of the commands it has accepted, in order. A call
  names existing events only. What others do leaves the statuses of these events alone.
\<close>

type_synonym 'm api_history = "('m, cpu_state) queue_state \<times> event_id list"

definition is_refused :: "reply \<Rightarrow> bool" where
  "is_refused r = (case r of Refused _ \<Rightarrow> True | _ \<Rightarrow> False)"

inductive api_step ::
  "cpu_env \<Rightarrow> ('m, cpu_state) device \<Rightarrow> 'm api_history \<Rightarrow> 'm api_history \<Rightarrow> bool"
  for E :: cpu_env and dev :: "('m, cpu_state) device" where
  Call_api:
    "api_call dev H call \<Longrightarrow> \<forall>e \<in> H. e < WNext w \<Longrightarrow> call (Some q, w) = Some ((Some q', w'), r) \<Longrightarrow>
     api_step E dev ((q, w), own) ((q', w'), if is_refused r then own else own @ [WNext w])"
| Poll_api: "RunScheduler dev (q, w) = Some (st', b) \<Longrightarrow> api_step E dev ((q, w), own) (st', own)"
| Thread_api: "thread_step E dev (q, w) st' \<Longrightarrow> api_step E dev ((q, w), own) (st', own)"
| Foreign_api:
    "events_evolve q w w' \<Longrightarrow> WDevice w' = WDevice w \<Longrightarrow>
     \<forall>e \<in> set own. Status (WEvents w' e) = Status (WEvents w e) \<Longrightarrow>
     api_step E dev ((q, w), own) ((q, w'), own)"

lemma maps_foreign: "foreign q enq w (w\<lparr>WMaps := S\<rparr>)"
  by (simp add: foreign_def events_evolve_def)

lemma acceptance_event: "acceptance dev H (q, w) st' r c \<Longrightarrow> QEvent c = WNext w"
  by (auto simp: acceptance_def Enqueue_unfold Let_def split: if_splits)

text \<open>
  A step of the history is a few steps of the system: an accepted call pushes the command and runs the
  scheduler.
\<close>

lemma api_step_runs:
  assumes "api_step E dev s s'" "map QEvent enq = snd s"
  shows "\<exists>enq'. map QEvent enq' = snd s' \<and> (cpu_step E dev)\<^sup>*\<^sup>* (fst s, enq) (fst s', enq')"
  using assms
proof (induction rule: api_step.induct)
  case (Call_api H call w q q' w' r own)
  note ep = api_call_entry [OF Call_api(1)]
  have maps: "cpu_step E dev ((q, w), enq) ((q, w\<lparr>WMaps := S\<rparr>), enq)" for S
    by (rule Foreign_cpu [OF maps_foreign])
  show ?case
  proof (cases "is_refused r")
    case True
    then obtain e where r: "r = Refused e" by (auto simp: is_refused_def split: reply.splits)
    then obtain S where "q' = q" "w' = w\<lparr>WMaps := S\<rparr>" using entry_point.refused_keeps [OF ep] Call_api(3) by blast
    with maps [of S] True Call_api(4) show ?thesis by (intro exI [of _ enq]) auto
  next
    case False
    then have "\<forall>e. r \<noteq> Refused e" by (auto simp: is_refused_def)
    then obtain c where c: "acceptance dev H (q, w) (q', w') r c" using entry_point.accepted_enqueues [OF ep Call_api(3)] by blast
    then obtain S b where en: "Enqueue dev (QCmd c) (q, w\<lparr>WMaps := S\<rparr>) = Some ((q', w'), Inr (QEvent c, b))"
      and H: "set (CmdWaitList (QCmd c)) \<subseteq> H" and ok: "command_ok c"
      by (auto simp: acceptance_def)
    have "(cpu_step E dev)\<^sup>*\<^sup>* ((q, w\<lparr>WMaps := S\<rparr>), enq) ((q', w'), enq @ [\<lparr>QEvent = QEvent c, QCmd = QCmd c\<rparr>])"
      using H Call_api(2) ok by (intro enqueue_steps [OF _ _ en]) (auto simp: command_ok_def)
    then have "(cpu_step E dev)\<^sup>*\<^sup>* ((q, w), enq) ((q', w'), enq @ [c])"
      using maps [of S] by (metis queued.surjective old.unit.exhaust converse_rtranclp_into_rtranclp)
    with False acceptance_event [OF c] Call_api(4) show ?thesis by (intro exI [of _ "enq @ [c]"]) auto
  qed
next
  case (Foreign_api q w w' own)
  then have "foreign q enq w w'" by (auto simp: foreign_def)
  with Foreign_api(4) show ?case by (intro exI [of _ enq]) (auto intro: Foreign_cpu)
qed (auto intro: cpu_step.intros)

lemma api_steps_run:
  assumes "(api_step E dev)\<^sup>*\<^sup>* s s'" "map QEvent enq = snd s"
  shows "\<exists>enq'. map QEvent enq' = snd s' \<and> (cpu_step E dev)\<^sup>*\<^sup>* (fst s, enq) (fst s', enq')"
  using assms
proof (induction rule: rtranclp_induct)
  case (step y z)
  then obtain enq' where "map QEvent enq' = snd y" and run: "(cpu_step E dev)\<^sup>*\<^sup>* (fst s, enq) (fst y, enq')" by blast
  then obtain enq'' where "map QEvent enq'' = snd z" "(cpu_step E dev)\<^sup>*\<^sup>* (fst y, enq') (fst z, enq'')"
    using api_step_runs [OF step(2)] by blast
  with run show ?case by (meson rtranclp_trans)
qed blast

lemma cpu_step_grows: "cpu_step E dev s s' \<Longrightarrow> \<exists>more_enq. snd s' = snd s @ more_enq"
  by (induction rule: cpu_step.induct) auto

lemma cpu_steps_grow: "(cpu_step E dev)\<^sup>*\<^sup>* s s' \<Longrightarrow> \<exists>more_enq. snd s' = snd s @ more_enq"
proof (induction rule: rtranclp_induct)
  case (step y z)
  then show ?case using cpu_step_grows [of E dev y z] by auto
qed simp

text \<open>When no further call is accepted, the commands stay the same.\<close>

lemma api_quiet_run:
  assumes "(api_step E dev)\<^sup>*\<^sup>* ((q, w), own) ((q', w'), own)" "map QEvent enq = own"
  shows "(cpu_step E dev)\<^sup>*\<^sup>* ((q, w), enq) ((q', w'), enq)"
proof -
  obtain enq' where enq': "map QEvent enq' = own" "(cpu_step E dev)\<^sup>*\<^sup>* ((q, w), enq) ((q', w'), enq')"
    using api_steps_run [OF assms(1), of enq] assms(2) by auto
  from cpu_steps_grow [OF this(2)] obtain ms where "enq' = enq @ ms" by auto
  with arg_cong [OF enq'(1), of length] arg_cong [OF assms(2), of length] have "ms = []" by simp
  with enq'(2) \<open>enq' = enq @ ms\<close> show ?thesis by simp
qed

section \<open>The transfer of data\<close>

lemma accepted_run_step:
  assumes "accepted_run dev want cmd q w = Some ((Some q', w'), r)"
    and "same_context_events (WEvents w) (QContext (QInfo q)) (CmdWaitList cmd)" "\<not> is_native_kernel cmd"
    and "\<forall>e \<in> set (CmdWaitList cmd). e < WNext w" "command_ok \<lparr>QEvent = WNext w, QCmd = cmd\<rparr>"
  shows "(cpu_step E dev)\<^sup>*\<^sup>* ((q, w), enq) ((q', w'), enq @ [\<lparr>QEvent = WNext w, QCmd = cmd\<rparr>])"
proof (rule enqueue_steps [OF assms(4,5)])
  show "Enqueue dev cmd (q, w) = Some ((q', w'), Inr (WNext w, CmdBlocking cmd))"
    using assms(1-3) by (auto simp: accepted_run_def Enqueue_unfold pushed_def same_context_events_def Let_def)
qed

lemma accepted_read:
  assumes "clEnqueueReadBuffer dev (Some mo) B off n p N Evs want (Some q, w) = Some ((Some q', w'), r)"
    and "\<not> is_refused r" "\<forall>e \<in> handle_events N Evs. e < WNext w"
  shows "\<exists>c. CmdPayload (QCmd c) = ReadBuffer p mo off n \<and> QEvent c = WNext w \<and>
             (cpu_step E dev)\<^sup>*\<^sup>* ((q, w), enq) ((q', w'), enq @ [c])"
proof -
  have t: "n \<noteq> 0 \<and> transfer_ok (QInfo q) CL_MEM_HOST_WRITE_ONLY (WEvents w) (Some mo) B off n p N Evs"
    using assms(1,2) read_buffer_refused [of n q w "Some mo" B off p N Evs dev want] unfolding is_refused_def
    by (cases r) auto
  let ?c = "\<lparr>QEvent = WNext w, QCmd = EnqueueReadBuffer p mo B off n (wait_ids N Evs)\<rparr>"
  have "(cpu_step E dev)\<^sup>*\<^sup>* ((q, w), enq) ((q', w'), enq @ [?c])"
    using t assms(1,3) read_buffer_run [of n q w mo B off p N Evs dev want] wait_ids_events [of N Evs]
    by (intro accepted_run_step [where r = r and want = want])
      (auto simp: transfer_ok_def waits_ok_def EnqueueReadBuffer_def is_native_kernel_def command_ok_def)
  then show ?thesis by (intro exI [of _ ?c]) (simp add: EnqueueReadBuffer_def)
qed

lemma accepted_write:
  assumes "clEnqueueWriteBuffer dev (Some mo) B off n p N Evs want (Some q, w) = Some ((Some q', w'), r)"
    and "\<not> is_refused r" "\<forall>e \<in> handle_events N Evs. e < WNext w"
  shows "\<exists>c. CmdPayload (QCmd c) = WriteBuffer mo p off n \<and> QEvent c = WNext w \<and>
             (cpu_step E dev)\<^sup>*\<^sup>* ((q, w), enq) ((q', w'), enq @ [c])"
proof -
  have t: "n \<noteq> 0 \<and> transfer_ok (QInfo q) CL_MEM_HOST_READ_ONLY (WEvents w) (Some mo) B off n p N Evs"
    using assms(1,2) write_buffer_refused [of n q w "Some mo" B off p N Evs dev want] unfolding is_refused_def
    by (cases r) auto
  let ?c = "\<lparr>QEvent = WNext w, QCmd = EnqueueWriteBuffer mo p B off n (wait_ids N Evs)\<rparr>"
  have "(cpu_step E dev)\<^sup>*\<^sup>* ((q, w), enq) ((q', w'), enq @ [?c])"
    using t assms(1,3) write_buffer_run [of n q w mo B off p N Evs dev want] wait_ids_events [of N Evs]
    by (intro accepted_run_step [where r = r and want = want])
      (auto simp: transfer_ok_def waits_ok_def EnqueueWriteBuffer_def is_native_kernel_def command_ok_def)
  then show ?thesis by (intro exI [of _ ?c]) (simp add: EnqueueWriteBuffer_def)
qed

lemma executed_snocD: "executed E (cs @ [c]) m m2 \<Longrightarrow> \<exists>m1. executed E cs m m1 \<and> command_effect E c m1 m2"
  by (erule executed.cases) auto

lemma executed_NilD: "executed E [] m m1 \<Longrightarrow> m1 = m"
  by (erule executed.cases) auto

lemma transfer_effects:
  "CmdPayload (QCmd c) = WriteBuffer mo p off n \<Longrightarrow> command_effect E c m m' \<Longrightarrow>
   m' = memcpy (DevPtr E mo + off) p n m"
  "CmdPayload (QCmd c) = ReadBuffer p mo off n \<Longrightarrow> command_effect E c m m' \<Longrightarrow>
   m' = memcpy p (DevPtr E mo + off) n m"
  by (auto simp: command_effect_def patched_def payload_effect_def run_copy_def WriteBufferCPUCommand_def
                 ReadBufferCPUCommand_def)

section \<open>The example\<close>

lemma rt_thread_run:
  assumes "rt_submitted c q w"
  shows "\<exists>st. (api_step wit_env rt_dev)\<^sup>*\<^sup>* ((q, w), own) (st, own) \<and> rt_idle (fst st) (snd st) \<and>
           WNext (snd st) = WNext w \<and> HasCompleted (WEvents (snd st) (QEvent c)) \<and>
           (\<forall>e. HasCompleted (WEvents w e) \<longrightarrow> HasCompleted (WEvents (snd st) e))"
proof -
  obtain w2 w3 w4 q5 w5 q6 w6 st where T: "Thread_take 0 w = Some w2" "Thread_start 0 w2 = Some w3"
      "Thread_finish wit_env 0 w3 = Some w4" "Thread_report 0 (q, w4) = Some (q5, w5)"
      "Thread_reschedule rt_dev 0 (q5, w5) = Some (q6, w6)" "Thread_erase 0 (q6, w6) = Some st"
    and L: "length (CThreads (WDevice w)) = 1" "length (CThreads (WDevice w2)) = 1"
      "length (CThreads (WDevice w3)) = 1" "length (CThreads (WDevice w4)) = 1"
      "length (CThreads (WDevice w5)) = 1" "length (CThreads (WDevice w6)) = 1"
    and R: "rt_idle (fst st) (snd st)" "WNext (snd st) = WNext w" "HasCompleted (WEvents (snd st) (QEvent c))"
      "\<forall>e. HasCompleted (WEvents w e) \<longrightarrow> HasCompleted (WEvents (snd st) e)"
    using rt_work [OF assms] by blast
  have "api_step wit_env rt_dev ((q, w), own) ((q, w2), own)"
    by (rule Thread_api, rule Take_step [OF _ T(1)]) (simp add: L)
  moreover have "api_step wit_env rt_dev ((q, w2), own) ((q, w3), own)"
    by (rule Thread_api, rule Start_step [OF _ T(2)]) (simp add: L)
  moreover have "api_step wit_env rt_dev ((q, w3), own) ((q, w4), own)"
    by (rule Thread_api, rule Finish_step [OF _ T(3)]) (simp add: L)
  moreover have "api_step wit_env rt_dev ((q, w4), own) ((q5, w5), own)"
    by (rule Thread_api, rule Report_step [OF _ T(4)]) (simp add: L)
  moreover have "api_step wit_env rt_dev ((q5, w5), own) ((q6, w6), own)"
    by (rule Thread_api, rule Reschedule_step [OF _ T(5)]) (simp add: L)
  moreover have "api_step wit_env rt_dev ((q6, w6), own) (st, own)"
    by (rule Thread_api, rule Erase_step [OF _ T(6)]) (simp add: L)
  ultimately have "(api_step wit_env rt_dev)\<^sup>*\<^sup>* ((q, w), own) (st, own)"
    by (meson rtranclp.rtrancl_into_rtrancl rtranclp.rtrancl_refl)
  with R show ?thesis by blast
qed

lemma rt_transfer_ok:
  "p \<noteq> NULL \<Longrightarrow> fl = CL_MEM_HOST_READ_ONLY \<or> fl = CL_MEM_HOST_WRITE_ONLY \<Longrightarrow>
   transfer_ok wit_info fl E (Some rt_buffer) False 8 4 p 0 None"
  by (auto simp: transfer_ok_def waits_ok_def wait_args_ok_def wait_ids_def same_context_events_def
        host_access_ok_def buffer_accepted_def is_buffer_def isSubBuffer_def access_allowed_def has_flag_def
        rt_buffer_def mk_Buffer_def wit_info_def)

lemma rt_start: "cpu_start (\<lambda>a. ucast a) ((rt_queue, rt_world), [])" "rt_idle rt_queue rt_world"
  unfolding cpu_start_def rt_idle_def
  by (rule exI [of _ wit_info], rule exI [of _ False], rule exI [of _ rt_world], rule exI [of _ 1])
    (simp_all add: rt_queue_def rt_world_def wit_world_def new_queue_def)

abbreviation rt_write where
  "rt_write \<equiv> clEnqueueWriteBuffer rt_dev (Some rt_buffer) False 8 4 256 0 None True"

abbreviation rt_read where
  "rt_read \<equiv> clEnqueueReadBuffer rt_dev (Some rt_buffer) False 8 4 512 0 None True"

lemma rt_call:
  assumes "rt_idle q w" "call \<in> {rt_write, rt_read}"
  shows "\<exists>q' w' c. call (Some q, w) = Some ((Some q', w'), Accepted (Some (WNext w)) False) \<and>
           rt_submitted c q' w' \<and> QEvent c = WNext w \<and> WNext w' = Suc (WNext w) \<and>
           (\<forall>e < WNext w. WEvents w' e = WEvents w e)"
proof -
  have info: "QInfo q = wit_info" using assms(1) by (simp add: rt_idle_def)
  consider "call = rt_write" | "call = rt_read" using assms(2) by blast
  then obtain cmd where cmd: "rt_transfer cmd" "\<not> CmdBlocking cmd"
    "call (Some q, w) = accepted_run rt_dev True cmd q w"
  proof cases
    case 1
    then show ?thesis
      using that [of "EnqueueWriteBuffer rt_buffer 256 False 8 4 []"] rt_transfer_ok [of 256] info
        write_buffer_run [of 4 q w rt_buffer False 8 256 0 None rt_dev True]
      by (simp add: rt_transfer_def EnqueueWriteBuffer_def wait_ids_def)
  next
    case 2
    then show ?thesis
      using that [of "EnqueueReadBuffer 512 rt_buffer False 8 4 []"] rt_transfer_ok [of 512] info
        read_buffer_run [of 4 q w rt_buffer False 8 512 0 None rt_dev True]
      by (simp add: rt_transfer_def EnqueueReadBuffer_def wait_ids_def)
  qed
  obtain q' w' where S: "accepted_run rt_dev True cmd q w = Some ((Some q', w'), Accepted (Some (WNext w)) (CmdBlocking cmd))"
      "rt_submitted \<lparr>QEvent = WNext w, QCmd = cmd\<rparr> q' w'" "WNext w' = Suc (WNext w)"
      "\<forall>e < WNext w. WEvents w' e = WEvents w e"
    using rt_submit [OF assms(1) cmd(1)] by blast
  with cmd(2,3) show ?thesis
    by (intro exI [of _ q'] exI [of _ w'] exI [of _ "\<lparr>QEvent = WNext w, QCmd = cmd\<rparr>"]) simp
qed

section \<open>Properties\<close>

text \<open>
  C2: a history of enqueue calls, interleaved with polls, worker threads and foreign events, is a run of
  the queue with its device, in which the commands enqueued are those of the accepted calls: the
  events handed out by the accepted calls are those of the commands, in this order.
\<close>

theorem histories_are_runs:
  assumes "cpu_start m0 ((q0, w0), [])" "(api_step E dev)\<^sup>*\<^sup>* ((q0, w0), []) ((q, w), own)"
  shows "\<exists>enq. map QEvent enq = own \<and> cpu_reachable E dev m0 ((q, w), enq)"
proof -
  obtain enq where "map QEvent enq = own" "(cpu_step E dev)\<^sup>*\<^sup>* ((q0, w0), []) ((q, w), enq)"
    using api_steps_run [OF assms(2), of "[]"] by auto
  with assms(1) show ?thesis by (auto simp: cpu_reachable_def)
qed

text \<open>
  C4: data written to a buffer and read back through the API is unchanged. On an in-order queue, a write
  of \<open>n\<close> bytes from \<open>src\<close> and a read of the same region to \<open>dst\<close> are accepted, with anything but other
  accepted calls between and after them. When the events of both are complete, neither has
  failed and the \<open>n\<close> bytes at \<open>dst\<close> are those that were at \<open>src\<close> at the start.
\<close>

theorem write_then_read_buffer:
  assumes start: "cpu_start m0 ((q0, w0), [])"
    and w: "clEnqueueWriteBuffer (cpu_device E I V) (Some mo) B1 off n src N1 Evs1 want1 (Some q0, w0) =
              Some ((Some q1, w1), r1)" "\<not> is_refused r1" "\<forall>e \<in> handle_events N1 Evs1. e < WNext w0"
    and between: "(api_step E (cpu_device E I V))\<^sup>*\<^sup>* ((q1, w1), [WNext w0]) ((q2, w2), [WNext w0])"
    and r: "clEnqueueReadBuffer (cpu_device E I V) (Some mo) B2 off n dst N2 Evs2 want2 (Some q2, w2) =
              Some ((Some q3, w3), r2)" "\<not> is_refused r2" "\<forall>e \<in> handle_events N2 Evs2. e < WNext w2"
    and after: "(api_step E (cpu_device E I V))\<^sup>*\<^sup>* ((q3, w3), [WNext w0, WNext w2]) ((q4, w4), [WNext w0, WNext w2])"
    and complete: "HasCompleted (WEvents w4 (WNext w0))" "HasCompleted (WEvents w4 (WNext w2))"
    and k: "k < n"
  shows "CMemory (WDevice w4) (dst + k) = m0 (src + k) \<and>
         Status (WEvents w4 (WNext w0)) = CL_COMPLETE \<and> Status (WEvents w4 (WNext w2)) = CL_COMPLETE"
proof -
  let ?dev = "cpu_device E I V"
  obtain c where c: "CmdPayload (QCmd c) = WriteBuffer mo src off n" "QEvent c = WNext w0"
    and s1: "(cpu_step E ?dev)\<^sup>*\<^sup>* ((q0, w0), []) ((q1, w1), [c])"
    using accepted_write [OF w, of E "[]"] by auto
  have s2: "(cpu_step E ?dev)\<^sup>*\<^sup>* ((q1, w1), [c]) ((q2, w2), [c])"
    by (rule api_quiet_run [OF between]) (simp add: c)
  obtain d where d: "CmdPayload (QCmd d) = ReadBuffer dst mo off n" "QEvent d = WNext w2"
    and s3: "(cpu_step E ?dev)\<^sup>*\<^sup>* ((q2, w2), [c]) ((q3, w3), [c, d])"
    using accepted_read [OF r, of E "[c]"] by auto
  have s4: "(cpu_step E ?dev)\<^sup>*\<^sup>* ((q3, w3), [c, d]) ((q4, w4), [c, d])"
    by (rule api_quiet_run [OF after]) (simp add: c d)
  have "(cpu_step E ?dev)\<^sup>*\<^sup>* ((q0, w0), []) ((q4, w4), [c, d])"
    using s1 s2 s3 s4 by (meson rtranclp_trans)
  then have "cpu_reachable E ?dev m0 ((q4, w4), [c, d])" using start by (auto simp: cpu_reachable_def)
  then obtain started where "cpu_inv E m0 q4 w4 [c, d] started" using reachable_cpu_inv by fastforce
  note done_all = all_complete [OF this]
  have comp: "\<forall>x \<in> set [c, d]. HasCompleted (WEvents w4 (QEvent x))" using complete by (simp add: c d)
  have "executed E ([c] @ [d]) m0 (CMemory (WDevice w4))" using done_all(1) [OF comp] by simp
  then obtain m1 where m1: "executed E ([] @ [c]) m0 m1" "command_effect E d m1 (CMemory (WDevice w4))"
    using executed_snocD by fastforce
  then have "command_effect E c m0 m1" using executed_snocD executed_NilD by fastforce
  with m1(2) have "CMemory (WDevice w4) = memcpy dst (DevPtr E mo + off) n (memcpy (DevPtr E mo + off) src n m0)"
    using transfer_effects c(1) d(1) by metis
  with k have "CMemory (WDevice w4) (dst + k) = m0 (src + k)" by (simp add: memcpy_def)
  then show ?thesis
    using done_all(2) [OF comp, of c] done_all(2) [OF comp, of d] by (simp_all add: c d command_status_def)
qed

lemma rt_history:
  "\<exists>q1 w1 q2 w2 q3 w3 q4 w4.
     rt_write (Some rt_queue, rt_world) = Some ((Some q1, w1), Accepted (Some 0) False) \<and>
     (api_step wit_env rt_dev)\<^sup>*\<^sup>* ((q1, w1), [0]) ((q2, w2), [0]) \<and>
     rt_read (Some q2, w2) = Some ((Some q3, w3), Accepted (Some 1) False) \<and> WNext w2 = 1 \<and>
     (api_step wit_env rt_dev)\<^sup>*\<^sup>* ((q3, w3), [0, 1]) ((q4, w4), [0, 1]) \<and>
     HasCompleted (WEvents w4 0) \<and> HasCompleted (WEvents w4 1)"
proof -
  have n0: "WNext rt_world = 0" by (simp add: rt_world_def wit_world_def)
  obtain q1 w1 c where w: "rt_write (Some rt_queue, rt_world) = Some ((Some q1, w1), Accepted (Some 0) False)"
      "rt_submitted c q1 w1" "QEvent c = 0" "WNext w1 = 1"
    using rt_call [OF rt_start(2), of rt_write] by (auto simp: n0)
  obtain q2 w2 where b: "(api_step wit_env rt_dev)\<^sup>*\<^sup>* ((q1, w1), [0]) ((q2, w2), [0])" "rt_idle q2 w2" "WNext w2 = 1"
      "HasCompleted (WEvents w2 0)"
    using rt_thread_run [OF w(2), of "[0]"] w(3,4) by auto
  obtain q3 w3 d where r: "rt_read (Some q2, w2) = Some ((Some q3, w3), Accepted (Some 1) False)"
      "rt_submitted d q3 w3" "QEvent d = 1" "WEvents w3 0 = WEvents w2 0"
    using rt_call [OF b(2), of rt_read] b(3) by auto
  obtain q4 w4 where a: "(api_step wit_env rt_dev)\<^sup>*\<^sup>* ((q3, w3), [0, 1]) ((q4, w4), [0, 1])"
      "HasCompleted (WEvents w4 1)" "\<forall>e. HasCompleted (WEvents w3 e) \<longrightarrow> HasCompleted (WEvents w4 e)"
    using rt_thread_run [OF r(2), of "[0, 1]"] r(3) by auto
  have "HasCompleted (WEvents w4 0)" using a(3) b(4) r(4) by simp
  with w(1) b(1,3) r(1) a(1,2) show ?thesis by blast
qed

theorem write_then_read_buffer_witness:
  "\<exists>q1 w1 q2 w2 q3 w3 q4 w4 r1 r2.
     rt_write (Some rt_queue, rt_world) = Some ((Some q1, w1), r1) \<and>
     rt_read (Some q2, w2) = Some ((Some q3, w3), r2) \<and>
     (api_step wit_env rt_dev)\<^sup>*\<^sup>* ((q3, w3), [0, 1]) ((q4, w4), [0, 1]) \<and>
     CMemory (WDevice w4) (512 + 2) = 2"
proof -
  from rt_history obtain q1 w1 q2 w2 q3 w3 q4 w4 where
    h: "rt_write (Some rt_queue, rt_world) = Some ((Some q1, w1), Accepted (Some 0) False)"
      "(api_step wit_env rt_dev)\<^sup>*\<^sup>* ((q1, w1), [0]) ((q2, w2), [0])"
      "rt_read (Some q2, w2) = Some ((Some q3, w3), Accepted (Some 1) False)" "WNext w2 = 1"
      "(api_step wit_env rt_dev)\<^sup>*\<^sup>* ((q3, w3), [0, 1]) ((q4, w4), [0, 1])"
      "HasCompleted (WEvents w4 0)" "HasCompleted (WEvents w4 1)" by blast
  have n0: "WNext rt_world = 0" by (simp add: rt_world_def wit_world_def)
  have none: "handle_events 0 None = {}" by (simp add: handle_events_def)
  have "CMemory (WDevice w4) (512 + 2) = ucast (256 + 2 :: ptr) \<and>
      Status (WEvents w4 (WNext rt_world)) = CL_COMPLETE \<and> Status (WEvents w4 (WNext w2)) = CL_COMPLETE"
  proof (rule write_then_read_buffer [where E = wit_env and I = 0 and V = "\<lambda>_. rt_descs", folded rt_dev_def])
    show "rt_write (Some rt_queue, rt_world) = Some ((Some q1, w1), Accepted (Some 0) False)" by (rule h(1))
    show "rt_read (Some q2, w2) = Some ((Some q3, w3), Accepted (Some 1) False)" by (rule h(3))
    show "(api_step wit_env rt_dev)\<^sup>*\<^sup>* ((q1, w1), [WNext rt_world]) ((q2, w2), [WNext rt_world])"
      unfolding n0 by (rule h(2))
    show "(api_step wit_env rt_dev)\<^sup>*\<^sup>* ((q3, w3), [WNext rt_world, WNext w2]) ((q4, w4), [WNext rt_world, WNext w2])"
      unfolding n0 h(4) by (rule h(5))
    show "HasCompleted (WEvents w4 (WNext rt_world))" unfolding n0 by (rule h(6))
    show "HasCompleted (WEvents w4 (WNext w2))" unfolding h(4) by (rule h(7))
  qed (simp_all add: rt_start none is_refused_def)
  with h(1,3,5) show ?thesis by (auto intro!: exI)
qed

theorem histories_are_runs_witness:
  "\<exists>q w enq. map QEvent enq = [0] \<and>
     cpu_reachable wit_env rt_dev (\<lambda>a. ucast a) ((q, w), enq) \<and> HasCompleted (WEvents w 0)"
proof -
  have n0: "WNext rt_world = 0" by (simp add: rt_world_def wit_world_def)
  obtain q1 w1 c where w: "rt_write (Some rt_queue, rt_world) = Some ((Some q1, w1), Accepted (Some 0) False)"
      "rt_submitted c q1 w1" "QEvent c = 0"
    using rt_call [OF rt_start(2), of rt_write] by (auto simp: n0)
  have call: "api_step wit_env rt_dev ((rt_queue, rt_world), []) ((q1, w1), [0])"
    using Call_api [OF api_call.intros(2) _ w(1), of wit_env "[]"] by (simp add: handle_events_def is_refused_def n0)
  obtain q2 w2 where b: "(api_step wit_env rt_dev)\<^sup>*\<^sup>* ((q1, w1), [0]) ((q2, w2), [0])"
      "HasCompleted (WEvents w2 0)"
    using rt_thread_run [OF w(2), of "[0]"] w(3) by auto
  have "(api_step wit_env rt_dev)\<^sup>*\<^sup>* ((rt_queue, rt_world), []) ((q2, w2), [0])"
    using call b(1) by (rule converse_rtranclp_into_rtranclp)
  from histories_are_runs [OF rt_start(1) this] obtain enq where
    "map QEvent enq = [0]" "cpu_reachable wit_env rt_dev (\<lambda>a. ucast a) ((q2, w2), enq)" by (elim exE conjE)
  with b(2) show ?thesis by (intro exI [of _ q2] exI [of _ w2] exI [of _ enq] conjI)
qed

end
