(* ===== verification/API_Errors.thy ===== *)
theory API_Errors
  imports API_System
begin

text \<open>
  What the tests of the entry points amount to: the dimensions of an accepted kernel, the copies
  that are never accepted, the calls that crash, and the mapping a failed call leaves behind.
\<close>

section \<open>Kernels\<close>

text \<open>
  C27: an accepted kernel has well-formed dimensions: when sizes are given for each dimension and the
  work-items can be counted in 32 bits, the command \<open>clEnqueueNDRangeKernel\<close> enqueues has the global
  sizes of the call, positive, and work-groups that divide them.
\<close>

theorem accepted_kernel_dims:
  assumes "clEnqueueNDRangeKernel dev K N os gs ls n Evs want (Some q, w) = Some ((Some q', w'), r)"
    and "\<not> is_refused r" "kernel_args_ok N os gs ls"
  shows "\<exists>cmd D. Enqueue dev cmd (q, w) = Some ((q', w'), Inr (WNext w, False)) \<and>
           CmdPayload cmd = NDRangeKernel (KRef (the K)) D \<and> wf_dims D \<and> map GlobalSize D = map unat (the gs)"
proof -
  let ?Q = "QInfo q"
  obtain b0 b1 b2 where b: "NDRange_Builder (QContext ?Q) (QDevice ?Q) K N gs = Some b0"
      "NDRange_SetGlobalWorkOffset os b0 = Some b1" "NDRange_SetLocalWorkSize ls b1 = Some b2"
    and run: "enqueue_created dev want (NDRange_Create (NDRange_SetWaitList n Evs b2)) (q, w) = Some ((q', w'), r)"
    using assms(1) by (auto simp: clEnqueueNDRangeKernel_def with_queue_def split: option.splits)
  obtain cmd e where c: "NDRange_Create (NDRange_SetWaitList n Evs b2) = (Some cmd, e)"
    using run assms(2) by (auto simp: enqueue_created_def is_refused_def split: prod.splits option.splits)
  have a: "sizes_given N gs" "sizes_given N os" "sizes_given N ls" "prod_list (map unat (the gs)) < 2 ^ 32"
    using assms(3) by (simp_all add: kernel_args_ok_def)
  note D = ndrange_dims [OF b c a]
  have "Enqueue dev cmd (q, w) = Some ((q', w'), Inr (WNext w, False))"
    using run assms(2) D(3)
    by (auto simp: c enqueue_created_def is_refused_def Enqueue_unfold Let_def split: if_splits)
  with D(1) show ?thesis by blast
qed

definition demo_kernel :: kernel_desc where
  "demo_kernel = \<lparr>KRef = \<lparr>KernelName = 7, KernelMemArgs = []\<rparr>, KContext = 0, KBuiltFor = True, KSignatureArgs = 0,
     KFunctionParams = 0, KRequired = None\<rparr>"

definition kernel_queue :: cmd_queue where
  "kernel_queue = new_queue OutOfOrder (QInfo idle_queue\<lparr>QDevice := (QDevice (QInfo idle_queue))
     \<lparr>MaxWorkItemSizes := [1024, 1024, 1024], MaxWorkGroupSize := 1024, SizeTypeMax := -1\<rparr>\<rparr>) False"

lemmas ndrange_defs = clEnqueueNDRangeKernel_def with_queue_def NDRange_Builder_def NDRange_SetGlobalWorkOffset_def
  NDRange_SetLocalWorkSize_def NDRange_SetWaitList_def NDRange_Create_def AreAllArgsSpecified_def
  hasRequiredWorkGroupSizes_def getRequiredWorkGroupSizes_def CommandBuilder_SetWaitList_def create_command_def
  enqueue_created_def Enqueue_unfold EnqueueNDRangeKernel_def is_native_kernel_def RunScheduler_def
  OutOfOrder_RunScheduler_def new_queue_def

theorem accepted_kernel_dims_witness:
  "\<exists>q w cmd D. Enqueue idle_device cmd (kernel_queue, idle_world) = Some ((q, w), Inr (0, False)) \<and>
     CmdPayload cmd = NDRangeKernel (KRef demo_kernel) D \<and> wf_dims D \<and> map GlobalSize D = [64, 32]"
proof -
  have n: "WNext idle_world = 0" by (simp add: idle_world_def)
  have "\<exists>q w r. clEnqueueNDRangeKernel idle_device (Some demo_kernel) 2 None (Some [64, 32]) (Some [8, 4]) 0 None True
          (Some kernel_queue, idle_world) = Some ((Some q, w), r) \<and> \<not> is_refused r"
    by (simp add: ndrange_defs demo_kernel_def kernel_queue_def idle_queue_def idle_world_def is_refused_def Let_def)
  then obtain q w r where c: "clEnqueueNDRangeKernel idle_device (Some demo_kernel) 2 None (Some [64, 32]) (Some [8, 4]) 0 None True
          (Some kernel_queue, idle_world) = Some ((Some q, w), r)" "\<not> is_refused r" by blast
  have "kernel_args_ok 2 None (Some [64, 32]) (Some [8, 4])" by (simp add: kernel_args_ok_def sizes_given_def)
  from accepted_kernel_dims [OF c this] show ?thesis
    by (simp add: n) (elim exE conjE, intro exI conjI)
qed

text \<open>
  Enqueuing a kernel that was not built for the device of the queue crashes, whatever the other
  arguments: the constructor reports the error, and \<open>SetLocalWorkSize\<close> then uses the missing function.
\<close>

lemma unbuilt_kernel_crashes:
  assumes "\<not> KBuiltFor k"
  shows "clEnqueueNDRangeKernel dev (Some k) N os gs ls n Evs want (Some q, w) = None"
proof -
  let ?Q = "QInfo q"
  have kern_global: "ndKern (push_global_sizes ss b) = ndKern b" for ss b
    by (induction ss b rule: push_global_sizes.induct) (simp_all add: NotifyError_def)
  have kern_offsets: "push_global_offsets i l b = Some b' \<Longrightarrow> ndKern b' = ndKern b" for i l b b'
    by (induction i l b rule: push_global_offsets.induct) (auto simp: NotifyError_def split: if_splits)
  have k0: "ndKern b0 = k" if "NDRange_Builder (QContext ?Q) (QDevice ?Q) (Some k) N gs = Some b0" for b0
    using that by (auto simp: NDRange_Builder_def Let_def kern_global NotifyError_def split: option.splits)
  have k1: "ndKern b1 = k" if "NDRange_Builder (QContext ?Q) (QDevice ?Q) (Some k) N gs = Some b0"
    "NDRange_SetGlobalWorkOffset os b0 = Some b1" for b0 b1
    using that(2) k0 [OF that(1)]
    by (auto simp: NDRange_SetGlobalWorkOffset_def split: if_splits option.splits dest: kern_offsets)
  have crash: "NDRange_SetLocalWorkSize ls b = None" if "ndKern b = k" for b
    using that assms by (simp add: NDRange_SetLocalWorkSize_def hasRequiredWorkGroupSizes_def)
  show ?thesis
  proof (cases "NDRange_Builder (QContext ?Q) (QDevice ?Q) (Some k) N gs")
    case (Some b0)
    then show ?thesis
      using k1 [OF Some] crash
      by (cases "NDRange_SetGlobalWorkOffset os b0") (simp_all add: clEnqueueNDRangeKernel_def with_queue_def)
  qed (simp add: clEnqueueNDRangeKernel_def with_queue_def)
qed

section \<open>Copies inside one buffer\<close>

lemma rects_always_overlap: "rects_overlap SOr TOr R rp sp S T"
  by (simp add: rects_overlap_def Let_def)

lemma copy_rect_target:
  assumes "bErr (CopyBufferRect_SetTargetOffset Or rp sp b) = CL_SUCCESS" "crTarget b = Some T" "crRegion b = Some R"
  shows "bErr b = CL_SUCCESS" "crTarget (CopyBufferRect_SetTargetOffset Or rp sp b) = Some T"
    "crSource (CopyBufferRect_SetTargetOffset Or rp sp b) = crSource b"
    "crRegion (CopyBufferRect_SetTargetOffset Or rp sp b) = Some R"
    "\<exists>Or'. crTargetOrigin (CopyBufferRect_SetTargetOffset Or rp sp b) = Some Or'"
  using assms
  by (auto simp: CopyBufferRect_SetTargetOffset_def with_rect_pitches_def Let_def split: option.splits if_splits)

lemma copy_rect_source:
  assumes "bErr (CopyBufferRect_SetSourceOffset Or rp sp b) = CL_SUCCESS" "crSource b = Some S" "crRegion b = Some R"
  shows "bErr b = CL_SUCCESS" "crSource (CopyBufferRect_SetSourceOffset Or rp sp b) = Some S"
    "crTarget (CopyBufferRect_SetSourceOffset Or rp sp b) = crTarget b"
    "crTargetOrigin (CopyBufferRect_SetSourceOffset Or rp sp b) = crTargetOrigin b"
    "crRegion (CopyBufferRect_SetSourceOffset Or rp sp b) = Some R"
    "\<exists>Or'. crSourceOrigin (CopyBufferRect_SetSourceOffset Or rp sp b) = Some Or'"
  using assms
  by (auto simp: CopyBufferRect_SetSourceOffset_def with_rect_pitches_def Let_def split: option.splits if_splits)

lemma copy_rect_errors:
  "bErr b \<noteq> CL_SUCCESS \<Longrightarrow> bErr (CopyBufferRect_SetTargetOffset Or rp sp b) \<noteq> CL_SUCCESS"
  "bErr b \<noteq> CL_SUCCESS \<Longrightarrow> bErr (CopyBufferRect_SetSourceOffset Or rp sp b) \<noteq> CL_SUCCESS"
  "bErr b \<noteq> CL_SUCCESS \<Longrightarrow> bErr (CopyBufferRect_CheckCopyOverlap b) \<noteq> CL_SUCCESS"
  "bErr b \<noteq> CL_SUCCESS \<Longrightarrow> bErr (CopyBufferRect_SetWaitList E N Evs b) \<noteq> CL_SUCCESS"
  "bErr b \<noteq> CL_SUCCESS \<Longrightarrow> CopyBufferRect_SetRegion R b = Some b' \<Longrightarrow> bErr b' \<noteq> CL_SUCCESS"
  by (auto simp: CopyBufferRect_SetTargetOffset_def CopyBufferRect_SetSourceOffset_def CopyBufferRect_CheckCopyOverlap_def
        CopyBufferRect_SetWaitList_def CopyBufferRect_SetRegion_def SetWaitList_plain_ok with_rect_pitches_def Let_def
        split: option.splits if_splits)

definition rect_buffer_ok :: "queue_info \<Rightarrow> mem_object \<Rightarrow> bool" where
  "rect_buffer_ok Q mo \<longleftrightarrow> buffer_accepted Q (\<lambda>mo. getContext mo = QContext Q) mo"

lemma CopyBufferRect_Builder_ok:
  "bErr (CopyBufferRect_Builder Q (Some T) (Some S)) = CL_SUCCESS \<longleftrightarrow> rect_buffer_ok Q T \<and> rect_buffer_ok Q S"
  unfolding CopyBufferRect_Builder_def rect_buffer_ok_def
  by (subst with_buffer_ok, simp, simp, subst with_buffer_ok) auto

lemma CopyBufferRect_Builder_value:
  assumes "rect_buffer_ok Q T" "rect_buffer_ok Q S"
  shows "crTarget (CopyBufferRect_Builder Q (Some T) (Some S)) = Some T"
    "crSource (CopyBufferRect_Builder Q (Some T) (Some S)) = Some S"
proof -
  have "CopyBufferRect_Builder Q (Some T) (Some S) =
    \<lparr>bCtx = QContext Q, bErr = CL_SUCCESS, bWait = [], bDiag = [], crTarget = Some T, crSource = Some S,
     crRegion = None, crTargetOrigin = None, crSourceOrigin = None, crTargetRowPitch = None,
     crTargetSlicePitch = None, crSourceRowPitch = None, crSourceSlicePitch = None, crTargetOffset = 0,
     crSourceOffset = 0\<rparr>"
    unfolding CopyBufferRect_Builder_def
    by (subst with_buffer_value [OF _ assms(2) [unfolded rect_buffer_ok_def]], simp,
        subst with_buffer_value [OF _ assms(1) [unfolded rect_buffer_ok_def]]) simp_all
  then show "crTarget (CopyBufferRect_Builder Q (Some T) (Some S)) = Some T"
    "crSource (CopyBufferRect_Builder Q (Some T) (Some S)) = Some S" by simp_all
qed

lemma overlap_error:
  assumes "crTarget b = Some mo" "crSource b = Some mo" "crRegion b = Some R" "crTargetOrigin b = Some TOr"
    and "crSourceOrigin b = Some SOr"
  shows "bErr (CopyBufferRect_CheckCopyOverlap b) \<noteq> CL_SUCCESS"
  using assms by (simp add: CopyBufferRect_CheckCopyOverlap_def rects_always_overlap same_object_def)

lemma same_buffer_overlap:
  assumes "crTarget b = Some mo" "crSource b = Some mo" "crRegion b = Some R"
  shows "bErr (CopyBufferRect_CheckCopyOverlap
           (CopyBufferRect_SetSourceOffset so srp ssp (CopyBufferRect_SetTargetOffset dor drp dsp b))) \<noteq> CL_SUCCESS"
proof
  let ?t = "CopyBufferRect_SetTargetOffset dor drp dsp b"
  let ?s = "CopyBufferRect_SetSourceOffset so srp ssp ?t"
  assume ok: "bErr (CopyBufferRect_CheckCopyOverlap ?s) = CL_SUCCESS"
  then have s: "bErr ?s = CL_SUCCESS" using copy_rect_errors(3) by blast
  then have t: "bErr ?t = CL_SUCCESS" using copy_rect_errors(2) by blast
  note T = copy_rect_target [OF t assms(1,3)]
  have "crSource ?t = Some mo" using T(3) assms(2) by simp
  note S = copy_rect_source [OF s this T(4)]
  obtain TOr SOr where "crTargetOrigin ?s = Some TOr" "crSourceOrigin ?s = Some SOr" using T(5) S(4,6) by auto
  moreover have "crTarget ?s = Some mo" using S(3) T(2) by simp
  ultimately show False using overlap_error [OF _ S(2,5)] ok by blast
qed

text \<open>
  \<open>clEnqueueCopyBufferRect\<close> never accepts a copy inside one buffer, however far the two rectangles are
  from each other: the loop of \<open>CheckCopyOverlap\<close> over the dimensions runs while no overlap has been
  found and starts with one, so the rectangles always count as overlapping.
\<close>

lemma copy_rect_inside_buffer_refused:
  "\<exists>e. e \<noteq> CL_SUCCESS \<and>
       clEnqueueCopyBufferRect dev (Some mo) (Some mo) so dor (Some R) srp ssp drp dsp N Evs want (Some q, w) =
         Some ((Some q, w), Refused e)"
proof -
  let ?b0 = "CopyBufferRect_Builder (QInfo q) (Some mo) (Some mo)"
  obtain b where b: "CopyBufferRect_SetRegion (Some R) ?b0 = Some b" by (simp add: CopyBufferRect_SetRegion_def)
  let ?c = "CopyBufferRect_CheckCopyOverlap
              (CopyBufferRect_SetSourceOffset so srp ssp (CopyBufferRect_SetTargetOffset dor drp dsp b))"
  have "bErr ?c \<noteq> CL_SUCCESS"
  proof (cases "bErr b = CL_SUCCESS")
    case True
    then have ok: "bErr ?b0 = CL_SUCCESS" and reg: "b = ?b0\<lparr>crRegion := Some R\<rparr>"
      using b copy_rect_errors(5) [OF _ b] by (auto simp: CopyBufferRect_SetRegion_def split: if_splits)
    have "rect_buffer_ok (QInfo q) mo" using ok by (simp add: CopyBufferRect_Builder_ok)
    note V = CopyBufferRect_Builder_value [OF this this]
    show ?thesis by (rule same_buffer_overlap [where mo = mo and R = R]) (simp_all add: reg V)
  next
    case False
    show ?thesis by (rule copy_rect_errors(3), rule copy_rect_errors(2), rule copy_rect_errors(1), rule False)
  qed
  then have e: "bErr (CopyBufferRect_SetWaitList (WEvents w) N Evs ?c) \<noteq> CL_SUCCESS" by (rule copy_rect_errors(4))
  then show ?thesis
    by (intro exI [of _ "bErr (CopyBufferRect_SetWaitList (WEvents w) N Evs ?c)"])
      (simp add: clEnqueueCopyBufferRect_def with_queue_def b enqueue_created_def CopyBufferRect_Create_def create_command_def)
qed

section \<open>Mappings\<close>

lemma MapBuffer_Builder_value:
  assumes "rect_buffer_ok Q mo"
  shows "MapBuffer_Builder Q (Some mo) =
    \<lparr>bCtx = QContext Q, bErr = CL_SUCCESS, bWait = [], bDiag = [], bBlocking = False, mbSource = Some mo,
     mbMapFlags = 0, mbOffset = 0, mbSize = 0, mbMapBuf = NULL\<rparr>"
  unfolding MapBuffer_Builder_def
  by (subst with_buffer_value [OF _ assms [unfolded rect_buffer_ok_def]]) simp_all

text \<open>
  A mapping call that fails leaves its mapping behind. When the buffer, the flags and the region are
  accepted and the mapping can be recorded, but the wait list arguments are refused, the call returns
  an error and no address, and the record of the mapped object has one mapping more, which nobody
  knows and which keeps later mappings for writing from overlapping it.
\<close>

lemma failed_map_keeps_mapping:
  assumes "clValidMapField fl" "n \<noteq> 0" "rect_buffer_ok (QInfo q) mo" "map_flags_error fl mo = None"
    and "off + n \<le> getSize mo" "\<not> wait_args_ok N Evs"
    and "addMapping mo (acquireMappingAddrFor dm mo) (linear_map_info junk off n fl) (WMaps w) = (S, True)"
  shows "(\<exists>e. e \<noteq> CL_SUCCESS \<and>
            clEnqueueMapBuffer dev dm junk (Some mo) B fl off n N Evs want (Some q, w) =
              Some ((Some q, w\<lparr>WMaps := S\<rparr>), Refused e)) \<and>
         length (S (root_id mo)) = Suc (length (WMaps w (root_id mo)))"
proof -
  let ?Bld = "MapBuffer_SetMapArea off n (MapBuffer_SetMapFlags fl (MapBuffer_SetBlocking (WEvents w) B
                (MapBuffer_Builder (QInfo q) (Some mo))))"
  let ?b = "\<lparr>bCtx = QContext (QInfo q), bErr = CL_SUCCESS, bWait = [], bDiag = [], bBlocking = B, mbSource = Some mo,
              mbMapFlags = fl, mbOffset = off, mbSize = n, mbMapBuf = NULL\<rparr>"
  have "\<not> getSize mo < off + n" using assms(5) by simp
  then have B: "?Bld = ?b"
    using assms(4) by (simp add: MapBuffer_Builder_value [OF assms(3)] MapBuffer_SetBlocking_def MapBuffer_SetMapFlags_def
                          MapBuffer_SetMapArea_def)
  let ?m = "?b\<lparr>mbMapBuf := acquireMappingAddrFor dm mo\<rparr>"
  have M: "MapBuffer_SetMapBuffer dm junk (WMaps w) ?Bld = (S, ?m)"
    unfolding B using assms(7) by (simp add: MapBuffer_SetMapBuffer_def Let_def)
  let ?e = "bErr (MapBuffer_SetWaitList (WEvents w) N Evs ?m)"
  have e: "?e \<noteq> CL_SUCCESS" using assms(6) by (simp add: MapBuffer_SetWaitList_def SetWaitList_blocking_ok)
  have "\<exists>e. e \<noteq> CL_SUCCESS \<and>
           clEnqueueMapBuffer dev dm junk (Some mo) B fl off n N Evs want (Some q, w) =
             Some ((Some q, w\<lparr>WMaps := S\<rparr>), Refused e)"
    using e assms(1,2) M
    by (intro exI [of _ ?e])
      (simp add: clEnqueueMapBuffer_def with_queue_def enqueue_created_def MapBuffer_Create_def create_command_def mapped_reply_def)
  moreover have "length (S (root_id mo)) = Suc (length (WMaps w (root_id mo)))"
    using assms(7) by (auto simp: addMapping_root insert_mapping_def split: if_splits)
  ultimately show ?thesis by (rule conjI)
qed

end
