(* ===== verification/Memory_Builder.thy ===== *)
theory Memory_Builder
  imports Memory_Object Builder_Base
begin

text \<open>
  How memory objects come to life: the second part of \<open>lib/Core/MemoryObject.cpp\<close>
  (\<open>MemoryObjectBuilder\<close>), the start of a tracker for a new object (\<open>initializeMCT\<close>,
  \<open>initForDevices\<close>), and the entry points of \<open>tools/libOpenCRun/MemoryObject.cpp\<close> that create
  objects.

  The union of the builder is kept as separate fields: the kind chosen by the constructor decides
  which of them are read, and the assertions of the setters of flags stop a mix. A null context
  makes \<open>error\<close> dereference null: such calls, like failed assertions, are \<open>None\<close>. The
  representation of a format or of a description is the numbers the caller passes.
\<close>

section \<open>What the caller passes\<close>

record cl_image_format =
  image_channel_order :: nat
  image_channel_data_type :: nat

record cl_image_desc =
  image_type_of :: nat
  image_width :: size_t
  image_height :: size_t
  image_depth :: size_t
  image_array_size :: size_t
  image_row_pitch :: size_t
  image_slice_pitch :: size_t
  num_mip_levels :: nat
  num_samples :: nat
  buffer_of :: cl_mem

record cl_buffer_region =
  region_origin :: size_t
  region_size :: size_t

definition order_of :: "nat \<Rightarrow> channel_order option" where
  "order_of n = map_of
     [(0x10B0, Channel_R), (0x10B1, Channel_A), (0x10B2, Channel_RG), (0x10B3, Channel_RA),
      (0x10B4, Channel_RGB), (0x10B5, Channel_RGBA), (0x10B6, Channel_BGRA), (0x10B7, Channel_ARGB),
      (0x10B8, Channel_Intensity), (0x10B9, Channel_Luminance), (0x10BA, Channel_Rx),
      (0x10BB, Channel_RGx), (0x10BC, Channel_RGBx)] n"

definition data_type_of :: "nat \<Rightarrow> channel_data_type option" where
  "data_type_of n = map_of
     [(0x10D0, DataType_SNorm_Int8), (0x10D1, DataType_SNorm_Int16), (0x10D2, DataType_UNorm_Int8),
      (0x10D3, DataType_UNorm_Int16), (0x10D4, DataType_UNorm_Short_565),
      (0x10D5, DataType_UNorm_Short_555), (0x10D6, DataType_UNorm_Int_101010),
      (0x10D7, DataType_Signed_Int8), (0x10D8, DataType_Signed_Int16), (0x10D9, DataType_Signed_Int32),
      (0x10DA, DataType_Unsigned_Int8), (0x10DB, DataType_Unsigned_Int16),
      (0x10DC, DataType_Unsigned_Int32), (0x10DD, DataType_Half_Float), (0x10DE, DataType_Float)] n"

definition type_of :: "nat \<Rightarrow> image_type option" where
  "type_of n = map_of
     [(0x10F1, Image2D), (0x10F2, Image3D), (0x10F3, Image2D_Array), (0x10F4, Image1D),
      (0x10F5, Image1D_Array), (0x10F6, Image1D_Buffer)] n"

section \<open>The builder\<close>

datatype builder_kind = K_Buffer | K_SubBuffer | K_Image

record context_info =
  cxId :: ctx_id
  cxDevices :: "device_info list"

record mem_builder =
  mbKind :: builder_kind
  mbCtx :: "context_info option"
  mbFlags :: "16 word"
  mbHostPtr :: ptr
  mbErr :: cl_int
  mbSize :: size_t
  mbParent :: cl_mem
  mbOrigin :: size_t
  mbImgType :: "image_type option"
  mbOrder :: "channel_order option"
  mbDataType :: "channel_data_type option"
  mbDesc :: img_descriptor
  mbImgBuf :: cl_mem

abbreviation no_desc :: img_descriptor where
  "no_desc \<equiv> \<lparr>Width = 0, Height = 0, Depth = 0, ArraySize = 0, RowPitch = 0, SlicePitch = 0\<rparr>"

definition MemoryObjectBuilder :: "builder_kind \<Rightarrow> mem_builder" where
  "MemoryObjectBuilder K =
     \<lparr>mbKind = K, mbCtx = None, mbFlags = 0, mbHostPtr = NULL, mbErr = CL_SUCCESS, mbSize = 0,
      mbParent = None, mbOrigin = 0, mbImgType = None, mbOrder = None, mbDataType = None,
      mbDesc = no_desc, mbImgBuf = None\<rparr>"

text \<open>The diagnostics go to the context first.\<close>

definition mem_error :: "cl_int \<Rightarrow> mem_builder \<Rightarrow> mem_builder option" where
  "mem_error E b = (case mbCtx b of None \<Rightarrow> None | Some C \<Rightarrow> Some (b\<lparr>mbErr := E\<rparr>))"

section \<open>Flags\<close>

abbreviation (input) HostPtrModeMask :: mem_flags where "HostPtrModeMask \<equiv> 0x38"
abbreviation (input) AccessProtectionMask :: mem_flags where "AccessProtectionMask \<equiv> 0x7"
abbreviation (input) HostAccessProtectionMask :: mem_flags where "HostAccessProtectionMask \<equiv> 0x380"
abbreviation (input) AllFlags :: mem_flags where "AllFlags \<equiv> 0x3BF"
abbreviation (input) CanReadMask :: mem_flags where "CanReadMask \<equiv> 0x5"
abbreviation (input) CanWriteMask :: mem_flags where "CanWriteMask \<equiv> 0x3"

definition flag_count :: "mem_flags \<Rightarrow> mem_flags list \<Rightarrow> nat" where
  "flag_count F ms = length (filter (has_flag F) ms)"

text \<open>The value a \<open>uint16_t\<close> member keeps of the flags.\<close>

definition store_flags :: "mem_flags \<Rightarrow> mem_builder \<Rightarrow> mem_builder" where
  "store_flags F b = b\<lparr>mbFlags := ucast F\<rparr>"

definition setSubBufferFlags :: "mem_flags \<Rightarrow> mem_builder \<Rightarrow> mem_builder option" where
  "setSubBufferFlags F b =
     (if mbKind b \<noteq> K_SubBuffer then None
      else if has_flag F (NOT AllFlags) then mem_error CL_INVALID_VALUE b
      else case mbParent b of
          None \<Rightarrow> None
        | Some P \<Rightarrow>
          if F = 0 then Some (store_flags (getFlags P) b)
          else if flag_count F [CL_MEM_READ_ONLY, CL_MEM_WRITE_ONLY, CL_MEM_READ_WRITE] > 1
          then mem_error CL_INVALID_VALUE b
          else let F1 = (if flag_count F [CL_MEM_READ_ONLY, CL_MEM_WRITE_ONLY, CL_MEM_READ_WRITE] = 0
                         then getFlags P AND (CL_MEM_READ_ONLY OR CL_MEM_WRITE_ONLY OR CL_MEM_READ_WRITE)
                         else F)
               in if flag_count F1 [CL_MEM_HOST_READ_ONLY, CL_MEM_HOST_WRITE_ONLY, CL_MEM_HOST_NO_ACCESS] > 0
                  then mem_error CL_INVALID_VALUE b
                  else if flag_count F1 [CL_MEM_USE_HOST_PTR, CL_MEM_ALLOC_HOST_PTR, CL_MEM_COPY_HOST_PTR] \<noteq> 0
                  then mem_error CL_INVALID_VALUE b
                  else Some (store_flags (getFlags P AND
                         (CL_MEM_USE_HOST_PTR OR CL_MEM_ALLOC_HOST_PTR OR CL_MEM_COPY_HOST_PTR)) b))"

text \<open>The additional tests of an image over a buffer: an error code, or the flags it inherits.\<close>

definition image_buffer_flags :: "mem_object \<Rightarrow> mem_flags \<Rightarrow> cl_int + mem_flags" where
  "image_buffer_flags Buf F =
     (let BF = getFlags Buf;
          BufHostWO = has_flag BF CL_MEM_HOST_WRITE_ONLY; BufHostRO = has_flag BF CL_MEM_HOST_READ_ONLY
      in if has_flag F CanReadMask \<and> has_flag BF CL_MEM_WRITE_ONLY \<or>
            has_flag F CanWriteMask \<and> has_flag BF CL_MEM_READ_ONLY
         then Inl CL_INVALID_VALUE
         else if has_flag F CL_MEM_HOST_READ_ONLY \<and> BufHostWO \<or>
                 has_flag F CL_MEM_HOST_WRITE_ONLY \<and> BufHostRO \<or>
                 has_flag F CL_MEM_HOST_NO_ACCESS \<and> (BufHostWO \<or> BufHostRO)
         then Inl CL_INVALID_VALUE
         else if has_flag F HostPtrModeMask then Inl CL_INVALID_VALUE
         else let F1 = F OR (BF AND HostPtrModeMask);
                  F2 = (if \<not> has_flag F1 AccessProtectionMask then F1 OR (BF AND AccessProtectionMask) else F1)
              in Inr (if \<not> has_flag F2 HostAccessProtectionMask
                      then F2 OR (BF AND HostAccessProtectionMask) else F2))"

text \<open>The common tests: an error code, or the flags to go on with.\<close>

definition generic_flags :: "mem_flags \<Rightarrow> ptr \<Rightarrow> cl_int + mem_flags" where
  "generic_flags F HostPtr =
     (if has_flag F (NOT AllFlags) then Inl CL_INVALID_VALUE
      else if F = 0 then Inr CL_MEM_READ_WRITE
      else if flag_count F [CL_MEM_READ_ONLY, CL_MEM_WRITE_ONLY, CL_MEM_READ_WRITE] > 1
      then Inl CL_INVALID_VALUE
      else if flag_count F [CL_MEM_HOST_READ_ONLY, CL_MEM_HOST_WRITE_ONLY, CL_MEM_HOST_NO_ACCESS] > 1
      then Inl CL_INVALID_VALUE
      else if (has_flag F CL_MEM_USE_HOST_PTR \<or> has_flag F CL_MEM_COPY_HOST_PTR) \<and> HostPtr = NULL
      then Inl CL_INVALID_HOST_PTR
      else if flag_count F [CL_MEM_USE_HOST_PTR, CL_MEM_ALLOC_HOST_PTR] > 1 \<or>
              flag_count F [CL_MEM_USE_HOST_PTR, CL_MEM_COPY_HOST_PTR] > 1
      then Inl CL_INVALID_VALUE
      else Inr F)"

definition setGenericFlags :: "mem_flags \<Rightarrow> ptr \<Rightarrow> mem_builder \<Rightarrow> mem_builder option" where
  "setGenericFlags F HostPtr b =
     (if mbKind b = K_SubBuffer then None
      else case generic_flags F HostPtr of
          Inl E \<Rightarrow> mem_error E b
        | Inr F1 \<Rightarrow>
          if mbKind b = K_Image \<and> mbImgType b = Some Image1D_Buffer
          then (case mbImgBuf b of
                  None \<Rightarrow> None
                | Some Buf \<Rightarrow>
                  (case image_buffer_flags Buf F1 of
                     Inl E \<Rightarrow> mem_error E b
                   | Inr F2 \<Rightarrow> Some ((store_flags F2 b)\<lparr>mbHostPtr := HostPtr\<rparr>)))
          else Some ((store_flags F1 b)\<lparr>mbHostPtr := HostPtr\<rparr>))"

section \<open>Context, buffers and sub-buffers\<close>

definition setContext :: "context_info option \<Rightarrow> mem_builder \<Rightarrow> mem_builder option" where
  "setContext C b =
     (case C of None \<Rightarrow> mem_error CL_INVALID_CONTEXT b | Some C \<Rightarrow> Some (b\<lparr>mbCtx := Some C\<rparr>))"

text \<open>
  The origin and the size of the region are tested and then forgotten. \<open>ctx_of\<close> gives the context
  of an object.
\<close>

definition setSubBufferParams ::
  "(ctx_id \<Rightarrow> context_info) \<Rightarrow> cl_mem \<Rightarrow> nat \<Rightarrow> cl_buffer_region option \<Rightarrow> mem_builder \<Rightarrow> mem_builder option" where
  "setSubBufferParams ctx_of Buf BCT BCI b =
     (case Buf of
        None \<Rightarrow> mem_error CL_INVALID_MEM_OBJECT b
      | Some mo \<Rightarrow>
        if \<not> is_buffer mo then mem_error CL_INVALID_MEM_OBJECT b
        else if isSubBuffer mo then mem_error CL_INVALID_MEM_OBJECT b
        else let b1 = b\<lparr>mbParent := Some mo, mbCtx := Some (ctx_of (getContext mo))\<rparr> in
          if BCT \<noteq> 0x1220 then mem_error CL_INVALID_VALUE b1
          else case BCI of
              None \<Rightarrow> mem_error CL_INVALID_VALUE b1
            | Some BR \<Rightarrow>
              if region_size BR = 0 then mem_error CL_INVALID_BUFFER_SIZE b1
              else if region_origin BR + region_size BR > getSize mo then mem_error CL_INVALID_VALUE b1
              else Some b1)"

definition setBufferSize :: "size_t \<Rightarrow> mem_builder \<Rightarrow> mem_builder option" where
  "setBufferSize Size b =
     (if Size = 0 then mem_error CL_INVALID_BUFFER_SIZE b else Some (b\<lparr>mbSize := Size\<rparr>))"

section \<open>Images\<close>

text \<open>The pairs of channel order and data type the third \<open>switch\<close> lets pass.\<close>

definition pair_ok :: "channel_order \<Rightarrow> channel_data_type \<Rightarrow> bool" where
  "pair_ok ord dt =
     (case ord of
        Channel_RGB \<Rightarrow> dt \<in> {DataType_UNorm_Short_565, DataType_UNorm_Short_555, DataType_UNorm_Int_101010}
      | Channel_RGBx \<Rightarrow> dt \<in> {DataType_UNorm_Short_565, DataType_UNorm_Short_555, DataType_UNorm_Int_101010}
      | Channel_ARGB \<Rightarrow> dt \<in> {DataType_UNorm_Int8, DataType_SNorm_Int8, DataType_Signed_Int8, DataType_Unsigned_Int8}
      | Channel_BGRA \<Rightarrow> dt \<in> {DataType_UNorm_Int8, DataType_SNorm_Int8, DataType_Signed_Int8, DataType_Unsigned_Int8}
      | Channel_Intensity \<Rightarrow> dt \<in> {DataType_UNorm_Int8, DataType_UNorm_Int16, DataType_SNorm_Int8,
                                  DataType_SNorm_Int16, DataType_Half_Float, DataType_Float}
      | Channel_Luminance \<Rightarrow> dt \<in> {DataType_UNorm_Int8, DataType_UNorm_Int16, DataType_SNorm_Int8,
                                  DataType_SNorm_Int16, DataType_Half_Float, DataType_Float}
      | _ \<Rightarrow> True)"

definition decode_format :: "cl_image_format option \<Rightarrow> (channel_order \<times> channel_data_type) option" where
  "decode_format Fmt =
     (case Fmt of None \<Rightarrow> None
      | Some f \<Rightarrow>
        (case (order_of (image_channel_order f), data_type_of (image_channel_data_type f)) of
           (Some ord, Some dt) \<Rightarrow> if pair_ok ord dt then Some (ord, dt) else None
         | _ \<Rightarrow> None))"

text \<open>The least limits over the devices that support the format, and how many there are.\<close>

record img_limits =
  MMImg2DWidth :: size_t
  MMImg2DHeight :: size_t
  MMImg3DWidth :: size_t
  MMImg3DHeight :: size_t
  MMImg3DDepth :: size_t
  MMImgBufSize :: size_t
  MMImgArraySize :: size_t

definition no_limits :: img_limits where
  "no_limits = \<lparr>MMImg2DWidth = NOT 0, MMImg2DHeight = NOT 0, MMImg3DWidth = NOT 0, MMImg3DHeight = NOT 0,
                MMImg3DDepth = NOT 0, MMImgBufSize = NOT 0, MMImgArraySize = NOT 0\<rparr>"

definition limits_with :: "device_info \<Rightarrow> img_limits \<Rightarrow> img_limits" where
  "limits_with D L =
     \<lparr>MMImg2DWidth = min (Image2DMaxWidth D) (MMImg2DWidth L),
      MMImg2DHeight = min (Image2DMaxHeight D) (MMImg2DHeight L),
      MMImg3DWidth = min (Image3DMaxWidth D) (MMImg3DWidth L),
      MMImg3DHeight = min (Image3DMaxHeight D) (MMImg3DHeight L),
      MMImg3DDepth = min (Image3DMaxHeight D) (MMImg3DDepth L),
      MMImgBufSize = min (ImageMaxBufferSize D) (MMImgBufSize L),
      MMImgArraySize = min (ImageMaxArraySize D) (MMImgArraySize L)\<rparr>"

definition supporting :: "channel_order \<Rightarrow> channel_data_type \<Rightarrow> device_info list \<Rightarrow> device_info list" where
  "supporting ord dt Ds = filter (\<lambda>D. ImageFormatSupported D ord dt) Ds"

definition image_limits :: "channel_order \<Rightarrow> channel_data_type \<Rightarrow> device_info list \<Rightarrow> img_limits" where
  "image_limits ord dt Ds = foldl (\<lambda>L D. limits_with D L) no_limits (supporting ord dt Ds)"

text \<open>
  The \<open>switch\<close> on the type. A result is an error code and the buffer stored so far, or the
  geometry without its pitches and the buffer.
\<close>

definition shape_1d ::
  "img_limits \<Rightarrow> size_t \<Rightarrow> image_type \<Rightarrow> cl_image_desc \<Rightarrow> ((cl_int \<times> cl_mem) + (img_descriptor \<times> cl_mem)) option" where
  "shape_1d L Elem Ty D =
     (if image_width D = 0 then Some (Inl (CL_INVALID_IMAGE_DESCRIPTOR, None))
      else if image_width D \<ge> MMImgBufSize L div Elem then Some (Inl (CL_INVALID_IMAGE_SIZE, None))
      else if Ty = Image1D_Buffer \<and> buffer_of D = None then Some (Inl (CL_INVALID_IMAGE_DESCRIPTOR, None))
      else if Ty \<noteq> Image1D_Buffer \<and> buffer_of D \<noteq> None then Some (Inl (CL_INVALID_IMAGE_DESCRIPTOR, None))
      else if (\<exists>mo. buffer_of D = Some mo \<and> \<not> is_buffer mo) then None
      else if Ty = Image1D_Array \<and> image_array_size D = 0
      then Some (Inl (CL_INVALID_IMAGE_DESCRIPTOR, buffer_of D))
      else if Ty = Image1D_Array \<and> image_array_size D \<ge> MMImgArraySize L
      then Some (Inl (CL_INVALID_IMAGE_DESCRIPTOR, buffer_of D))
      else Some (Inr (no_desc\<lparr>Width := image_width D,
                              ArraySize := (if Ty = Image1D_Array then image_array_size D else 0)\<rparr>,
                      buffer_of D)))"

definition shape_2d :: "img_limits \<Rightarrow> image_type \<Rightarrow> cl_image_desc \<Rightarrow> cl_int + img_descriptor" where
  "shape_2d L Ty D =
     (if image_width D = 0 then Inl CL_INVALID_IMAGE_DESCRIPTOR
      else if image_width D \<ge> MMImg2DWidth L then Inl CL_INVALID_IMAGE_SIZE
      else if image_height D = 0 then Inl CL_INVALID_IMAGE_DESCRIPTOR
      else if image_height D \<ge> MMImg2DHeight L then Inl CL_INVALID_IMAGE_SIZE
      else if buffer_of D \<noteq> None then Inl CL_INVALID_IMAGE_DESCRIPTOR
      else if Ty = Image2D_Array \<and> image_array_size D = 0 then Inl CL_INVALID_IMAGE_DESCRIPTOR
      else if Ty = Image2D_Array \<and> image_array_size D \<ge> MMImgArraySize L then Inl CL_INVALID_IMAGE_DESCRIPTOR
      else Inr (no_desc\<lparr>Width := image_width D, Height := image_height D,
                        ArraySize := (if Ty = Image2D_Array then image_array_size D else 0)\<rparr>))"

definition shape_3d :: "img_limits \<Rightarrow> cl_image_desc \<Rightarrow> cl_int + img_descriptor" where
  "shape_3d L D =
     (if image_width D = 0 then Inl CL_INVALID_IMAGE_DESCRIPTOR
      else if image_width D \<ge> MMImg3DWidth L then Inl CL_INVALID_IMAGE_SIZE
      else if image_height D = 0 then Inl CL_INVALID_IMAGE_DESCRIPTOR
      else if image_height D \<ge> MMImg3DHeight L then Inl CL_INVALID_IMAGE_SIZE
      else if image_depth D = 0 then Inl CL_INVALID_IMAGE_DESCRIPTOR
      else if image_depth D \<ge> MMImg3DDepth L then Inl CL_INVALID_IMAGE_SIZE
      else if buffer_of D \<noteq> None then Inl CL_INVALID_IMAGE_DESCRIPTOR
      else Inr (no_desc\<lparr>Width := image_width D, Height := image_height D, Depth := image_depth D\<rparr>))"

definition image_shape ::
  "img_limits \<Rightarrow> size_t \<Rightarrow> cl_image_desc \<Rightarrow> ((cl_int \<times> cl_mem) + (img_descriptor \<times> cl_mem)) option" where
  "image_shape L Elem D =
     (let planar = (\<lambda>r. case r of Inl e \<Rightarrow> Some (Inl (e, None)) | Inr d \<Rightarrow> Some (Inr (d, None))) in
      case type_of (image_type_of D) of
        None \<Rightarrow> Some (Inl (CL_INVALID_IMAGE_DESCRIPTOR, None))
      | Some Image1D \<Rightarrow> shape_1d L Elem Image1D D
      | Some Image1D_Buffer \<Rightarrow> shape_1d L Elem Image1D_Buffer D
      | Some Image1D_Array \<Rightarrow> shape_1d L Elem Image1D_Array D
      | Some Image2D \<Rightarrow> planar (shape_2d L Image2D D)
      | Some Image2D_Array \<Rightarrow> planar (shape_2d L Image2D_Array D)
      | Some Image3D \<Rightarrow> planar (shape_3d L D))"

definition requires_slice_pitch :: "image_type \<Rightarrow> bool" where
  "requires_slice_pitch Ty \<longleftrightarrow> Ty \<in> {Image1D_Array, Image2D_Array, Image3D}"

text \<open>The pitches, with the host pointer the builder has at this point.\<close>

definition image_pitches ::
  "ptr \<Rightarrow> size_t \<Rightarrow> image_type \<Rightarrow> cl_image_desc \<Rightarrow> img_descriptor \<Rightarrow> cl_int + img_descriptor" where
  "image_pitches HostPtr Elem Ty D I =
     (if HostPtr = NULL then
        if image_row_pitch D \<noteq> 0 then Inl CL_INVALID_IMAGE_DESCRIPTOR
        else if requires_slice_pitch Ty \<and> image_slice_pitch D \<noteq> 0 then Inl CL_INVALID_IMAGE_DESCRIPTOR
        else let I1 = I\<lparr>RowPitch := Width I * Elem\<rparr> in
          Inr (if requires_slice_pitch Ty then I1\<lparr>SlicePitch := RowPitch I1 * Height I\<rparr> else I1)
      else let MinRowPitch = Width I * Elem;
               I1 = I\<lparr>RowPitch := (if image_row_pitch D \<noteq> 0 then image_row_pitch D else MinRowPitch)\<rparr> in
        if RowPitch I1 < MinRowPitch \<or> RowPitch I1 mod Elem \<noteq> 0 then Inl CL_INVALID_IMAGE_DESCRIPTOR
        else if requires_slice_pitch Ty then
          let MinSlicePitch = RowPitch I1 * Height I;
              I2 = I1\<lparr>SlicePitch := (if image_slice_pitch D \<noteq> 0 then image_slice_pitch D else MinSlicePitch)\<rparr> in
          if SlicePitch I2 < MinSlicePitch \<or> SlicePitch I2 mod RowPitch I1 \<noteq> 0
          then Inl CL_INVALID_IMAGE_DESCRIPTOR else Inr I2
        else Inr I1)"

definition image_size :: "image_type \<Rightarrow> img_descriptor \<Rightarrow> size_t" where
  "image_size Ty I =
     (case Ty of
        Image1D \<Rightarrow> RowPitch I
      | Image1D_Buffer \<Rightarrow> RowPitch I
      | Image1D_Array \<Rightarrow> RowPitch I * ArraySize I
      | Image2D \<Rightarrow> RowPitch I * Height I
      | Image2D_Array \<Rightarrow> RowPitch I * SlicePitch I * ArraySize I
      | Image3D \<Rightarrow> RowPitch I * SlicePitch I * Depth I)"

definition format_element_size :: "channel_order \<Rightarrow> channel_data_type \<Rightarrow> size_t" where
  "format_element_size ord dt =
     of_nat (if \<not> isPackedChannelType dt then computeImageChannelSizeInBytes dt * computeImageNumChannels ord
             else computeImageChannelSizeInBytes dt)"

definition setImage :: "cl_image_format option \<Rightarrow> cl_image_desc option \<Rightarrow> mem_builder \<Rightarrow> mem_builder option" where
  "setImage Fmt Dsc b =
     (case decode_format Fmt of
        None \<Rightarrow> mem_error CL_INVALID_IMAGE_FORMAT_DESCRIPTOR b
      | Some (ord, dt) \<Rightarrow>
        let b1 = b\<lparr>mbOrder := Some ord, mbDataType := Some dt\<rparr>; Elem = format_element_size ord dt in
        case Dsc of
          None \<Rightarrow> mem_error CL_INVALID_IMAGE_DESCRIPTOR b1
        | Some D \<Rightarrow>
          if num_mip_levels D \<noteq> 0 then mem_error CL_INVALID_IMAGE_DESCRIPTOR b1
          else if num_samples D \<noteq> 0 then mem_error CL_INVALID_IMAGE_DESCRIPTOR b1
          else case mbCtx b1 of
              None \<Rightarrow> None
            | Some C \<Rightarrow>
              if supporting ord dt (cxDevices C) = [] then mem_error CL_IMAGE_FORMAT_NOT_SUPPORTED b1
              else case image_shape (image_limits ord dt (cxDevices C)) Elem D of
                  None \<Rightarrow> None
                | Some (Inl (E, Buf)) \<Rightarrow> mem_error E (b1\<lparr>mbImgBuf := Buf\<rparr>)
                | Some (Inr (I, Buf)) \<Rightarrow>
                  let Ty = the (type_of (image_type_of D));
                      b2 = b1\<lparr>mbImgBuf := Buf, mbDesc := I, mbImgType := Some Ty\<rparr>
                  in case image_pitches (mbHostPtr b) Elem Ty D I of
                       Inl E \<Rightarrow> mem_error E b2
                     | Inr I' \<Rightarrow> Some (b2\<lparr>mbDesc := I', mbSize := image_size Ty I'\<rparr>))"

end
