(* ===== verification/Memory_Create.thy ===== *)
theory Memory_Create
  imports Memory_Builder Coherency_Refine
begin

text \<open>
  The creation of memory objects: \<open>MemoryObjectBuilder::create\<close> with \<open>initializeMCT\<close> and
  \<open>initForDevices\<close>, the counting of references of \<open>Util/MTRefCounted.h\<close>, and the entry points of
  \<open>tools/libOpenCRun/MemoryObject.cpp\<close>.

  The state is the trackers of all objects, with the memory each of them manages, the counts of
  references and the objects deleted so far. The devices of the context are the parameter
  \<open>mem_env\<close>: whether each of them makes a descriptor, whether its storage can be mapped, and the
  descriptors they make. \<open>i\<close> is the address \<open>new\<close> gives to the object.
\<close>

section \<open>Counting references\<close>

record 'm mem_state =
  Trackers :: "'m trackers"
  Refs :: "mem_id \<Rightarrow> 32 word"
  Deleted :: "mem_id list"

definition Retain :: "mem_id \<Rightarrow> 'm mem_state \<Rightarrow> 'm mem_state" where
  "Retain i s = s\<lparr>Refs := (Refs s)(i := Refs s i + 1)\<rparr>"

text \<open>\<open>fetch_sub\<close> gives the value before the subtraction.\<close>

definition Release :: "mem_id \<Rightarrow> 'm mem_state \<Rightarrow> 'm mem_state" where
  "Release i s =
     (let old = Refs s i; s1 = s\<lparr>Refs := (Refs s)(i := old - 1)\<rparr>
      in if old = 0 then s1\<lparr>Deleted := Deleted s1 @ [i]\<rparr> else s1)"

definition clRetainMemObject :: "cl_mem \<Rightarrow> 'm mem_state \<Rightarrow> 'm mem_state \<times> cl_int" where
  "clRetainMemObject memobj s =
     (case memobj of None \<Rightarrow> (s, CL_INVALID_MEM_OBJECT)
      | Some mo \<Rightarrow> (Retain (moId (commonOf mo)) s, CL_SUCCESS))"

definition clReleaseMemObject :: "cl_mem \<Rightarrow> 'm mem_state \<Rightarrow> 'm mem_state \<times> cl_int" where
  "clReleaseMemObject memobj s =
     (case memobj of None \<Rightarrow> (s, CL_INVALID_MEM_OBJECT)
      | Some mo \<Rightarrow> (Release (moId (commonOf mo)) s, CL_SUCCESS))"

section \<open>A new object\<close>

record 'm mem_env =
  MakesDescriptor :: "nat \<Rightarrow> bool"
  CanMap :: "nat \<Rightarrow> 'm \<Rightarrow> bool"
  NewDescs :: "mem_object \<Rightarrow> 'm descs"

definition initializeMCT :: "mem_object \<Rightarrow> 'm trackers \<Rightarrow> 'm trackers option" where
  "initializeMCT mo T = (if parentOf mo = None then Some T else openRegion mo 0 (getSize mo) T)"

text \<open>The loop over the descriptors of an object whose contents come from the host.\<close>

fun map_devices :: "'m descs \<Rightarrow> (nat \<Rightarrow> 'm \<Rightarrow> bool) \<Rightarrow> nat list \<Rightarrow> 'm \<Rightarrow> 'm \<times> bool" where
  "map_devices V can_map [] m = (m, True)"
| "map_devices V can_map (k # ks) m =
     (let m1 = dmap V k m in
      if can_map k m1
      then map_devices V can_map ks (if dalias V k m1 then copy_range V (getHostIndex V) k 0 (ObjSize V) m1 else m1)
      else (m1, False))"

definition initForDevices :: "'m mem_env \<Rightarrow> mem_object \<Rightarrow> 'm trackers \<Rightarrow> 'm trackers \<times> bool" where
  "initForDevices E mo T =
     (let V = NewDescs E mo; i = moId (commonOf mo) in
      if \<exists>k < NumDevs V. \<not> MakesDescriptor E k then (T, False)
      else case (if has_flag (getFlags mo) CL_MEM_COPY_HOST_PTR
                 then map_devices V (CanMap E) [0..<NumDevs V] (snd (T i)) else (snd (T i), True)) of
          (m, False) \<Rightarrow> (T(i := (fst (T i), m)), False)
        | (m, True) \<Rightarrow>
            (if parentOf mo = None then T(i := initialize V m) else T(i := (fst (T i), m)), True))"

text \<open>The constructor the kind of the builder selects.\<close>

definition new_object :: "mem_id \<Rightarrow> context_info \<Rightarrow> mem_builder \<Rightarrow> mem_object option" where
  "new_object i C b =
     (case mbKind b of
        K_Buffer \<Rightarrow> Some (mk_Buffer i (cxId C) (mbSize b) (mbHostPtr b) (ucast (mbFlags b)))
      | K_SubBuffer \<Rightarrow>
          map_option (\<lambda>P. mk_SubBuffer i (cxId C) P (mbOrigin b) (mbSize b) (ucast (mbFlags b))) (mbParent b)
      | K_Image \<Rightarrow>
          Some (mk_Image i (cxId C) (mbSize b) (mbHostPtr b) (ucast (mbFlags b))
                 \<lparr>ImgTy = the (mbImgType b), ChOrder = the (mbOrder b), ChDataType = the (mbDataType b),
                  Desc = mbDesc b\<rparr> (mbImgBuf b)))"

definition create :: "'m mem_env \<Rightarrow> mem_id \<Rightarrow> mem_builder \<Rightarrow> 'm trackers \<Rightarrow>
    ('m trackers \<times> cl_mem \<times> cl_int) option" where
  "create E i b T =
     (if mbErr b \<noteq> CL_SUCCESS then Some (T, None, mbErr b)
      else case mbCtx b of
          None \<Rightarrow> None
        | Some C \<Rightarrow>
          (case new_object i C b of
             None \<Rightarrow> None
           | Some mo \<Rightarrow>
             (case initializeMCT mo T of
                None \<Rightarrow> None
              | Some T1 \<Rightarrow>
                (case initForDevices E mo T1 of
                   (T2, ok) \<Rightarrow> Some (T2, Some mo, if ok then CL_SUCCESS else CL_OUT_OF_HOST_MEMORY)))))"

text \<open>
  The last lines of the entry points: the handle is retained. A new object starts with the count 0
  and holds a reference to its parent.
\<close>

definition retain_parent :: "mem_object \<Rightarrow> 'm mem_state \<Rightarrow> 'm mem_state" where
  "retain_parent mo s = (case parentOf mo of None \<Rightarrow> s | Some P \<Rightarrow> Retain (moId (commonOf P)) s)"

definition finish_create :: "'m mem_env \<Rightarrow> mem_id \<Rightarrow> 'm mem_state \<Rightarrow> mem_builder option \<Rightarrow>
    ('m mem_state \<times> cl_mem \<times> cl_int) option" where
  "finish_create E i s r =
     (case r of
        None \<Rightarrow> None
      | Some b \<Rightarrow>
        (case create E i b (Trackers s) of
           None \<Rightarrow> None
         | Some (T, None, e) \<Rightarrow> Some (s\<lparr>Trackers := T\<rparr>, None, e)
         | Some (T, Some mo, e) \<Rightarrow>
             Some (Retain i (retain_parent mo (s\<lparr>Trackers := T, Refs := (Refs s)(i := 0)\<rparr>)), Some mo, e)))"

section \<open>Entry points\<close>

definition clCreateBuffer ::
  "'m mem_env \<Rightarrow> mem_id \<Rightarrow> context_info option \<Rightarrow> mem_flags \<Rightarrow> size_t \<Rightarrow> ptr \<Rightarrow> 'm mem_state \<Rightarrow>
   ('m mem_state \<times> cl_mem \<times> cl_int) option" where
  "clCreateBuffer E i ctx flags sz host_ptr s =
     finish_create E i s
       (Option.bind (Option.bind (setContext ctx (MemoryObjectBuilder K_Buffer)) (setBufferSize sz))
         (setGenericFlags flags host_ptr))"

definition clCreateSubBuffer ::
  "'m mem_env \<Rightarrow> mem_id \<Rightarrow> (ctx_id \<Rightarrow> context_info) \<Rightarrow> cl_mem \<Rightarrow> mem_flags \<Rightarrow> nat \<Rightarrow> cl_buffer_region option \<Rightarrow>
   'm mem_state \<Rightarrow> ('m mem_state \<times> cl_mem \<times> cl_int) option" where
  "clCreateSubBuffer E i ctx_of buffer flags buffer_create_type buffer_create_info s =
     finish_create E i s
       (Option.bind (setSubBufferParams ctx_of buffer buffer_create_type buffer_create_info
                       (MemoryObjectBuilder K_Buffer))
         (setSubBufferFlags flags))"

definition clCreateImage ::
  "'m mem_env \<Rightarrow> mem_id \<Rightarrow> context_info option \<Rightarrow> mem_flags \<Rightarrow> cl_image_format option \<Rightarrow>
   cl_image_desc option \<Rightarrow> ptr \<Rightarrow> 'm mem_state \<Rightarrow> ('m mem_state \<times> cl_mem \<times> cl_int) option" where
  "clCreateImage E i ctx flags image_format image_desc host_ptr s =
     finish_create E i s
       (Option.bind (Option.bind (setContext ctx (MemoryObjectBuilder K_Image)) (setImage image_format image_desc))
         (setGenericFlags flags host_ptr))"

definition clCreateImage2D ::
  "'m mem_env \<Rightarrow> mem_id \<Rightarrow> context_info option \<Rightarrow> mem_flags \<Rightarrow> cl_image_format option \<Rightarrow>
   size_t \<Rightarrow> size_t \<Rightarrow> size_t \<Rightarrow> ptr \<Rightarrow> 'm mem_state \<Rightarrow> ('m mem_state \<times> cl_mem \<times> cl_int) option" where
  "clCreateImage2D E i ctx flags image_format w h row_pitch host_ptr s =
     clCreateImage E i ctx flags image_format
       (Some \<lparr>image_type_of = 0x10F1, image_width = w, image_height = h, image_depth = 0,
              image_array_size = 1, image_row_pitch = row_pitch, image_slice_pitch = 0,
              num_mip_levels = 0, num_samples = 0, buffer_of = None\<rparr>) host_ptr s"

definition clCreateImage3D ::
  "'m mem_env \<Rightarrow> mem_id \<Rightarrow> context_info option \<Rightarrow> mem_flags \<Rightarrow> cl_image_format option \<Rightarrow>
   size_t \<Rightarrow> size_t \<Rightarrow> size_t \<Rightarrow> size_t \<Rightarrow> size_t \<Rightarrow> ptr \<Rightarrow> 'm mem_state \<Rightarrow> ('m mem_state \<times> cl_mem \<times> cl_int) option" where
  "clCreateImage3D E i ctx flags image_format w h d row_pitch slice_pitch host_ptr s =
     clCreateImage E i ctx flags image_format
       (Some \<lparr>image_type_of = 0x10F2, image_width = w, image_height = h, image_depth = d,
              image_array_size = 1, image_row_pitch = row_pitch, image_slice_pitch = slice_pitch,
              num_mip_levels = 0, num_samples = 0, buffer_of = None\<rparr>) host_ptr s"

section \<open>Supported formats\<close>

definition clValidMemField :: "mem_flags \<Rightarrow> bool" where
  "clValidMemField flags \<longleftrightarrow> \<not> has_flag flags (NOT 0x3BF)"

definition clValidImgType :: "32 word \<Rightarrow> bool" where
  "clValidImgType ty \<longleftrightarrow>
     \<not> has_flag ty (NOT (0x10F4 OR 0x10F6 OR 0x10F5 OR 0x10F1 OR 0x10F3 OR 0x10F2))"

definition ImgFmtCmp :: "cl_image_format \<Rightarrow> cl_image_format \<Rightarrow> bool" where
  "ImgFmtCmp f1 f2 =
     (if image_channel_order f1 < image_channel_order f2 then True
      else if image_channel_order f1 > image_channel_order f2 then False
      else if image_channel_data_type f1 < image_channel_data_type f2 then True else False)"

text \<open>The loops that collect the formats of all devices once.\<close>

fun format_found :: "cl_image_format \<Rightarrow> cl_image_format list \<Rightarrow> bool" where
  "format_found f [] = False"
| "format_found f (g # gs) =
     (if image_channel_order f = image_channel_order g \<and> image_channel_data_type f = image_channel_data_type g
      then True else format_found f gs)"

fun collect_formats :: "cl_image_format list \<Rightarrow> cl_image_format list \<Rightarrow> cl_image_format list" where
  "collect_formats acc [] = acc"
| "collect_formats acc (f # fs) = collect_formats (if format_found f acc then acc else acc @ [f]) fs"

text \<open>
  \<open>std::sort\<close> with this comparison. Which sorting algorithm does not matter: the formats are
  distinct and \<open>ImgFmtCmp\<close> is a strict linear order.
\<close>

fun insert_format :: "cl_image_format \<Rightarrow> cl_image_format list \<Rightarrow> cl_image_format list" where
  "insert_format f [] = [f]"
| "insert_format f (g # gs) = (if ImgFmtCmp g f then g # insert_format f gs else f # g # gs)"

definition sort_formats :: "cl_image_format list \<Rightarrow> cl_image_format list" where
  "sort_formats fs = foldr insert_format fs []"

text \<open>
  The result is the status, the number written through \<open>num_image_formats\<close> and the entries written
  through \<open>image_formats\<close>, from the first on. \<open>image_formats\<close> and \<open>num_image_formats\<close> tell whether
  these pointers are given; the context is the lists of formats of its devices.
\<close>

definition clGetSupportedImageFormats ::
  "cl_image_format list list option \<Rightarrow> mem_flags \<Rightarrow> 32 word \<Rightarrow> nat \<Rightarrow> bool \<Rightarrow> bool \<Rightarrow>
   cl_int \<times> nat option \<times> cl_image_format list" where
  "clGetSupportedImageFormats ctx flags image_type num_entries image_formats num_image_formats =
     (case ctx of
        None \<Rightarrow> (CL_INVALID_CONTEXT, None, [])
      | Some devs \<Rightarrow>
        if num_entries = 0 \<and> image_formats then (CL_INVALID_VALUE, None, [])
        else if \<not> clValidMemField flags \<or> \<not> clValidImgType image_type then (CL_INVALID_VALUE, None, [])
        else let fmts = sort_formats (collect_formats [] (concat (filter (\<lambda>fs. fs \<noteq> []) devs)))
             in (CL_SUCCESS, if num_image_formats then Some (length fmts) else None,
                 if image_formats \<and> length fmts \<le> num_entries then take num_entries fmts else []))"

end
