(* ===== verification/Memory_API.thy ===== *)
theory Memory_API
  imports Memory_Create Command_Queue
begin

text \<open>
  What the entry points that create memory objects promise: the outcome of \<open>clCreateBuffer\<close> on
  every branch, the coherency tracker a new buffer starts with, the geometry of a new image, the
  list of supported formats, and what happens to a buffer created without an access mode.
\<close>

section \<open>Flags\<close>

definition at_most_one :: "mem_flags \<Rightarrow> mem_flags set \<Rightarrow> bool" where
  "at_most_one F A \<longleftrightarrow> (\<forall>a \<in> A. \<forall>b \<in> A. has_flag F a \<longrightarrow> has_flag F b \<longrightarrow> a = b)"

text \<open>The flags the specification of OpenCL allows for a buffer with the given host pointer.\<close>

definition legal_flags :: "mem_flags \<Rightarrow> ptr \<Rightarrow> bool" where
  "legal_flags F p \<longleftrightarrow>
     \<not> has_flag F (NOT AllFlags) \<and>
     at_most_one F {CL_MEM_READ_ONLY, CL_MEM_WRITE_ONLY, CL_MEM_READ_WRITE} \<and>
     at_most_one F {CL_MEM_HOST_READ_ONLY, CL_MEM_HOST_WRITE_ONLY, CL_MEM_HOST_NO_ACCESS} \<and>
     at_most_one F {CL_MEM_USE_HOST_PTR, CL_MEM_ALLOC_HOST_PTR} \<and>
     at_most_one F {CL_MEM_USE_HOST_PTR, CL_MEM_COPY_HOST_PTR} \<and>
     (has_flag F CL_MEM_USE_HOST_PTR \<or> has_flag F CL_MEM_COPY_HOST_PTR \<longrightarrow> p \<noteq> NULL)"

lemma flag_count_two:
  "a \<noteq> b \<Longrightarrow> flag_count F [a, b] > 1 \<longleftrightarrow> \<not> at_most_one F {a, b}"
  by (auto simp: flag_count_def at_most_one_def)

lemma flag_count_three:
  "a \<noteq> b \<Longrightarrow> a \<noteq> c \<Longrightarrow> b \<noteq> c \<Longrightarrow> flag_count F [a, b, c] > 1 \<longleftrightarrow> \<not> at_most_one F {a, b, c}"
  by (auto simp: flag_count_def at_most_one_def)

lemma at_most_one_zero [simp]: "at_most_one 0 A"
  by (simp add: at_most_one_def)

lemma generic_flags_cases:
  "case generic_flags F p of
     Inl e \<Rightarrow> \<not> legal_flags F p \<and> e \<in> {CL_INVALID_VALUE, CL_INVALID_HOST_PTR}
   | Inr G \<Rightarrow> legal_flags F p \<and> G = (if F = 0 then CL_MEM_READ_WRITE else F)"
  by (auto simp: generic_flags_def legal_flags_def flag_count_two flag_count_three
           simp del: One_nat_def)

lemma legal_use_copy: "legal_flags F p \<Longrightarrow> \<not> (has_flag F CL_MEM_USE_HOST_PTR \<and> has_flag F CL_MEM_COPY_HOST_PTR)"
proof
  assume "legal_flags F p" "has_flag F CL_MEM_USE_HOST_PTR \<and> has_flag F CL_MEM_COPY_HOST_PTR"
  then have "CL_MEM_USE_HOST_PTR = CL_MEM_COPY_HOST_PTR" unfolding legal_flags_def at_most_one_def by blast
  then show False by simp
qed

lemma generic_flags_legal:
  "legal_flags F p \<Longrightarrow> generic_flags F p = Inr (if F = 0 then CL_MEM_READ_WRITE else F)"
  using generic_flags_cases [of F p] by (auto split: sum.splits)

lemma generic_flags_illegal:
  assumes "\<not> legal_flags F p"
  obtains e where "generic_flags F p = Inl e" "e \<in> {CL_INVALID_VALUE, CL_INVALID_HOST_PTR}"
  using generic_flags_cases [of F p] assms by (auto split: sum.splits)

lemma masked_bit: "\<not> has_flag F (NOT M) \<Longrightarrow> bit F k \<Longrightarrow> bit M k" for F :: mem_flags
proof (rule ccontr)
  assume "\<not> has_flag F (NOT M)" "bit F k" "\<not> bit M k"
  moreover from this have "bit (F AND NOT M) k"
    by (auto simp: bit_and_iff bit_not_iff dest: bit_imp_le_length)
  ultimately show False by (simp add: has_flag_def)
qed

text \<open>The member of 16 bits keeps all of the flags that pass the tests.\<close>

lemma legal_flags_fit:
  assumes "\<not> has_flag F (NOT AllFlags)"
  shows "ucast (ucast F :: 16 word) = F"
proof (rule bit_word_eqI)
  fix k assume "k < LENGTH(64)"
  have "bit F k \<Longrightarrow> bit (0x3BF :: mem_flags) k" using assms by (rule masked_bit)
  moreover have "bit (0x3BF :: mem_flags) k \<Longrightarrow> k < 16"
  proof (rule ccontr)
    assume "bit (0x3BF :: mem_flags) k" "\<not> k < 16"
    moreover have "(0x3BF :: mem_flags) = take_bit 16 0x3BF" by simp
    ultimately show False by (metis bit_take_bit_iff)
  qed
  ultimately show "bit (ucast (ucast F :: 16 word) :: mem_flags) k = bit F k"
    using \<open>k < LENGTH(64)\<close> by (auto simp: bit_ucast_iff)
qed

text \<open>The code of a refusal: a missing host pointer is reported before two modes of storage.\<close>

definition flags_error :: "mem_flags \<Rightarrow> ptr \<Rightarrow> cl_int" where
  "flags_error F p =
     (if \<not> has_flag F (NOT AllFlags) \<and>
         at_most_one F {CL_MEM_READ_ONLY, CL_MEM_WRITE_ONLY, CL_MEM_READ_WRITE} \<and>
         at_most_one F {CL_MEM_HOST_READ_ONLY, CL_MEM_HOST_WRITE_ONLY, CL_MEM_HOST_NO_ACCESS} \<and>
         (has_flag F CL_MEM_USE_HOST_PTR \<or> has_flag F CL_MEM_COPY_HOST_PTR) \<and> p = NULL
      then CL_INVALID_HOST_PTR else CL_INVALID_VALUE)"

lemma generic_flags_error: "generic_flags F p = Inl e \<Longrightarrow> e = flags_error F p"
  by (auto simp: generic_flags_def flags_error_def flag_count_two flag_count_three simp del: One_nat_def split: if_splits)

section \<open>Buffers\<close>

lemmas builder_defs = MemoryObjectBuilder_def setContext_def setBufferSize_def setGenericFlags_def
  mem_error_def store_flags_def

lemma clCreateBuffer_refused:
  assumes "\<not> legal_flags F p"
  shows "clCreateBuffer E i (Some C) F n p s = Some (s, None, flags_error F p)"
    "flags_error F p \<in> {CL_INVALID_VALUE, CL_INVALID_HOST_PTR}"
proof -
  from assms obtain e where "generic_flags F p = Inl e" "e \<in> {CL_INVALID_VALUE, CL_INVALID_HOST_PTR}"
    by (rule generic_flags_illegal)
  then have e: "generic_flags F p = Inl (flags_error F p)" "flags_error F p \<in> {CL_INVALID_VALUE, CL_INVALID_HOST_PTR}"
    using generic_flags_error by metis+
  then show "flags_error F p \<in> {CL_INVALID_VALUE, CL_INVALID_HOST_PTR}" by blast
  then have "flags_error F p \<noteq> CL_SUCCESS" by auto
  with e(1) show "clCreateBuffer E i (Some C) F n p s = Some (s, None, flags_error F p)"
    by (auto simp: clCreateBuffer_def builder_defs finish_create_def create_def)
qed

lemma clCreateBuffer_illegal:
  "\<not> legal_flags F p \<Longrightarrow>
   \<exists>e \<in> {CL_INVALID_VALUE, CL_INVALID_HOST_PTR}. clCreateBuffer E i (Some C) F n p s = Some (s, None, e)"
  using clCreateBuffer_refused by blast

text \<open>A null context is reported through the diagnostics of the context.\<close>

lemma clCreateBuffer_no_context: "clCreateBuffer E i None F n p s = None"
  by (simp add: clCreateBuffer_def builder_defs finish_create_def)

lemma clCreateBuffer_empty:
  assumes "legal_flags F p"
  shows "clCreateBuffer E i (Some C) F 0 p s = Some (s, None, CL_INVALID_BUFFER_SIZE)"
  by (simp add: clCreateBuffer_def builder_defs generic_flags_legal [OF assms] finish_create_def create_def)

definition stored_flags :: "mem_flags \<Rightarrow> mem_flags" where
  "stored_flags F = (if F = 0 then CL_MEM_READ_WRITE else F)"

lemma stored_flags_fit: "legal_flags F p \<Longrightarrow> ucast (ucast (stored_flags F) :: 16 word) = stored_flags F"
  by (simp add: stored_flags_def legal_flags_def legal_flags_fit)

lemma clCreateBuffer_legal:
  fixes E :: "'m mem_env"
  assumes "legal_flags F p" "n \<noteq> 0"
  shows "clCreateBuffer E i (Some C) F n p s =
    (let mo = mk_Buffer i (cxId C) n p (stored_flags F); (T, ok) = initForDevices E mo (Trackers s)
     in Some (s\<lparr>Trackers := T, Refs := (Refs s)(i := 1)\<rparr>, Some mo,
              if ok then CL_SUCCESS else CL_OUT_OF_HOST_MEMORY))"
  using assms stored_flags_fit [OF assms(1)]
  by (simp add: clCreateBuffer_def builder_defs generic_flags_legal finish_create_def create_def
                new_object_def initializeMCT_def mk_Buffer_def retain_parent_def Retain_def
                stored_flags_def [symmetric] Let_def split: prod.split)

lemma map_devices_ok: "(\<And>k m. can_map k m) \<Longrightarrow> snd (map_devices V can_map ks m)"
  by (induction ks arbitrary: m) (simp_all add: Let_def)

lemma initForDevices_value:
  assumes "\<And>k. MakesDescriptor E k" "\<And>k m. CanMap E k m" "parentOf mo = None"
  shows "initForDevices E mo T =
    (let V = NewDescs E mo; i = moId (commonOf mo) in
     (T(i := initialize V (if has_flag (getFlags mo) CL_MEM_COPY_HOST_PTR
                           then fst (map_devices V (CanMap E) [0..<NumDevs V] (snd (T i))) else snd (T i))), True))"
proof -
  obtain m ok where r: "map_devices (NewDescs E mo) (CanMap E) [0..<NumDevs (NewDescs E mo)]
      (snd (T (moId (commonOf mo)))) = (m, ok)" by fastforce
  then have ok
    using map_devices_ok [of "CanMap E" "NewDescs E mo" "[0..<NumDevs (NewDescs E mo)]"
        "snd (T (moId (commonOf mo)))"] assms(2) by simp
  with r assms show ?thesis by (simp add: initForDevices_def Let_def)
qed

lemma initForDevices_frame: "j \<noteq> moId (commonOf mo) \<Longrightarrow> fst (initForDevices E mo T) j = T j"
  by (auto simp: initForDevices_def Let_def split: prod.splits bool.splits)

text \<open>
  Whether the devices provide the memory: each makes a descriptor, and, when the contents are to be copied,
  each in turn maps its storage.
\<close>

definition devices_provide :: "'m mem_env \<Rightarrow> mem_object \<Rightarrow> 'm \<Rightarrow> bool" where
  "devices_provide E mo m \<longleftrightarrow>
     (\<forall>k < NumDevs (NewDescs E mo). MakesDescriptor E k) \<and>
     (has_flag (getFlags mo) CL_MEM_COPY_HOST_PTR \<longrightarrow>
        snd (map_devices (NewDescs E mo) (CanMap E) [0..<NumDevs (NewDescs E mo)] m))"

lemma initForDevices_provided:
  assumes "parentOf mo = None"
  shows "snd (initForDevices E mo T) = devices_provide E mo (snd (T (moId (commonOf mo))))"
    "\<not> snd (initForDevices E mo T) \<Longrightarrow> fst (fst (initForDevices E mo T) i) = fst (T i)"
  using assms by (auto simp: initForDevices_def devices_provide_def Let_def split: prod.splits bool.splits if_splits)

text \<open>
  C26: the outcome of \<open>clCreateBuffer\<close> on every branch, whatever the devices do. Without a context the call
  crashes. With illegal flags or the size zero nothing changes, no buffer is returned, and the code
  is that of the flags before that of the size. Otherwise a buffer is returned with the size, the host
  pointer and the flags passed, or read-write for no flags at all, one reference, and no other object is
  touched; the code is success exactly when the devices provide the memory, and else, though the
  buffer is returned, that the memory is exhausted, and the coherency tracker of the buffer is left
  without regions.
\<close>

theorem create_buffer_outcome:
  fixes E :: "'m mem_env"
  shows "case ctx of
      None \<Rightarrow> clCreateBuffer E i ctx F n p s = None
    | Some C \<Rightarrow>
        (let mo = mk_Buffer i (cxId C) n p (if F = 0 then CL_MEM_READ_WRITE else F) in
         \<exists>s' h e. clCreateBuffer E i ctx F n p s = Some (s', h, e) \<and>
           (if legal_flags F p \<and> n \<noteq> 0
            then h = Some mo \<and> Refs s' = (Refs s)(i := 1) \<and> Deleted s' = Deleted s \<and>
                 (\<forall>j. j = i \<or> Trackers s' j = Trackers s j) \<and>
                 (if devices_provide E mo (snd (Trackers s i)) then e = CL_SUCCESS
                  else e = CL_OUT_OF_HOST_MEMORY \<and> fst (Trackers s' i) = fst (Trackers s i))
            else s' = s \<and> h = None \<and> e = (if legal_flags F p then CL_INVALID_BUFFER_SIZE else flags_error F p)))"
proof (cases ctx)
  case None
  then show ?thesis by (simp add: clCreateBuffer_no_context)
next
  case (Some C)
  let ?mo = "mk_Buffer i (cxId C) n p (stored_flags F)"
  have mo: "parentOf ?mo = None" "moId (commonOf ?mo) = i" by (simp_all add: mk_Buffer_def)
  note P = initForDevices_provided [OF mo(1), of E "Trackers s", unfolded mo(2)]
  have frame: "\<forall>j. j = i \<or> fst (initForDevices E ?mo (Trackers s)) j = Trackers s j"
    using initForDevices_frame [of _ ?mo E "Trackers s"] mo(2) by auto
  consider (flags) "\<not> legal_flags F p" | (size) "legal_flags F p" "n = 0" | (good) "legal_flags F p" "n \<noteq> 0" by blast
  then show ?thesis
  proof cases
    case flags
    then show ?thesis by (simp add: Some clCreateBuffer_refused(1) Let_def)
  next
    case size
    then show ?thesis by (simp add: Some clCreateBuffer_empty Let_def)
  next
    case good
    show ?thesis
      using clCreateBuffer_legal [OF good, of E i C s] good frame P(1) P(2) [of i]
      by (simp add: Some Let_def stored_flags_def [symmetric] case_prod_unfold)
  qed
qed

text \<open>The descriptors of a context of \<open>N\<close> CPU devices.\<close>

definition cpu_mem_env :: "nat \<Rightarrow> cpu_mem mem_env" where
  "cpu_mem_env N =
     \<lparr>MakesDescriptor = \<lambda>_. True, CanMap = \<lambda>_ _. True,
      NewDescs = \<lambda>mo. cpu_descs N (unat (getSize mo)) (has_flag (getFlags mo) CL_MEM_USE_HOST_PTR)
                          (has_flag (getFlags mo) CL_MEM_COPY_HOST_PTR)\<rparr>"

definition demo_context :: context_info where
  "demo_context = \<lparr>cxId = 7, cxDevices = []\<rparr>"

definition demo_mem_state :: "cpu_mem mem_state" where
  "demo_mem_state = \<lparr>Trackers = \<lambda>_. ([], \<lparr>HostMem = of_nat, DevMem = \<lambda>_ _. 0, Allocated = \<lambda>_. False\<rparr>),
                     Refs = \<lambda>_. 0, Deleted = []\<rparr>"

lemma demo_legal: "legal_flags 0x24 4096"
  by (simp add: legal_flags_def at_most_one_def has_flag_def)

text \<open>The second device of this context has no memory for the buffer.\<close>

definition full_mem_env :: "cpu_mem mem_env" where
  "full_mem_env = (cpu_mem_env 2)\<lparr>MakesDescriptor := \<lambda>k. k = 0\<rparr>"

theorem create_buffer_outcome_witness:
  "\<exists>s'. clCreateBuffer full_mem_env 5 (Some demo_context) 0x24 16 4096 demo_mem_state =
         Some (s', Some (mk_Buffer 5 7 16 4096 0x24), CL_OUT_OF_HOST_MEMORY) \<and> fst (Trackers s' 5) = []"
proof -
  have "\<not> devices_provide full_mem_env mo m" for mo m
    by (auto simp: devices_provide_def full_mem_env_def cpu_mem_env_def cpu_descs_def intro: exI [of _ 1])
  then show ?thesis
    using create_buffer_outcome [where E = full_mem_env and i = 5 and ctx = "Some demo_context" and F = "0x24" and n = 16
        and p = 4096 and s = demo_mem_state] demo_legal
    by (auto simp: demo_context_def demo_mem_state_def Let_def)
qed

lemma clCreateBuffer_cpu:
  assumes "legal_flags F p" "n \<noteq> 0"
  shows "\<exists>s'. clCreateBuffer (cpu_mem_env N) i (Some C) F n p s =
           Some (s', Some (mk_Buffer i (cxId C) n p (stored_flags F)), CL_SUCCESS)"
proof -
  have "snd (initForDevices (cpu_mem_env N) (mk_Buffer i (cxId C) n p (stored_flags F)) (Trackers s))"
    by (simp add: initForDevices_value cpu_mem_env_def mk_Buffer_def Let_def)
  then show ?thesis by (simp add: clCreateBuffer_legal [OF assms] Let_def case_prod_unfold)
qed

lemma map_devices_host: "HostMem (fst (map_devices (cpu_descs N sz False ch) can_map ks m)) = HostMem m"
proof (induction ks arbitrary: m)
  case (Cons k ks)
  have "HostMem (cpu_map k m) = HostMem m" by (simp add: cpu_map_def)
  with Cons show ?case by (simp add: Let_def cpu_descs_def cpu_aliasWithHostPtr_def)
qed simp

text \<open>
  C17: every buffer the API creates starts a life of the coherency tracker: in a context of CPU devices
  the tracker of the new object is an initial state of a run that refines one flat memory, holding
  the bytes at the host pointer when these were to be used or copied, and nothing otherwise.
\<close>

theorem created_buffer_is_tracked:
  assumes "0 < N" "clCreateBuffer (cpu_mem_env N) i (Some C) F n p s = Some (s', Some mo, e)"
  shows "tracker_runs
           (cpu_descs N (unat n) (has_flag F CL_MEM_USE_HOST_PTR) (has_flag F CL_MEM_COPY_HOST_PTR))
           (Trackers s' i)
           (\<lambda>j. if j < unat n \<and> (has_flag F CL_MEM_USE_HOST_PTR \<or> has_flag F CL_MEM_COPY_HOST_PTR)
                then Some (HostMem (snd (Trackers s i)) j) else None)"
proof -
  have legal: "legal_flags F p"
    using assms(2) clCreateBuffer_illegal [of F p "cpu_mem_env N" i C n s] by (auto simp del: insert_iff)
  have n: "n \<noteq> 0" using assms(2) clCreateBuffer_empty [OF legal, of "cpu_mem_env N" i C s] by auto
  define uh where "uh = has_flag F CL_MEM_USE_HOST_PTR"
  define ch where "ch = has_flag F CL_MEM_COPY_HOST_PTR"
  define V where "V = cpu_descs N (unat n) uh ch"
  define m0 where "m0 = snd (Trackers s i)"
  have sf: "has_flag (stored_flags F) CL_MEM_USE_HOST_PTR = uh" "has_flag (stored_flags F) CL_MEM_COPY_HOST_PTR = ch"
    by (simp_all add: stored_flags_def uh_def ch_def has_flag_def)
  have excl: "\<not> (uh \<and> ch)" using legal_use_copy [OF legal] by (simp add: uh_def ch_def)
  define m1 where "m1 = (if ch then fst (map_devices V (\<lambda>_ _. True) [0..<N] m0) else m0)"
  have host: "HostMem m1 = HostMem m0"
    using excl map_devices_host [of N "unat n" ch] by (auto simp: m1_def V_def)
  define mo' where "mo' = mk_Buffer i (cxId C) n p (stored_flags F)"
  have mo': "parentOf mo' = None" "moId (commonOf mo') = i" "getFlags mo' = stored_flags F" "getSize mo' = n"
    by (simp_all add: mo'_def mk_Buffer_def)
  have env: "NewDescs (cpu_mem_env N) mo' = V" "CanMap (cpu_mem_env N) = (\<lambda>_ _. True)" "NumDevs V = N"
    by (simp_all add: cpu_mem_env_def V_def mo'(3,4) sf) (simp add: cpu_descs_def)
  have makes: "MakesDescriptor (cpu_mem_env N) k" for k by (simp add: cpu_mem_env_def)
  have "initForDevices (cpu_mem_env N) mo' (Trackers s) = ((Trackers s)(i := initialize V m1), True)"
    using initForDevices_value [of "cpu_mem_env N" mo' "Trackers s", OF _ _ mo'(1)]
    by (simp add: Let_def mo' env sf m1_def m0_def makes)
  then have T: "Trackers s' i = initialize V m1"
    using assms(2) unfolding clCreateBuffer_legal [OF legal n] mo'_def [symmetric] by (auto simp: Let_def)
  have "object_ok V" using n assms(1) excl by (auto simp: object_ok_def V_def cpu_descs_def unat_gt_0)
  then have run: "tracker_runs V (Trackers s' i) (initial_memory V m1)"
    unfolding T by (rule tracker_runs.Init)
  have "initial_memory V m1 = (\<lambda>j. if j < unat n \<and> (uh \<or> ch) then Some (HostMem m0 j) else None)"
    by (rule ext) (simp add: initial_memory_def V_def cpu_descs_def cpu_read_def host)
  from run [unfolded this] show ?thesis unfolding V_def uh_def ch_def m0_def .
qed

theorem created_buffer_is_tracked_witness:
  "\<exists>s' :: cpu_mem mem_state. tracker_runs (cpu_descs 2 16 False True) (Trackers s' 5)
          (\<lambda>j. if j < 16 then Some (of_nat j) else None)"
proof -
  obtain s' where "clCreateBuffer (cpu_mem_env 2) 5 (Some demo_context) 0x24 16 4096 demo_mem_state =
      Some (s', Some (mk_Buffer 5 7 16 4096 0x24), CL_SUCCESS)"
    using clCreateBuffer_cpu [OF demo_legal, of 16 2 5 demo_context demo_mem_state]
    by (auto simp: demo_context_def stored_flags_def)
  from created_buffer_is_tracked [OF _ this]
  have "tracker_runs (cpu_descs 2 16 False True) (Trackers s' 5) (\<lambda>j. if j < 16 then Some (of_nat j) else None)"
    by (simp add: has_flag_def demo_mem_state_def cong: if_cong)
  then show ?thesis by blast
qed

section \<open>Buffers without an access mode\<close>

text \<open>
  Only flags that are zero as a whole are replaced by read-write. A kernel argument in a buffer
  without an access mode asks the tracker for no access, which its assertion refuses.
\<close>

lemma has_access: "has_flag F AccessProtectionMask \<longleftrightarrow>
    has_flag F CL_MEM_READ_WRITE \<or> has_flag F CL_MEM_WRITE_ONLY \<or> has_flag F CL_MEM_READ_ONLY" for F :: mem_flags
  using has_flag_mask_or [of F 1 6] has_flag_mask_or [of F 2 4] by simp

lemma synchronizeFor_nothing: "synchronizeFor V mo D 0 T = None"
  by (simp add: synchronizeFor_def updateRegion_def Let_def case_prod_unfold)

lemma sync_all_stuck:
  "r \<in> set rs \<Longrightarrow> (\<And>T. synchronizeFor V (fst r) D (snd r) T = None) \<Longrightarrow> sync_all V D rs T = None"
  by (induction rs arbitrary: T) (auto split: option.splits)

text \<open>
  A buffer created with flags but without an access mode, such as \<open>CL_MEM_COPY_HOST_PTR\<close> alone,
  stays without one, and a kernel that has it as an argument crashes the queue when it is submitted.
\<close>

lemma unspecified_access_crashes_kernel:
  fixes E :: "'m mem_env" and dev :: "('m, 'd) device"
  assumes "clCreateBuffer E i (Some C) F n p s = Some (s', Some mo, e)"
    and "F \<noteq> 0" "\<not> has_flag F AccessProtectionMask"
    and "CmdPayload (QCmd c) = NDRangeKernel k D" "mo \<in> set (KernelMemArgs k)"
  shows "submit dev c w = None"
proof -
  have legal: "legal_flags F p"
    using assms(1) clCreateBuffer_illegal [of F p E i C n s] by (auto simp del: insert_iff)
  have n: "n \<noteq> 0" using assms(1) clCreateBuffer_empty [OF legal, of E i C s] by auto
  have "getFlags mo = F"
    using assms(1,2) unfolding clCreateBuffer_legal [OF legal n]
    by (auto simp: Let_def mk_Buffer_def stored_flags_def split: prod.splits)
  then have "arg_sync_mode mo = 0"
    using assms(3) by (simp add: arg_sync_mode_def has_access)
  then have "sync_all (DevDescs dev) (DevIndex dev) (sync_requests (CmdPayload (QCmd c))) (WTrackers w) = None"
    using assms(4,5) by (intro sync_all_stuck [of "(mo, 0)"]) (auto simp: synchronizeFor_nothing)
  then show ?thesis by (simp add: submit_def ensureMemoryCoherency_def)
qed

definition demo_queued :: "queued" where
  "demo_queued = \<lparr>QEvent = 0, QCmd = EnqueueNDRangeKernel
     \<lparr>KernelName = 0, KernelMemArgs = [mk_Buffer 5 7 16 4096 CL_MEM_COPY_HOST_PTR]\<rparr> (DimensionInfo [0] [1] [1]) []\<rparr>"

section \<open>Supported formats\<close>

definition same_format :: "cl_image_format \<Rightarrow> cl_image_format \<Rightarrow> bool" where
  "same_format f g \<longleftrightarrow> image_channel_order f = image_channel_order g \<and>
     image_channel_data_type f = image_channel_data_type g"

lemma same_format [simp]: "same_format f g \<longleftrightarrow> f = g"
  by (cases f; cases g) (simp add: same_format_def)

lemma format_found_set [simp]: "format_found f gs \<longleftrightarrow> f \<in> set gs"
  by (induction gs) (simp_all add: same_format_def [symmetric])

lemma collect_formats_spec:
  "distinct acc \<Longrightarrow> distinct (collect_formats acc fs) \<and> set (collect_formats acc fs) = set acc \<union> set fs"
  by (induction fs arbitrary: acc) auto

lemma ImgFmtCmp_linear:
  "ImgFmtCmp f g \<longleftrightarrow> \<not> (f = g \<or> ImgFmtCmp g f)" "ImgFmtCmp f g \<Longrightarrow> ImgFmtCmp g h \<Longrightarrow> ImgFmtCmp f h"
  by (cases f; cases g) (auto simp: ImgFmtCmp_def split: if_splits)

lemma set_insert_format [simp]: "set (insert_format f gs) = insert f (set gs)"
  by (induction gs) auto

lemma insert_format_sorted:
  "sorted_wrt ImgFmtCmp gs \<Longrightarrow> f \<notin> set gs \<Longrightarrow> sorted_wrt ImgFmtCmp (insert_format f gs)"
proof (induction gs)
  case (Cons g gs)
  have "ImgFmtCmp f g" if "\<not> ImgFmtCmp g f" using that Cons.prems(2) ImgFmtCmp_linear(1) [of f g] by auto
  then show ?case using Cons by (auto intro: ImgFmtCmp_linear(2))
qed simp

lemma sort_formats_spec:
  "distinct fs \<Longrightarrow> sorted_wrt ImgFmtCmp (sort_formats fs) \<and> set (sort_formats fs) = set fs \<and>
     length (sort_formats fs) = length fs"
proof (induction fs)
  case (Cons f fs)
  have len: "length (insert_format f gs) = Suc (length gs)" for gs by (induction gs) auto
  show ?case using Cons by (simp add: sort_formats_def insert_format_sorted len)
qed (simp add: sort_formats_def)

text \<open>
  C34: an accepted query for the supported formats counts each format of any device of the context
  once. The entries are written all or not at all: all of them, in strictly increasing order of
  channel order and data type, when there is room.
\<close>

theorem supported_formats:
  assumes "clGetSupportedImageFormats (Some devs) flags ty n True True = (CL_SUCCESS, Some k, out)"
  shows "k = card (\<Union>(set ` set devs)) \<and>
         (if k \<le> n then set out = \<Union>(set ` set devs) \<and> sorted_wrt ImgFmtCmp out \<and> length out = k else out = [])"
proof -
  define fs where "fs = collect_formats [] (concat (filter (\<lambda>fs. fs \<noteq> []) devs))"
  have fs: "distinct fs" "set fs = \<Union>(set ` set devs)"
    using collect_formats_spec [of "[]" "concat (filter (\<lambda>fs. fs \<noteq> []) devs)"] by (auto simp: fs_def)
  note s = sort_formats_spec [OF fs(1)]
  have "k = length (sort_formats fs)" "out = (if length (sort_formats fs) \<le> n then take n (sort_formats fs) else [])"
    using assms by (auto simp: clGetSupportedImageFormats_def fs_def Let_def split: if_splits)
  moreover have "length fs = card (\<Union>(set ` set devs))" using fs by (simp flip: distinct_card)
  ultimately show ?thesis using s fs(2) by simp
qed

theorem supported_formats_witness:
  "card (\<Union>(set ` set [[\<lparr>image_channel_order = 0x10B5, image_channel_data_type = 0x10DE\<rparr>,
                       \<lparr>image_channel_order = 0x10B0, image_channel_data_type = 0x10DE\<rparr>],
                      [\<lparr>image_channel_order = 0x10B0, image_channel_data_type = 0x10DE\<rparr>]])) = 2"
proof -
  have "clGetSupportedImageFormats (Some [[\<lparr>image_channel_order = 0x10B5, image_channel_data_type = 0x10DE\<rparr>,
          \<lparr>image_channel_order = 0x10B0, image_channel_data_type = 0x10DE\<rparr>],
          [\<lparr>image_channel_order = 0x10B0, image_channel_data_type = 0x10DE\<rparr>]]) 0 0 4 True True =
        (CL_SUCCESS, Some 2, [\<lparr>image_channel_order = 0x10B0, image_channel_data_type = 0x10DE\<rparr>,
          \<lparr>image_channel_order = 0x10B5, image_channel_data_type = 0x10DE\<rparr>])"
    by (simp add: clGetSupportedImageFormats_def clValidMemField_def clValidImgType_def sort_formats_def
                  ImgFmtCmp_def)
  from supported_formats [OF this] show ?thesis by simp
qed

section \<open>Sub-buffers and references\<close>

text \<open>
  \<open>clCreateSubBuffer\<close> makes a builder of kind \<open>K_Buffer\<close>, so the assertion of \<open>setSubBufferFlags\<close>
  stops every call.
\<close>

lemma sub_buffer_kind:
  "setSubBufferParams ctx_of Buf BCT BCI b = Some b' \<Longrightarrow> mbKind b' = mbKind b"
  by (auto simp: setSubBufferParams_def mem_error_def Let_def split: option.splits if_splits)

lemma sub_buffers_never_created: "clCreateSubBuffer E i ctx_of Buf F ty r s = None"
  by (cases "setSubBufferParams ctx_of Buf ty r (MemoryObjectBuilder K_Buffer)")
     (auto simp: clCreateSubBuffer_def finish_create_def setSubBufferFlags_def MemoryObjectBuilder_def
           dest!: sub_buffer_kind)

text \<open>
  The last reference is given up without deleting the object: only one more \<open>Release\<close> deletes it.
\<close>

lemma last_release_leaks:
  "Refs s i = 1 \<Longrightarrow> Deleted (Release i s) = Deleted s \<and> Refs (Release i s) i = 0 \<and>
     Deleted (Release i (Release i s)) = Deleted s @ [i]"
  by (simp add: Release_def Let_def)

end
