(* ===== verification/Image_Geometry.thy ===== *)
theory Image_Geometry
  imports Memory_API
begin

text \<open>
  The geometry of the images the API creates: which shape and pitches \<open>setImage\<close> can leave in a
  builder whose image is created, and that every pixel then lies inside the storage of the image.
\<close>

section \<open>Products without overflow\<close>

lemma unat_mult_bound:
  assumes "unat (a :: size_t) \<le> A" "unat b \<le> B" "A * B < 2 ^ 64"
  shows "unat (a * b) = unat a * unat b \<and> unat (a * b) \<le> A * B"
proof -
  have "unat a * unat b \<le> A * B" using assms(1,2) by (rule mult_le_mono)
  moreover from this assms(3) have "unat (a * b) = unat a * unat b" by (simp add: unat_word_ariths)
  ultimately show ?thesis by simp
qed

section \<open>The limits of CPU devices\<close>

text \<open>The values \<open>CPUDevice::InitDeviceInfo\<close> sets.\<close>

definition cpu_image_limits :: "device_info \<Rightarrow> bool" where
  "cpu_image_limits D \<longleftrightarrow>
     Image2DMaxWidth D = 8192 \<and> Image2DMaxHeight D = 8192 \<and> Image3DMaxWidth D = 2048 \<and>
     Image3DMaxHeight D = 2048 \<and> Image3DMaxDepth D = 2048 \<and> ImageMaxBufferSize D = 65536 \<and>
     ImageMaxArraySize D = 2048"

definition within_cpu :: "img_limits \<Rightarrow> bool" where
  "within_cpu L \<longleftrightarrow> MMImg2DWidth L \<le> 8192 \<and> MMImg2DHeight L \<le> 8192 \<and> MMImg3DWidth L \<le> 2048 \<and>
     MMImg3DHeight L \<le> 2048 \<and> MMImg3DDepth L \<le> 2048 \<and> MMImgBufSize L \<le> 65536 \<and> MMImgArraySize L \<le> 2048"

lemma limits_fold:
  "\<forall>D \<in> set Ds. cpu_image_limits D \<Longrightarrow> within_cpu L \<or> Ds \<noteq> [] \<Longrightarrow> within_cpu (foldl (\<lambda>L D. limits_with D L) L Ds)"
proof (induction Ds arbitrary: L)
  case (Cons D Ds)
  have "within_cpu (limits_with D L)"
    using Cons.prems(1) by (simp add: within_cpu_def limits_with_def cpu_image_limits_def)
  with Cons show ?case by simp
qed simp

lemma image_limits_cpu:
  "\<forall>D \<in> set Ds. cpu_image_limits D \<Longrightarrow> supporting ord dt Ds \<noteq> [] \<Longrightarrow> within_cpu (image_limits ord dt Ds)"
  unfolding image_limits_def by (rule limits_fold) (auto simp: supporting_def)

lemma element_size_range: "1 \<le> unat (format_element_size ord dt) \<and> unat (format_element_size ord dt) \<le> 16"
  by (cases ord; cases dt) (simp_all add: format_element_size_def)

section \<open>Shapes\<close>

definition rows_of :: "img_descriptor \<Rightarrow> nat" where
  "rows_of I = (if Height I = 0 then 1 else unat (Height I))"

lemma rows_pos: "0 < unat (Height I) \<Longrightarrow> rows_of I = unat (Height I)"
  by (auto simp: rows_of_def)

definition layers_of :: "image_type \<Rightarrow> img_descriptor \<Rightarrow> nat" where
  "layers_of Ty I =
     (case Ty of Image3D \<Rightarrow> unat (Depth I) | Image1D_Array \<Rightarrow> unat (ArraySize I)
      | Image2D_Array \<Rightarrow> unat (ArraySize I) | _ \<Rightarrow> 1)"

text \<open>The last byte of a pixel, at its column, row and layer.\<close>

definition pixel_end :: "img_descriptor \<Rightarrow> nat \<Rightarrow> nat \<Rightarrow> nat \<Rightarrow> nat \<Rightarrow> nat" where
  "pixel_end I Elem x y z = z * unat (SlicePitch I) + y * unat (RowPitch I) + (x + 1) * Elem"

lemma word_bound: "(w :: size_t) < L \<Longrightarrow> L \<le> B \<Longrightarrow> unat w \<le> unat B"
  by (simp add: word_less_nat_alt word_le_nat_alt)

lemma shape_1d_ok:
  assumes "shape_1d L Elem Ty D = Some (Inr (I, Buf))" "within_cpu L" "1 \<le> unat Elem"
  shows "0 < unat (Width I) \<and> unat (Width I) * unat Elem \<le> 65536 \<and> Height I = 0 \<and> SlicePitch I = 0 \<and>
         (Ty = Image1D_Array \<longrightarrow> 0 < unat (ArraySize I) \<and> unat (ArraySize I) \<le> 2048)"
proof -
  have s: "image_width D \<noteq> 0" "image_width D < MMImgBufSize L div Elem" "Width I = image_width D" "Height I = 0"
      "SlicePitch I = 0" "Ty = Image1D_Array \<longrightarrow> image_array_size D \<noteq> 0 \<and> image_array_size D < MMImgArraySize L"
      "Ty = Image1D_Array \<longrightarrow> ArraySize I = image_array_size D"
    using assms(1) by (auto simp: shape_1d_def not_le split: if_splits)
  have "unat (image_width D) * unat Elem \<le> (unat (MMImgBufSize L) div unat Elem) * unat Elem"
    using s(2) by (simp add: word_less_nat_alt unat_div)
  also have "\<dots> \<le> unat (MMImgBufSize L)" by simp
  also have "\<dots> \<le> 65536" using assms(2) by (simp add: within_cpu_def word_le_nat_alt)
  finally show ?thesis
    using s assms(2) word_bound [of "image_array_size D" "MMImgArraySize L" 2048]
    by (auto simp: within_cpu_def unat_gt_0)
qed

lemma shape_2d_ok:
  assumes "shape_2d L Ty D = Inr I" "within_cpu L"
  shows "0 < unat (Width I) \<and> unat (Width I) \<le> 8192 \<and> 0 < unat (Height I) \<and> unat (Height I) \<le> 8192 \<and>
         SlicePitch I = 0 \<and> (Ty = Image2D_Array \<longrightarrow> 0 < unat (ArraySize I) \<and> unat (ArraySize I) \<le> 2048)"
proof -
  have s: "image_width D \<noteq> 0" "image_width D < MMImg2DWidth L" "Width I = image_width D"
      "image_height D \<noteq> 0" "image_height D < MMImg2DHeight L" "Height I = image_height D" "SlicePitch I = 0"
      "Ty = Image2D_Array \<longrightarrow> image_array_size D \<noteq> 0 \<and> image_array_size D < MMImgArraySize L"
      "Ty = Image2D_Array \<longrightarrow> ArraySize I = image_array_size D"
    using assms(1) by (auto simp: shape_2d_def not_le split: if_splits)
  then show ?thesis
    using assms(2) word_bound [OF s(2), of 8192] word_bound [OF s(5), of 8192]
      word_bound [of "image_array_size D" "MMImgArraySize L" 2048]
    by (auto simp: within_cpu_def unat_gt_0)
qed

lemma shape_3d_ok:
  assumes "shape_3d L D = Inr I" "within_cpu L"
  shows "0 < unat (Width I) \<and> unat (Width I) \<le> 2048 \<and> 0 < unat (Height I) \<and> unat (Height I) \<le> 2048 \<and>
         0 < unat (Depth I) \<and> unat (Depth I) \<le> 2048"
proof -
  have s: "image_width D \<noteq> 0" "image_width D < MMImg3DWidth L" "Width I = image_width D"
      "image_height D \<noteq> 0" "image_height D < MMImg3DHeight L" "Height I = image_height D"
      "image_depth D \<noteq> 0" "image_depth D < MMImg3DDepth L" "Depth I = image_depth D"
    using assms(1) by (auto simp: shape_3d_def not_le split: if_splits)
  then show ?thesis
    using assms(2) word_bound [OF s(2), of 2048] word_bound [OF s(5), of 2048] word_bound [OF s(8), of 2048]
    by (auto simp: within_cpu_def unat_gt_0)
qed

section \<open>Pixels inside the storage\<close>

lemma row_inside: "x < W \<Longrightarrow> (x + 1) * Elem \<le> W * Elem" for x W Elem :: nat
  by (rule mult_le_mono1) simp

lemma step_inside: "k < n \<Longrightarrow> r \<le> s \<Longrightarrow> k * s + r \<le> n * s" for k n r s :: nat
proof -
  assume "k < n" "r \<le> s"
  then have "k * s + r \<le> Suc k * s" by simp
  also have "\<dots> \<le> n * s" using \<open>k < n\<close> by (intro mult_le_mono1) simp
  finally show ?thesis .
qed

lemma pitches_null:
  assumes "image_pitches NULL Elem Ty D I = Inr I'"
  shows "RowPitch I' = Width I * Elem \<and> Width I' = Width I \<and> Height I' = Height I \<and> Depth I' = Depth I \<and>
         ArraySize I' = ArraySize I \<and>
         SlicePitch I' = (if requires_slice_pitch Ty then Width I * Elem * Height I else SlicePitch I)"
  using assms by (auto simp: image_pitches_def Let_def split: if_splits)

text \<open>The geometry of layers of rows, for the three types with a slice pitch that is used.\<close>

lemma layered_inside:
  assumes rp: "unat (RowPitch I) = W * Elem" and sp: "unat (SlicePitch I) = W * Elem * H"
    and size: "unat n = W * Elem * (W * Elem * H) * Z" and pos: "0 < W" "0 < Elem"
    and x: "x < W" and y: "y < H" and z: "z < Z"
  shows "pixel_end I Elem x y z \<le> unat n"
proof -
  have "y * (W * Elem) + (x + 1) * Elem \<le> H * (W * Elem)" by (rule step_inside [OF y row_inside [OF x]])
  then have "z * (H * (W * Elem)) + (y * (W * Elem) + (x + 1) * Elem) \<le> Z * (H * (W * Elem))"
    by (rule step_inside [OF z])
  also have "\<dots> \<le> (W * Elem) * (Z * (H * (W * Elem)))" using pos by simp
  finally show ?thesis by (simp add: pixel_end_def rp sp size algebra_simps)
qed

lemma line_inside:
  assumes shape: "shape_1d L Elem Ty D = Some (Inr (I, Buf))" and ty: "Ty \<in> {Image1D, Image1D_Buffer, Image1D_Array}"
    and pit: "image_pitches NULL Elem Ty D I = Inr I'" and cpu: "within_cpu L" and el: "1 \<le> unat Elem"
    and px: "x < unat (Width I')" "y < rows_of I'"
  shows "pixel_end I' (unat Elem) x y z \<le> unat (image_size Ty I')"
proof -
  note p = pitches_null [OF pit]
  note s = shape_1d_ok [OF shape cpu el]
  have rp: "unat (RowPitch I') = unat (Width I') * unat Elem" "unat (RowPitch I') \<le> 65536"
    using s p unat_mult_bound [of "Width I" "unat (Width I)" Elem "unat Elem"] by auto
  have sp: "SlicePitch I' = 0" and y: "y = 0" using s p px(2) by (auto simp: rows_of_def)
  have row: "pixel_end I' (unat Elem) x y z \<le> unat (RowPitch I')"
    using row_inside [OF px(1), of "unat Elem"] by (simp add: pixel_end_def sp y rp(1))
  show ?thesis
  proof (cases "Ty = Image1D_Array")
    case True
    have "unat (RowPitch I' * ArraySize I') = unat (RowPitch I') * unat (ArraySize I')" "0 < unat (ArraySize I')"
      using unat_mult_bound [of "RowPitch I'" 65536 "ArraySize I'" 2048] rp(2) s p True by auto
    then have "unat (RowPitch I') \<le> unat (image_size Ty I')" by (simp add: image_size_def True)
    with row show ?thesis by simp
  next
    case False
    with ty row show ?thesis by (auto simp: image_size_def)
  qed
qed

lemma plane_inside:
  assumes shape: "shape_2d L Ty D = Inr I" and ty: "Ty \<in> {Image2D, Image2D_Array}"
    and pit: "image_pitches NULL Elem Ty D I = Inr I'" and cpu: "within_cpu L" and el: "1 \<le> unat Elem" "unat Elem \<le> 16"
    and px: "x < unat (Width I')" "y < rows_of I'" "z < layers_of Ty I'"
  shows "pixel_end I' (unat Elem) x y z \<le> unat (image_size Ty I')"
proof -
  note p = pitches_null [OF pit]
  note s = shape_2d_ok [OF shape cpu]
  have rp: "unat (RowPitch I') = unat (Width I') * unat Elem" "unat (RowPitch I') \<le> 131072"
    using s p unat_mult_bound [of "Width I" 8192 Elem 16] el by auto
  have rph: "unat (RowPitch I' * Height I') = unat (Width I') * unat Elem * unat (Height I')"
    "unat (RowPitch I' * Height I') \<le> 1073741824"
    using unat_mult_bound [of "RowPitch I'" 131072 "Height I'" 8192] rp s p by auto
  have y: "y < unat (Height I')" using s p px(2) by (simp add: rows_pos)
  show ?thesis
  proof (cases "Ty = Image2D_Array")
    case True
    have sp: "SlicePitch I' = RowPitch I' * Height I'" using p True by (simp add: requires_slice_pitch_def)
    have a: "unat (RowPitch I' * SlicePitch I') = unat (RowPitch I') * unat (SlicePitch I')"
      "unat (RowPitch I' * SlicePitch I') \<le> 140737488355328"
      using unat_mult_bound [of "RowPitch I'" 131072 "SlicePitch I'" 1073741824] rp(2) rph(2) sp by auto
    have b: "unat (RowPitch I' * SlicePitch I' * ArraySize I') =
             unat (RowPitch I' * SlicePitch I') * unat (ArraySize I')"
      using unat_mult_bound [of "RowPitch I' * SlicePitch I'" 140737488355328 "ArraySize I'" 2048] a(2) s p True by auto
    show ?thesis
    proof (rule layered_inside [of _ "unat (Width I')" _ "unat (Height I')" _ "unat (ArraySize I')"])
      show "unat (image_size Ty I') = unat (Width I') * unat Elem *
          (unat (Width I') * unat Elem * unat (Height I')) * unat (ArraySize I')"
        using a(1) b rp(1) rph(1) sp by (simp add: image_size_def True)
      show "z < unat (ArraySize I')" using px(3) by (simp add: layers_of_def True)
    qed (use rp(1) rph(1) sp s p el px y in auto)
  next
    case False
    with ty have ty2: "Ty = Image2D" by simp
    then have "SlicePitch I' = 0" using p s by (simp add: requires_slice_pitch_def)
    then show ?thesis
      using step_inside [OF y row_inside [OF px(1), of "unat Elem"]] rph(1) rp(1)
      by (simp add: ty2 image_size_def pixel_end_def mult.commute)
  qed
qed

lemma volume_inside:
  assumes shape: "shape_3d L D = Inr I"
    and pit: "image_pitches NULL Elem Image3D D I = Inr I'" and cpu: "within_cpu L" and el: "1 \<le> unat Elem" "unat Elem \<le> 16"
    and px: "x < unat (Width I')" "y < rows_of I'" "z < unat (Depth I')"
  shows "pixel_end I' (unat Elem) x y z \<le> unat (image_size Image3D I')"
proof -
  note p = pitches_null [OF pit]
  note s = shape_3d_ok [OF shape cpu]
  have rp: "unat (RowPitch I') = unat (Width I') * unat Elem" "unat (RowPitch I') \<le> 32768"
    using s p unat_mult_bound [of "Width I" 2048 Elem 16] el by auto
  have sp: "SlicePitch I' = RowPitch I' * Height I'" using p by (simp add: requires_slice_pitch_def)
  have rph: "unat (SlicePitch I') = unat (Width I') * unat Elem * unat (Height I')"
    "unat (SlicePitch I') \<le> 67108864"
    using unat_mult_bound [of "RowPitch I'" 32768 "Height I'" 2048] rp s p sp by auto
  have a: "unat (RowPitch I' * SlicePitch I') = unat (RowPitch I') * unat (SlicePitch I')"
    "unat (RowPitch I' * SlicePitch I') \<le> 2199023255552"
    using unat_mult_bound [of "RowPitch I'" 32768 "SlicePitch I'" 67108864] rp(2) rph(2) by auto
  have b: "unat (RowPitch I' * SlicePitch I' * Depth I') = unat (RowPitch I' * SlicePitch I') * unat (Depth I')"
    using unat_mult_bound [of "RowPitch I' * SlicePitch I'" 2199023255552 "Depth I'" 2048] a(2) s p by auto
  show ?thesis
  proof (rule layered_inside [of _ "unat (Width I')" _ "unat (Height I')" _ "unat (Depth I')"])
    show "unat (image_size Image3D I') = unat (Width I') * unat Elem *
        (unat (Width I') * unat Elem * unat (Height I')) * unat (Depth I')"
      using a(1) b rp(1) rph(1) by (simp add: image_size_def)
    show "y < unat (Height I')" using s p px(2) by (simp add: rows_pos)
  qed (use rp(1) rph(1) s p el px in auto)
qed

lemma sized_inside:
  assumes shape: "image_shape L Elem D = Some (Inr (I, Buf))" and ty: "type_of (image_type_of D) = Some Ty"
    and pit: "image_pitches NULL Elem Ty D I = Inr I'" and cpu: "within_cpu L" and el: "1 \<le> unat Elem" "unat Elem \<le> 16"
    and px: "x < unat (Width I')" "y < rows_of I'" "z < layers_of Ty I'"
  shows "pixel_end I' (unat Elem) x y z \<le> unat (image_size Ty I')"
proof -
  consider (line) "Ty \<in> {Image1D, Image1D_Buffer, Image1D_Array}" "shape_1d L Elem Ty D = Some (Inr (I, Buf))"
    | (plane) "Ty \<in> {Image2D, Image2D_Array}" "shape_2d L Ty D = Inr I"
    | (volume) "Ty = Image3D" "shape_3d L D = Inr I"
    using shape ty by (cases Ty) (auto simp: image_shape_def Let_def split: sum.splits)
  then show ?thesis
  proof cases
    case line
    show ?thesis by (rule line_inside [OF line(2,1) pit cpu el(1) px(1,2)])
  next
    case plane
    show ?thesis by (rule plane_inside [OF plane(2,1) pit cpu el px])
  next
    case volume
    with volume_inside [OF volume(2) pit [unfolded volume(1)] cpu el px(1,2)] px(3) show ?thesis
      by (simp add: layers_of_def)
  qed
qed

section \<open>Created images\<close>

lemma shape_errors:
  "image_shape L Elem D = Some (Inl (E, Buf)) \<Longrightarrow> E \<noteq> CL_SUCCESS"
  "image_pitches p Elem Ty D I = Inl E \<Longrightarrow> E \<noteq> CL_SUCCESS"
  "image_buffer_flags B F = Inl E \<Longrightarrow> E \<noteq> CL_SUCCESS"
  by (auto simp: image_shape_def shape_1d_def shape_2d_def shape_3d_def image_pitches_def
                 image_buffer_flags_def Let_def split: if_splits image_type.splits option.splits sum.splits)

lemma create_handle:
  "create E i b T = Some (T', Some mo, e) \<Longrightarrow>
     mbErr b = CL_SUCCESS \<and> (\<exists>C. mbCtx b = Some C \<and> new_object i C b = Some mo)"
  by (auto simp: create_def split: if_splits option.splits prod.splits)

lemma finish_create_handle:
  "finish_create E i s r = Some (s', Some mo, e) \<Longrightarrow>
     \<exists>b C. r = Some b \<and> mbErr b = CL_SUCCESS \<and> mbCtx b = Some C \<and> new_object i C b = Some mo"
  by (auto simp: finish_create_def dest!: create_handle split: option.splits)

lemma mem_error_keeps_context: "mem_error e b = Some b' \<Longrightarrow> mbErr b' = e"
  by (auto simp: mem_error_def split: option.splits)

lemma setGenericFlags_ok:
  assumes "setGenericFlags F p b = Some b'" "mbErr b' = CL_SUCCESS"
  shows "mbErr b = CL_SUCCESS \<and> (\<exists>G. b' = (store_flags G b)\<lparr>mbHostPtr := p\<rparr>)"
proof -
  have ne: "generic_flags F p = Inl e \<Longrightarrow> e \<noteq> CL_SUCCESS" for e
    using generic_flags_cases [of F p] by auto
  show ?thesis
    using assms ne shape_errors(3)
    by (auto simp: setGenericFlags_def store_flags_def dest!: mem_error_keeps_context
             split: if_splits sum.splits option.splits)
qed

lemma setImage_ok:
  assumes "setImage Fmt Dsc b = Some b'" "mbErr b' = CL_SUCCESS" "mbCtx b = Some C" "mbHostPtr b = NULL"
  obtains ord dt D I Buf Ty I' where
    "Dsc = Some D" "supporting ord dt (cxDevices C) \<noteq> []" "type_of (image_type_of D) = Some Ty"
    "image_shape (image_limits ord dt (cxDevices C)) (format_element_size ord dt) D = Some (Inr (I, Buf))"
    "image_pitches NULL (format_element_size ord dt) Ty D I = Inr I'"
    "mbOrder b' = Some ord" "mbDataType b' = Some dt" "mbImgType b' = Some Ty" "mbDesc b' = I'"
    "mbSize b' = image_size Ty I'" "mbKind b' = mbKind b" "mbImgBuf b' = Buf"
proof -
  obtain ord dt where f: "decode_format Fmt = Some (ord, dt)"
    using assms(1,2) by (auto simp: setImage_def dest!: mem_error_keeps_context split: option.splits)
  obtain D where D: "Dsc = Some D"
    using assms(1,2) by (auto simp: setImage_def f Let_def dest!: mem_error_keeps_context split: option.splits)
  have sup: "supporting ord dt (cxDevices C) \<noteq> []"
    using assms by (auto simp: setImage_def f D Let_def dest!: mem_error_keeps_context split: if_splits)
  define L where "L = image_limits ord dt (cxDevices C)"
  define El where "El = format_element_size ord dt"
  obtain I Buf where shape: "image_shape L El D = Some (Inr (I, Buf))"
    using assms shape_errors(1) [of L El D]
    by (auto simp: setImage_def f D sup Let_def L_def [symmetric] El_def [symmetric]
             dest!: mem_error_keeps_context split: if_splits option.splits sum.splits)
  then obtain Ty where ty: "type_of (image_type_of D) = Some Ty" by (auto simp: image_shape_def Let_def split: option.splits)
  obtain I' where pit: "image_pitches NULL El Ty D I = Inr I'"
    using assms shape_errors(2) [of NULL El Ty D I]
    by (auto simp: setImage_def f D sup shape ty Let_def L_def [symmetric] El_def [symmetric]
             dest!: mem_error_keeps_context split: if_splits sum.splits)
  have b': "b' = b\<lparr>mbOrder := Some ord, mbDataType := Some dt, mbImgBuf := Buf, mbDesc := I', mbImgType := Some Ty,
                 mbSize := image_size Ty I'\<rparr>"
    using assms
    by (auto simp: setImage_def f D sup shape ty pit Let_def L_def [symmetric] El_def [symmetric]
             dest!: mem_error_keeps_context split: if_splits)
  show ?thesis
    by (rule that [OF D sup ty shape [unfolded L_def El_def] pit [unfolded El_def]]) (simp_all add: b')
qed

text \<open>
  C28: every pixel of an image the API creates in a context of CPU devices lies inside the storage of the
  image, at the row pitch, the slice pitch and the size the builder computed, with no sum wrapped.
\<close>

theorem created_image_holds_pixels:
  fixes E :: "'m mem_env"
  assumes "clCreateImage E i (Some C) F fmt dsc p s = Some (s', Some mo, e)"
    and "\<forall>D \<in> set (cxDevices C). cpu_image_limits D"
    and "x < unat (Width (Desc (attrsOf mo)))" "y < rows_of (Desc (attrsOf mo))"
    and "z < layers_of (ImgTy (attrsOf mo)) (Desc (attrsOf mo))"
  shows "pixel_end (Desc (attrsOf mo)) (unat (getElementSize mo)) x y z \<le> unat (getSize mo)"
proof -
  define b0 where "b0 = (MemoryObjectBuilder K_Image)\<lparr>mbCtx := Some C\<rparr>"
  obtain b C' where b: "Option.bind (setImage fmt dsc b0) (setGenericFlags F p) = Some b"
      "mbErr b = CL_SUCCESS" "new_object i C' b = Some mo"
    using finish_create_handle [OF assms(1) [unfolded clCreateImage_def]]
    by (auto simp: setContext_def b0_def)
  then obtain b1 where b1: "setImage fmt dsc b0 = Some b1" "setGenericFlags F p b1 = Some b"
    by (auto simp: bind_eq_Some_conv)
  obtain G where g: "mbErr b1 = CL_SUCCESS" "b = (store_flags G b1)\<lparr>mbHostPtr := p\<rparr>"
    using setGenericFlags_ok [OF b1(2) b(2)] by auto
  have ctx: "mbCtx b0 = Some C" "mbHostPtr b0 = NULL" "mbKind b0 = K_Image"
    by (simp_all add: b0_def MemoryObjectBuilder_def)
  obtain ord dt D I Buf Ty I' where i:
    "dsc = Some D" "supporting ord dt (cxDevices C) \<noteq> []" "type_of (image_type_of D) = Some Ty"
    "image_shape (image_limits ord dt (cxDevices C)) (format_element_size ord dt) D = Some (Inr (I, Buf))"
    "image_pitches NULL (format_element_size ord dt) Ty D I = Inr I'"
    "mbOrder b1 = Some ord" "mbDataType b1 = Some dt" "mbImgType b1 = Some Ty" "mbDesc b1 = I'"
    "mbSize b1 = image_size Ty I'" "mbKind b1 = mbKind b0" "mbImgBuf b1 = Buf"
    by (rule setImage_ok [OF b1(1) g(1) ctx(1,2)])
  have mo: "attrsOf mo = \<lparr>ImgTy = Ty, ChOrder = ord, ChDataType = dt, Desc = I'\<rparr>" "getSize mo = image_size Ty I'"
    using b(3) by (auto simp: new_object_def g(2) store_flags_def i ctx mk_Image_def)
  have elem: "getElementSize mo = format_element_size ord dt"
    by (simp add: getElementSize_def mo computePixelFeatures_def format_element_size_def Let_def)
  note el = element_size_range [of ord dt]
  show ?thesis
    using sized_inside [OF i(4,3,5) image_limits_cpu [OF assms(2) i(2)] conjunct1 [OF el] conjunct2 [OF el]] assms(3-5)
    by (simp add: mo elem)
qed

definition demo_cpu :: device_info where
  "demo_cpu = \<lparr>MemoryBaseAddressAlignment = 128, ImageMaxArraySize = 2048, ImageMaxBufferSize = 65536,
     Image2DMaxWidth = 8192, Image2DMaxHeight = 8192, Image3DMaxWidth = 2048, Image3DMaxHeight = 2048,
     Image3DMaxDepth = 2048, ImageFormatSupported = \<lambda>ord dt. ord = Channel_RGBA, MaxWorkItemDimensions = 3,
     MaxWorkItemSizes = [1024, 1024, 1024], MaxWorkGroupSize = 1024, SizeTypeMax = NOT 0,
     NativeKernels = True, ImageSupport = True\<rparr>"

definition demo_image :: mem_object where
  "demo_image = mk_Image 9 7 512 NULL CL_MEM_READ_WRITE
     \<lparr>ImgTy = Image2D, ChOrder = Channel_RGBA, ChDataType = DataType_UNorm_Int8,
      Desc = \<lparr>Width = 16, Height = 8, Depth = 0, ArraySize = 0, RowPitch = 64, SlicePitch = 0\<rparr>\<rparr> None"

theorem created_image_holds_pixels_witness:
  "pixel_end (Desc (attrsOf demo_image)) (unat (getElementSize demo_image)) 15 7 0 \<le> unat (getSize demo_image)"
proof -
  define C where "C = \<lparr>cxId = 7, cxDevices = [demo_cpu]\<rparr>"
  have "\<exists>s' e. clCreateImage2D (cpu_mem_env 1) 9 (Some C) 0
      (Some \<lparr>image_channel_order = 0x10B5, image_channel_data_type = 0x10D2\<rparr>) 16 8 0 NULL demo_mem_state =
      Some (s', Some demo_image, e)"
    by (simp add: clCreateImage2D_def clCreateImage_def C_def setContext_def MemoryObjectBuilder_def setImage_def
          decode_format_def order_of_def data_type_of_def type_of_def pair_ok_def supporting_def demo_cpu_def
          image_limits_def limits_with_def no_limits_def image_shape_def shape_2d_def image_pitches_def
          image_size_def format_element_size_def requires_slice_pitch_def setGenericFlags_def generic_flags_def
          store_flags_def finish_create_def create_def new_object_def initializeMCT_def initForDevices_value
          cpu_mem_env_def mk_Image_def demo_image_def Let_def)
  then obtain s' e where "clCreateImage2D (cpu_mem_env 1) 9 (Some C) 0
      (Some \<lparr>image_channel_order = 0x10B5, image_channel_data_type = 0x10D2\<rparr>) 16 8 0 NULL demo_mem_state =
      Some (s', Some demo_image, e)" by blast
  from created_image_holds_pixels [OF this [unfolded clCreateImage2D_def]]
  show ?thesis
    by (simp add: C_def cpu_image_limits_def demo_cpu_def demo_image_def mk_Image_def rows_of_def layers_of_def)
qed

section \<open>Deviations of the geometry\<close>

text \<open>
  A one-dimensional array has the slice pitch 0, so all its layers share their pixels; a
  three-dimensional image and a two-dimensional array get the row pitch as a factor too many.
\<close>

lemma array_1d_layers_coincide:
  "image_pitches NULL Elem Image1D_Array D I = Inr I' \<Longrightarrow> Height I = 0 \<Longrightarrow>
     pixel_end I' el x 0 z = pixel_end I' el x 0 0"
  by (auto simp: pixel_end_def requires_slice_pitch_def dest!: pitches_null)

lemma volume_too_large:
  "image_size Image3D \<lparr>Width = 2, Height = 2, Depth = 2, ArraySize = 0, RowPitch = 8, SlicePitch = 16\<rparr> = 256"
  by (simp add: image_size_def)

end
