(* ===== verification/Device_Partition.thy ===== *)
theory Device_Partition
  imports OCL_Prelude
begin

text \<open>
  Devices and sub-devices: \<open>DeviceInfo::DevicePartition\<close> (\<open>lib/Core/Device.cpp\<close>), the processors and
  partitions of a CPU device (\<open>lib/Device/CPU/CPUDevice.cpp\<close>: \<open>InitSubDeviceInfo\<close>,
  \<open>isPartitionSupported\<close>, \<open>createSubDevices\<close>) and the device entry points of
  \<open>tools/libOpenCRun/Device.cpp\<close>.

  A processor, a NUMA node and a cache are numbers, their addresses. The topology hwloc reports is
  the record \<open>hardware\<close>. The partition properties are an array of signed 64 bit numbers; \<open>None\<close> is
  a read past its end, a failed assertion, a division by zero or a step past the processors.
\<close>

section \<open>Partition properties\<close>

abbreviation (input) CL_DEVICE_PARTITION_EQUALLY :: "64 word" where "CL_DEVICE_PARTITION_EQUALLY \<equiv> 0x1086"
abbreviation (input) CL_DEVICE_PARTITION_BY_COUNTS :: "64 word" where "CL_DEVICE_PARTITION_BY_COUNTS \<equiv> 0x1087"
abbreviation (input) CL_DEVICE_PARTITION_BY_AFFINITY_DOMAIN :: "64 word" where
  "CL_DEVICE_PARTITION_BY_AFFINITY_DOMAIN \<equiv> 0x1088"
abbreviation (input) CL_INVALID_DEVICE_PARTITION_COUNT :: cl_int where "CL_INVALID_DEVICE_PARTITION_COUNT \<equiv> - 68"
abbreviation (input) CL_INVALID_PLATFORM :: cl_int where "CL_INVALID_PLATFORM \<equiv> - 32"
abbreviation (input) CL_INVALID_DEVICE_TYPE :: cl_int where "CL_INVALID_DEVICE_TYPE \<equiv> - 31"
abbreviation (input) CL_DEVICE_NOT_FOUND :: cl_int where "CL_DEVICE_NOT_FOUND \<equiv> - 1"

datatype partition_type = PartitionEqually | PartitionByCounts | PartitionByAffinityDomain

type_synonym properties = "64 word list"

definition prop_at :: "properties \<Rightarrow> nat \<Rightarrow> 64 word option" where
  "prop_at P i = (if i < length P then Some (P ! i) else None)"

definition getType :: "properties \<Rightarrow> partition_type option" where
  "getType Props =
     (case prop_at Props 0 of
        None \<Rightarrow> None
      | Some t \<Rightarrow>
        if t = CL_DEVICE_PARTITION_BY_AFFINITY_DOMAIN then Some PartitionByAffinityDomain
        else if t = CL_DEVICE_PARTITION_BY_COUNTS then Some PartitionByCounts
        else if t = CL_DEVICE_PARTITION_EQUALLY then Some PartitionEqually
        else None)"

text \<open>The loop over the counts, up to the end mark 0: the counts, and what follows the mark.\<close>

fun read_counts :: "properties \<Rightarrow> (64 word list \<times> properties) option" where
  "read_counts [] = None"
| "read_counts (c # cs) =
     (if c = 0 then Some ([], cs)
      else case read_counts cs of None \<Rightarrow> None | Some (xs, rest) \<Rightarrow> Some (c # xs, rest))"

text \<open>The constructor for a pointer that is not null copies the properties of the type it finds.\<close>

definition DevicePartition :: "properties \<Rightarrow> properties option" where
  "DevicePartition P =
     (case getType P of
        None \<Rightarrow> None
      | Some PartitionByCounts \<Rightarrow>
          (case read_counts (drop 1 P) of
             None \<Rightarrow> None
           | Some (xs, rest) \<Rightarrow>
             (case rest of [] \<Rightarrow> None | z # _ \<Rightarrow> Some (P ! 0 # xs @ [0, z])))
      | Some _ \<Rightarrow> (if length P < 3 then None else Some (take 3 P)))"

definition getAffinityDomain :: "properties \<Rightarrow> 32 word option" where
  "getAffinityDomain Props =
     (if getType Props \<noteq> Some PartitionByAffinityDomain then None
      else case prop_at Props 1 of
          None \<Rightarrow> None
        | Some a \<Rightarrow> if a \<in> {1, 2, 4, 8, 16, 32} then Some (ucast a) else None)"

definition getNumComputeUnits :: "properties \<Rightarrow> 32 word option" where
  "getNumComputeUnits Props =
     (if getType Props \<noteq> Some PartitionEqually then None else map_option ucast (prop_at Props 1))"

definition getNumCounts :: "properties \<Rightarrow> nat option" where
  "getNumCounts Props =
     (if getType Props \<noteq> Some PartitionByCounts \<or> \<not> length Props > 3 then None else Some (length Props - 3))"

definition getCount :: "properties \<Rightarrow> nat \<Rightarrow> 32 word option" where
  "getCount Props i =
     (case getNumCounts Props of
        None \<Rightarrow> None
      | Some n \<Rightarrow> if \<not> i < n then None else map_option ucast (prop_at Props (i + 1)))"

definition getTotalComputeUnits :: "properties \<Rightarrow> 32 word option" where
  "getTotalComputeUnits Props =
     (if getType Props \<noteq> Some PartitionByCounts then None
      else Some (foldl (\<lambda>Sum i. Sum + ucast (Props ! (i + 1))) 0 [0..<length Props - 3]))"

section \<open>CPU devices\<close>

record hardware =
  NUMANode :: "nat \<Rightarrow> nat option"
  CacheAt :: "nat \<Rightarrow> nat \<Rightarrow> nat option"

record cpu_dev =
  HWCPUs :: "nat list"
  MaxComputeUnits :: "32 word"
  MaxSubDevices :: "32 word"
  SupportedPartitionTypes :: "partition_type list"
  SupportedAffinityDomains :: "32 word"
  DevPartition :: properties

definition isPowerOf2_32 :: "32 word \<Rightarrow> bool" where
  "isPowerOf2_32 x \<longleftrightarrow> x \<noteq> 0 \<and> x AND (x - 1) = 0"

definition distinct_components :: "(nat \<Rightarrow> nat option) \<Rightarrow> nat list \<Rightarrow> nat" where
  "distinct_components node cpus = length (remdups (List.map_filter node cpus))"

text \<open>
  The domains are added to those the device info has: none for a whole device, those of the parent
  for a sub-device.
\<close>

definition InitSubDeviceInfo :: "hardware \<Rightarrow> cpu_dev \<Rightarrow> cpu_dev option" where
  "InitSubDeviceInfo H D =
     (if HWCPUs D = [] then None
      else let n = of_nat (length (HWCPUs D));
               D1 = D\<lparr>MaxComputeUnits := n, MaxSubDevices := n, SupportedPartitionTypes := []\<rparr>
      in if n = 1 then Some (D1\<lparr>SupportedAffinityDomains := 0\<rparr>)
         else let many = (\<lambda>node bit (d :: 32 word). if distinct_components node (HWCPUs D) > 1 then d OR bit else d);
                  d1 = many (NUMANode H) 1 (SupportedAffinityDomains D1);
                  d2 = many (CacheAt H 1) 16 d1;
                  d3 = many (CacheAt H 2) 8 d2;
                  d4 = many (CacheAt H 3) 4 d3;
                  d5 = many (CacheAt H 4) 2 d4;
                  d6 = (if \<not> isPowerOf2_32 d5 \<and> d5 \<noteq> 0 then d5 OR 32 else d5)
              in Some (D1\<lparr>SupportedAffinityDomains := d6,
                          SupportedPartitionTypes := [PartitionEqually, PartitionByCounts] @
                            (if d6 \<noteq> 0 then [PartitionByAffinityDomain] else [])\<rparr>))"

definition CPUDevice :: "hardware \<Rightarrow> nat list \<Rightarrow> cpu_dev option" where
  "CPUDevice H cpus =
     InitSubDeviceInfo H \<lparr>HWCPUs = cpus, MaxComputeUnits = 0, MaxSubDevices = 0, SupportedPartitionTypes = [],
                         SupportedAffinityDomains = 0, DevPartition = []\<rparr>"

text \<open>The constructor of a sub-device copies the device info of its parent first.\<close>

definition CPUSubDevice :: "hardware \<Rightarrow> cpu_dev \<Rightarrow> properties \<Rightarrow> nat list \<Rightarrow> cpu_dev option" where
  "CPUSubDevice H Parent Part cpus = InitSubDeviceInfo H (Parent\<lparr>HWCPUs := cpus, DevPartition := Part\<rparr>)"

definition isPartitionSupported :: "cpu_dev \<Rightarrow> properties \<Rightarrow> bool option" where
  "isPartitionSupported D Part =
     (case getType Part of
        None \<Rightarrow> None
      | Some ty \<Rightarrow>
        if ty \<notin> set (SupportedPartitionTypes D) then Some False
        else (case ty of
            PartitionByAffinityDomain \<Rightarrow>
              map_option (\<lambda>a. SupportedAffinityDomains D AND a \<noteq> 0) (getAffinityDomain Part)
          | PartitionByCounts \<Rightarrow>
              (case getNumCounts Part of
                 None \<Rightarrow> None
               | Some n \<Rightarrow>
                 if of_nat n > MaxSubDevices D then Some False
                 else map_option (\<lambda>t. \<not> t > MaxComputeUnits D) (getTotalComputeUnits Part))
          | PartitionEqually \<Rightarrow>
              map_option (\<lambda>n. \<not> n > MaxComputeUnits D) (getNumComputeUnits Part)))"

definition computeAffinityDomain :: "32 word \<Rightarrow> 32 word \<Rightarrow> 32 word option" where
  "computeAffinityDomain SupportedDomains Affinity =
     (if Affinity \<noteq> 32 then (if Affinity AND SupportedDomains \<noteq> 0 then Some Affinity else None)
      else List.find (\<lambda>d. d AND SupportedDomains \<noteq> 0) [1, 2, 4, 8, 16])"

definition getCacheLevel :: "32 word \<Rightarrow> nat option" where
  "getCacheLevel Affinity = map_of [(16, 1), (8, 2), (4, 3), (2, 4)] Affinity"

text \<open>The map from components to their processors, which iterates by address.\<close>

definition group_cpus :: "(nat \<Rightarrow> nat option) \<Rightarrow> nat list \<Rightarrow> nat list list" where
  "group_cpus node cpus =
     map (\<lambda>k. filter (\<lambda>c. node c = Some k) cpus) (sort (remdups (List.map_filter node cpus)))"

text \<open>The loops that take the next processors: \<open>n\<close> of them for each number of the list.\<close>

fun take_groups :: "nat list \<Rightarrow> nat list \<Rightarrow> nat list list option" where
  "take_groups [] cpus = Some []"
| "take_groups (n # ns) cpus =
     (if n > length cpus then None
      else map_option (\<lambda>gs. take n cpus # gs) (take_groups ns (drop n cpus)))"

definition make_devices :: "hardware \<Rightarrow> cpu_dev \<Rightarrow> properties \<Rightarrow> nat list list \<Rightarrow> cpu_dev list option" where
  "make_devices H D Part groups = those (map (CPUSubDevice H D Part) groups)"

definition counts_of :: "properties \<Rightarrow> nat list option" where
  "counts_of Part =
     (case getNumCounts Part of
        None \<Rightarrow> None
      | Some n \<Rightarrow> map_option (map unat) (those (map (getCount Part) [0..<n])))"

text \<open>The sets of processors of the sub-devices; \<open>Some None\<close> is the result \<open>false\<close>.\<close>

definition partition_groups :: "hardware \<Rightarrow> cpu_dev \<Rightarrow> properties \<Rightarrow> nat list list option option" where
  "partition_groups H D Part =
     (case getType Part of
        None \<Rightarrow> None
      | Some PartitionByAffinityDomain \<Rightarrow>
          (case getAffinityDomain Part of
             None \<Rightarrow> None
           | Some a \<Rightarrow>
             (case computeAffinityDomain (SupportedAffinityDomains D) a of
                None \<Rightarrow> Some None
              | Some Affinity \<Rightarrow>
                if Affinity = 1 then Some (Some (group_cpus (NUMANode H) (HWCPUs D)))
                else map_option (\<lambda>Level. Some (group_cpus (CacheAt H Level) (HWCPUs D))) (getCacheLevel Affinity)))
      | Some PartitionEqually \<Rightarrow>
          (case getNumComputeUnits Part of
             None \<Rightarrow> None
           | Some N \<Rightarrow>
             if N = 0 then None
             else let Groups = length (HWCPUs D) div unat N in
               if \<not> Groups > 0 then None
               else map_option Some (take_groups (replicate Groups (unat N)) (HWCPUs D)))
      | Some PartitionByCounts \<Rightarrow>
          (case counts_of Part of
             None \<Rightarrow> None
           | Some ns \<Rightarrow> map_option Some (take_groups ns (HWCPUs D))))"

definition createSubDevices :: "hardware \<Rightarrow> cpu_dev \<Rightarrow> properties \<Rightarrow> cpu_dev list option option" where
  "createSubDevices H D Part =
     (case isPartitionSupported D Part of
        None \<Rightarrow> None
      | Some False \<Rightarrow> Some None
      | Some True \<Rightarrow>
        (case partition_groups H D Part of
           None \<Rightarrow> None
         | Some None \<Rightarrow> Some None
         | Some (Some groups) \<Rightarrow> map_option Some (make_devices H D Part groups)))"

section \<open>Entry points\<close>

text \<open>
  The tests of \<open>clCreateSubDevices\<close> on the properties: \<open>None\<close> reads past them, \<open>Some e\<close> is the
  status, 0 to go on.
\<close>

fun check_counts :: "properties \<Rightarrow> (cl_int + properties) option" where
  "check_counts [] = None"
| "check_counts (c # cs) =
     (if c = 0 then Some (Inr cs)
      else if sint c < 0 then Some (Inl CL_INVALID_DEVICE_PARTITION_COUNT)
      else check_counts cs)"

definition check_properties :: "properties \<Rightarrow> cl_int option" where
  "check_properties P =
     (case prop_at P 0 of
        None \<Rightarrow> None
      | Some t \<Rightarrow>
        if t = CL_DEVICE_PARTITION_EQUALLY \<or> t = CL_DEVICE_PARTITION_BY_AFFINITY_DOMAIN then
          (case (prop_at P 1, prop_at P 2) of
             (None, _) \<Rightarrow> None
           | (Some a, r) \<Rightarrow>
               if sint a \<le> 0 then Some CL_INVALID_VALUE
               else (case r of
                   None \<Rightarrow> None
                 | Some z \<Rightarrow>
                   if z \<noteq> 0 then Some CL_INVALID_VALUE
                   else if t = CL_DEVICE_PARTITION_BY_AFFINITY_DOMAIN \<and> a \<notin> {1, 2, 4, 8, 16, 32}
                   then Some CL_INVALID_VALUE else Some CL_SUCCESS))
        else if t = CL_DEVICE_PARTITION_BY_COUNTS then
          (case check_counts (drop 1 P) of
             None \<Rightarrow> None
           | Some (Inl e) \<Rightarrow> Some e
           | Some (Inr rest) \<Rightarrow>
             (case rest of [] \<Rightarrow> None | z # _ \<Rightarrow> Some (if z \<noteq> 0 then CL_INVALID_VALUE else CL_SUCCESS)))
        else Some CL_INVALID_VALUE)"

text \<open>
  The status, the number written through \<open>num_devices_ret\<close> and the devices written to
  \<open>out_devices\<close>; \<open>want_out\<close> and \<open>want_num\<close> tell whether these pointers are given.
\<close>

definition clCreateSubDevices ::
  "hardware \<Rightarrow> cpu_dev option \<Rightarrow> properties option \<Rightarrow> nat \<Rightarrow> bool \<Rightarrow> bool \<Rightarrow>
   (cl_int \<times> nat option \<times> cpu_dev list) option" where
  "clCreateSubDevices H in_device props num_devices want_out want_num =
     (case in_device of
        None \<Rightarrow> Some (CL_INVALID_DEVICE, None, [])
      | Some D \<Rightarrow>
        (case props of
           None \<Rightarrow> Some (CL_INVALID_VALUE, None, [])
         | Some P \<Rightarrow>
           if want_out \<and> num_devices < 1 then Some (CL_INVALID_VALUE, None, [])
           else case check_properties P of
               None \<Rightarrow> None
             | Some e \<Rightarrow>
               if e \<noteq> CL_SUCCESS then Some (e, None, [])
               else case DevicePartition P of
                   None \<Rightarrow> None
                 | Some Part \<Rightarrow>
                   (case createSubDevices H D Part of
                      None \<Rightarrow> None
                    | Some None \<Rightarrow> Some (CL_INVALID_VALUE, None, [])
                    | Some (Some SubDevs) \<Rightarrow>
                      let ret = (if want_num then Some (length SubDevs) else None) in
                      if \<not> want_out then Some (CL_SUCCESS, ret, [])
                      else if num_devices < length SubDevs then Some (CL_INVALID_VALUE, ret, [])
                      else Some (CL_SUCCESS, ret, SubDevs))))"

end
