(* ===== verification/Device_Proof.thy ===== *)
theory Device_Proof
  imports Device_Partition
begin

text \<open>
  What the partition of a CPU device gives: sub-devices that share no processor, have the sizes
  asked for and stay inside the parent; and the requests whose 32 bit sums make the device crash.
\<close>

section \<open>Groups of processors\<close>

lemma take_groups_spec:
  "take_groups ns cpus = Some gs \<Longrightarrow>
     map length gs = ns \<and> concat gs = take (sum_list ns) cpus \<and> sum_list ns \<le> length cpus"
proof (induction ns cpus arbitrary: gs rule: take_groups.induct)
  case (2 n ns cpus)
  then obtain hs where h: "n \<le> length cpus" "take_groups ns (drop n cpus) = Some hs" "gs = take n cpus # hs"
    by (auto split: if_splits)
  with 2(1) [OF _ h(2)] show ?case by (auto simp: take_add)
qed simp

lemma group_cpus_distinct:
  assumes "distinct cpus"
  shows "distinct (concat (group_cpus f cpus)) \<and> set (concat (group_cpus f cpus)) \<subseteq> set cpus \<and>
         (\<forall>g \<in> set (group_cpus f cpus). g \<noteq> [])"
proof -
  define ks where "ks = sort (remdups (List.map_filter f cpus))"
  have ks: "distinct ks" "set ks = set (List.map_filter f cpus)" by (simp_all add: ks_def)
  have "distinct (concat (map (\<lambda>k. filter (\<lambda>c. f c = Some k) cpus) ks))"
    using ks(1)
  proof (induction ks)
    case (Cons k ks)
    then show ?case using assms by auto
  qed simp
  moreover have "filter (\<lambda>c. f c = Some k) cpus \<noteq> []" if "k \<in> set ks" for k
    using that unfolding ks(2) by (auto simp: map_filter_def filter_empty_conv)
  ultimately show ?thesis by (auto simp: group_cpus_def ks_def [symmetric])
qed

section \<open>The sub-devices\<close>

lemma CPUSubDevice_cpus:
  "CPUSubDevice H D Part cpus = Some S \<Longrightarrow> HWCPUs S = cpus \<and> cpus \<noteq> [] \<and> DevPartition S = Part"
  by (auto simp: CPUSubDevice_def InitSubDeviceInfo_def Let_def split: if_splits)

lemma make_devices_cpus:
  "make_devices H D Part groups = Some Ss \<Longrightarrow>
     map HWCPUs Ss = groups \<and> (\<forall>S \<in> set Ss. HWCPUs S \<noteq> [] \<and> DevPartition S = Part)"
  unfolding make_devices_def
proof (induction groups arbitrary: Ss)
  case (Cons g groups)
  then show ?case by (auto split: option.splits dest: CPUSubDevice_cpus)
qed simp

definition wf_dev :: "cpu_dev \<Rightarrow> bool" where
  "wf_dev D \<longleftrightarrow> distinct (HWCPUs D) \<and> length (HWCPUs D) < 2 ^ 32 \<and>
     MaxComputeUnits D = of_nat (length (HWCPUs D))"

lemma CPUDevice_wf: "CPUDevice H cpus = Some D \<Longrightarrow> distinct cpus \<Longrightarrow> length cpus < 2 ^ 32 \<Longrightarrow> wf_dev D"
  by (auto simp: CPUDevice_def InitSubDeviceInfo_def wf_dev_def Let_def split: if_splits)

lemma partition_groups_disjoint:
  assumes "partition_groups H D Part = Some (Some groups)" "distinct (HWCPUs D)"
  shows "distinct (concat groups) \<and> set (concat groups) \<subseteq> set (HWCPUs D)"
proof -
  consider (counts) ns where "take_groups ns (HWCPUs D) = Some groups"
    | (domain) f where "groups = group_cpus f (HWCPUs D)"
    using assms(1)
    by (auto simp: partition_groups_def Let_def split: option.splits partition_type.splits if_splits)
  then show ?thesis
  proof cases
    case counts
    from take_groups_spec [OF this] assms(2) show ?thesis by (auto dest: in_set_takeD)
  next
    case domain
    with group_cpus_distinct [OF assms(2), of f] show ?thesis by simp
  qed
qed

lemma created_groups:
  assumes "clCreateSubDevices H (Some D) (Some P) n True want = Some (CL_SUCCESS, k, Ss)"
  obtains Part where "DevicePartition P = Some Part" "isPartitionSupported D Part = Some True"
    "partition_groups H D Part = Some (Some (map HWCPUs Ss))" "\<forall>S \<in> set Ss. HWCPUs S \<noteq> [] \<and> DevPartition S = Part"
    "length Ss \<le> n"
proof -
  obtain Part where p: "DevicePartition P = Some Part" "createSubDevices H D Part = Some (Some Ss)" "length Ss \<le> n"
    using assms
    by (auto simp: clCreateSubDevices_def Let_def split: if_splits option.splits)
  then obtain groups where g: "isPartitionSupported D Part = Some True"
    "partition_groups H D Part = Some (Some groups)" "make_devices H D Part groups = Some Ss"
    by (auto simp: createSubDevices_def split: option.splits bool.splits)
  from make_devices_cpus [OF g(3)] g p(1,3) that show ?thesis by blast
qed

lemma equal_groups:
  assumes "partition_groups H D Part = Some (Some groups)" "getType Part = Some PartitionEqually"
    and "getNumComputeUnits Part = Some N"
  shows "map length groups = replicate (length (HWCPUs D) div unat N) (unat N)"
  using assms take_groups_spec
  by (auto simp: partition_groups_def Let_def split: if_splits dest!: take_groups_spec)

lemma getType_copied: "DevicePartition P = Some Part \<Longrightarrow> Part \<noteq> [] \<and> P \<noteq> [] \<and> Part ! 0 = P ! 0"
  by (cases P) (auto simp: DevicePartition_def getType_def prop_at_def
                     split: option.splits partition_type.splits if_splits list.splits)

lemma equally_copied:
  "DevicePartition P = Some Part \<Longrightarrow> P ! 0 = CL_DEVICE_PARTITION_EQUALLY \<Longrightarrow>
     getType Part = Some PartitionEqually \<and> getNumComputeUnits Part = Some (ucast (P ! 1))"
  by (cases P) (auto simp: DevicePartition_def getType_def getNumComputeUnits_def prop_at_def split: if_splits)

section \<open>Properties\<close>

text \<open>
  C20: the sub-devices a partition of a CPU device creates have processors of the device, at least one
  each, and no two of them share one. An equal partition gives each as many processors as asked
  for, and makes as many sub-devices as fit.
\<close>

theorem sub_devices_share_nothing:
  assumes "wf_dev D" "clCreateSubDevices H (Some D) (Some P) n True want = Some (CL_SUCCESS, k, Ss)"
  shows "distinct (concat (map HWCPUs Ss)) \<and> set (concat (map HWCPUs Ss)) \<subseteq> set (HWCPUs D) \<and>
         [] \<notin> HWCPUs ` set Ss \<and>
         (P ! 0 \<noteq> CL_DEVICE_PARTITION_EQUALLY \<or>
          map (length \<circ> HWCPUs) Ss = replicate (length (HWCPUs D) div unat (ucast (P ! 1) :: 32 word))
                                          (unat (ucast (P ! 1) :: 32 word)))"
proof -
  obtain Part where p: "DevicePartition P = Some Part" "partition_groups H D Part = Some (Some (map HWCPUs Ss))"
    "\<forall>S \<in> set Ss. HWCPUs S \<noteq> [] \<and> DevPartition S = Part"
    by (rule created_groups [OF assms(2)])
  have "distinct (HWCPUs D)" using assms(1) by (simp add: wf_dev_def)
  from partition_groups_disjoint [OF p(2) this] p(3) show ?thesis
    using equal_groups [OF p(2)] equally_copied [OF p(1)] by (auto simp: comp_def)
qed

definition demo_hardware :: hardware where
  "demo_hardware = \<lparr>NUMANode = \<lambda>c. Some (c div 4), CacheAt = \<lambda>l c. if l = 3 then Some (c div 4) else Some c\<rparr>"

definition demo_dev :: cpu_dev where
  "demo_dev = the (CPUDevice demo_hardware [0, 1, 2, 3, 4, 5, 6, 7])"

lemma demo_dev: "CPUDevice demo_hardware [0, 1, 2, 3, 4, 5, 6, 7] = Some demo_dev"
  by (simp add: demo_dev_def CPUDevice_def InitSubDeviceInfo_def Let_def)

lemma demo_dev_fields:
  "HWCPUs demo_dev = [0, 1, 2, 3, 4, 5, 6, 7]" "MaxComputeUnits demo_dev = 8" "MaxSubDevices demo_dev = 8"
  "PartitionEqually \<in> set (SupportedPartitionTypes demo_dev)"
  "PartitionByCounts \<in> set (SupportedPartitionTypes demo_dev)"
  by (simp_all add: demo_dev_def CPUDevice_def InitSubDeviceInfo_def Let_def)

lemma two_threes: "replicate 2 (3 :: nat) = [3, 3]"
  by (simp add: numeral_2_eq_2)

lemma demo_created:
  "\<exists>S T. HWCPUs S = [0, 1, 2] \<and> HWCPUs T = [3, 4, 5] \<and>
     clCreateSubDevices demo_hardware (Some demo_dev) (Some [0x1086, 3, 0]) 4 True False = Some (CL_SUCCESS, None, [S, T])"
proof -
  let ?P = "[0x1086, 3, 0] :: properties"
  have P: "check_properties ?P = Some CL_SUCCESS" "DevicePartition ?P = Some ?P" "getType ?P = Some PartitionEqually"
    "getNumComputeUnits ?P = Some 3"
    by (simp_all add: check_properties_def prop_at_def DevicePartition_def getType_def getNumComputeUnits_def)
  have "isPartitionSupported demo_dev ?P = Some True"
    using demo_dev_fields(4) by (simp add: isPartitionSupported_def P demo_dev_fields)
  moreover have "partition_groups demo_hardware demo_dev ?P = Some (Some [[0, 1, 2], [3, 4, 5]])"
    by (simp add: partition_groups_def P demo_dev_fields two_threes)
  moreover have "\<exists>S T. make_devices demo_hardware demo_dev ?P [[0, 1, 2], [3, 4, 5]] = Some [S, T]"
    by (simp add: make_devices_def CPUSubDevice_def InitSubDeviceInfo_def Let_def)
  then obtain S T where m: "make_devices demo_hardware demo_dev ?P [[0, 1, 2], [3, 4, 5]] = Some [S, T]" by blast
  ultimately show ?thesis using make_devices_cpus [OF m]
    by (intro exI [of _ S] exI [of _ T]) (simp add: clCreateSubDevices_def createSubDevices_def P)
qed

theorem sub_devices_share_nothing_witness:
  "\<exists>Ss. map (length \<circ> HWCPUs) Ss = [3, 3] \<and>
     clCreateSubDevices demo_hardware (Some demo_dev) (Some [0x1086, 3, 0]) 4 True False = Some (CL_SUCCESS, None, Ss)"
proof -
  obtain S T where s: "clCreateSubDevices demo_hardware (Some demo_dev) (Some [0x1086, 3, 0]) 4 True False =
      Some (CL_SUCCESS, None, [S, T])"
    using demo_created by blast
  have "wf_dev demo_dev" by (rule CPUDevice_wf [OF demo_dev]) simp_all
  from sub_devices_share_nothing [OF this s] have "map (length \<circ> HWCPUs) [S, T] = [3, 3]"
    by (simp add: demo_dev_fields two_threes)
  with s show ?thesis by (intro exI [of _ "[S, T]"] conjI)
qed

text \<open>
  The counts of a partition are added in 32 bits, so counts whose sum wraps pass the test against
  the number of processors, and the device then walks off the end of its processors.
\<close>

lemma wrapped_counts_crash:
  assumes "PartitionByCounts \<in> set (SupportedPartitionTypes D)" "2 \<le> MaxSubDevices D"
    and "length (HWCPUs D) < 2 ^ 31" "1 \<le> n"
  shows "clCreateSubDevices H (Some D) (Some [0x1087, 0x80000000, 0x80000000, 0, 0]) n want_out want_num = None"
proof -
  let ?P = "[0x1087, 0x80000000, 0x80000000, 0, 0] :: properties"
  have c: "check_properties ?P = Some CL_SUCCESS" "DevicePartition ?P = Some ?P"
    by (simp_all add: check_properties_def prop_at_def DevicePartition_def getType_def)
  have t: "getType ?P = Some PartitionByCounts" "getNumCounts ?P = Some 2" "getTotalComputeUnits ?P = Some 0"
    by (simp_all add: getType_def prop_at_def getNumCounts_def getTotalComputeUnits_def upt_rec)
  have "isPartitionSupported D ?P = Some True"
    using assms(1,2) by (simp add: isPartitionSupported_def t not_less)
  moreover have "counts_of ?P = Some [2147483648, 2147483648]"
    by (simp add: counts_of_def t getCount_def prop_at_def upt_rec)
  then have "partition_groups H D ?P = None"
    using assms(3) by (simp add: partition_groups_def t)
  ultimately have "createSubDevices H D ?P = None" by (simp add: createSubDevices_def)
  then show ?thesis using assms(4) c by (simp add: clCreateSubDevices_def)
qed

text \<open>A number of processors that is 0 modulo \<open>2 ^ 32\<close> is a division by zero.\<close>

lemma zero_units_crash:
  "PartitionEqually \<in> set (SupportedPartitionTypes D) \<Longrightarrow> 1 \<le> n \<Longrightarrow>
     clCreateSubDevices H (Some D) (Some [0x1086, 0x100000000, 0]) n want_out want_num = None"
proof -
  let ?P = "[0x1086, 0x100000000, 0] :: properties"
  assume a: "PartitionEqually \<in> set (SupportedPartitionTypes D)" "1 \<le> n"
  have P: "check_properties ?P = Some CL_SUCCESS" "DevicePartition ?P = Some ?P" "getType ?P = Some PartitionEqually"
    by (simp_all add: check_properties_def prop_at_def DevicePartition_def getType_def)
  have "(ucast (0x100000000 :: 64 word) :: 32 word) = 0" by (simp add: unsigned_numeral)
  then have z: "getNumComputeUnits ?P = Some 0"
    using P(3) by (simp only: getNumComputeUnits_def prop_at_def) simp
  then have "isPartitionSupported D ?P = Some True" "partition_groups H D ?P = None"
    using a(1) by (simp_all add: isPartitionSupported_def partition_groups_def P)
  then show ?thesis using a(2) P by (simp add: clCreateSubDevices_def createSubDevices_def)
qed

end
