(* ===== verification/Context_API.thy ===== *)
theory Context_API
  imports Device_Proof Command_Queue
begin

text \<open>
  Platforms, contexts and queues as the API makes them: \<open>lib/Core/Platform.cpp\<close>, the part of
  \<open>lib/Core/Context.cpp\<close> that is not diagnostics, and the entry points of
  \<open>tools/libOpenCRun/Context.cpp\<close>, \<open>CommandQueue.cpp\<close>, \<open>FlushFinish.cpp\<close> and the queries of
  \<open>Device.cpp\<close>.

  Devices are named by their addresses. The references the API counts on devices, contexts and
  queues are one map from addresses to counts: \<open>release\<close> deletes what \<open>Util/MTRefCounted.h\<close>
  deletes. \<open>None\<close> is a read past the properties or a call through an address that is no platform.
\<close>

section \<open>Platforms and devices\<close>

datatype device_type = CPUType | GPUType | AcceleratorType | CustomType

record platform =
  CPUs :: "dev_id list"
  GPUs :: "dev_id list"
  Accelerators :: "dev_id list"
  Customs :: "dev_id list"

text \<open>The containers are small pointer sets: inserting twice has no effect.\<close>

definition addDevice :: "device_type \<Rightarrow> dev_id \<Rightarrow> platform \<Rightarrow> platform" where
  "addDevice Ty D P =
     (case Ty of
        CPUType \<Rightarrow> P\<lparr>CPUs := List.insert D (CPUs P)\<rparr>
      | GPUType \<Rightarrow> P\<lparr>GPUs := List.insert D (GPUs P)\<rparr>
      | AcceleratorType \<Rightarrow> P\<lparr>Accelerators := List.insert D (Accelerators P)\<rparr>
      | CustomType \<Rightarrow> P\<lparr>Customs := List.insert D (Customs P)\<rparr>)"

abbreviation (input) CL_DEVICE_TYPE_DEFAULT :: "64 word" where "CL_DEVICE_TYPE_DEFAULT \<equiv> 1"
abbreviation (input) CL_DEVICE_TYPE_CPU :: "64 word" where "CL_DEVICE_TYPE_CPU \<equiv> 2"
abbreviation (input) CL_DEVICE_TYPE_GPU :: "64 word" where "CL_DEVICE_TYPE_GPU \<equiv> 4"
abbreviation (input) CL_DEVICE_TYPE_ACCELERATOR :: "64 word" where "CL_DEVICE_TYPE_ACCELERATOR \<equiv> 8"
abbreviation (input) CL_DEVICE_TYPE_ALL :: "64 word" where "CL_DEVICE_TYPE_ALL \<equiv> 0xFFFFFFFF"

definition devices_of_type :: "platform \<Rightarrow> 64 word \<Rightarrow> dev_id list option" where
  "devices_of_type Plat device_type =
     (if device_type = CL_DEVICE_TYPE_DEFAULT \<or> device_type = CL_DEVICE_TYPE_CPU then Some (CPUs Plat)
      else if device_type = CL_DEVICE_TYPE_GPU then Some (GPUs Plat)
      else if device_type = CL_DEVICE_TYPE_ACCELERATOR then Some (Accelerators Plat)
      else if device_type = CL_DEVICE_TYPE_ALL then Some (CPUs Plat @ GPUs Plat @ Accelerators Plat)
      else None)"

text \<open>The status, the number and the devices written; \<open>want\<close> and \<open>want_num\<close> as before.\<close>

definition clGetDeviceIDs ::
  "platform option \<Rightarrow> 64 word \<Rightarrow> nat \<Rightarrow> bool \<Rightarrow> bool \<Rightarrow> cl_int \<times> nat option \<times> dev_id list" where
  "clGetDeviceIDs platform device_type num_entries want want_num =
     (case platform of
        None \<Rightarrow> (CL_INVALID_PLATFORM, None, [])
      | Some Plat \<Rightarrow>
        if num_entries = 0 \<and> want \<or> \<not> want_num \<and> \<not> want then (CL_INVALID_VALUE, None, [])
        else (case devices_of_type Plat device_type of
            None \<Rightarrow> (CL_INVALID_DEVICE_TYPE, None, [])
          | Some Devs \<Rightarrow>
            if Devs = [] then (CL_DEVICE_NOT_FOUND, None, [])
            else (CL_SUCCESS, if want_num then Some (length Devs) else None,
                  if want then take num_entries Devs else [])))"

section \<open>References\<close>

record api_refs =
  RefCount :: "nat \<Rightarrow> 32 word"
  Gone :: "nat list"

definition retain :: "nat \<Rightarrow> api_refs \<Rightarrow> api_refs" where
  "retain i r = r\<lparr>RefCount := (RefCount r)(i := RefCount r i + 1)\<rparr>"

definition release :: "nat \<Rightarrow> api_refs \<Rightarrow> api_refs" where
  "release i r =
     (let r1 = r\<lparr>RefCount := (RefCount r)(i := RefCount r i - 1)\<rparr>
      in if RefCount r i = 0 then r1\<lparr>Gone := Gone r1 @ [i]\<rparr> else r1)"

text \<open>Root devices are not counted.\<close>

definition clRetainDevice :: "(dev_id \<Rightarrow> bool) \<Rightarrow> dev_id option \<Rightarrow> api_refs \<Rightarrow> api_refs \<times> cl_int" where
  "clRetainDevice is_sub device r =
     (case device of None \<Rightarrow> (r, CL_INVALID_DEVICE)
      | Some D \<Rightarrow> (if is_sub D then retain D r else r, CL_SUCCESS))"

definition clReleaseDevice :: "(dev_id \<Rightarrow> bool) \<Rightarrow> dev_id option \<Rightarrow> api_refs \<Rightarrow> api_refs \<times> cl_int" where
  "clReleaseDevice is_sub device r =
     (case device of None \<Rightarrow> (r, CL_INVALID_DEVICE)
      | Some D \<Rightarrow> (if is_sub D then release D r else r, CL_SUCCESS))"

section \<open>Contexts\<close>

record cl_context =
  coId :: ctx_id
  coPlatform :: "64 word"
  coDevices :: "dev_id list"
  coNotify :: ptr
  coUserData :: ptr

text \<open>The constructor of \<open>Context\<close> and its destructor.\<close>

definition Context ::
  "(dev_id \<Rightarrow> bool) \<Rightarrow> ctx_id \<Rightarrow> 64 word \<Rightarrow> dev_id list \<Rightarrow> ptr \<Rightarrow> ptr \<Rightarrow> api_refs \<Rightarrow> api_refs \<times> cl_context" where
  "Context is_sub i Plat Devs pfn_notify user_data r =
     (foldl (\<lambda>r D. if is_sub D then retain D r else r) (r\<lparr>RefCount := (RefCount r)(i := 0)\<rparr>) Devs,
      \<lparr>coId = i, coPlatform = Plat, coDevices = Devs, coNotify = pfn_notify, coUserData = user_data\<rparr>)"

definition ContextDtor :: "(dev_id \<Rightarrow> bool) \<Rightarrow> cl_context \<Rightarrow> api_refs \<Rightarrow> api_refs" where
  "ContextDtor is_sub C r = foldl (\<lambda>r D. if is_sub D then release D r else r) r (coDevices C)"

abbreviation (input) CL_CONTEXT_PLATFORM :: "64 word" where "CL_CONTEXT_PLATFORM \<equiv> 0x1084"
abbreviation (input) CL_INVALID_PROPERTY :: cl_int where "CL_INVALID_PROPERTY \<equiv> - 64"

text \<open>
  The loop of \<open>clParseProperties\<close>. \<open>dflt\<close> is the address of the platform of OpenCRun, \<open>M\<close> the map
  read so far; the result is an error code or the map.
\<close>

fun parse_properties ::
  "64 word \<Rightarrow> (64 word \<rightharpoonup> 64 word) \<Rightarrow> 64 word list \<Rightarrow> (cl_int + (64 word \<rightharpoonup> 64 word)) option" where
  "parse_properties dflt M [] = None"
| "parse_properties dflt M [Name] = (if Name = 0 then Some (Inr M) else None)"
| "parse_properties dflt M (Name # Value # ps) =
     (if Name = 0 then Some (Inr M)
      else if Name \<noteq> CL_CONTEXT_PLATFORM then Some (Inl CL_INVALID_PROPERTY)
      else if M Name \<noteq> None then Some (Inl CL_INVALID_PROPERTY)
      else parse_properties dflt (M(Name \<mapsto> (if Value = 0 then dflt else Value))) ps)"

definition clParseProperties :: "64 word \<Rightarrow> 64 word list \<Rightarrow> (cl_int + (64 word \<rightharpoonup> 64 word)) option" where
  "clParseProperties dflt ps =
     (case parse_properties dflt (\<lambda>_. None) ps of
        None \<Rightarrow> None
      | Some (Inl e) \<Rightarrow> Some (Inl e)
      | Some (Inr M) \<Rightarrow>
        Some (if M CL_CONTEXT_PLATFORM = None then Inl CL_INVALID_PLATFORM else Inr M))"

text \<open>The platform both entry points start with.\<close>

definition chosen_platform :: "64 word \<Rightarrow> 64 word list option \<Rightarrow> (cl_int + 64 word) option" where
  "chosen_platform dflt ps =
     (case ps of
        None \<Rightarrow> Some (if dflt = 0 then Inl CL_INVALID_PLATFORM else Inr dflt)
      | Some ps \<Rightarrow>
        (case clParseProperties dflt ps of
           None \<Rightarrow> None
         | Some (Inl e) \<Rightarrow> Some (Inl e)
         | Some (Inr M) \<Rightarrow> Some (Inr (the (M CL_CONTEXT_PLATFORM)))))"

definition clCreateContext ::
  "64 word \<Rightarrow> (dev_id \<Rightarrow> bool) \<Rightarrow> ctx_id \<Rightarrow> 64 word list option \<Rightarrow> nat \<Rightarrow> dev_id option list option \<Rightarrow>
   ptr \<Rightarrow> ptr \<Rightarrow> api_refs \<Rightarrow> (api_refs \<times> (cl_int + cl_context)) option" where
  "clCreateContext dflt is_sub i ps num_devices devices pfn_notify user_data r =
     (case chosen_platform dflt ps of
        None \<Rightarrow> None
      | Some (Inl e) \<Rightarrow> Some (r, Inl e)
      | Some (Inr Plat) \<Rightarrow>
        (case devices of
           None \<Rightarrow> Some (r, Inl CL_INVALID_VALUE)
         | Some ds \<Rightarrow>
           if num_devices = 0 \<or> pfn_notify = NULL \<and> user_data \<noteq> NULL then Some (r, Inl CL_INVALID_VALUE)
           else if length ds < num_devices \<and> None \<notin> set ds then None
           else if None \<in> set (take num_devices ds) then Some (r, Inl CL_INVALID_DEVICE)
           else case Context is_sub i Plat (map the (take num_devices ds)) pfn_notify user_data r of
               (r1, C) \<Rightarrow> Some (retain i r1, Inr C)))"

definition clValidDeviceType :: "64 word \<Rightarrow> bool" where
  "clValidDeviceType ty \<longleftrightarrow> ty = CL_DEVICE_TYPE_ALL \<or> \<not> has_flag ty (NOT (2 OR 4 OR 8 OR 1))"

text \<open>\<open>platform_at\<close> is the platform at an address, for the address the properties name.\<close>

definition clCreateContextFromType ::
  "64 word \<Rightarrow> (64 word \<Rightarrow> platform option) \<Rightarrow> (dev_id \<Rightarrow> bool) \<Rightarrow> ctx_id \<Rightarrow> 64 word list option \<Rightarrow> 64 word \<Rightarrow>
   ptr \<Rightarrow> ptr \<Rightarrow> api_refs \<Rightarrow> (api_refs \<times> (cl_int + cl_context)) option" where
  "clCreateContextFromType dflt platform_at is_sub i ps device_type pfn_notify user_data r =
     (case chosen_platform dflt ps of
        None \<Rightarrow> None
      | Some (Inl e) \<Rightarrow> Some (r, Inl e)
      | Some (Inr Plat) \<Rightarrow>
        if \<not> clValidDeviceType device_type then Some (r, Inl CL_INVALID_DEVICE_TYPE)
        else if pfn_notify = NULL \<and> user_data \<noteq> NULL then Some (r, Inl CL_INVALID_VALUE)
        else (case platform_at Plat of
            None \<Rightarrow> if has_flag device_type 0xF then None else Some (r, Inl CL_DEVICE_NOT_FOUND)
          | Some P \<Rightarrow>
            let Devs = (if has_flag device_type CL_DEVICE_TYPE_CPU \<or> has_flag device_type CL_DEVICE_TYPE_DEFAULT
                        then CPUs P
                        else if has_flag device_type CL_DEVICE_TYPE_GPU then GPUs P
                        else if has_flag device_type CL_DEVICE_TYPE_ACCELERATOR then Accelerators P
                        else [])
            in if Devs = [] then Some (r, Inl CL_DEVICE_NOT_FOUND)
               else case Context is_sub i Plat Devs pfn_notify user_data r of
                   (r1, C) \<Rightarrow> Some (retain i r1, Inr C)))"

definition clRetainContext :: "cl_context option \<Rightarrow> api_refs \<Rightarrow> api_refs \<times> cl_int" where
  "clRetainContext ctx r =
     (case ctx of None \<Rightarrow> (r, CL_INVALID_CONTEXT) | Some C \<Rightarrow> (retain (coId C) r, CL_SUCCESS))"

definition clReleaseContext :: "(dev_id \<Rightarrow> bool) \<Rightarrow> cl_context option \<Rightarrow> api_refs \<Rightarrow> api_refs \<times> cl_int" where
  "clReleaseContext is_sub ctx r =
     (case ctx of
        None \<Rightarrow> (r, CL_INVALID_CONTEXT)
      | Some C \<Rightarrow> (if RefCount r (coId C) = 0 then ContextDtor is_sub C (release (coId C) r)
                   else release (coId C) r, CL_SUCCESS))"

section \<open>Queues\<close>

definition IsAssociatedWith :: "cl_context \<Rightarrow> dev_id \<Rightarrow> bool" where
  "IsAssociatedWith C D \<longleftrightarrow> D \<in> set (coDevices C)"

text \<open>\<open>info\<close> is the information of a device. The new queue holds a reference to its context.\<close>

definition GetQueueForDevice ::
  "(dev_id \<Rightarrow> device_info) \<Rightarrow> (dev_id \<Rightarrow> bool) \<Rightarrow> cl_context \<Rightarrow> dev_id \<Rightarrow> bool \<Rightarrow> bool \<Rightarrow> api_refs \<Rightarrow>
   api_refs \<times> (cl_int + cmd_queue)" where
  "GetQueueForDevice info is_sub C Dev OutOfOrderMode EnableProfile r =
     (if \<not> IsAssociatedWith C Dev then (r, Inl CL_INVALID_DEVICE)
      else let r1 = retain (coId C) r; r2 = (if is_sub Dev then retain Dev r1 else r1)
           in (r2, Inr (new_queue (if OutOfOrderMode then OutOfOrder else InOrder)
                          \<lparr>QContext = coId C, QDevice = info Dev\<rparr> EnableProfile)))"

abbreviation (input) CL_QUEUE_OUT_OF_ORDER_EXEC_MODE_ENABLE :: "64 word" where
  "CL_QUEUE_OUT_OF_ORDER_EXEC_MODE_ENABLE \<equiv> 1"
abbreviation (input) CL_QUEUE_PROFILING_ENABLE :: "64 word" where "CL_QUEUE_PROFILING_ENABLE \<equiv> 2"

definition clValidQueueProperties :: "64 word \<Rightarrow> bool" where
  "clValidQueueProperties props \<longleftrightarrow> \<not> has_flag props (NOT 3)"

text \<open>\<open>i\<close> is the address of the new queue.\<close>

definition clCreateCommandQueue ::
  "(dev_id \<Rightarrow> device_info) \<Rightarrow> (dev_id \<Rightarrow> bool) \<Rightarrow> nat \<Rightarrow> cl_context option \<Rightarrow> dev_id option \<Rightarrow> 64 word \<Rightarrow>
   api_refs \<Rightarrow> api_refs \<times> (cl_int + cmd_queue)" where
  "clCreateCommandQueue info is_sub i ctx device props r =
     (case ctx of
        None \<Rightarrow> (r, Inl CL_INVALID_CONTEXT)
      | Some C \<Rightarrow>
        (case device of
           None \<Rightarrow> (r, Inl CL_INVALID_DEVICE)
         | Some D \<Rightarrow>
           if \<not> clValidQueueProperties props then (r, Inl CL_INVALID_VALUE)
           else (case GetQueueForDevice info is_sub C D (has_flag props CL_QUEUE_OUT_OF_ORDER_EXEC_MODE_ENABLE)
                        (has_flag props CL_QUEUE_PROFILING_ENABLE) r of
               (r1, Inl e) \<Rightarrow> (r1, Inl e)
             | (r1, Inr Queue) \<Rightarrow> (retain i (r1\<lparr>RefCount := (RefCount r1)(i := 0)\<rparr>), Inr Queue))))"

definition clRetainCommandQueue :: "nat option \<Rightarrow> api_refs \<Rightarrow> api_refs \<times> cl_int" where
  "clRetainCommandQueue queue r =
     (case queue of None \<Rightarrow> (r, CL_INVALID_COMMAND_QUEUE) | Some i \<Rightarrow> (retain i r, CL_SUCCESS))"

text \<open>
  The release that deletes the queue also runs \<open>~CommandQueue\<close>, which gives back the device, and
  gives back the context; if that deletes the context, its own destructor is not followed here.
\<close>

definition delete_queue :: "(dev_id \<Rightarrow> bool) \<Rightarrow> dev_id \<Rightarrow> cmd_queue \<Rightarrow> api_refs \<Rightarrow> api_refs" where
  "delete_queue is_sub D q r = release (QContext (QInfo q)) (if is_sub D then release D r else r)"

definition clReleaseCommandQueue ::
  "('m, 'd) device \<Rightarrow> (dev_id \<Rightarrow> bool) \<Rightarrow> dev_id \<Rightarrow> (nat \<times> ('m, 'd) queue_state) option \<Rightarrow> api_refs \<Rightarrow>
   (('m, 'd) queue_state option \<times> api_refs \<times> cl_int) option" where
  "clReleaseCommandQueue dev is_sub D queue r =
     (case queue of
        None \<Rightarrow> Some (None, r, CL_INVALID_COMMAND_QUEUE)
      | Some (i, st) \<Rightarrow>
        (case Flush dev st of
           None \<Rightarrow> None
         | Some st' \<Rightarrow>
           Some (Some st', if RefCount r i = 0 then delete_queue is_sub D (fst st') (release i r) else release i r,
                 CL_SUCCESS)))"

definition clFlush ::
  "('m, 'd) device \<Rightarrow> ('m, 'd) queue_state option \<Rightarrow> (('m, 'd) queue_state option \<times> cl_int) option" where
  "clFlush dev queue =
     (case queue of
        None \<Rightarrow> Some (None, CL_INVALID_COMMAND_QUEUE)
      | Some st \<Rightarrow> map_option (\<lambda>st'. (Some st', CL_SUCCESS)) (Flush dev st))"

text \<open>\<open>clFinish\<close> returns once the events listed are complete.\<close>

definition clFinish ::
  "('m, 'd) device \<Rightarrow> ('m, 'd) queue_state option \<Rightarrow>
   (('m, 'd) queue_state option \<times> event_id list \<times> cl_int) option" where
  "clFinish dev queue =
     (case queue of
        None \<Rightarrow> Some (None, [], CL_INVALID_COMMAND_QUEUE)
      | Some st \<Rightarrow> map_option (\<lambda>(st', evs). (Some st', evs, CL_SUCCESS)) (Finish dev st))"

end
