(* ===== verification/Sampler_Model.thy ===== *)
theory Sampler_Model
  imports OCL_Prelude
begin

text \<open>
  Samplers: \<open>lib/Core/Sampler.cpp\<close>, \<open>include/opencrun/Core/Sampler.h\<close>, the entry point
  \<open>clCreateSampler\<close> (\<open>tools/libOpenCRun/Sampler.cpp\<close>), and the word a sampler becomes on the CPU
  device (\<open>getCPUSampler\<close> and its table in \<open>lib/Device/CPU/ImageSupport.cpp\<close>).
\<close>

section \<open>Samplers and their builder\<close>

datatype addressing_mode =
  AddressNone | AddressClampToEdge | AddressClamp | AddressRepeat | AddressMirroredRepeat | NoAddressing

datatype filter_mode = FilterNearest | FilterLinear | NoFilter

record sampler =
  SmpContext :: ctx_id
  NormalizedCoords :: bool
  AddrMode :: addressing_mode
  FltrMode :: filter_mode

record sampler_builder = sampler +
  SmpErr :: cl_int

definition SamplerBuilder :: "ctx_id \<Rightarrow> sampler_builder" where
  "SamplerBuilder Ctx =
     \<lparr>SmpContext = Ctx, NormalizedCoords = False, AddrMode = NoAddressing, FltrMode = NoFilter,
      SmpErr = CL_SUCCESS\<rparr>"

definition SetNormalizedCoords :: "bool \<Rightarrow> sampler_builder \<Rightarrow> sampler_builder" where
  "SetNormalizedCoords Enabled b = b\<lparr>NormalizedCoords := Enabled\<rparr>"

definition SetAddressingMode :: "addressing_mode \<Rightarrow> sampler_builder \<Rightarrow> sampler_builder" where
  "SetAddressingMode M b =
     (if AddrMode b \<noteq> NoAddressing then b\<lparr>SmpErr := CL_INVALID_VALUE\<rparr> else b\<lparr>AddrMode := M\<rparr>)"

definition SetFilterMode :: "filter_mode \<Rightarrow> sampler_builder \<Rightarrow> sampler_builder" where
  "SetFilterMode M b =
     (if FltrMode b \<noteq> NoFilter then b\<lparr>SmpErr := CL_INVALID_VALUE\<rparr> else b\<lparr>FltrMode := M\<rparr>)"

text \<open>The methods \<open>SetAddressNone\<close> to \<open>SetFilterLinear\<close>.\<close>

definition SetAddress :: "addressing_mode \<Rightarrow> bool \<Rightarrow> sampler_builder \<Rightarrow> sampler_builder" where
  "SetAddress M Enabled b = (if Enabled then SetAddressingMode M b else b)"

definition SetFilter :: "filter_mode \<Rightarrow> bool \<Rightarrow> sampler_builder \<Rightarrow> sampler_builder" where
  "SetFilter M Enabled b = (if Enabled then SetFilterMode M b else b)"

definition Sampler_Create :: "sampler_builder \<Rightarrow> cl_int + sampler" where
  "Sampler_Create b = (if SmpErr b \<noteq> CL_SUCCESS then Inl (SmpErr b) else Inr (sampler.truncate b))"

text \<open>\<open>img\<close> tells for each device of the context whether it supports images.\<close>

definition clCreateSampler ::
  "(ctx_id \<times> bool list) option \<Rightarrow> bool \<Rightarrow> 32 word \<Rightarrow> 32 word \<Rightarrow> cl_int + sampler" where
  "clCreateSampler ctx normalized_coords addressing_mode filter_mode =
     (case ctx of
        None \<Rightarrow> Inl CL_INVALID_CONTEXT
      | Some (Ctx, img) \<Rightarrow>
        if True \<notin> set img then Inl CL_INVALID_OPERATION
        else Sampler_Create
          (SetFilter FilterLinear (filter_mode = 0x1141)
            (SetFilter FilterNearest (filter_mode = 0x1140)
              (SetAddress AddressMirroredRepeat (addressing_mode = 0x1134)
                (SetAddress AddressRepeat (addressing_mode = 0x1133)
                  (SetAddress AddressClamp (addressing_mode = 0x1132)
                    (SetAddress AddressClampToEdge (addressing_mode = 0x1131)
                      (SetAddress AddressNone (addressing_mode = 0x1130)
                        (SetNormalizedCoords normalized_coords (SamplerBuilder Ctx))))))))))"

section \<open>Samplers on the CPU device\<close>

definition sampler_flags :: "sampler \<Rightarrow> nat" where
  "sampler_flags S =
     (if NormalizedCoords S then 0x8 else 0) +
     (case AddrMode S of
        AddressNone \<Rightarrow> 0 | AddressClampToEdge \<Rightarrow> 3 | AddressClamp \<Rightarrow> 4 | AddressRepeat \<Rightarrow> 2
      | AddressMirroredRepeat \<Rightarrow> 1 | NoAddressing \<Rightarrow> 0) +
     (case FltrMode S of FilterNearest \<Rightarrow> 0 | FilterLinear \<Rightarrow> 0x10 | NoFilter \<Rightarrow> 0)"

definition Sampler_LUT :: "nat list" where
  "Sampler_LUT = [0x00, 0x01, 0x02, 0x03, 0x04, 0x05, 0x06, 0x07, 0x08, 0x09, 0x0A, 0x0B, 0x0C, 0x0D, 0x0E, 0x0F,
                  0x10, 0x11, 0x12, 0x13, 0x14, 0x15, 0x16, 0x17, 0x18, 0x19, 0x1A, 0x1B, 0x1C, 0x1D, 0x1E, 0x1F]"

text \<open>The word a kernel finds at the pointer it gets; \<open>None\<close> is the null pointer of a null sampler.\<close>

definition getCPUSampler :: "sampler option \<Rightarrow> nat option" where
  "getCPUSampler S = map_option (\<lambda>S. Sampler_LUT ! sampler_flags S) S"

section \<open>Lemmas\<close>

text \<open>The index stays inside the table, which is the identity.\<close>

lemma sampler_flags_in_table: "sampler_flags S < length Sampler_LUT"
  by (auto simp: sampler_flags_def Sampler_LUT_def split: addressing_mode.splits filter_mode.splits)

lemma Sampler_LUT_id: "i < length Sampler_LUT \<Longrightarrow> Sampler_LUT ! i = i"
proof -
  have "\<forall>i < 32. Sampler_LUT ! i = i" by (simp add: Sampler_LUT_def All_less_Suc numeral_eq_Suc)
  then show "i < length Sampler_LUT \<Longrightarrow> Sampler_LUT ! i = i" by (simp add: Sampler_LUT_def)
qed

text \<open>The modes the specification names are told apart by the word.\<close>

lemma sampler_word_injective:
  assumes "getCPUSampler (Some S) = getCPUSampler (Some T)" "SmpContext S = SmpContext T"
    and "AddrMode S \<noteq> NoAddressing" "AddrMode T \<noteq> NoAddressing" "FltrMode S \<noteq> NoFilter" "FltrMode T \<noteq> NoFilter"
  shows "S = T"
proof -
  have "sampler_flags S = sampler_flags T"
    using assms(1) Sampler_LUT_id sampler_flags_in_table by (simp add: getCPUSampler_def)
  with assms(2-6) show ?thesis
    by (cases S; cases T)
       (auto simp: sampler_flags_def split: if_splits addressing_mode.splits filter_mode.splits)
qed

text \<open>
  An unknown mode is not refused: the sampler is created without one, and its word is that of
  \<open>CL_ADDRESS_NONE\<close>.
\<close>

lemma unknown_mode_accepted:
  "clCreateSampler (Some (c, [True])) False 0 0x1140 =
     Inr \<lparr>SmpContext = c, NormalizedCoords = False, AddrMode = NoAddressing, FltrMode = FilterNearest\<rparr>"
  by (simp add: clCreateSampler_def Sampler_Create_def SetFilter_def SetFilterMode_def SetAddress_def
                SetNormalizedCoords_def SamplerBuilder_def sampler.truncate_def)

end
