(* ===== verification/Type_Qualifiers.thy ===== *)
theory Type_Qualifiers
  imports OCL_Prelude
begin

text \<open>
  The qualifiers of an OpenCL type, packed in a word: \<open>opencl::Qualifiers\<close> of
  \<open>include/opencrun/Util/OpenCLTypeSystem.h\<close>. Bits 0 to 2 are const, volatile and restrict, bits 3
  and 4 the access to an image, bits 5 and 6 the address space.
\<close>

section \<open>Type qualifiers\<close>

datatype address_space = AS_Private | AS_Global | AS_Constant | AS_Local | AS_Invalid

type_synonym qualifiers = "32 word"

definition as_code :: "address_space \<Rightarrow> 32 word" where
  "as_code AS = (case AS of AS_Private \<Rightarrow> 0 | AS_Global \<Rightarrow> 1 | AS_Constant \<Rightarrow> 2 | AS_Local \<Rightarrow> 3 | AS_Invalid \<Rightarrow> 4)"

definition as_of :: "32 word \<Rightarrow> address_space" where
  "as_of n = (if n = 0 then AS_Private else if n = 1 then AS_Global else if n = 2 then AS_Constant
              else if n = 3 then AS_Local else AS_Invalid)"

definition isConst :: "qualifiers \<Rightarrow> bool" where "isConst Q \<longleftrightarrow> Q AND 1 \<noteq> 0"
definition isVolatile :: "qualifiers \<Rightarrow> bool" where "isVolatile Q \<longleftrightarrow> Q AND 2 \<noteq> 0"
definition isRestrict :: "qualifiers \<Rightarrow> bool" where "isRestrict Q \<longleftrightarrow> Q AND 4 \<noteq> 0"

definition getAddressSpace :: "qualifiers \<Rightarrow> address_space" where
  "getAddressSpace Q = as_of (drop_bit 5 (Q AND 0x60))"

definition addAddressSpace :: "address_space \<Rightarrow> qualifiers \<Rightarrow> qualifiers" where
  "addAddressSpace AS Q = (Q AND NOT 0x60) OR push_bit 5 (as_code AS)"

definition getImageAccess :: "qualifiers \<Rightarrow> 32 word" where
  "getImageAccess Q = drop_bit 3 (Q AND 0x18)"

definition addImageAccess :: "32 word \<Rightarrow> qualifiers \<Rightarrow> qualifiers" where
  "addImageAccess IA Q = (Q AND NOT 0x18) OR push_bit 3 IA"

definition addConst :: "qualifiers \<Rightarrow> qualifiers" where "addConst Q = Q OR 1"
definition removeConst :: "qualifiers \<Rightarrow> qualifiers" where "removeConst Q = Q AND NOT 1"
definition addVolatile :: "qualifiers \<Rightarrow> qualifiers" where "addVolatile Q = Q OR 2"
definition removeVolatile :: "qualifiers \<Rightarrow> qualifiers" where "removeVolatile Q = Q AND NOT 2"
definition addRestrict :: "qualifiers \<Rightarrow> qualifiers" where "addRestrict Q = Q OR 4"
definition removeRestrict :: "qualifiers \<Rightarrow> qualifiers" where "removeRestrict Q = Q AND NOT 4"

section \<open>Fields of the word\<close>

text \<open>Replacing one field leaves the others alone.\<close>

lemma masked_fields: "(Q AND NOT M OR x) AND M = x AND M" for Q :: "32 word"
  by (rule bit_word_eqI) (auto simp: bit_and_iff bit_or_iff bit_not_iff)

lemma address_space_read_back:
  "getAddressSpace (addAddressSpace AS Q) = (if AS = AS_Invalid then AS_Private else AS)"
  unfolding getAddressSpace_def addAddressSpace_def masked_fields
  by (cases AS) (simp_all add: as_code_def as_of_def)

lemma masked_outside: "N AND M = 0 \<Longrightarrow> x AND N = 0 \<Longrightarrow> (Q AND NOT M OR x) AND N = Q AND N" for Q :: "32 word"
proof (rule bit_word_eqI)
  fix k assume "N AND M = 0" "x AND N = 0" "k < LENGTH(32)"
  then have "\<not> (bit N k \<and> bit M k)" "\<not> (bit x k \<and> bit N k)" by (metis bit_0_eq bit_and_iff bot_apply bot_bool_def)+
  then show "bit ((Q AND NOT M OR x) AND N) k = bit (Q AND N) k"
    using \<open>k < LENGTH(32)\<close> by (auto simp: bit_and_iff bit_or_iff bit_not_iff)
qed

lemma address_space_outside:
  assumes "N \<in> {1, 2, 4, 0x18}"
  shows "addAddressSpace AS Q AND N = Q AND N"
  unfolding addAddressSpace_def
proof (rule masked_outside)
  show "N AND 0x60 = 0" using assms by auto
  show "push_bit 5 (as_code AS) AND N = 0" using assms by (cases AS) (auto simp: as_code_def)
qed

lemma address_space_keeps_others:
  "isConst (addAddressSpace AS Q) = isConst Q" "isVolatile (addAddressSpace AS Q) = isVolatile Q"
  "isRestrict (addAddressSpace AS Q) = isRestrict Q" "getImageAccess (addAddressSpace AS Q) = getImageAccess Q"
  unfolding isConst_def isVolatile_def isRestrict_def getImageAccess_def
  by (simp_all only: address_space_outside insert_iff simp_thms)

end
