(* ===== verification/Kernel_Args.thy ===== *)
theory Kernel_Args
  imports Kernel_Builders Sampler_Model Type_Qualifiers
begin

text \<open>
  Kernel arguments: \<open>KernelArg\<close> and the setters of \<open>lib/Core/Kernel.cpp\<close> behind \<open>clSetKernelArg\<close>,
  told apart by the qualifiers of their types, and the arguments the CPU device hands to a kernel (\<open>createKernelArguments\<close>,
  \<open>lib/Device/CPU/CPUDevice.cpp\<close>).

  An argument value is a pointer into the memory of the host. The handles it may hold are
  addresses: \<open>obj_at\<close> and \<open>smp_at\<close> give the memory object and the sampler at an address. \<open>None\<close> is
  the use of a null or wild pointer.
\<close>

abbreviation (input) CL_INVALID_ARG_INDEX :: cl_int where "CL_INVALID_ARG_INDEX \<equiv> - 49"
abbreviation (input) CL_INVALID_ARG_VALUE :: cl_int where "CL_INVALID_ARG_VALUE \<equiv> - 50"
abbreviation (input) CL_INVALID_ARG_SIZE :: cl_int where "CL_INVALID_ARG_SIZE \<equiv> - 51"

section \<open>Types of arguments\<close>

text \<open>What the setters ask of an \<open>opencl::Type\<close>.\<close>

record ocl_type =
  isPointer :: bool
  ElementQualifiers :: qualifiers
  isImage :: bool
  isSamplerClass :: bool

definition isBufferArg :: "ocl_type \<Rightarrow> bool" where
  "isBufferArg Ty \<longleftrightarrow> isPointer Ty \<and> getAddressSpace (ElementQualifiers Ty) \<noteq> AS_Local"

definition isLocalBufferArg :: "ocl_type \<Rightarrow> bool" where
  "isLocalBufferArg Ty \<longleftrightarrow> isPointer Ty \<and> getAddressSpace (ElementQualifiers Ty) = AS_Local"

definition isByValueArg :: "ocl_type \<Rightarrow> bool" where
  "isByValueArg Ty \<longleftrightarrow> \<not> isPointer Ty \<and> \<not> isImage Ty"

definition isImageArg :: "ocl_type \<Rightarrow> bool" where
  "isImageArg Ty \<longleftrightarrow> isImage Ty \<and> \<not> isSamplerClass Ty"

definition isSamplerArg :: "ocl_type \<Rightarrow> bool" where
  "isSamplerArg Ty \<longleftrightarrow> isImage Ty \<and> isSamplerClass Ty"

text \<open>A parameter of the compiled function: for a vector its length and the size of an element.\<close>

record param_type =
  VectorOf :: "(nat \<times> nat) option"
  StoreSize :: nat

section \<open>Kernels and their arguments\<close>

datatype kernel_arg =
    NoArg
  | BufferArg nat cl_mem
  | LocalBufferArg nat size_t
  | ImageArg nat cl_mem
  | SamplerArg nat "sampler option"
  | ByValueArg nat "byte list"

record kernel_obj = kernel_desc +
  Signature :: "ocl_type list"
  Params :: "param_type list"
  Arguments :: "kernel_arg list"

definition GetArgCount :: "kernel_obj \<Rightarrow> nat" where
  "GetArgCount K = length (Signature K)"

definition Kernel :: "kernel_desc \<Rightarrow> ocl_type list \<Rightarrow> param_type list \<Rightarrow> kernel_obj" where
  "Kernel D Sig Ps =
     kernel_desc.extend (D\<lparr>KSignatureArgs := length Sig, KFunctionParams := length Ps\<rparr>)
       (kernel_obj.fields Sig Ps (replicate (length Sig) NoArg))"

definition load_ptr :: "ptr \<Rightarrow> memory \<Rightarrow> ptr" where
  "load_ptr a m = foldl (\<lambda>x k. x OR push_bit (8 * k) (ucast (m (a + of_nat k)))) 0 [0..<8]"

text \<open>The handle an argument value holds; a null value is a null handle.\<close>

definition load_handle :: "(ptr \<Rightarrow> 'h option) \<Rightarrow> ptr \<Rightarrow> memory \<Rightarrow> 'h option option" where
  "load_handle at Arg m =
     (if Arg = NULL \<or> load_ptr Arg m = NULL then Some None
      else case at (load_ptr Arg m) of None \<Rightarrow> None | Some h \<Rightarrow> Some (Some h))"

definition set_argument :: "nat \<Rightarrow> kernel_arg \<Rightarrow> kernel_obj \<Rightarrow> kernel_obj \<times> cl_int" where
  "set_argument I A K = (K\<lparr>Arguments := (Arguments K)[I := A]\<rparr>, CL_SUCCESS)"

text \<open>\<open>SetBufferArg\<close> and \<open>SetImageArg\<close> differ in the kind of argument they store.\<close>

definition SetMemObjArg ::
  "(nat \<Rightarrow> cl_mem \<Rightarrow> kernel_arg) \<Rightarrow> (ptr \<Rightarrow> mem_object option) \<Rightarrow> memory \<Rightarrow> nat \<Rightarrow> size_t \<Rightarrow> ptr \<Rightarrow> kernel_obj \<Rightarrow>
   (kernel_obj \<times> cl_int) option" where
  "SetMemObjArg mk obj_at m I Size Arg K =
     (if Size \<noteq> 8 then Some (K, CL_INVALID_ARG_SIZE)
      else case load_handle obj_at Arg m of
          None \<Rightarrow> None
        | Some h \<Rightarrow>
          if (\<exists>mo. h = Some mo \<and> getContext mo \<noteq> KContext K) then Some (K, CL_INVALID_MEM_OBJECT)
          else Some (set_argument I (mk I h) K))"

definition SetLocalBufferArg :: "nat \<Rightarrow> size_t \<Rightarrow> ptr \<Rightarrow> kernel_obj \<Rightarrow> kernel_obj \<times> cl_int" where
  "SetLocalBufferArg I Size Arg K =
     (if Arg \<noteq> NULL then (K, CL_INVALID_ARG_VALUE)
      else if Size = 0 then (K, CL_INVALID_ARG_SIZE)
      else set_argument I (LocalBufferArg I Size) K)"

definition SetSamplerArg ::
  "(ptr \<Rightarrow> sampler option) \<Rightarrow> memory \<Rightarrow> nat \<Rightarrow> size_t \<Rightarrow> ptr \<Rightarrow> kernel_obj \<Rightarrow> (kernel_obj \<times> cl_int) option" where
  "SetSamplerArg smp_at m I Size Arg K =
     (if Size \<noteq> 8 then Some (K, CL_INVALID_ARG_SIZE)
      else case load_handle smp_at Arg m of
          None \<Rightarrow> None
        | Some h \<Rightarrow>
          if (\<exists>s. h = Some s \<and> SmpContext s \<noteq> KContext K) then Some (K, CL_INVALID_MEM_OBJECT)
          else Some (set_argument I (SamplerArg I h) K))"

definition argument_size :: "param_type \<Rightarrow> nat" where
  "argument_size P = (case VectorOf P of Some (n, el) \<Rightarrow> if n = 3 then el * 4 else StoreSize P | None \<Rightarrow> StoreSize P)"

text \<open>The value is copied from the pointer without a test for null.\<close>

definition SetByValueArg :: "memory \<Rightarrow> nat \<Rightarrow> size_t \<Rightarrow> ptr \<Rightarrow> kernel_obj \<Rightarrow> (kernel_obj \<times> cl_int) option" where
  "SetByValueArg m I Size Arg K =
     (if I \<ge> length (Params K) then None
      else if unat Size \<noteq> argument_size (Params K ! I) then Some (K, CL_INVALID_ARG_SIZE)
      else if Arg = NULL \<and> Size \<noteq> 0 then None
      else Some (set_argument I (ByValueArg I (load_bytes Arg (unat Size) m)) K))"

definition SetArg ::
  "(ptr \<Rightarrow> mem_object option) \<Rightarrow> (ptr \<Rightarrow> sampler option) \<Rightarrow> memory \<Rightarrow> nat \<Rightarrow> size_t \<Rightarrow> ptr \<Rightarrow> kernel_obj \<Rightarrow>
   (kernel_obj \<times> cl_int) option" where
  "SetArg obj_at smp_at m I Size Arg K =
     (if I \<ge> GetArgCount K then Some (K, CL_INVALID_ARG_INDEX)
      else let ArgTy = Signature K ! I in
        if isBufferArg ArgTy then SetMemObjArg BufferArg obj_at m I Size Arg K
        else if isLocalBufferArg ArgTy then Some (SetLocalBufferArg I Size Arg K)
        else if isImageArg ArgTy then SetMemObjArg ImageArg obj_at m I Size Arg K
        else if isSamplerArg ArgTy then SetSamplerArg smp_at m I Size Arg K
        else if isByValueArg ArgTy then SetByValueArg m I Size Arg K
        else None)"

definition clSetKernelArg ::
  "(ptr \<Rightarrow> mem_object option) \<Rightarrow> (ptr \<Rightarrow> sampler option) \<Rightarrow> memory \<Rightarrow> kernel_obj option \<Rightarrow> nat \<Rightarrow> size_t \<Rightarrow> ptr \<Rightarrow>
   (kernel_obj option \<times> cl_int) option" where
  "clSetKernelArg obj_at smp_at m k arg_index arg_size arg_value =
     (case k of None \<Rightarrow> Some (None, CL_INVALID_KERNEL)
      | Some K \<Rightarrow> map_option (\<lambda>(K', e). (Some K', e)) (SetArg obj_at smp_at m arg_index arg_size arg_value K))"

text \<open>The memory objects among the arguments, in the order the queue synchronises them.\<close>

definition arg_object :: "kernel_arg \<Rightarrow> mem_object list" where
  "arg_object A = (case A of BufferArg _ (Some mo) \<Rightarrow> [mo] | ImageArg _ (Some mo) \<Rightarrow> [mo] | _ \<Rightarrow> [])"

definition current_ref :: "kernel_obj \<Rightarrow> kernel_ref" where
  "current_ref K = \<lparr>KernelName = KernelName (KRef K), KernelMemArgs = concat (map arg_object (Arguments K))\<rparr>"

section \<open>Arguments on the CPU device\<close>

text \<open>The pointer the kernel gets for an argument, by what it points to.\<close>

datatype device_arg = NullArg | BufferAddress ptr | ImageHeader mem_object | SamplerSlot "nat option" | ValueCopy "byte list"

definition device_value :: "(mem_object \<Rightarrow> ptr) \<Rightarrow> kernel_arg \<Rightarrow> device_arg" where
  "device_value dev_ptr A =
     (case A of
        BufferArg _ (Some mo) \<Rightarrow> BufferAddress (dev_ptr mo)
      | ImageArg _ (Some mo) \<Rightarrow> ImageHeader mo
      | SamplerArg _ s \<Rightarrow> SamplerSlot (getCPUSampler s)
      | ByValueArg _ bs \<Rightarrow> ValueCopy bs
      | _ \<Rightarrow> NullArg)"

definition arg_index :: "kernel_arg \<Rightarrow> nat option" where
  "arg_index A =
     (case A of NoArg \<Rightarrow> None | BufferArg i _ \<Rightarrow> Some i | LocalBufferArg i _ \<Rightarrow> Some i | ImageArg i _ \<Rightarrow> Some i
      | SamplerArg i _ \<Rightarrow> Some i | ByValueArg i _ \<Rightarrow> Some i)"

text \<open>
  The loop over the arguments. The index of an argument that was never set is uninitialised, and
  the loop writes at this index all the same: \<open>None\<close>.
\<close>

fun place_args ::
  "(mem_object \<Rightarrow> ptr) \<Rightarrow> kernel_arg list \<Rightarrow> device_arg list \<times> (nat \<times> size_t) list \<Rightarrow>
   (device_arg list \<times> (nat \<times> size_t) list) option" where
  "place_args dev_ptr [] r = Some r"
| "place_args dev_ptr (A # As) (Args, LocalBuffers) =
     (case arg_index A of
        None \<Rightarrow> None
      | Some i \<Rightarrow>
        if i \<ge> length Args then None
        else place_args dev_ptr As
          (Args[i := device_value dev_ptr A],
           case A of LocalBufferArg i n \<Rightarrow> LocalBuffers @ [(i, n)] | _ \<Rightarrow> LocalBuffers))"

definition createKernelArguments ::
  "(mem_object \<Rightarrow> ptr) \<Rightarrow> kernel_obj \<Rightarrow> (device_arg list \<times> (nat \<times> size_t) list) option" where
  "createKernelArguments dev_ptr K =
     place_args dev_ptr (Arguments K) (replicate (GetArgCount K) NullArg, [])"

end
