(* ===== verification/Kernel_Args_Proof.thy ===== *)
theory Kernel_Args_Proof
  imports Kernel_Args
begin

text \<open>
  What setting kernel arguments guarantees: an argument that was set keeps its own index, a fully set kernel hands each of its values
  to the device, and a kernel with an argument missing is not recognised as such.
\<close>

section \<open>Setting arguments\<close>

definition args_ok :: "kernel_obj \<Rightarrow> bool" where
  "args_ok K \<longleftrightarrow> length (Arguments K) = GetArgCount K \<and>
     (\<forall>i < GetArgCount K. arg_index (Arguments K ! i) \<in> {None, Some i})"

lemma Kernel_args_ok: "args_ok (Kernel D Sig Ps)"
  by (simp add: args_ok_def Kernel_def kernel_desc.extend_def kernel_obj.fields_def GetArgCount_def arg_index_def)

definition arg_set :: "nat \<Rightarrow> kernel_obj \<Rightarrow> kernel_obj \<Rightarrow> bool" where
  "arg_set I K K' \<longleftrightarrow> (\<exists>A. K' = K\<lparr>Arguments := (Arguments K)[I := A]\<rparr> \<and> arg_index A = Some I)"

text \<open>A call either fails and leaves the kernel alone, or sets the argument it names.\<close>

lemma SetArg_outcome:
  assumes "SetArg obj_at smp_at m I Size Arg K = Some (K', e)"
  shows "(e = CL_SUCCESS \<and> I < GetArgCount K \<and> arg_set I K K') \<or> (e \<noteq> CL_SUCCESS \<and> K' = K)"
  using assms
  by (auto simp: SetArg_def SetMemObjArg_def SetLocalBufferArg_def SetSamplerArg_def SetByValueArg_def
                 set_argument_def arg_set_def arg_index_def Let_def not_le
           split: if_splits option.splits)

lemma SetArg_args_ok:
  assumes "SetArg obj_at smp_at m I Size Arg K = Some (K', e)" "args_ok K"
  shows "args_ok K'"
proof -
  consider "K' = K" | A where "K' = K\<lparr>Arguments := (Arguments K)[I := A]\<rparr>" "arg_index A = Some I"
    using SetArg_outcome [OF assms(1)] by (auto simp: arg_set_def)
  then show ?thesis
  proof cases
    case 2
    have "arg_index ((Arguments K)[I := A] ! i) \<in> {None, Some i}" if "i < GetArgCount K" for i
      using that assms(2) 2(2) by (cases "i = I") (auto simp: args_ok_def)
    with 2(1) assms(2) show ?thesis by (simp add: args_ok_def GetArgCount_def)
  qed (use assms(2) in simp)
qed

section \<open>Handing them to the device\<close>

lemma place_args_values:
  assumes "\<forall>i < length As. arg_index (As ! i) = Some (length Args + i)"
  shows "\<exists>L'. place_args dev_ptr As (Args @ replicate (length As) NullArg, L) =
           Some (Args @ map (device_value dev_ptr) As, L')"
  using assms
proof (induction As arbitrary: Args L)
  case (Cons A As)
  define L1 where "L1 = (case A of LocalBufferArg i n \<Rightarrow> L @ [(i, n)] | _ \<Rightarrow> L)"
  have i: "arg_index A = Some (length Args)" using Cons.prems by fastforce
  have "\<forall>i < length As. arg_index (As ! i) = Some (length (Args @ [device_value dev_ptr A]) + i)"
    using Cons.prems by fastforce
  from Cons.IH [OF this, of L1]
  show ?case by (simp add: i L1_def list_update_append)
qed simp

text \<open>A kernel all of whose arguments are set gives the device the value of each, in order.\<close>

lemma arguments_reach_device:
  assumes "args_ok K" "NoArg \<notin> set (Arguments K)"
  shows "\<exists>L. createKernelArguments dev_ptr K = Some (map (device_value dev_ptr) (Arguments K), L)"
proof -
  have "arg_index (Arguments K ! i) = Some i" if "i < length (Arguments K)" for i
  proof -
    have "Arguments K ! i \<noteq> NoArg" using that assms(2) nth_mem by fastforce
    then have "arg_index (Arguments K ! i) \<noteq> None" by (simp add: arg_index_def split: kernel_arg.split)
    with that assms(1) show ?thesis by (auto simp: args_ok_def)
  qed
  then show ?thesis
    using place_args_values [of "Arguments K" "[]" dev_ptr "[]"] assms(1)
    by (simp add: createKernelArguments_def args_ok_def)
qed

lemma place_args_missing: "NoArg \<in> set As \<Longrightarrow> place_args dev_ptr As r = None"
proof (induction As arbitrary: r)
  case (Cons A As)
  then show ?case by (cases r) (auto simp: arg_index_def split: kernel_arg.splits)
qed simp

text \<open>
  A kernel with an argument that was never set is enqueued as if all were set: the builder compares two
  numbers of parameters, which agree for every compiled kernel. The device then fails when it
  prepares the arguments.
\<close>

lemma unset_argument_not_noticed:
  assumes "NoArg \<in> set (Arguments K)" "KSignatureArgs K = KFunctionParams K"
    and "KBuiltFor K" "KContext K = Ctx" "1 \<le> MaxWorkItemDimensions Dev" "n \<noteq> 0" "n \<le> SizeTypeMax Dev"
  shows "(\<exists>b. NDRange_Builder Ctx Dev (Some (kernel_desc.truncate K)) 1 (Some [n]) = Some b \<and> bErr b = CL_SUCCESS) \<and>
         createKernelArguments dev_ptr K = None"
proof
  show "\<exists>b. NDRange_Builder Ctx Dev (Some (kernel_desc.truncate K)) 1 (Some [n]) = Some b \<and> bErr b = CL_SUCCESS"
    using assms(2-7)
    by (simp add: NDRange_Builder_def AreAllArgsSpecified_def kernel_desc.truncate_def Let_def not_less)
  show "createKernelArguments dev_ptr K = None"
    using assms(1) by (simp add: createKernelArguments_def place_args_missing)
qed

definition demo_global_buffer :: ocl_type where
  "demo_global_buffer = \<lparr>isPointer = True, ElementQualifiers = addAddressSpace AS_Global 0, isImage = False,
                         isSamplerClass = False\<rparr>"

end
