(* ===== verification/Type_System.thy ===== *)
theory Type_System
  imports Type_Qualifiers "HOL-Library.Monad_Syntax"
begin

text \<open>
  The types of kernel arguments as the compiler stores them in the metadata of a module:
  \<open>opencl::Type\<close>, \<open>opencl::RecordTypeBody\<close> and \<open>opencl::TypeComparator\<close> of
  \<open>lib/Util/OpenCLTypeSystem.cpp\<close>.

  A metadata node is named by its LLVM context and a number; \<open>metadata\<close> gives its operands. \<open>None\<close>
  is a failed assertion, a failed cast or an operand that does not exist. \<open>Type\<close> and
  \<open>RecordTypeBody\<close> wrap a node after checking its tag.
\<close>

section \<open>Metadata\<close>

type_synonym node = "nat \<times> nat"

datatype md_op = MInt nat | MStr string | MNode node | MFun string

type_synonym metadata = "node \<Rightarrow> md_op list option"

definition operand :: "metadata \<Rightarrow> node \<Rightarrow> nat \<Rightarrow> md_op option" where
  "operand M n i = do { ops \<leftarrow> M n; if i < length ops then Some (ops ! i) else None }"

definition int_op :: "metadata \<Rightarrow> node \<Rightarrow> nat \<Rightarrow> nat option" where
  "int_op M n i = do { x \<leftarrow> operand M n i; case x of MInt k \<Rightarrow> Some k | _ \<Rightarrow> None }"

definition node_op :: "metadata \<Rightarrow> node \<Rightarrow> nat \<Rightarrow> node option" where
  "node_op M n i = do { x \<leftarrow> operand M n i; case x of MNode m \<Rightarrow> Some m | _ \<Rightarrow> None }"

definition str_op :: "metadata \<Rightarrow> node \<Rightarrow> nat \<Rightarrow> string option" where
  "str_op M n i = do { x \<leftarrow> operand M n i; case x of MStr s \<Rightarrow> Some s | _ \<Rightarrow> None }"

abbreviation (input) ID_Type :: nat where "ID_Type \<equiv> 0"
abbreviation (input) ID_QualType :: nat where "ID_QualType \<equiv> 1"
abbreviation (input) ID_RecordTypeBody :: nat where "ID_RecordTypeBody \<equiv> 2"

text \<open>\<open>llvm_assert\<close> goes on or stops.\<close>

definition llvm_assert :: "bool \<Rightarrow> unit option" where
  "llvm_assert b = (if b then Some () else None)"

section \<open>Types\<close>

datatype type_kind = TK_Primitive | TK_Vector | TK_Image | TK_Array | TK_Pointer | TK_Struct | TK_Union

definition kind_code :: "type_kind \<Rightarrow> nat" where
  "kind_code k = (case k of TK_Primitive \<Rightarrow> 0 | TK_Vector \<Rightarrow> 1 | TK_Image \<Rightarrow> 2 | TK_Array \<Rightarrow> 3 | TK_Pointer \<Rightarrow> 4
                  | TK_Struct \<Rightarrow> 5 | TK_Union \<Rightarrow> 6)"

definition kind_of :: "nat \<Rightarrow> type_kind option" where
  "kind_of n = map_of [(0, TK_Primitive), (1, TK_Vector), (2, TK_Image), (3, TK_Array), (4, TK_Pointer),
                       (5, TK_Struct), (6, TK_Union)] n"

datatype primitive_class =
  PBool | PChar | PUChar | PShort | PUShort | PInt | PUInt | PLong | PULong | PHalf | PFloat | PDouble | PEvent

definition primitive_classes :: "primitive_class list" where
  "primitive_classes = [PBool, PChar, PUChar, PShort, PUShort, PInt, PUInt, PLong, PULong, PHalf, PFloat, PDouble, PEvent]"

datatype image_class = Image1d | Image1dArray | Image1dBuffer | Image2d | Image2dArray | Image3d | SamplerClass

definition image_classes :: "image_class list" where
  "image_classes = [Image1d, Image1dArray, Image1dBuffer, Image2d, Image2dArray, Image3d, SamplerClass]"

definition isQualType :: "metadata \<Rightarrow> node \<Rightarrow> bool option" where
  "isQualType M t = map_option (\<lambda>k. k = ID_QualType) (int_op M t 0)"

definition isRawType :: "metadata \<Rightarrow> node \<Rightarrow> bool option" where
  "isRawType M t = map_option (\<lambda>k. k = ID_Type) (int_op M t 0)"

text \<open>
  The constructor of \<open>Type\<close>: a raw type, or a qualified one whose second operand is raw. (Were that
  operand qualified itself, its own constructor would have to accept it first, and then the
  assertion on the outer one fails.)
\<close>

definition Type :: "metadata \<Rightarrow> node \<Rightarrow> node option" where
  "Type M t = do {
     raw \<leftarrow> isRawType M t;
     if raw then Some t
     else do {
       qual \<leftarrow> isQualType M t;
       llvm_assert qual;
       u \<leftarrow> node_op M t 2;
       r \<leftarrow> isRawType M u;
       llvm_assert r;
       Some t }}"

definition getUnqualifiedType :: "metadata \<Rightarrow> node \<Rightarrow> node option" where
  "getUnqualifiedType M t = do {
     qual \<leftarrow> isQualType M t;
     if qual then do { u \<leftarrow> node_op M t 2; Type M u } else Type M t }"

definition getQualifiers :: "metadata \<Rightarrow> node \<Rightarrow> qualifiers option" where
  "getQualifiers M t = do {
     qual \<leftarrow> isQualType M t;
     if qual then map_option of_nat (int_op M t 1) else Some 0 }"

text \<open>The accessors below start with \<open>if (isQualType()) return getUnqualifiedType().f()\<close>.\<close>

definition on_raw :: "(metadata \<Rightarrow> node \<Rightarrow> 'a option) \<Rightarrow> metadata \<Rightarrow> node \<Rightarrow> 'a option" where
  "on_raw f M t = do {
     qual \<leftarrow> isQualType M t;
     if qual then do { u \<leftarrow> getUnqualifiedType M t; f M u } else f M t }"

definition getKind :: "metadata \<Rightarrow> node \<Rightarrow> type_kind option" where
  "getKind = on_raw (\<lambda>M t. do { k \<leftarrow> int_op M t 1; kind_of k })"

definition getPrimitiveClass :: "metadata \<Rightarrow> node \<Rightarrow> primitive_class option" where
  "getPrimitiveClass = on_raw (\<lambda>M t. do {
     k \<leftarrow> getKind M t;
     llvm_assert (k = TK_Primitive);
     c \<leftarrow> int_op M t 2;
     llvm_assert (c < length primitive_classes);
     Some (primitive_classes ! c) })"

definition getImageClass :: "metadata \<Rightarrow> node \<Rightarrow> image_class option" where
  "getImageClass = on_raw (\<lambda>M t. do {
     k \<leftarrow> getKind M t;
     llvm_assert (k = TK_Image);
     c \<leftarrow> int_op M t 2;
     llvm_assert (c < length image_classes);
     Some (image_classes ! c) })"

definition getElementType :: "metadata \<Rightarrow> node \<Rightarrow> node option" where
  "getElementType = on_raw (\<lambda>M t. do {
     k \<leftarrow> getKind M t;
     llvm_assert (k = TK_Array \<or> k = TK_Vector \<or> k = TK_Pointer);
     e \<leftarrow> node_op M t 2;
     Type M e })"

definition getNumElements :: "metadata \<Rightarrow> node \<Rightarrow> nat option" where
  "getNumElements = on_raw (\<lambda>M t. do {
     k \<leftarrow> getKind M t;
     llvm_assert (k = TK_Array \<or> k = TK_Vector);
     n \<leftarrow> int_op M t 3;
     Some (n mod 2 ^ 32) })"

definition isRecordTypeAnonymous :: "metadata \<Rightarrow> node \<Rightarrow> bool option" where
  "isRecordTypeAnonymous M t = map_option (\<lambda>k. k \<noteq> 0) (int_op M t 3)"

definition getRecordTypeName :: "metadata \<Rightarrow> node \<Rightarrow> string option" where
  "getRecordTypeName = on_raw (\<lambda>M t. do {
     k \<leftarrow> getKind M t;
     llvm_assert (k = TK_Struct \<or> k = TK_Union);
     a \<leftarrow> isRecordTypeAnonymous M t;
     llvm_assert (\<not> a);
     str_op M t 2 })"

section \<open>Bodies of records\<close>

definition RecordTypeBody :: "metadata \<Rightarrow> node \<Rightarrow> node option" where
  "RecordTypeBody M b = do { k \<leftarrow> int_op M b 0; llvm_assert (k = ID_RecordTypeBody); Some b }"

definition getRecordTypeBody :: "metadata \<Rightarrow> node \<Rightarrow> node option" where
  "getRecordTypeBody = on_raw (\<lambda>M t. do {
     k \<leftarrow> getKind M t;
     llvm_assert (k = TK_Struct \<or> k = TK_Union);
     b \<leftarrow> node_op M t 4;
     RecordTypeBody M b })"

definition getSizeInBits :: "metadata \<Rightarrow> node \<Rightarrow> nat option" where "getSizeInBits M b = int_op M b 1"
definition getAlignment :: "metadata \<Rightarrow> node \<Rightarrow> nat option" where "getAlignment M b = int_op M b 2"
definition isPacked :: "metadata \<Rightarrow> node \<Rightarrow> bool option" where
  "isPacked M b = map_option (\<lambda>k. k \<noteq> 0) (int_op M b 3)"

text \<open>The number of operands is unsigned, so a body that is too short has very many fields.\<close>

definition getNumFields :: "metadata \<Rightarrow> node \<Rightarrow> nat option" where
  "getNumFields M b = map_option (\<lambda>ops. unat (of_nat (length ops) - 4 :: 32 word) div 2) (M b)"

definition getField :: "metadata \<Rightarrow> node \<Rightarrow> nat \<Rightarrow> node option" where
  "getField M b I = do {
     n \<leftarrow> getNumFields M b;
     llvm_assert (I < n);
     f \<leftarrow> node_op M b (I * 2 + 4);
     Type M f }"

definition getFieldOffset :: "metadata \<Rightarrow> node \<Rightarrow> nat \<Rightarrow> nat option" where
  "getFieldOffset M b I = do {
     n \<leftarrow> getNumFields M b;
     llvm_assert (I < n);
     int_op M b (I * 2 + 5) }"

end
