(* ===== verification/Type_Compare.thy ===== *)
theory Type_Compare
  imports Type_System
begin

text \<open>
  The comparison of types from the modules of two devices: \<open>TypeComparator\<close> of
  \<open>lib/Util/OpenCLTypeSystem.cpp\<close> and \<open>KernelSignature\<close> of \<open>lib/Util/ModuleInfo.cpp\<close>.

  A record may contain pointers to itself, so types are graphs. The comparator follows both graphs,
  with the pairs of records it is comparing in \<open>Visited\<close> and those it has found equal in \<open>Cache\<close>.
  The recursion is bounded by fuel; that enough fuel exists is proved in \<open>Type_Proof\<close>.
\<close>

section \<open>TypeComparator\<close>

type_synonym pairs = "(node \<times> node) set"

text \<open>The sets \<open>Visited\<close> and \<open>Cache\<close>.\<close>

type_synonym compare_state = "pairs \<times> pairs"

text \<open>The loop over the fields, with the function that compares two types.\<close>

fun match_fields ::
  "(node \<Rightarrow> node \<Rightarrow> compare_state \<Rightarrow> (bool \<times> compare_state) option) \<Rightarrow> metadata \<Rightarrow> node \<Rightarrow> node \<Rightarrow> nat list \<Rightarrow>
   compare_state \<Rightarrow> (bool \<times> compare_state) option" where
  "match_fields f M B1 B2 [] s = Some (True, s)"
| "match_fields f M B1 B2 (I # Is) s = do {
     o1 \<leftarrow> getFieldOffset M B1 I;
     o2 \<leftarrow> getFieldOffset M B2 I;
     if o1 \<noteq> o2 then Some (False, s)
     else do {
       t1 \<leftarrow> getField M B1 I;
       t2 \<leftarrow> getField M B2 I;
       r \<leftarrow> f t1 t2 s;
       if fst r then match_fields f M B1 B2 Is (snd r) else Some (False, snd r) }}"

text \<open>The names of two records: compared unless both are anonymous.\<close>

definition same_names :: "metadata \<Rightarrow> node \<Rightarrow> node \<Rightarrow> bool option" where
  "same_names M T1 T2 = do {
     a1 \<leftarrow> isRecordTypeAnonymous M T1;
     a2 \<leftarrow> isRecordTypeAnonymous M T2;
     if a1 \<noteq> a2 then Some False
     else if a1 then Some True
     else do {
       n1 \<leftarrow> getRecordTypeName M T1;
       n2 \<leftarrow> getRecordTypeName M T2;
       Some (n1 = n2) }}"

text \<open>The bodies: the attribute, the alignment and the number of fields.\<close>

definition same_layout :: "metadata \<Rightarrow> node \<Rightarrow> node \<Rightarrow> bool option" where
  "same_layout M B1 B2 = do {
     p1 \<leftarrow> isPacked M B1;
     p2 \<leftarrow> isPacked M B2;
     if p1 \<noteq> p2 then Some False
     else do {
       a1 \<leftarrow> getAlignment M B1;
       a2 \<leftarrow> getAlignment M B2;
       if a1 \<noteq> a2 then Some False
       else do {
         n1 \<leftarrow> getNumFields M B1;
         n2 \<leftarrow> getNumFields M B2;
         Some (n1 = n2) }}}"

definition match_record ::
  "(node \<Rightarrow> node \<Rightarrow> compare_state \<Rightarrow> (bool \<times> compare_state) option) \<Rightarrow> metadata \<Rightarrow> node \<Rightarrow> node \<Rightarrow>
   compare_state \<Rightarrow> (bool \<times> compare_state) option" where
  "match_record f M T1 T2 s =
     (let MP = (T1, T2); Visited = fst s; Cache = snd s in
      if MP \<in> Visited then Some (True, s)
      else do {
        names \<leftarrow> same_names M T1 T2;
        if \<not> names then Some (False, s)
        else do {
          B1 \<leftarrow> getRecordTypeBody M T1;
          B2 \<leftarrow> getRecordTypeBody M T2;
          layout \<leftarrow> same_layout M B1 B2;
          if \<not> layout then Some (False, s)
          else do {
            E \<leftarrow> getNumFields M B1;
            r \<leftarrow> match_fields f M B1 B2 [0..<E] (insert MP Visited, Cache);
            let AllFieldsMatch = fst r; Visited' = fst (snd r) - {MP}; Cache' = snd (snd r) in
            Some (AllFieldsMatch, Visited', if AllFieldsMatch then insert MP Cache' else Cache') }}})"

text \<open>The comparison of two types without their qualifiers, once they are not in the cache.\<close>

definition match_raw ::
  "(node \<Rightarrow> node \<Rightarrow> compare_state \<Rightarrow> (bool \<times> compare_state) option) \<Rightarrow> metadata \<Rightarrow> node \<Rightarrow> node \<Rightarrow>
   compare_state \<Rightarrow> (bool \<times> compare_state) option" where
  "match_raw f M T1 T2 s = do {
     k1 \<leftarrow> getKind M T1;
     k2 \<leftarrow> getKind M T2;
     if k1 \<noteq> k2 then Some (False, s)
     else if k1 = TK_Primitive then do {
       c1 \<leftarrow> getPrimitiveClass M T1;
       c2 \<leftarrow> getPrimitiveClass M T2;
       Some (c1 = c2, s) }
     else if k1 = TK_Image then do {
       c1 \<leftarrow> getImageClass M T1;
       c2 \<leftarrow> getImageClass M T2;
       Some (c1 = c2, s) }
     else if k1 = TK_Vector \<or> k1 = TK_Array then do {
       n1 \<leftarrow> getNumElements M T1;
       n2 \<leftarrow> getNumElements M T2;
       if n1 \<noteq> n2 then Some (False, s)
       else do {
         e1 \<leftarrow> getElementType M T1;
         e2 \<leftarrow> getElementType M T2;
         f e1 e2 s }}
     else if k1 = TK_Pointer then do {
       e1 \<leftarrow> getElementType M T1;
       e2 \<leftarrow> getElementType M T2;
       f e1 e2 s }
     else match_record f M T1 T2 s }"

primrec match :: "nat \<Rightarrow> metadata \<Rightarrow> node \<Rightarrow> node \<Rightarrow> compare_state \<Rightarrow> (bool \<times> compare_state) option" where
  "match 0 M T1 T2 s = None"
| "match (Suc n) M T1 T2 s =
     (if T1 = T2 then Some (True, s)
      else if fst T1 = fst T2 then Some (False, s)
      else do {
        q1 \<leftarrow> getQualifiers M T1;
        q2 \<leftarrow> getQualifiers M T2;
        if q1 \<noteq> q2 then Some (False, s)
        else do {
          U1 \<leftarrow> getUnqualifiedType M T1;
          U2 \<leftarrow> getUnqualifiedType M T2;
          if (U1, U2) \<in> snd s then Some (True, s) else match_raw (match n M) M U1 U2 s }})"

text \<open>The cache is the state of a comparator; \<open>reset\<close> empties it.\<close>

definition equals :: "nat \<Rightarrow> metadata \<Rightarrow> node \<Rightarrow> node \<Rightarrow> pairs \<Rightarrow> (bool \<times> pairs) option" where
  "equals n M T1 T2 Cache = map_option (\<lambda>r. (fst r, snd (snd r))) (match n M T1 T2 ({}, Cache))"

section \<open>Signatures of kernels\<close>

definition KernelSignature :: "metadata \<Rightarrow> node \<Rightarrow> node option" where
  "KernelSignature M S = do { s \<leftarrow> str_op M S 0; llvm_assert (take 9 s = ''signature''); Some S }"

definition getNumArguments :: "metadata \<Rightarrow> node \<Rightarrow> nat option" where
  "getNumArguments M S = map_option (\<lambda>ops. unat (of_nat (length ops) - 1 :: 32 word)) (M S)"

definition getArgument :: "metadata \<Rightarrow> node \<Rightarrow> nat \<Rightarrow> node option" where
  "getArgument M S I = do {
     n \<leftarrow> getNumArguments M S;
     llvm_assert (I < n);
     a \<leftarrow> node_op M S (I + 1);
     Type M a }"

text \<open>The loop of \<open>operator==\<close>: one comparator for all arguments.\<close>

fun same_arguments :: "nat \<Rightarrow> metadata \<Rightarrow> node \<Rightarrow> node \<Rightarrow> nat list \<Rightarrow> pairs \<Rightarrow> bool option" where
  "same_arguments n M S1 S2 [] Cache = Some True"
| "same_arguments n M S1 S2 (I # Is) Cache = do {
     a1 \<leftarrow> getArgument M S1 I;
     a2 \<leftarrow> getArgument M S2 I;
     r \<leftarrow> equals n M a1 a2 Cache;
     if fst r then same_arguments n M S1 S2 Is (snd r) else Some False }"

definition same_signature :: "nat \<Rightarrow> metadata \<Rightarrow> node \<Rightarrow> node \<Rightarrow> bool option" where
  "same_signature n M S1 S2 = do {
     n1 \<leftarrow> getNumArguments M S1;
     n2 \<leftarrow> getNumArguments M S2;
     if n1 \<noteq> n2 then Some False
     else same_arguments n M S1 S2 [0..<n1] {} }"

end
