(* ===== verification/Module_Info.thy ===== *)
theory Module_Info
  imports Type_Compare
begin

text \<open>
  Kernels inside a compiled module: \<open>KernelArgInfo\<close>, \<open>KernelInfo\<close> and \<open>ModuleInfo\<close> of
  \<open>include/opencrun/Util/ModuleInfo.h\<close> and \<open>lib/Util/ModuleInfo.cpp\<close>, and the queries of
  \<open>lib/Core/Kernel.cpp\<close> that read argument metadata.

  A module is what this code asks of LLVM: its target triple, the operands of \<open>opencl.kernels\<close> and its
  functions with their attached metadata. The nodes of all modules live in one map \<open>M\<close>. \<open>None\<close> is a
  failed assertion or the use of a null pointer; where a null result is tested by the caller, the
  result is an option inside.
\<close>

section \<open>Modules\<close>

record llvm_function =
  FName :: string
  FDeclaration :: bool
  FSpirKernel :: bool
  FMetadata :: "(string \<times> node) list"
  FNumParams :: nat

record llvm_module =
  Triple :: string
  KernelsMD :: "node list option"
  Functions :: "llvm_function list"

definition getMetadata :: "llvm_function \<Rightarrow> string \<Rightarrow> node option" where
  "getMetadata F Name = map_of (FMetadata F) Name"

definition IRisSPIR :: "llvm_module \<Rightarrow> bool" where
  "IRisSPIR Mod \<longleftrightarrow> take 4 (Triple Mod) = ''spir''"

definition is_kernel :: "llvm_function \<Rightarrow> bool" where
  "is_kernel F \<longleftrightarrow> \<not> FDeclaration F \<and> FSpirKernel F"

definition getNumKernels :: "llvm_module \<Rightarrow> nat option" where
  "getNumKernels Mod =
     (if IRisSPIR Mod then map_option length (KernelsMD Mod) else Some (length (filter is_kernel (Functions Mod))))"

section \<open>Kernels\<close>

record kernel_info =
  KFunction :: "llvm_function option"
  KMD :: "node option"
  CustomInfoMD :: "node option"

definition no_kernel :: kernel_info where
  "no_kernel = \<lparr>KFunction = None, KMD = None, CustomInfoMD = None\<rparr>"

definition kernel_valid :: "kernel_info \<Rightarrow> bool" where
  "kernel_valid K \<longleftrightarrow> (if KMD K \<noteq> None then KFunction K \<noteq> None
                      else case KFunction K of None \<Rightarrow> True | Some F \<Rightarrow> is_kernel F)"

text \<open>The search of the node \<open>custom_info\<close> of a kernel in the old format.\<close>

fun find_custom :: "metadata \<Rightarrow> md_op list \<Rightarrow> node option option" where
  "find_custom M [] = Some None"
| "find_custom M (x # xs) =
     (case x of
        MNode n \<Rightarrow>
          (case operand M n 0 of
             None \<Rightarrow> None
           | Some (MStr s) \<Rightarrow> if s = ''custom_info'' then Some (Some n) else find_custom M xs
           | Some _ \<Rightarrow> find_custom M xs)
      | _ \<Rightarrow> find_custom M xs)"

definition retrieveCustomInfo :: "metadata \<Rightarrow> kernel_info \<Rightarrow> node option option" where
  "retrieveCustomInfo M K =
     (case KMD K of
        Some md \<Rightarrow> do { ops \<leftarrow> M md; find_custom M (drop 1 ops) }
      | None \<Rightarrow> Some (case KFunction K of None \<Rightarrow> None | Some F \<Rightarrow> getMetadata F ''custom_info''))"

definition set_custom :: "metadata \<Rightarrow> kernel_info \<Rightarrow> kernel_info option" where
  "set_custom M K = do {
     llvm_assert (kernel_valid K);
     c \<leftarrow> retrieveCustomInfo M K;
     Some (K\<lparr>CustomInfoMD := c\<rparr>) }"

text \<open>The two assignments: from a node of the old format and from a function.\<close>

definition assign_md :: "metadata \<Rightarrow> kernel_info \<Rightarrow> node \<Rightarrow> kernel_info option" where
  "assign_md M K md = set_custom M (K\<lparr>KMD := Some md\<rparr>)"

definition assign_function :: "metadata \<Rightarrow> kernel_info \<Rightarrow> llvm_function \<Rightarrow> kernel_info option" where
  "assign_function M K F = set_custom M (K\<lparr>KFunction := Some F\<rparr>)"

text \<open>The first node of the custom info that carries the name; the tuple of the old format starts with its own.\<close>

fun find_named :: "metadata \<Rightarrow> md_op list \<Rightarrow> string \<Rightarrow> node option option" where
  "find_named M [] Name = Some None"
| "find_named M (x # xs) Name =
     (case x of
        MNode n \<Rightarrow> do { s \<leftarrow> str_op M n 0; if s = Name then Some (Some n) else find_named M xs Name }
      | _ \<Rightarrow> None)"

definition getCustomInfo :: "metadata \<Rightarrow> kernel_info \<Rightarrow> string \<Rightarrow> node option option" where
  "getCustomInfo M K Name = do {
     c \<leftarrow> CustomInfoMD K;
     ops \<leftarrow> M c;
     find_named M (drop (if KMD K \<noteq> None then 1 else 0) ops) Name }"

definition getSignature :: "metadata \<Rightarrow> kernel_info \<Rightarrow> node option" where
  "getSignature M K = do { n \<leftarrow> getCustomInfo M K ''signature''; S \<leftarrow> n; KernelSignature M S }"

definition generic_name :: "string \<Rightarrow> bool" where
  "generic_name s \<longleftrightarrow> take 11 s = ''kernel_arg_'' \<or> s = ''vec_type_hint'' \<or> s = ''work_group_size_hint'' \<or>
     s = ''reqd_work_group_size''"

definition getKernelArgInfo :: "metadata \<Rightarrow> kernel_info \<Rightarrow> string \<Rightarrow> node option option" where
  "getKernelArgInfo M K Name =
     (case KMD K of
        Some md \<Rightarrow> if generic_name Name then do { ops \<leftarrow> M md; find_named M (drop 1 ops) Name } else Some None
      | None \<Rightarrow> map_option (\<lambda>F. getMetadata F Name) (KFunction K))"

definition getName :: "kernel_info \<Rightarrow> string option" where
  "getName K = map_option FName (KFunction K)"

section \<open>Information on arguments\<close>

definition IsGenericMD :: "metadata \<Rightarrow> node \<Rightarrow> bool option" where
  "IsGenericMD M n = map_option (\<lambda>x. case x of MStr s \<Rightarrow> generic_name s | _ \<Rightarrow> False) (operand M n 0)"

definition getNumInfoArguments :: "metadata \<Rightarrow> node \<Rightarrow> nat option" where
  "getNumInfoArguments M n = do {
     ops \<leftarrow> M n;
     g \<leftarrow> IsGenericMD M n;
     Some (if g then length ops - 1 else length ops) }"

definition getInfoArgument :: "metadata \<Rightarrow> node \<Rightarrow> nat \<Rightarrow> md_op option" where
  "getInfoArgument M n I = do {
     N \<leftarrow> getNumInfoArguments M n;
     llvm_assert (I < N);
     g \<leftarrow> IsGenericMD M n;
     operand M n (if g then I + 1 else I) }"

definition getArgumentAsString :: "metadata \<Rightarrow> node \<Rightarrow> nat \<Rightarrow> string option" where
  "getArgumentAsString M n I = do { x \<leftarrow> getInfoArgument M n I; case x of MStr s \<Rightarrow> Some s | _ \<Rightarrow> None }"

definition getArgumentAsInt :: "metadata \<Rightarrow> node \<Rightarrow> nat \<Rightarrow> nat option" where
  "getArgumentAsInt M n I = do { x \<leftarrow> getInfoArgument M n I; case x of MInt k \<Rightarrow> Some k | _ \<Rightarrow> None }"

text \<open>\<open>KernelArgInfo\<close> around the node of a name; using a null one stops.\<close>

definition arg_info :: "metadata \<Rightarrow> kernel_info \<Rightarrow> string \<Rightarrow> node option" where
  "arg_info M K Name = do { n \<leftarrow> getKernelArgInfo M K Name; n }"

section \<open>Searching a module\<close>

text \<open>The kernels an iterator visits, in order; \<open>updateKernelInfo\<close> assigns to the same object each time.\<close>

fun visit_md :: "metadata \<Rightarrow> kernel_info \<Rightarrow> node list \<Rightarrow> kernel_info list option" where
  "visit_md M K [] = Some []"
| "visit_md M K (n # ns) = do { K' \<leftarrow> assign_md M K n; Ks \<leftarrow> visit_md M K' ns; Some (K' # Ks) }"

fun visit_functions :: "metadata \<Rightarrow> kernel_info \<Rightarrow> llvm_function list \<Rightarrow> kernel_info list option" where
  "visit_functions M K [] = Some []"
| "visit_functions M K (F # Fs) = do { K' \<leftarrow> assign_function M K F; Ks \<leftarrow> visit_functions M K' Fs; Some (K' # Ks) }"

definition module_kernels :: "metadata \<Rightarrow> llvm_module \<Rightarrow> kernel_info list option" where
  "module_kernels M Mod =
     (if IRisSPIR Mod then do { ns \<leftarrow> KernelsMD Mod; visit_md M no_kernel ns }
      else visit_functions M no_kernel (filter is_kernel (Functions Mod)))"

definition find_kernel :: "metadata \<Rightarrow> llvm_module \<Rightarrow> string \<Rightarrow> kernel_info option option" where
  "find_kernel M Mod Name = do {
     Ks \<leftarrow> module_kernels M Mod;
     Some (List.find (\<lambda>K. getName K = Some Name) Ks) }"

definition contains_kernel :: "metadata \<Rightarrow> llvm_module \<Rightarrow> string \<Rightarrow> bool option" where
  "contains_kernel M Mod Name = map_option (\<lambda>r. r \<noteq> None) (find_kernel M Mod Name)"

section \<open>Queries on the arguments of a kernel\<close>

abbreviation (input) CL_KERNEL_ARG_ADDRESS_GLOBAL :: nat where "CL_KERNEL_ARG_ADDRESS_GLOBAL \<equiv> 0x119B"
abbreviation (input) CL_KERNEL_ARG_ADDRESS_LOCAL :: nat where "CL_KERNEL_ARG_ADDRESS_LOCAL \<equiv> 0x119C"
abbreviation (input) CL_KERNEL_ARG_ADDRESS_CONSTANT :: nat where "CL_KERNEL_ARG_ADDRESS_CONSTANT \<equiv> 0x119D"
abbreviation (input) CL_KERNEL_ARG_ADDRESS_PRIVATE :: nat where "CL_KERNEL_ARG_ADDRESS_PRIVATE \<equiv> 0x119E"

definition GetArgAddressQualifier :: "metadata \<Rightarrow> kernel_info \<Rightarrow> nat \<Rightarrow> nat option" where
  "GetArgAddressQualifier M K I = do {
     n \<leftarrow> arg_info M K ''kernel_arg_addr_space'';
     AS \<leftarrow> getArgumentAsInt M n I;
     if AS = 1 then Some CL_KERNEL_ARG_ADDRESS_GLOBAL
     else if AS = 2 then Some CL_KERNEL_ARG_ADDRESS_CONSTANT
     else if AS = 3 then Some CL_KERNEL_ARG_ADDRESS_LOCAL
     else if AS = 0 \<or> AS = 4 then Some CL_KERNEL_ARG_ADDRESS_PRIVATE
     else None }"

definition GetArgAccessQualifier :: "metadata \<Rightarrow> kernel_info \<Rightarrow> nat \<Rightarrow> nat option" where
  "GetArgAccessQualifier M K I = do {
     n \<leftarrow> arg_info M K ''kernel_arg_access_qual'';
     s \<leftarrow> getArgumentAsString M n I;
     Some (if s = ''read_only'' then 0x11A0 else if s = ''write_only'' then 0x11A1 else 0x11A3) }"

definition GetArgTypeName :: "metadata \<Rightarrow> kernel_info \<Rightarrow> nat \<Rightarrow> string option" where
  "GetArgTypeName M K I = do { n \<leftarrow> arg_info M K ''kernel_arg_type''; getArgumentAsString M n I }"

definition GetArgName :: "metadata \<Rightarrow> kernel_info \<Rightarrow> nat \<Rightarrow> string option" where
  "GetArgName M K I = do { n \<leftarrow> arg_info M K ''kernel_arg_name''; getArgumentAsString M n I }"

text \<open>\<open>find\<close> of a string in another.\<close>

fun occurs_in :: "string \<Rightarrow> string \<Rightarrow> bool" where
  "occurs_in p [] = (p = [])"
| "occurs_in p (c # cs) = (take (length p) (c # cs) = p \<or> occurs_in p cs)"

definition GetArgTypeQualifier :: "metadata \<Rightarrow> kernel_info \<Rightarrow> nat \<Rightarrow> nat option" where
  "GetArgTypeQualifier M K I = do {
     n \<leftarrow> arg_info M K ''kernel_arg_type_qual'';
     s \<leftarrow> getArgumentAsString M n I;
     Some ((if occurs_in ''const'' s then 1 else 0) + (if occurs_in ''restrict'' s then 2 else 0) +
           (if occurs_in ''volatile'' s then 4 else 0)) }"

definition getRequiredWorkGroupSizes :: "metadata \<Rightarrow> kernel_info \<Rightarrow> nat list option option" where
  "getRequiredWorkGroupSizes M K = do {
     n \<leftarrow> getKernelArgInfo M K ''reqd_work_group_size'';
     case n of
       None \<Rightarrow> Some None
     | Some n \<Rightarrow> do {
         N \<leftarrow> getNumInfoArguments M n;
         ss \<leftarrow> those (map (getArgumentAsInt M n) [0..<N]);
         Some (Some ss) }}"


section \<open>Lemmas\<close>

text \<open>What an iteration over a module in the new format yields.\<close>

definition function_kernel :: "llvm_function \<Rightarrow> kernel_info" where
  "function_kernel F = \<lparr>KFunction = Some F, KMD = None, CustomInfoMD = getMetadata F ''custom_info''\<rparr>"

lemma visit_functions_value:
  "\<forall>F \<in> set Fs. is_kernel F \<Longrightarrow> KMD K = None \<Longrightarrow> visit_functions M K Fs = Some (map function_kernel Fs)"
proof (induction Fs arbitrary: K)
  case (Cons F Fs)
  have "assign_function M K F = Some (function_kernel F)"
    using Cons.prems by (simp add: assign_function_def set_custom_def kernel_valid_def llvm_assert_def retrieveCustomInfo_def
                                   function_kernel_def)
  then show ?case using Cons by (simp add: function_kernel_def)
qed simp

lemma module_kernels_value:
  "\<not> IRisSPIR Mod \<Longrightarrow> module_kernels M Mod = Some (map function_kernel (filter is_kernel (Functions Mod)))"
  by (simp add: module_kernels_def visit_functions_value no_kernel_def)

lemma find_kernel_value:
  "\<not> IRisSPIR Mod \<Longrightarrow> find_kernel M Mod Name =
     Some (map_option function_kernel (List.find (\<lambda>F. FName F = Name) (filter is_kernel (Functions Mod))))"
proof -
  assume "\<not> IRisSPIR Mod"
  have "List.find (\<lambda>K. getName K = Some Name) (map function_kernel Fs) =
      map_option function_kernel (List.find (\<lambda>F. FName F = Name) Fs)" for Fs
    by (induction Fs) (auto simp: getName_def function_kernel_def)
  then show ?thesis using \<open>\<not> IRisSPIR Mod\<close> by (simp add: find_kernel_def module_kernels_value)
qed

text \<open>
  The old format is never read: \<open>checkValidity\<close> of a kernel given by a node asks for the function,
  which is only read after it.
\<close>

lemma old_format_asserts:
  assumes "IRisSPIR Mod" "KernelsMD Mod = Some (n # ns)"
  shows "module_kernels M Mod = None"
  using assms by (simp add: module_kernels_def assign_md_def set_custom_def kernel_valid_def no_kernel_def llvm_assert_def)

end
