(* ===== verification/Program_Build.thy ===== *)
theory Program_Build
  imports Module_Info
begin

text \<open>
  Programs: \<open>Program\<close>, \<open>BuildInformation\<close>, \<open>ProgramBuilder\<close> of \<open>lib/Core/Program.cpp\<close> and
  \<open>include/opencrun/Core/Program.h\<close>, the descriptors of \<open>lib/Core/Kernel.cpp\<close>, and the entry points
  of \<open>tools/libOpenCRun/Program.cpp\<close> and \<open>Kernel.cpp\<close> that create, build and query them.

  The compiler of a device (clang and LLVM behind \<open>DeviceCompiler\<close>) is a record of functions. The map
  from devices to build information iterates by address, so it is a list sorted by device. \<open>None\<close> is a
  null dereference or a failed assertion.
\<close>

abbreviation (input) CL_INVALID_BINARY :: cl_int where "CL_INVALID_BINARY \<equiv> - 42"
abbreviation (input) CL_INVALID_PROGRAM :: cl_int where "CL_INVALID_PROGRAM \<equiv> - 44"
abbreviation (input) CL_INVALID_KERNEL_NAME :: cl_int where "CL_INVALID_KERNEL_NAME \<equiv> - 46"
abbreviation (input) CL_INVALID_KERNEL_DEFINITION :: cl_int where "CL_INVALID_KERNEL_DEFINITION \<equiv> - 47"
abbreviation (input) CL_BUILD_PROGRAM_FAILURE :: cl_int where "CL_BUILD_PROGRAM_FAILURE \<equiv> - 11"

section \<open>Compilers\<close>

record compiler =
  compileSource :: "string \<Rightarrow> string \<Rightarrow> llvm_module option \<times> string"
  optimize :: "llvm_module \<Rightarrow> llvm_module \<times> bool"
  linkInBuiltins :: "llvm_module \<Rightarrow> llvm_module \<times> bool"
  WriteBitcode :: "llvm_module \<Rightarrow> byte list"
  loadBitcode :: "byte list \<Rightarrow> llvm_module option"

section \<open>Build information\<close>

datatype build_status = CL_BUILD_NONE | CL_BUILD_IN_PROGRESS | CL_BUILD_SUCCESS | CL_BUILD_ERROR

record build_info =
  BuildStatus :: build_status
  BuildLog :: string
  BuildOpts :: string
  BitCode :: "llvm_module option"
  Binary :: "byte list option"

definition BuildInformation :: build_info where
  "BuildInformation = \<lparr>BuildStatus = CL_BUILD_NONE, BuildLog = [], BuildOpts = [], BitCode = None, Binary = None\<rparr>"

definition RegisterBuildDone :: "bool \<Rightarrow> build_info \<Rightarrow> build_info" where
  "RegisterBuildDone Success I = I\<lparr>BuildStatus := if Success then CL_BUILD_SUCCESS else CL_BUILD_ERROR\<rparr>"

definition IsBuilt :: "build_info \<Rightarrow> bool" where "IsBuilt I \<longleftrightarrow> BuildStatus I = CL_BUILD_SUCCESS"
definition BuildInProgress :: "build_info \<Rightarrow> bool" where "BuildInProgress I \<longleftrightarrow> BuildStatus I = CL_BUILD_IN_PROGRESS"
definition HasBitCode :: "build_info \<Rightarrow> bool" where "HasBitCode I \<longleftrightarrow> BitCode I \<noteq> None"

definition DefineKernel :: "metadata \<Rightarrow> string \<Rightarrow> build_info \<Rightarrow> bool option" where
  "DefineKernel M Name I = do { Mod \<leftarrow> BitCode I; contains_kernel M Mod Name }"

definition GetKernel :: "metadata \<Rightarrow> string \<Rightarrow> build_info \<Rightarrow> kernel_info option" where
  "GetKernel M Name I =
     (case BitCode I of
        None \<Rightarrow> Some no_kernel
      | Some Mod \<Rightarrow> map_option (\<lambda>K. case K of None \<Rightarrow> no_kernel | Some K \<Rightarrow> K) (find_kernel M Mod Name))"

text \<open>A null signature cannot even be wrapped: the constructor of \<open>KernelSignature\<close> reads it.\<close>

definition GetKernelSignature :: "metadata \<Rightarrow> string \<Rightarrow> build_info \<Rightarrow> node option" where
  "GetKernelSignature M Name I = do {
     Mod \<leftarrow> BitCode I;
     K \<leftarrow> find_kernel M Mod Name;
     K \<leftarrow> K;
     getSignature M K }"

section \<open>Programs\<close>

record kernel_descriptor =
  DName :: string
  Infos :: "(dev_id \<times> kernel_info) list"

record program =
  PContext :: ctx_id
  PDevices :: "dev_id list"
  PSrc :: "string option"
  BuildInfo :: "(dev_id \<times> build_info) list"
  AttachedKernels :: "kernel_descriptor list"

text \<open>Writing to a sorted map.\<close>

fun map_put :: "dev_id \<Rightarrow> 'v \<Rightarrow> (dev_id \<times> 'v) list \<Rightarrow> (dev_id \<times> 'v) list" where
  "map_put k v [] = [(k, v)]"
| "map_put k v ((k', v') # xs) =
     (if k < k' then (k, v) # (k', v') # xs else if k = k' then (k, v) # xs else (k', v') # map_put k v xs)"

definition ProgramFromSource :: "ctx_id \<Rightarrow> dev_id list \<Rightarrow> string \<Rightarrow> program" where
  "ProgramFromSource Ctx Devs Src =
     \<lparr>PContext = Ctx, PDevices = Devs, PSrc = Some Src, BuildInfo = [], AttachedKernels = []\<rparr>"

definition binary_info :: "compiler \<Rightarrow> byte list \<Rightarrow> build_info" where
  "binary_info C bin =
     (let I = BuildInformation\<lparr>Binary := Some bin\<rparr> in
      case loadBitcode C bin of
        None \<Rightarrow> I
      | Some BC \<Rightarrow> RegisterBuildDone True (I\<lparr>BitCode := Some BC\<rparr>))"

definition ProgramFromBinaries :: "(dev_id \<Rightarrow> compiler) \<Rightarrow> ctx_id \<Rightarrow> (dev_id \<times> byte list) list \<Rightarrow> program" where
  "ProgramFromBinaries cc Ctx Binaries =
     \<lparr>PContext = Ctx, PDevices = map fst Binaries, PSrc = None,
      BuildInfo = map (\<lambda>(d, b). (d, binary_info (cc d) b)) Binaries, AttachedKernels = []\<rparr>"

definition HasAttachedKernels :: "program \<Rightarrow> bool" where
  "HasAttachedKernels P \<longleftrightarrow> AttachedKernels P \<noteq> []"

definition PIsAssociatedWith :: "program \<Rightarrow> dev_id \<Rightarrow> bool" where
  "PIsAssociatedWith P Dev \<longleftrightarrow> Dev \<in> set (PDevices P)"

definition set_info :: "dev_id \<Rightarrow> build_info \<Rightarrow> program \<Rightarrow> program" where
  "set_info Dev I P = P\<lparr>BuildInfo := map_put Dev I (BuildInfo P)\<rparr>"

text \<open>
  One compilation: the module, whether all steps succeeded, and the log. A module that failed to
  compile is not touched by the later steps.
\<close>

definition run_compiler :: "compiler \<Rightarrow> string \<Rightarrow> string \<Rightarrow> llvm_module option \<times> string" where
  "run_compiler C Src Opts =
     (case compileSource C Src Opts of
        (None, log) \<Rightarrow> (None, log)
      | (Some Mod, log) \<Rightarrow>
        (case (if occurs_in ''-cl-opt-disable'' Opts then (Mod, True) else optimize C Mod) of
           (Mod1, ok1) \<Rightarrow>
             if \<not> ok1 then (None, log)
             else (case linkInBuiltins C Mod1 of (Mod2, ok2) \<Rightarrow> (if ok2 then Some Mod2 else None, log))))"

text \<open>\<open>Build\<close> for one device.\<close>

definition BuildFor :: "(dev_id \<Rightarrow> compiler) \<Rightarrow> string \<Rightarrow> dev_id \<Rightarrow> program \<Rightarrow> program \<times> cl_int" where
  "BuildFor cc Opts Dev P =
     (let Info = (case map_of (BuildInfo P) Dev of None \<Rightarrow> BuildInformation | Some I \<Rightarrow> I);
          P1 = set_info Dev Info P in
      if \<not> PIsAssociatedWith P Dev then (P1, CL_INVALID_DEVICE)
      else case PSrc P of
          None \<Rightarrow> (P1, if HasBitCode Info then CL_SUCCESS else CL_INVALID_BINARY)
        | Some Src \<Rightarrow>
          if BuildInProgress Info then (P1, CL_INVALID_OPERATION)
          else case run_compiler (cc Dev) Src Opts of
              (BC, log) \<Rightarrow>
                let I1 = Info\<lparr>BuildOpts := Opts, BuildStatus := CL_BUILD_IN_PROGRESS, BuildLog := BuildLog Info @ log\<rparr>;
                    I2 = (case BC of
                            None \<Rightarrow> I1
                          | Some Mod \<Rightarrow> I1\<lparr>Binary := Some (WriteBitcode (cc Dev) Mod), BitCode := Some Mod\<rparr>)
                in (set_info Dev (RegisterBuildDone (BC \<noteq> None) I2) P,
                    if BC \<noteq> None then CL_SUCCESS else CL_BUILD_PROGRAM_FAILURE))"

fun build_loop :: "(dev_id \<Rightarrow> compiler) \<Rightarrow> string \<Rightarrow> dev_id list \<Rightarrow> program \<Rightarrow> program \<times> cl_int" where
  "build_loop cc Opts [] P = (P, CL_SUCCESS)"
| "build_loop cc Opts (D # Ds) P =
     (case BuildFor cc Opts D P of
        (P1, e) \<Rightarrow> if e = CL_SUCCESS then build_loop cc Opts Ds P1 else (P1, e))"

text \<open>The last component tells whether the completion callback is called; it is not after a refusal.\<close>

definition Build :: "(dev_id \<Rightarrow> compiler) \<Rightarrow> dev_id list \<Rightarrow> string \<Rightarrow> program \<Rightarrow> program \<times> cl_int \<times> bool" where
  "Build cc Devs Opts P =
     (if HasAttachedKernels P then (P, CL_INVALID_OPERATION, False)
      else case build_loop cc Opts (if Devs = [] then PDevices P else Devs) P of (P1, e) \<Rightarrow> (P1, e, True))"

section \<open>Creating kernels\<close>

text \<open>The first device, in the order of the map, whose module defines the kernel, and the devices after it.\<close>

fun first_defining ::
  "metadata \<Rightarrow> string \<Rightarrow> (dev_id \<times> build_info) list \<Rightarrow> ((dev_id \<times> build_info) \<times> (dev_id \<times> build_info) list) option option" where
  "first_defining M Name [] = Some None"
| "first_defining M Name (x # xs) = do {
     d \<leftarrow> DefineKernel M Name (snd x);
     if d then Some (Some (x, xs)) else first_defining M Name xs }"

text \<open>The loop over the remaining devices: \<open>Inl\<close> is the error.\<close>

fun collect_infos ::
  "nat \<Rightarrow> metadata \<Rightarrow> string \<Rightarrow> build_info \<Rightarrow> (dev_id \<times> build_info) list \<Rightarrow> (dev_id \<times> kernel_info) list \<Rightarrow>
   (cl_int + (dev_id \<times> kernel_info) list) option" where
  "collect_infos n M Name Fst [] infos = Some (Inr infos)"
| "collect_infos n M Name Fst ((Dev, Cur) # xs) infos =
     (if \<not> IsBuilt Cur then collect_infos n M Name Fst xs infos
      else do {
        s \<leftarrow> GetKernelSignature M Name Cur;
        f \<leftarrow> GetKernelSignature M Name Fst;
        eq \<leftarrow> same_signature n M s f;
        if \<not> eq then Some (Inl CL_INVALID_KERNEL_DEFINITION)
        else do {
          K \<leftarrow> GetKernel M Name Cur;
          collect_infos n M Name Fst xs (infos @ [(Dev, K)]) }})"

text \<open>The new kernel is its descriptor and the number of its arguments, which sizes the array of values.\<close>

definition new_kernel :: "metadata \<Rightarrow> kernel_descriptor \<Rightarrow> (kernel_descriptor \<times> nat) option" where
  "new_kernel M D =
     (case Infos D of
        [] \<Rightarrow> None
      | (_, K) # _ \<Rightarrow> do { S \<leftarrow> getSignature M K; n \<leftarrow> getNumArguments M S; Some (D, n) })"

definition CreateKernel ::
  "nat \<Rightarrow> metadata \<Rightarrow> string \<Rightarrow> program \<Rightarrow> (program \<times> (cl_int + kernel_descriptor \<times> nat)) option" where
  "CreateKernel n M Name P =
     (if BuildInfo P = [] then Some (P, Inl CL_INVALID_PROGRAM_EXECUTABLE)
      else do {
        f \<leftarrow> first_defining M Name (BuildInfo P);
        case f of
          None \<Rightarrow> Some (P, Inl CL_INVALID_KERNEL_NAME)
        | Some ((Dev, Fst), rest) \<Rightarrow> do {
            K \<leftarrow> GetKernel M Name Fst;
            r \<leftarrow> collect_infos n M Name Fst rest [(Dev, K)];
            case r of
              Inl e \<Rightarrow> Some (P, Inl e)
            | Inr infos \<Rightarrow> do {
                k \<leftarrow> new_kernel M \<lparr>DName = Name, Infos = infos\<rparr>;
                Some (P\<lparr>AttachedKernels := AttachedKernels P @ [fst k]\<rparr>, Inr k) }}})"

text \<open>The destructor of a descriptor.\<close>

definition DetachKernel :: "kernel_descriptor \<Rightarrow> program \<Rightarrow> program" where
  "DetachKernel D P = P\<lparr>AttachedKernels := remove1 D (AttachedKernels P)\<rparr>"

text \<open>All kernels of a program: a map from names, in their order, to the devices that have the kernel.\<close>

fun str_less :: "string \<Rightarrow> string \<Rightarrow> bool" where
  "str_less [] ys = (ys \<noteq> [])"
| "str_less (x # xs) [] = False"
| "str_less (x # xs) (y # ys) =
     ((of_char x :: nat) < of_char y \<or> x = y \<and> str_less xs ys)"

fun sign_push :: "string \<Rightarrow> 'v \<Rightarrow> (string \<times> 'v list) list \<Rightarrow> (string \<times> 'v list) list" where
  "sign_push k v [] = [(k, [v])]"
| "sign_push k v ((k', vs) # xs) =
     (if str_less k k' then (k, [v]) # (k', vs) # xs
      else if k = k' then (k', vs @ [v]) # xs
      else (k', vs) # sign_push k v xs)"

definition built_kernels :: "metadata \<Rightarrow> dev_id \<times> build_info \<Rightarrow> (dev_id \<times> kernel_info) list option" where
  "built_kernels M x =
     (if \<not> IsBuilt (snd x) then Some []
      else do { Mod \<leftarrow> BitCode (snd x); Ks \<leftarrow> module_kernels M Mod; Some (map (Pair (fst x)) Ks) })"

definition SignMap :: "metadata \<Rightarrow> program \<Rightarrow> (string \<times> (dev_id \<times> kernel_info) list) list option" where
  "SignMap M P = do {
     xss \<leftarrow> those (map (built_kernels M) (BuildInfo P));
     let xs = concat xss in
     if None \<in> set (map (\<lambda>x. getName (snd x)) xs) then None
     else Some (foldl (\<lambda>S x. sign_push (the (getName (snd x))) x S) [] xs) }"

text \<open>The status, the kernels written and the number written; \<open>want\<close> tells whether there is room for kernels.\<close>

definition CreateKernelsInProgram ::
  "metadata \<Rightarrow> nat \<Rightarrow> bool \<Rightarrow> bool \<Rightarrow> program \<Rightarrow>
   (program \<times> cl_int \<times> (kernel_descriptor \<times> nat) list \<times> nat option) option" where
  "CreateKernelsInProgram M num_kernels want want_num P =
     (if BuildInfo P = [] then Some (P, CL_INVALID_PROGRAM_EXECUTABLE, [], None)
      else do {
        S \<leftarrow> SignMap M P;
        let ret = (if want_num then Some (length S) else None) in
        if \<not> want then Some (P, CL_SUCCESS, [], ret)
        else if num_kernels < length S then Some (P, CL_INVALID_VALUE, [], None)
        else do {
          ks \<leftarrow> those (map (\<lambda>(nm, infos). new_kernel M \<lparr>DName = nm, Infos = infos\<rparr>) S);
          Some (P\<lparr>AttachedKernels := AttachedKernels P @ map fst ks\<rparr>, CL_SUCCESS, ks, ret) }})"

section \<open>Building programs from sources and binaries\<close>

text \<open>
  A source is the memory from its pointer on: it ends at its first zero, or after the length given for
  it, when that is not zero.
\<close>

definition source_text :: "string option \<Rightarrow> nat option \<Rightarrow> string option option" where
  "source_text Src Len =
     (case Src of
        None \<Rightarrow> Some None
      | Some s \<Rightarrow>
        (case Len of
           Some (Suc n) \<Rightarrow> if Suc n \<le> length s then Some (Some (take (Suc n) s)) else None
         | _ \<Rightarrow> if CHR 0x00 \<in> set s then Some (Some (takeWhile (\<lambda>c. c \<noteq> CHR 0x00) s)) else None))"

fun join_sources :: "string option list \<Rightarrow> nat list option \<Rightarrow> (cl_int + string) option" where
  "join_sources [] Lens = Some (Inr [])"
| "join_sources (s # ss) Lens = do {
     llvm_assert (Lens \<noteq> Some []);
     t \<leftarrow> source_text s (map_option hd Lens);
     case t of
       None \<Rightarrow> Some (Inl CL_INVALID_VALUE)
     | Some t \<Rightarrow> do {
         r \<leftarrow> join_sources ss (map_option tl Lens);
         case r of Inl e \<Rightarrow> Some (Inl e) | Inr u \<Rightarrow> Some (Inr (t @ u)) }}"

definition clCreateProgramWithSource ::
  "(ctx_id \<times> dev_id list) option \<Rightarrow> nat \<Rightarrow> string option list option \<Rightarrow> nat list option \<Rightarrow> (cl_int + program) option" where
  "clCreateProgramWithSource ctx n strings lengths =
     (case ctx of
        None \<Rightarrow> Some (Inl CL_INVALID_CONTEXT)
      | Some (Ctx, Devs) \<Rightarrow>
        (case strings of
           None \<Rightarrow> Some (Inl CL_INVALID_VALUE)
         | Some ss \<Rightarrow>
           if n = 0 then Some (Inl CL_INVALID_VALUE)
           else if length ss < n then None
           else do {
             r \<leftarrow> join_sources (take n ss) lengths;
             case r of Inl e \<Rightarrow> Some (Inl e) | Inr s \<Rightarrow> Some (Inr (ProgramFromSource Ctx Devs s)) }))"

text \<open>
  The binaries of \<open>SetBinaries\<close>, one for each device of the list. The status of a device is written
  without a test for null when its binary is accepted: \<open>want_status\<close> tells whether it can be.
\<close>

fun set_binaries ::
  "bool \<Rightarrow> dev_id list \<Rightarrow> (dev_id option \<times> byte list option \<times> nat) list \<Rightarrow> (dev_id \<times> byte list) list \<Rightarrow> cl_int list \<Rightarrow>
   (cl_int list \<times> (cl_int + (dev_id \<times> byte list) list)) option" where
  "set_binaries want_status CtxDevs [] Bs st = Some (st, Inr Bs)"
| "set_binaries want_status CtxDevs ((D, B, Len) # xs) Bs st =
     (case D of
        None \<Rightarrow> Some (st, Inl CL_INVALID_DEVICE)
      | Some Dev \<Rightarrow>
        if Dev \<notin> set CtxDevs then Some (st, Inl CL_INVALID_DEVICE)
        else (case B of
            None \<Rightarrow> Some (if want_status then st @ [CL_INVALID_VALUE] else st, Inl CL_INVALID_VALUE)
          | Some bytes \<Rightarrow>
            if Len = 0 then Some (if want_status then st @ [CL_INVALID_VALUE] else st, Inl CL_INVALID_VALUE)
            else if length bytes < Len \<or> \<not> want_status then None
            else set_binaries want_status CtxDevs xs (map_put Dev (take Len bytes) Bs) (st @ [CL_SUCCESS])))"

definition clCreateProgramWithBinary ::
  "(dev_id \<Rightarrow> compiler) \<Rightarrow> (ctx_id \<times> dev_id list) option \<Rightarrow> (dev_id option \<times> byte list option \<times> nat) list option \<Rightarrow> bool \<Rightarrow>
   (cl_int list \<times> (cl_int + program)) option" where
  "clCreateProgramWithBinary cc ctx list want_status =
     (case ctx of
        None \<Rightarrow> Some ([], Inl CL_INVALID_CONTEXT)
      | Some (Ctx, Devs) \<Rightarrow>
        (case list of
           None \<Rightarrow> Some ([], Inl CL_INVALID_VALUE)
         | Some xs \<Rightarrow>
           if xs = [] then Some ([], Inl CL_INVALID_VALUE)
           else map_option (\<lambda>(st, r). (st, case r of Inl e \<Rightarrow> Inl e | Inr Bs \<Rightarrow> Inr (ProgramFromBinaries cc Ctx Bs)))
                  (set_binaries want_status Devs xs [] [])))"

section \<open>Entry points\<close>

definition clBuildProgram ::
  "(dev_id \<Rightarrow> compiler) \<Rightarrow> program option \<Rightarrow> nat \<Rightarrow> dev_id option list option \<Rightarrow> string option \<Rightarrow> bool \<Rightarrow> bool \<Rightarrow>
   (program option \<times> cl_int \<times> bool) option" where
  "clBuildProgram cc program num_devices device_list options has_notify has_data =
     (case program of
        None \<Rightarrow> Some (None, CL_INVALID_PROGRAM, False)
      | Some P \<Rightarrow>
        if device_list = None \<and> num_devices \<noteq> 0 \<or> device_list \<noteq> None \<and> num_devices = 0
        then Some (Some P, CL_INVALID_VALUE, False)
        else let ds = (case device_list of None \<Rightarrow> [] | Some ds \<Rightarrow> take num_devices ds) in
          if length ds < num_devices \<and> None \<notin> set ds then None
          else if None \<in> set ds then Some (Some P, CL_INVALID_DEVICE, False)
          else if \<not> has_notify \<and> has_data then Some (Some P, CL_INVALID_VALUE, False)
          else case Build cc (map the ds) (case options of None \<Rightarrow> [] | Some o1 \<Rightarrow> o1) P of
              (P1, e, done1) \<Rightarrow> Some (Some P1, e, done1 \<and> has_notify))"

definition clCreateKernel ::
  "nat \<Rightarrow> metadata \<Rightarrow> program option \<Rightarrow> string option \<Rightarrow> (program option \<times> (cl_int + kernel_descriptor \<times> nat)) option" where
  "clCreateKernel n M program kernel_name =
     (case program of
        None \<Rightarrow> Some (None, Inl CL_INVALID_PROGRAM)
      | Some P \<Rightarrow>
        (case kernel_name of
           None \<Rightarrow> Some (Some P, Inl CL_INVALID_VALUE)
         | Some Name \<Rightarrow> map_option (\<lambda>(P1, r). (Some P1, r)) (CreateKernel n M Name P)))"

definition clCreateKernelsInProgram ::
  "metadata \<Rightarrow> program option \<Rightarrow> nat \<Rightarrow> bool \<Rightarrow> bool \<Rightarrow>
   (program option \<times> cl_int \<times> (kernel_descriptor \<times> nat) list \<times> nat option) option" where
  "clCreateKernelsInProgram M program num_kernels want want_num =
     (case program of
        None \<Rightarrow> Some (None, CL_INVALID_PROGRAM, [], None)
      | Some P \<Rightarrow> map_option (\<lambda>(P1, r). (Some P1, r)) (CreateKernelsInProgram M num_kernels want want_num P))"

text \<open>
  The binaries and their sizes, as \<open>clGetProgramInfo\<close> gathers them: asking about a device that was
  never built creates a null entry and uses it.
\<close>

definition IsBuiltFor :: "program \<Rightarrow> dev_id \<Rightarrow> bool option" where
  "IsBuiltFor P Dev = map_option IsBuilt (map_of (BuildInfo P) Dev)"

definition program_binary :: "program \<Rightarrow> dev_id \<Rightarrow> byte list option" where
  "program_binary P Dev = do {
     I \<leftarrow> map_of (BuildInfo P) Dev;
     if IsBuilt I then Binary I else Some [] }"

definition program_binaries :: "program \<Rightarrow> byte list list option" where
  "program_binaries P = those (map (program_binary P) (PDevices P))"

definition kernel_names :: "program \<Rightarrow> cl_int + string" where
  "kernel_names P =
     (if \<not> HasAttachedKernels P then Inl CL_INVALID_PROGRAM_EXECUTABLE
      else Inr (concat (map (\<lambda>D. DName D @ '';'') (AttachedKernels P))))"

definition program_build_info :: "program option \<Rightarrow> (dev_id list \<times> dev_id option) \<Rightarrow> (cl_int + build_info) option" where
  "program_build_info program dev =
     (case program of
        None \<Rightarrow> Some (Inl CL_INVALID_PROGRAM)
      | Some P \<Rightarrow>
        (case snd dev of
           None \<Rightarrow> Some (Inl CL_INVALID_DEVICE)
         | Some Dev \<Rightarrow>
           if Dev \<notin> set (fst dev) then Some (Inl CL_INVALID_DEVICE)
           else map_option Inr (map_of (BuildInfo P) Dev)))"

end
