(* ===== verification/Type_Proof.thy ===== *)
theory Type_Proof
  imports Type_Compare
begin

text \<open>
  The comparator decides whether two type graphs unfold to the same tree. \<open>view\<close> reads a type as its
  qualifiers, its head and its components; \<open>alike\<close> is the greatest relation that compares these. The
  comparator builds a finite part of that relation: the pairs in its cache justify each other.
\<close>

section \<open>What a type is\<close>

datatype head =
    HPrimitive primitive_class
  | HImage image_class
  | HVector nat
  | HArray nat
  | HPointer
  | HRecord bool "string option" bool nat "nat list"

definition record_name :: "metadata \<Rightarrow> node \<Rightarrow> string option option" where
  "record_name M u = do {
     a \<leftarrow> isRecordTypeAnonymous M u;
     if a then Some None else do { n \<leftarrow> getRecordTypeName M u; Some (Some n) } }"

definition record_view :: "metadata \<Rightarrow> type_kind \<Rightarrow> node \<Rightarrow> (head \<times> node list) option" where
  "record_view M k u = do {
     nm \<leftarrow> record_name M u;
     B \<leftarrow> getRecordTypeBody M u;
     p \<leftarrow> isPacked M B;
     a \<leftarrow> getAlignment M B;
     n \<leftarrow> getNumFields M B;
     offs \<leftarrow> those (map (getFieldOffset M B) [0..<n]);
     fs \<leftarrow> those (map (getField M B) [0..<n]);
     Some (HRecord (k = TK_Union) nm p a offs, fs) }"

definition raw_view :: "metadata \<Rightarrow> node \<Rightarrow> (head \<times> node list) option" where
  "raw_view M u = do {
     k \<leftarrow> getKind M u;
     case k of
       TK_Primitive \<Rightarrow> map_option (\<lambda>c. (HPrimitive c, [])) (getPrimitiveClass M u)
     | TK_Image \<Rightarrow> map_option (\<lambda>c. (HImage c, [])) (getImageClass M u)
     | TK_Vector \<Rightarrow> do { n \<leftarrow> getNumElements M u; e \<leftarrow> getElementType M u; Some (HVector n, [e]) }
     | TK_Array \<Rightarrow> do { n \<leftarrow> getNumElements M u; e \<leftarrow> getElementType M u; Some (HArray n, [e]) }
     | TK_Pointer \<Rightarrow> do { e \<leftarrow> getElementType M u; Some (HPointer, [e]) }
     | _ \<Rightarrow> record_view M k u }"

definition view :: "metadata \<Rightarrow> node \<Rightarrow> (qualifiers \<times> head \<times> node list) option" where
  "view M t = do {
     q \<leftarrow> getQualifiers M t;
     u \<leftarrow> getUnqualifiedType M t;
     v \<leftarrow> raw_view M u;
     Some (q, v) }"

coinductive alike :: "metadata \<Rightarrow> node \<Rightarrow> node \<Rightarrow> bool" for M where
  alike: "view M t1 = Some (q, h, cs1) \<Longrightarrow> view M t2 = Some (q, h, cs2) \<Longrightarrow> list_all2 (alike M) cs1 cs2 \<Longrightarrow> alike M t1 t2"

text \<open>Metadata that reads as types: the nodes of \<open>S\<close>, all of one context, have components in \<open>S\<close>.\<close>

definition types_ok :: "metadata \<Rightarrow> nat \<Rightarrow> node set \<Rightarrow> bool" where
  "types_ok M c S \<longleftrightarrow> (\<forall>t \<in> S. fst t = c \<and> (\<exists>q h cs. view M t = Some (q, h, cs) \<and> set cs \<subseteq> S))"

section \<open>Justified pairs\<close>

inductive just :: "metadata \<Rightarrow> pairs \<Rightarrow> node \<Rightarrow> node \<Rightarrow> bool" for M R where
  just_pair: "getQualifiers M t1 = Some q \<Longrightarrow> getQualifiers M t2 = Some q \<Longrightarrow>
    getUnqualifiedType M t1 = Some u1 \<Longrightarrow> getUnqualifiedType M t2 = Some u2 \<Longrightarrow> (u1, u2) \<in> R \<Longrightarrow> just M R t1 t2"
| just_view: "view M t1 = Some (q, h, cs1) \<Longrightarrow> view M t2 = Some (q, h, cs2) \<Longrightarrow> list_all2 (just M R) cs1 cs2 \<Longrightarrow>
    just M R t1 t2"

lemma just_mono: "just M R t1 t2 \<Longrightarrow> R \<subseteq> R' \<Longrightarrow> just M R' t1 t2"
proof (induction rule: just.induct)
  case (just_view t1 q h cs1 t2 cs2)
  have "list_all2 (just M R') cs1 cs2" using just_view(3) by (rule list_all2_mono) (use just_view(4) in simp)
  then show ?case by (rule just.just_view [OF just_view(1,2)])
qed (auto intro: just.just_pair)

definition backed :: "metadata \<Rightarrow> pairs \<Rightarrow> node \<times> node \<Rightarrow> bool" where
  "backed M R p \<longleftrightarrow> (\<exists>h cs1 cs2. raw_view M (fst p) = Some (h, cs1) \<and> raw_view M (snd p) = Some (h, cs2) \<and>
     list_all2 (just M R) cs1 cs2)"

lemma backed_mono: "backed M R p \<Longrightarrow> R \<subseteq> R' \<Longrightarrow> backed M R' p"
  unfolding backed_def using list_all2_mono [of "just M R" _ _ "just M R'"] just_mono [of M R] by metis

lemma just_alike:
  assumes "\<forall>p \<in> R. backed M R p" "just M R t1 t2"
  shows "alike M t1 t2"
  using assms(2)
proof (coinduction arbitrary: t1 t2)
  case alike
  then show ?case
  proof (cases rule: just.cases)
    case (just_pair q u1 u2)
    with assms(1) obtain h cs1 cs2 where "raw_view M u1 = Some (h, cs1)" "raw_view M u2 = Some (h, cs2)"
      "list_all2 (just M R) cs1 cs2" unfolding backed_def by force
    with just_pair have "view M t1 = Some (q, h, cs1)" "view M t2 = Some (q, h, cs2)" by (simp_all add: view_def)
    moreover have "list_all2 (\<lambda>x y. just M R x y \<or> alike M x y) cs1 cs2"
      using \<open>list_all2 (just M R) cs1 cs2\<close> by (rule list_all2_mono) simp
    ultimately show ?thesis by (intro exI conjI) (rule refl | assumption | simp)+
  next
    case (just_view q h cs1 cs2)
    moreover have "list_all2 (\<lambda>x y. just M R x y \<or> alike M x y) cs1 cs2"
      using \<open>list_all2 (just M R) cs1 cs2\<close> by (rule list_all2_mono) simp
    ultimately show ?thesis by (intro exI conjI) (rule refl | assumption | simp)+
  qed
qed

lemma alike_cases:
  "alike M t1 t2 \<Longrightarrow> \<exists>q h cs1 cs2. view M t1 = Some (q, h, cs1) \<and> view M t2 = Some (q, h, cs2) \<and> list_all2 (alike M) cs1 cs2"
  by (auto elim: alike.cases)


section \<open>The comparator over views\<close>

fun match_list ::
  "(node \<Rightarrow> node \<Rightarrow> compare_state \<Rightarrow> (bool \<times> compare_state) option) \<Rightarrow>
   (nat \<times> node) list \<Rightarrow> (nat \<times> node) list \<Rightarrow> compare_state \<Rightarrow> (bool \<times> compare_state) option" where
  "match_list f ((o1, t1) # xs) ((o2, t2) # ys) s =
     (if o1 \<noteq> o2 then Some (False, s)
      else do { r \<leftarrow> f t1 t2 s; if fst r then match_list f xs ys (snd r) else Some (False, snd r) })"
| "match_list f _ _ s = Some (True, s)"

lemma those_map_Cons:
  "those (map f (i # is)) = Some zs \<longleftrightarrow> (\<exists>z zs'. zs = z # zs' \<and> f i = Some z \<and> those (map f is) = Some zs')"
  by (auto split: option.splits)

lemma match_fields_list:
  assumes "those (map (getFieldOffset M B1) Is) = Some os1" "those (map (getField M B1) Is) = Some cs1"
    and "those (map (getFieldOffset M B2) Is) = Some os2" "those (map (getField M B2) Is) = Some cs2"
  shows "match_fields f M B1 B2 Is s = match_list f (zip os1 cs1) (zip os2 cs2) s"
  using assms
proof (induction Is arbitrary: os1 cs1 os2 cs2 s)
  case (Cons I Is)
  obtain o1 os1' t1 cs1' where 1: "os1 = o1 # os1'" "getFieldOffset M B1 I = Some o1"
    "those (map (getFieldOffset M B1) Is) = Some os1'" "cs1 = t1 # cs1'" "getField M B1 I = Some t1"
    "those (map (getField M B1) Is) = Some cs1'" using Cons.prems(1,2) unfolding those_map_Cons by blast
  obtain o2 os2' t2 cs2' where 2: "os2 = o2 # os2'" "getFieldOffset M B2 I = Some o2"
    "those (map (getFieldOffset M B2) Is) = Some os2'" "cs2 = t2 # cs2'" "getField M B2 I = Some t2"
    "those (map (getField M B2) Is) = Some cs2'" using Cons.prems(3,4) unfolding those_map_Cons by blast
  show ?case by (simp add: 1 2 Cons.IH [OF 1(3,6) 2(3,6)] cong: if_cong)
qed simp

lemma those_map_length: "those (map f is) = Some zs \<Longrightarrow> length zs = length is"
  by (induction "is" arbitrary: zs) (auto split: option.splits)

definition is_record :: "head \<Rightarrow> bool" where
  "is_record h = (case h of HRecord _ _ _ _ _ \<Rightarrow> True | _ \<Rightarrow> False)"

text \<open>The kinds other than records.\<close>

definition match_simple ::
  "(node \<Rightarrow> node \<Rightarrow> compare_state \<Rightarrow> (bool \<times> compare_state) option) \<Rightarrow> head \<times> node list \<Rightarrow> head \<times> node list \<Rightarrow>
   compare_state \<Rightarrow> (bool \<times> compare_state) option" where
  "match_simple f v1 v2 s =
     (if fst v1 \<noteq> fst v2 then Some (False, s)
      else case (snd v1, snd v2) of ([e1], [e2]) \<Rightarrow> f e1 e2 s | _ \<Rightarrow> Some (True, s))"

lemmas raw_view_cases = raw_view_def record_view_def Option.bind_eq_Some_conv

lemma raw_view_kind:
  assumes "raw_view M u = Some (h, cs)"
  obtains (prim) c where "getKind M u = Some TK_Primitive" "getPrimitiveClass M u = Some c" "h = HPrimitive c" "cs = []"
  | (image) c where "getKind M u = Some TK_Image" "getImageClass M u = Some c" "h = HImage c" "cs = []"
  | (vector) n e where "getKind M u = Some TK_Vector" "getNumElements M u = Some n" "getElementType M u = Some e"
      "h = HVector n" "cs = [e]"
  | (array) n e where "getKind M u = Some TK_Array" "getNumElements M u = Some n" "getElementType M u = Some e"
      "h = HArray n" "cs = [e]"
  | (pointer) e where "getKind M u = Some TK_Pointer" "getElementType M u = Some e" "h = HPointer" "cs = [e]"
  | (rec) k nm B p a n offs where "getKind M u = Some k" "k = TK_Struct \<or> k = TK_Union"
      "record_name M u = Some nm" "getRecordTypeBody M u = Some B" "isPacked M B = Some p" "getAlignment M B = Some a"
      "getNumFields M B = Some n" "those (map (getFieldOffset M B) [0..<n]) = Some offs"
      "those (map (getField M B) [0..<n]) = Some cs" "h = HRecord (k = TK_Union) nm p a offs"
proof -
  obtain k where k: "getKind M u = Some k" using assms by (auto simp: raw_view_def Option.bind_eq_Some_conv)
  show ?thesis
    using assms k that by (cases k) (auto simp: raw_view_def record_view_def Option.bind_eq_Some_conv)
qed


definition head_kind :: "head \<Rightarrow> type_kind" where
  "head_kind h = (case h of HPrimitive _ \<Rightarrow> TK_Primitive | HImage _ \<Rightarrow> TK_Image | HVector _ \<Rightarrow> TK_Vector
     | HArray _ \<Rightarrow> TK_Array | HPointer \<Rightarrow> TK_Pointer | HRecord u _ _ _ _ \<Rightarrow> if u then TK_Union else TK_Struct)"

lemma raw_view_head:
  assumes "raw_view M u = Some (h, cs)"
  shows "getKind M u = Some (head_kind h)"
    and "h = HPrimitive c \<Longrightarrow> getPrimitiveClass M u = Some c \<and> cs = []"
    and "h = HImage i \<Longrightarrow> getImageClass M u = Some i \<and> cs = []"
    and "h = HVector n \<Longrightarrow> \<exists>e. getNumElements M u = Some n \<and> getElementType M u = Some e \<and> cs = [e]"
    and "h = HArray n \<Longrightarrow> \<exists>e. getNumElements M u = Some n \<and> getElementType M u = Some e \<and> cs = [e]"
    and "h = HPointer \<Longrightarrow> \<exists>e. getElementType M u = Some e \<and> cs = [e]"
  using assms by (cases rule: raw_view_kind; auto simp: head_kind_def)+

lemma match_raw_simple:
  assumes "raw_view M u1 = Some v1" "raw_view M u2 = Some v2" "\<not> (is_record (fst v1) \<and> is_record (fst v2))"
  shows "match_raw f M u1 u2 s = match_simple f v1 v2 s"
proof -
  obtain h1 cs1 h2 cs2 where v: "v1 = (h1, cs1)" "v2 = (h2, cs2)" by fastforce
  note a = assms(1,2) [unfolded v] and k = assms(1,2) [unfolded v, THEN raw_view_head(1)]
  show ?thesis
  proof (cases "head_kind h1 = head_kind h2")
    case True
    note split_paired_Ex [simp del] split_paired_All [simp del]
    show ?thesis
    proof (cases h1)
      case (HPrimitive c1)
      with True obtain c2 where h2: "h2 = HPrimitive c2" by (cases h2) (auto simp: head_kind_def split: if_splits)
      show ?thesis
        using raw_view_head(2) [OF a(1) HPrimitive] raw_view_head(2) [OF a(2) h2] k
        by (auto simp: HPrimitive h2 v head_kind_def match_raw_def match_simple_def)
    next
      case (HImage c1)
      with True obtain c2 where h2: "h2 = HImage c2" by (cases h2) (auto simp: head_kind_def split: if_splits)
      show ?thesis
        using raw_view_head(3) [OF a(1) HImage] raw_view_head(3) [OF a(2) h2] k
        by (auto simp: HImage h2 v head_kind_def match_raw_def match_simple_def)
    next
      case (HVector c1)
      with True obtain c2 where h2: "h2 = HVector c2" by (cases h2) (auto simp: head_kind_def split: if_splits)
      show ?thesis
        using raw_view_head(4) [OF a(1) HVector] raw_view_head(4) [OF a(2) h2] k
        by (auto simp: HVector h2 v head_kind_def match_raw_def match_simple_def)
    next
      case (HArray c1)
      with True obtain c2 where h2: "h2 = HArray c2" by (cases h2) (auto simp: head_kind_def split: if_splits)
      show ?thesis
        using raw_view_head(5) [OF a(1) HArray] raw_view_head(5) [OF a(2) h2] k
        by (auto simp: HArray h2 v head_kind_def match_raw_def match_simple_def)
    next
      case HPointer
      with True have h2: "h2 = HPointer" by (cases h2) (auto simp: head_kind_def split: if_splits)
      show ?thesis
        using raw_view_head(6) [OF a(1) HPointer] raw_view_head(6) [OF a(2) h2] k
        by (auto simp: HPointer h2 v head_kind_def match_raw_def match_simple_def)
    next
      case (HRecord u n p a os)
      with True have "is_record h2" by (cases h2) (auto simp: head_kind_def is_record_def split: if_splits)
      with HRecord assms(3) show ?thesis by (simp add: v is_record_def)
    qed
  next
    case False
    then show ?thesis using k by (auto simp: match_raw_def match_simple_def v)
  qed
qed

text \<open>Records: the tests in the order of the code, then the fields.\<close>

lemma record_nameD:
  "record_name M u = Some n \<Longrightarrow> isRecordTypeAnonymous M u = Some True \<and> n = None \<or>
     (\<exists>s. isRecordTypeAnonymous M u = Some False \<and> getRecordTypeName M u = Some s \<and> n = Some s)"
  by (cases "isRecordTypeAnonymous M u"; cases "getRecordTypeName M u")
     (auto simp: record_name_def split: if_splits)

lemma same_names_view:
  "record_name M u1 = Some n1 \<Longrightarrow> record_name M u2 = Some n2 \<Longrightarrow> same_names M u1 u2 = Some (n1 = n2)"
  by (drule record_nameD, drule record_nameD) (auto simp: same_names_def)

lemma match_raw_record:
  assumes "raw_view M u1 = Some (HRecord k1 n1 p1 a1 o1, cs1)" "raw_view M u2 = Some (HRecord k2 n2 p2 a2 o2, cs2)"
  shows "match_raw f M u1 u2 (V, C) =
    (if k1 \<noteq> k2 then Some (False, V, C)
     else if (u1, u2) \<in> V then Some (True, V, C)
     else if n1 \<noteq> n2 \<or> p1 \<noteq> p2 \<or> a1 \<noteq> a2 \<or> length o1 \<noteq> length o2 then Some (False, V, C)
     else map_option (\<lambda>r. (fst r, fst (snd r) - {(u1, u2)},
                           if fst r then insert (u1, u2) (snd (snd r)) else snd (snd r)))
            (match_list f (zip o1 cs1) (zip o2 cs2) (insert (u1, u2) V, C)))"
proof -
  from assms(1) obtain k B1 m1 where 1: "getKind M u1 = Some k" "k = TK_Struct \<or> k = TK_Union"
      "record_name M u1 = Some n1" "getRecordTypeBody M u1 = Some B1" "isPacked M B1 = Some p1" "getAlignment M B1 = Some a1"
      "getNumFields M B1 = Some m1" "those (map (getFieldOffset M B1) [0..<m1]) = Some o1"
      "those (map (getField M B1) [0..<m1]) = Some cs1" "k1 = (k = TK_Union)"
    by (elim raw_view_kind) auto
  from assms(2) obtain k' B2 m2 where 2: "getKind M u2 = Some k'" "k' = TK_Struct \<or> k' = TK_Union"
      "record_name M u2 = Some n2" "getRecordTypeBody M u2 = Some B2" "isPacked M B2 = Some p2" "getAlignment M B2 = Some a2"
      "getNumFields M B2 = Some m2" "those (map (getFieldOffset M B2) [0..<m2]) = Some o2"
      "those (map (getField M B2) [0..<m2]) = Some cs2" "k2 = (k' = TK_Union)"
    by (elim raw_view_kind) auto
  have len: "m1 = length o1" "m2 = length o2" using 1(8) 2(8) by (auto dest: those_map_length)
  have raw: "match_raw f M u1 u2 (V, C) = (if k \<noteq> k' then Some (False, V, C) else match_record f M u1 u2 (V, C))"
    using 1(1,2) 2(1,2) by (auto simp: match_raw_def)
  have layout: "same_layout M B1 B2 = Some (p1 = p2 \<and> a1 = a2 \<and> length o1 = length o2)"
    using 1(5-7) 2(5-7) len by (simp add: same_layout_def)
  have fields: "match_fields f M B1 B2 [0..<m1] s = match_list f (zip o1 cs1) (zip o2 cs2) s" if "length o1 = length o2" for s
    using 1(8,9) 2(8,9) len that by (intro match_fields_list) auto
  have "match_record f M u1 u2 (V, C) =
    (if (u1, u2) \<in> V then Some (True, V, C)
     else if n1 \<noteq> n2 \<or> p1 \<noteq> p2 \<or> a1 \<noteq> a2 \<or> length o1 \<noteq> length o2 then Some (False, V, C)
     else map_option (\<lambda>r. (fst r, fst (snd r) - {(u1, u2)},
                           if fst r then insert (u1, u2) (snd (snd r)) else snd (snd r)))
            (match_list f (zip o1 cs1) (zip o2 cs2) (insert (u1, u2) V, C)))"
    by (simp add: match_record_def Let_def same_names_view [OF 1(3) 2(3)] 1(4,7) 2(4) layout fields
                  map_conv_bind_option comp_def cong: if_cong)
  then show ?thesis using raw 1(2,10) 2(2,10) by auto
qed


section \<open>Soundness and completeness\<close>

text \<open>
  What a comparison of \<open>t1\<close> and \<open>t2\<close> leaves: it gives \<open>Visited\<close> back and only adds to the cache. If it
  succeeds, the cache and the visited pairs justify the new pair and each cached pair; if it fails,
  the types differ.
\<close>

definition sound_result :: "metadata \<Rightarrow> node list \<Rightarrow> node list \<Rightarrow> pairs \<Rightarrow> pairs \<Rightarrow> (bool \<times> compare_state) option \<Rightarrow> bool" where
  "sound_result M ts1 ts2 V C r \<longleftrightarrow>
     (\<forall>b V' C'. r = Some (b, V', C') \<longrightarrow>
        V' = V \<and> C \<subseteq> C' \<and>
        (if b then (\<forall>p \<in> C'. backed M (C' \<union> V) p) \<and> list_all2 (just M (C' \<union> V)) ts1 ts2
         else \<not> list_all2 (alike M) ts1 ts2))"

lemma sound_resultD:
  assumes "sound_result M ts1 ts2 V C (Some (b, V', C'))"
  shows "V' = V" "C \<subseteq> C'" "b \<Longrightarrow> \<forall>p \<in> C'. backed M (C' \<union> V) p" "b \<Longrightarrow> list_all2 (just M (C' \<union> V)) ts1 ts2"
    "\<not> b \<Longrightarrow> \<not> list_all2 (alike M) ts1 ts2"
  using assms by (auto simp: sound_result_def)

definition sound_on ::
  "metadata \<Rightarrow> node set \<Rightarrow> node set \<Rightarrow> (node \<Rightarrow> node \<Rightarrow> compare_state \<Rightarrow> (bool \<times> compare_state) option) \<Rightarrow> bool" where
  "sound_on M S1 S2 f \<longleftrightarrow>
     (\<forall>t1 \<in> S1. \<forall>t2 \<in> S2. \<forall>V C. (\<forall>p \<in> C. backed M (C \<union> V) p) \<longrightarrow> sound_result M [t1] [t2] V C (f t1 t2 (V, C)))"

lemma match_list_sound:
  assumes "sound_on M S1 S2 f" "length os1 = length ts1" "length os2 = length ts2" "length ts1 = length ts2"
    and "set ts1 \<subseteq> S1" "set ts2 \<subseteq> S2" "\<forall>p \<in> C. backed M (C \<union> V) p"
    and "match_list f (zip os1 ts1) (zip os2 ts2) (V, C) = Some (b, V', C')"
  shows "V' = V \<and> C \<subseteq> C' \<and>
    (if b then (\<forall>p \<in> C'. backed M (C' \<union> V) p) \<and> os1 = os2 \<and> list_all2 (just M (C' \<union> V)) ts1 ts2
     else os1 \<noteq> os2 \<or> \<not> list_all2 (alike M) ts1 ts2)"
  using assms(2-)
proof (induction ts1 arbitrary: ts2 os1 os2 C)
  case (Cons t1 ts1)
  obtain o1 os1' o2 os2' t2 ts2' where c: "os1 = o1 # os1'" "os2 = o2 # os2'" "ts2 = t2 # ts2'"
    using Cons.prems(1-3) by (cases os1; cases os2; cases ts2) auto
  show ?case
  proof (cases "o1 = o2")
    case False
    then show ?thesis using Cons.prems(7) by (auto simp: c)
  next
    case True
    with Cons.prems(7) obtain b1 V1 C1 where f: "f t1 t2 (V, C) = Some (b1, V1, C1)"
      "(if b1 then match_list f (zip os1' ts1) (zip os2' ts2') (V1, C1) else Some (False, V1, C1)) = Some (b, V', C')"
      by (cases "f t1 t2 (V, C)") (auto simp: c cong: if_cong)
    have "sound_result M [t1] [t2] V C (f t1 t2 (V, C))"
      using assms(1) Cons.prems(4-6) by (simp add: sound_on_def c)
    note s = sound_resultD [OF this [unfolded f(1)]]
    show ?thesis
    proof (cases b1)
      case False
      then show ?thesis using f(2) s by (auto simp: c)
    next
      case b1: True
      have len: "length os1' = length ts1" "length os2' = length ts2'" "length ts1 = length ts2'"
        and sub: "set ts1 \<subseteq> S1" "set ts2' \<subseteq> S2"
        using Cons.prems(1-5) by (simp_all add: c)
      have "match_list f (zip os1' ts1) (zip os2' ts2') (V, C1) = Some (b, V', C')" using f(2) b1 s(1) by simp
      note I = Cons.IH [OF len sub s(3) [OF b1] this]
      then have "just M (C1 \<union> V) t1 t2 \<Longrightarrow> just M (C' \<union> V) t1 t2" by (elim just_mono) auto
      then show ?thesis using I s(2) s(4) [OF b1] True by (auto simp: c split: if_splits)
    qed
  qed
qed (simp split: if_splits)


lemma alike_view:
  assumes "view M t1 = Some (q1, h1, cs1)" "view M t2 = Some (q2, h2, cs2)"
  shows "alike M t1 t2 \<longleftrightarrow> q1 = q2 \<and> h1 = h2 \<and> list_all2 (alike M) cs1 cs2"
  using assms alike.intros [of M t1 q1 h1 cs1 t2 cs2] by (auto dest!: alike_cases)

lemma view_parts:
  assumes "view M t = Some (q, h, cs)"
  obtains u where "getQualifiers M t = Some q" "getUnqualifiedType M t = Some u" "raw_view M u = Some (h, cs)"
  using assms by (auto simp: view_def Option.bind_eq_Some_conv)

text \<open>One comparison of two types with known views, by the cases of the code.\<close>

lemma simple_children:
  assumes "raw_view M u = Some (h, cs)" "\<not> is_record h"
  shows "cs = [] \<or> (\<exists>e. cs = [e])"
  using assms by (cases rule: raw_view_kind) (auto simp: is_record_def)

lemma match_simple_sound:
  assumes "sound_on M S1 S2 f" "raw_view M u1 = Some (h1, cs1)" "raw_view M u2 = Some (h2, cs2)"
    and "\<not> (is_record h1 \<and> is_record h2)" "set cs1 \<subseteq> S1" "set cs2 \<subseteq> S2"
    and "\<forall>p \<in> C. backed M (C \<union> V) p" "match_simple f (h1, cs1) (h2, cs2) (V, C) = Some (b, V', C')"
  shows "V' = V \<and> C \<subseteq> C' \<and>
    (if b then (\<forall>p \<in> C'. backed M (C' \<union> V) p) \<and> h1 = h2 \<and> list_all2 (just M (C' \<union> V)) cs1 cs2
     else h1 \<noteq> h2 \<or> \<not> list_all2 (alike M) cs1 cs2)"
proof (cases "h1 = h2")
  case False
  then show ?thesis using assms(8) by (auto simp: match_simple_def)
next
  case True
  with assms(4) have r: "\<not> is_record h1" "\<not> is_record h2" by auto
  have same: "length cs1 = length cs2"
    using assms(2,3) r True by (elim raw_view_kind) (auto simp: is_record_def)
  from simple_children [OF assms(2) r(1)] show ?thesis
  proof
    assume "cs1 = []"
    then show ?thesis using assms(7,8) True same by (auto simp: match_simple_def)
  next
    assume "\<exists>e. cs1 = [e]"
    then obtain e1 e2 where e: "cs1 = [e1]" "cs2 = [e2]" using same by (cases cs2) auto
    then have "f e1 e2 (V, C) = Some (b, V', C')" using assms(8) True by (simp add: match_simple_def)
    moreover have "sound_result M [e1] [e2] V C (f e1 e2 (V, C))"
      using assms(1,5,6,7) by (simp add: sound_on_def e)
    ultimately show ?thesis using True by (auto simp: sound_result_def e split: if_splits)
  qed
qed

lemma match_record_sound:
  assumes "sound_on M S1 S2 f" "raw_view M u1 = Some (h1, cs1)" "raw_view M u2 = Some (h2, cs2)"
    and "is_record h1" "is_record h2" "set cs1 \<subseteq> S1" "set cs2 \<subseteq> S2"
    and "\<forall>p \<in> C. backed M (C \<union> V) p" "match_raw f M u1 u2 (V, C) = Some (b, V', C')"
  shows "V' = V \<and> C \<subseteq> C' \<and>
    (if b then (\<forall>p \<in> C'. backed M (C' \<union> V) p) \<and> (u1, u2) \<in> C' \<union> V
     else h1 \<noteq> h2 \<or> \<not> list_all2 (alike M) cs1 cs2)"
proof -
  obtain k1 n1 p1 a1 o1 where h1: "h1 = HRecord k1 n1 p1 a1 o1" using assms(4) by (cases h1) (auto simp: is_record_def)
  obtain k2 n2 p2 a2 o2 where h2: "h2 = HRecord k2 n2 p2 a2 o2" using assms(5) by (cases h2) (auto simp: is_record_def)
  have len: "length o1 = length cs1" "length o2 = length cs2"
    using assms(2,3) unfolding h1 h2 by (elim raw_view_kind; force dest: those_map_length)+
  note eq = match_raw_record [OF assms(2) [unfolded h1] assms(3) [unfolded h2], of f V C]
  consider (kinds) "k1 \<noteq> k2" | (visited) "k1 = k2" "(u1, u2) \<in> V"
    | (layout) "k1 = k2" "(u1, u2) \<notin> V" "n1 \<noteq> n2 \<or> p1 \<noteq> p2 \<or> a1 \<noteq> a2 \<or> length o1 \<noteq> length o2"
    | (fields) "k1 = k2" "(u1, u2) \<notin> V" "n1 = n2" "p1 = p2" "a1 = a2" "length o1 = length o2" by blast
  then show ?thesis
  proof cases
    case fields
    with assms(9) obtain r where r: "match_list f (zip o1 cs1) (zip o2 cs2) (insert (u1, u2) V, C) = Some r"
      "b = fst r" "V' = fst (snd r) - {(u1, u2)}" "C' = (if fst r then insert (u1, u2) (snd (snd r)) else snd (snd r))"
      unfolding eq by auto
    obtain b1 V1 C1 where r1: "r = (b1, V1, C1)" by (cases r)
    have pre: "\<forall>p \<in> C. backed M (C \<union> insert (u1, u2) V) p" using assms(8) by (auto elim: backed_mono)
    have I: "V1 = insert (u1, u2) V \<and> C \<subseteq> C1 \<and>
      (if b1 then (\<forall>p \<in> C1. backed M (C1 \<union> insert (u1, u2) V) p) \<and> o1 = o2 \<and> list_all2 (just M (C1 \<union> insert (u1, u2) V)) cs1 cs2
       else o1 \<noteq> o2 \<or> \<not> list_all2 (alike M) cs1 cs2)"
      using len fields(6) by (intro match_list_sound [OF assms(1) _ _ _ assms(6,7) pre r(1) [unfolded r1]]) simp_all
    have V: "V' = V" using I r(3) fields(2) by (auto simp: r1)
    show ?thesis
    proof (cases b1)
      case True
      have "C1 \<union> insert (u1, u2) V = insert (u1, u2) C1 \<union> V" by auto
      then have "backed M (insert (u1, u2) C1 \<union> V) (u1, u2)" "\<forall>p \<in> C1. backed M (insert (u1, u2) C1 \<union> V) p"
        using I True assms(2,3) fields by (auto simp: backed_def h1 h2)
      then show ?thesis using I True r V by (auto simp: r1)
    next
      case False
      then show ?thesis using I r V fields by (auto simp: r1 h1 h2)
    qed
  qed (use assms(8,9) in \<open>auto simp: eq h1 h2\<close>)
qed


lemma match_sound:
  assumes "types_ok M c1 S1" "types_ok M c2 S2" "c1 \<noteq> c2"
  shows "sound_on M S1 S2 (match n M)"
proof (induction n)
  case 0
  show ?case by (simp add: sound_on_def sound_result_def)
next
  case (Suc n)
  show ?case
    unfolding sound_on_def
  proof (intro ballI allI impI)
    fix t1 t2 V C assume t: "t1 \<in> S1" "t2 \<in> S2" and ok: "\<forall>p \<in> C. backed M (C \<union> V) p"
    obtain q1 h1 cs1 where v1: "view M t1 = Some (q1, h1, cs1)" "set cs1 \<subseteq> S1" "fst t1 = c1"
      using assms(1) t(1) unfolding types_ok_def by blast
    obtain q2 h2 cs2 where v2: "view M t2 = Some (q2, h2, cs2)" "set cs2 \<subseteq> S2" "fst t2 = c2"
      using assms(2) t(2) unfolding types_ok_def by blast
    obtain u1 where u1: "getQualifiers M t1 = Some q1" "getUnqualifiedType M t1 = Some u1" "raw_view M u1 = Some (h1, cs1)"
      by (rule view_parts [OF v1(1)])
    obtain u2 where u2: "getQualifiers M t2 = Some q2" "getUnqualifiedType M t2 = Some u2" "raw_view M u2 = Some (h2, cs2)"
      by (rule view_parts [OF v2(1)])
    have ne: "t1 \<noteq> t2" "fst t1 \<noteq> fst t2" using assms(3) v1(3) v2(3) by auto
    have eq: "match (Suc n) M t1 t2 (V, C) = (if q1 \<noteq> q2 then Some (False, V, C)
        else if (u1, u2) \<in> C then Some (True, V, C) else match_raw (match n M) M u1 u2 (V, C))"
      by (simp add: ne u1(1,2) u2(1,2))
    note al = alike_view [OF v1(1) v2(1)]
    show "sound_result M [t1] [t2] V C (match (Suc n) M t1 t2 (V, C))"
    proof (cases "q1 = q2 \<and> (u1, u2) \<notin> C")
      case False
      then show ?thesis
        unfolding eq sound_result_def using ok al just_pair [OF u1(1) _ u1(2) u2(2)] u2(1) by auto
    next
      case True
      show ?thesis
        unfolding sound_result_def
      proof (intro allI impI)
        fix b V' C' assume m: "match (Suc n) M t1 t2 (V, C) = Some (b, V', C')"
        then have r: "match_raw (match n M) M u1 u2 (V, C) = Some (b, V', C')" using True unfolding eq by simp
        show "V' = V \<and> C \<subseteq> C' \<and> (if b then (\<forall>p \<in> C'. backed M (C' \<union> V) p) \<and> list_all2 (just M (C' \<union> V)) [t1] [t2]
                else \<not> list_all2 (alike M) [t1] [t2])"
        proof (cases "is_record h1 \<and> is_record h2")
          case rec: True
          have "V' = V \<and> C \<subseteq> C' \<and> (if b then (\<forall>p \<in> C'. backed M (C' \<union> V) p) \<and> (u1, u2) \<in> C' \<union> V
                  else h1 \<noteq> h2 \<or> \<not> list_all2 (alike M) cs1 cs2)"
            using rec by (intro match_record_sound [OF Suc u1(3) u2(3) _ _ v1(2) v2(2) ok r]) simp_all
          then show ?thesis using al True just_pair [OF u1(1) _ u1(2) u2(2)] u2(1) by auto
        next
          case simple: False
          have "match_simple (match n M) (h1, cs1) (h2, cs2) (V, C) = Some (b, V', C')"
            using r simple match_raw_simple [OF u1(3) u2(3)] by simp
          from match_simple_sound [OF Suc u1(3) u2(3) simple v1(2) v2(2) ok this]
          show ?thesis using al True just_view [OF v1(1)] v2(1) by auto
        qed
      qed
    qed
  qed
qed


section \<open>Termination\<close>

text \<open>
  Every cycle of a type graph passes through a record: \<open>rk\<close> falls on the way from a pointer, a vector
  or an array to its element.
\<close>

definition ranked :: "metadata \<Rightarrow> node set \<Rightarrow> (node \<Rightarrow> nat) \<Rightarrow> nat \<Rightarrow> bool" where
  "ranked M S rk N \<longleftrightarrow> (\<forall>t \<in> S. rk t \<le> N \<and>
     (\<forall>q h cs. view M t = Some (q, h, cs) \<longrightarrow> \<not> is_record h \<longrightarrow> (\<forall>c \<in> set cs. rk c < rk t)))"

definition raw_pairs :: "metadata \<Rightarrow> node set \<Rightarrow> node set \<Rightarrow> pairs" where
  "raw_pairs M S1 S2 = (\<lambda>(t1, t2). (the (getUnqualifiedType M t1), the (getUnqualifiedType M t2))) ` (S1 \<times> S2)"

lemma match_list_total:
  assumes "sound_on M S1 S2 f" "length os1 = length ts1" "length os2 = length ts2" "length ts1 = length ts2"
    and "set ts1 \<subseteq> S1" "set ts2 \<subseteq> S2" "\<forall>p \<in> C. backed M (C \<union> V) p"
    and "\<forall>t1 \<in> set ts1. \<forall>t2 \<in> set ts2. \<forall>C. (\<forall>p \<in> C. backed M (C \<union> V) p) \<longrightarrow> f t1 t2 (V, C) \<noteq> None"
  shows "match_list f (zip os1 ts1) (zip os2 ts2) (V, C) \<noteq> None"
  using assms(2-)
proof (induction ts1 arbitrary: ts2 os1 os2 C)
  case (Cons t1 ts1)
  obtain o1 os1' o2 os2' t2 ts2' where c: "os1 = o1 # os1'" "os2 = o2 # os2'" "ts2 = t2 # ts2'"
    using Cons.prems(1-3) by (cases os1; cases os2; cases ts2) auto
  from Cons.prems(6,7) obtain b1 V1 C1 where f: "f t1 t2 (V, C) = Some (b1, V1, C1)"
    by (cases "f t1 t2 (V, C)") (auto simp: c)
  have "sound_result M [t1] [t2] V C (f t1 t2 (V, C))" using assms(1) Cons.prems(4-6) by (simp add: sound_on_def c)
  note s = sound_resultD [OF this [unfolded f]]
  have "match_list f (zip os1' ts1) (zip os2' ts2') (V, C1) \<noteq> None" if b1
  proof (rule Cons.IH)
    show "\<forall>p \<in> C1. backed M (C1 \<union> V) p" by (rule s(3) [OF that])
    show "\<forall>t1 \<in> set ts1. \<forall>t2 \<in> set ts2'. \<forall>C. (\<forall>p \<in> C. backed M (C \<union> V) p) \<longrightarrow> f t1 t2 (V, C) \<noteq> None"
      using Cons.prems(7) by (simp add: c)
  qed (use Cons.prems(1-5) in \<open>simp_all add: c\<close>)
  then show ?case using s(1) by (simp add: c f del: not_None_eq)
qed simp

lemma match_total:
  assumes "types_ok M c1 S1" "types_ok M c2 S2" "c1 \<noteq> c2" "finite S1" "finite S2" "ranked M S1 rk N"
    and "t1 \<in> S1" "t2 \<in> S2" "V \<subseteq> raw_pairs M S1 S2" "\<forall>p \<in> C. backed M (C \<union> V) p"
    and "(card (raw_pairs M S1 S2) - card V) * Suc N + rk t1 < n"
  shows "match n M t1 t2 (V, C) \<noteq> None"
  using assms(7-)
proof (induction n arbitrary: t1 t2 V C)
  case (Suc n)
  let ?P = "raw_pairs M S1 S2"
  have fin: "finite ?P" using assms(4,5) by (simp add: raw_pairs_def)
  obtain q1 h1 cs1 where v1: "view M t1 = Some (q1, h1, cs1)" "set cs1 \<subseteq> S1" "fst t1 = c1"
    using assms(1) Suc.prems(1) unfolding types_ok_def by blast
  obtain q2 h2 cs2 where v2: "view M t2 = Some (q2, h2, cs2)" "set cs2 \<subseteq> S2" "fst t2 = c2"
    using assms(2) Suc.prems(2) unfolding types_ok_def by blast
  obtain u1 where u1: "getQualifiers M t1 = Some q1" "getUnqualifiedType M t1 = Some u1" "raw_view M u1 = Some (h1, cs1)"
    by (rule view_parts [OF v1(1)])
  obtain u2 where u2: "getQualifiers M t2 = Some q2" "getUnqualifiedType M t2 = Some u2" "raw_view M u2 = Some (h2, cs2)"
    by (rule view_parts [OF v2(1)])
  have P: "(u1, u2) \<in> ?P" using Suc.prems(1,2) u1(2) u2(2) by (force simp: raw_pairs_def)
  have rk: "rk c \<le> N" "\<not> is_record h1 \<Longrightarrow> rk c < rk t1" if "c \<in> set cs1" for c
    using assms(6) v1 that Suc.prems(1) by (auto simp: ranked_def)
  have "match_raw (match n M) M u1 u2 (V, C) \<noteq> None"
  proof (cases "is_record h1 \<and> is_record h2")
    case False
    have "f e1 e2 (V, C) \<noteq> None" if "cs1 = [e1]" "cs2 = [e2]" "h1 = h2" "f = match n M" for e1 e2 f
      unfolding that(4) using that(1-3) v1(2) v2(2) Suc.prems(3-5) False rk(2) [of e1] by (intro Suc.IH) auto
    then show ?thesis
      using match_raw_simple [OF u1(3) u2(3)] False by (auto simp: match_simple_def split: list.splits)
  next
    case True
    then obtain k1 n1 p1 a1 o1 k2 n2 p2 a2 o2 where h: "h1 = HRecord k1 n1 p1 a1 o1" "h2 = HRecord k2 n2 p2 a2 o2"
      by (cases h1; cases h2) (auto simp: is_record_def)
    have len: "length o1 = length cs1" "length o2 = length cs2"
      using u1(3) u2(3) unfolding h by (elim raw_view_kind; force dest: those_map_length)+
    have "match_list (match n M) (zip o1 cs1) (zip o2 cs2) (insert (u1, u2) V, C) \<noteq> None"
      if new: "(u1, u2) \<notin> V" and l: "length o1 = length o2"
    proof (rule match_list_total [OF match_sound [OF assms(1-3)]])
      show "\<forall>p \<in> C. backed M (C \<union> insert (u1, u2) V) p" using Suc.prems(4) by (auto elim: backed_mono)
      have V: "insert (u1, u2) V \<subseteq> ?P" "finite V" using Suc.prems(3) P fin finite_subset by auto
      then have "Suc (card V) \<le> card ?P" using new card_mono [OF fin V(1)] by simp
      then obtain k where k: "card ?P - card V = Suc k" "card ?P - card (insert (u1, u2) V) = k"
        using new V(2) by (metis Suc_diff_le card_insert_disjoint diff_Suc_Suc)
      have "k * Suc N + N < n" using Suc.prems(5) by (simp add: k(1))
      then have "(card ?P - card (insert (u1, u2) V)) * Suc N + rk c < n" if "c \<in> set cs1" for c
        using rk(1) [OF that] unfolding k(2) by linarith
      then show "\<forall>t1 \<in> set cs1. \<forall>t2 \<in> set cs2. \<forall>C. (\<forall>p \<in> C. backed M (C \<union> insert (u1, u2) V) p) \<longrightarrow>
          match n M t1 t2 (insert (u1, u2) V, C) \<noteq> None"
        using v1(2) v2(2) V(1) Suc.IH by blast
    qed (use len l v1(2) v2(2) in simp_all)
    then show ?thesis
      using match_raw_record [OF u1(3) [unfolded h] u2(3) [unfolded h]] by auto
  qed
  then show ?case by (simp add: u1(1,2) u2(1,2) del: not_None_eq)
qed simp


text \<open>What a comparator with a cache of justified pairs answers.\<close>

lemma equals_outcome:
  assumes "types_ok M c1 S1" "types_ok M c2 S2" "c1 \<noteq> c2" "finite S1" "finite S2" "ranked M S1 rk N"
    and "t1 \<in> S1" "t2 \<in> S2" "\<forall>p \<in> C. backed M C p"
    and "card (raw_pairs M S1 S2) * Suc N + N < n"
  shows "\<exists>C'. equals n M t1 t2 C = Some (alike M t1 t2, C') \<and> (alike M t1 t2 \<longrightarrow> (\<forall>p \<in> C'. backed M C' p))"
proof -
  have ok: "\<forall>p \<in> C. backed M (C \<union> {}) p" using assms(9) by simp
  have "rk t1 \<le> N" using assms(6,7) by (simp add: ranked_def)
  then have "match n M t1 t2 ({}, C) \<noteq> None"
    using assms(10) by (intro match_total [OF assms(1-8) _ ok]) simp_all
  then obtain b V' C' where r: "match n M t1 t2 ({}, C) = Some (b, V', C')" by (cases "match n M t1 t2 ({}, C)") auto
  have "sound_result M [t1] [t2] {} C (match n M t1 t2 ({}, C))"
    using match_sound [OF assms(1-3), of n] assms(7,8) ok unfolding sound_on_def by blast
  note s = sound_resultD [OF this [unfolded r]]
  have "b = alike M t1 t2" using s(3-5) just_alike [of C' M t1 t2] by (cases b) auto
  then show ?thesis using r s(3) by (intro exI [of _ C']) (simp add: equals_def)
qed

lemma equals_decides_alike:
  assumes "types_ok M c1 S1" "types_ok M c2 S2" "c1 \<noteq> c2" "finite S1" "finite S2" "ranked M S1 rk N" "t1 \<in> S1" "t2 \<in> S2"
  shows "\<exists>K. \<forall>n \<ge> K. map_option fst (equals n M t1 t2 {}) = Some (alike M t1 t2)"
proof (intro exI [of _ "Suc (card (raw_pairs M S1 S2) * Suc N + N)"] allI impI)
  fix n assume "Suc (card (raw_pairs M S1 S2) * Suc N + N) \<le> n"
  then obtain C' where "equals n M t1 t2 {} = Some (alike M t1 t2, C')"
    using equals_outcome [OF assms, of "{}" n] by auto
  then show "map_option fst (equals n M t1 t2 {}) = Some (alike M t1 t2)" by simp
qed

lemma same_arguments_decides:
  assumes "types_ok M c1 S1" "types_ok M c2 S2" "c1 \<noteq> c2" "finite S1" "finite S2" "ranked M S1 rk N"
    and "those (map (getArgument M Sg1) Is) = Some as1" "those (map (getArgument M Sg2) Is) = Some as2"
    and "set as1 \<subseteq> S1" "set as2 \<subseteq> S2" "\<forall>p \<in> C. backed M C p" "card (raw_pairs M S1 S2) * Suc N + N < n"
  shows "same_arguments n M Sg1 Sg2 Is C = Some (list_all2 (alike M) as1 as2)"
  using assms(7-11)
proof (induction Is arbitrary: as1 as2 C)
  case (Cons I Is)
  obtain a1 as1' where 1: "as1 = a1 # as1'" "getArgument M Sg1 I = Some a1" "those (map (getArgument M Sg1) Is) = Some as1'"
    using Cons.prems(1) unfolding those_map_Cons by blast
  obtain a2 as2' where 2: "as2 = a2 # as2'" "getArgument M Sg2 I = Some a2" "those (map (getArgument M Sg2) Is) = Some as2'"
    using Cons.prems(2) unfolding those_map_Cons by blast
  have in_S: "a1 \<in> S1" "a2 \<in> S2" "set as1' \<subseteq> S1" "set as2' \<subseteq> S2" using Cons.prems(3,4) 1(1) 2(1) by auto
  obtain C' where C': "equals n M a1 a2 C = Some (alike M a1 a2, C')" "alike M a1 a2 \<Longrightarrow> \<forall>p \<in> C'. backed M C' p"
    using equals_outcome [OF assms(1-6) in_S(1,2) Cons.prems(5) assms(12)] by blast
  show ?case
    using C' Cons.IH [OF 1(3) 2(3) in_S(3,4)] by (simp add: 1 2)
qed simp

end
