(* ===== verification/Type_Signature.thy ===== *)
theory Type_Signature
  imports Type_Proof
begin

lemma same_signature_decides:
  assumes "types_ok M c1 S1" "types_ok M c2 S2" "c1 \<noteq> c2" "finite S1" "finite S2" "ranked M S1 rk N"
    and "getNumArguments M Sg1 = Some n1" "those (map (getArgument M Sg1) [0..<n1]) = Some as1" "set as1 \<subseteq> S1"
    and "getNumArguments M Sg2 = Some n2" "those (map (getArgument M Sg2) [0..<n2]) = Some as2" "set as2 \<subseteq> S2"
  shows "\<exists>K. \<forall>n \<ge> K. same_signature n M Sg1 Sg2 = Some (list_all2 (alike M) as1 as2)"
proof (intro exI [of _ "Suc (card (raw_pairs M S1 S2) * Suc N + N)"] allI impI)
  fix n assume n: "Suc (card (raw_pairs M S1 S2) * Suc N + N) \<le> n"
  have len: "length as1 = n1" "length as2 = n2" using assms(8,11) by (auto dest: those_map_length)
  show "same_signature n M Sg1 Sg2 = Some (list_all2 (alike M) as1 as2)"
  proof (cases "n1 = n2")
    case True
    have "same_arguments n M Sg1 Sg2 [0..<n1] {} = Some (list_all2 (alike M) as1 as2)"
      using n True assms(11) by (intro same_arguments_decides [OF assms(1-6,8) _ assms(9,12)]) simp_all
    then show ?thesis using True assms(7,10) by (simp add: same_signature_def)
  next
    case False
    then have "\<not> list_all2 (alike M) as1 as2" using len by (auto dest: list_all2_lengthD)
    then show ?thesis using False assms(7,10) by (simp add: same_signature_def)
  qed
qed

text \<open>
  Comparing the signatures of a kernel built for two devices: with one comparator for all arguments,
  \<open>KernelSignature::operator==\<close> finds exactly the arguments that are alike, recursive records
  included. A comparator that has once answered no must not be used again before \<open>reset\<close>: pairs it
  cached while the enclosing comparison was still open stay in the cache.
\<close>

text \<open>
  C16: the signatures of a kernel in two modules, read from well-formed metadata whose cycles all pass
  through records, are found equal exactly when they have as many arguments and these unfold to the
  same types; the comparison returns for every pair of such signatures.
\<close>

theorem signatures_compared_exactly:
  assumes "types_ok M c1 S1" "types_ok M c2 S2" "c1 \<noteq> c2" "finite S1" "finite S2" "ranked M S1 rk N"
    and "getNumArguments M Sg1 = Some n1" "those (map (getArgument M Sg1) [0..<n1]) = Some as1" "set as1 \<subseteq> S1"
    and "getNumArguments M Sg2 = Some n2" "those (map (getArgument M Sg2) [0..<n2]) = Some as2" "set as2 \<subseteq> S2"
  shows "\<exists>K. \<forall>n \<ge> K. same_signature n M Sg1 Sg2 = Some (list_all2 (alike M) as1 as2)"
  by (rule same_signature_decides [OF assms])

text \<open>A kernel that takes the head of a linked list, in two contexts.\<close>

definition list_module :: "nat \<Rightarrow> nat \<Rightarrow> md_op list option" where
  "list_module c = map_of
     [(0, [MStr ''signature'', MNode (c, 1)]),
      (1, [MInt 0, MInt 4, MNode (c, 2)]),
      (2, [MInt 0, MInt 5, MStr ''list'', MInt 0, MNode (c, 3)]),
      (3, [MInt 2, MInt 128, MInt 64, MInt 0, MNode (c, 4), MInt 0, MNode (c, 1), MInt 64]),
      (4, [MInt 0, MInt 0, MInt 5]),
      (9, [MNode (c, 0)])]"

definition list_modules :: metadata where
  "list_modules n = list_module (fst n) (snd n)"

lemmas type_eval = operand_def int_op_def node_op_def str_op_def isRawType_def isQualType_def Type_def llvm_assert_def
  getUnqualifiedType_def getQualifiers_def on_raw_def getKind_def kind_of_def getPrimitiveClass_def primitive_classes_def
  getNumElements_def getElementType_def isRecordTypeAnonymous_def getRecordTypeName_def RecordTypeBody_def
  getRecordTypeBody_def getAlignment_def isPacked_def getNumFields_def getField_def getFieldOffset_def

lemmas view_eval = type_eval view_def raw_view_def record_view_def record_name_def

lemma list_module_nodes:
  "list_modules (c, 0) = Some [MStr ''signature'', MNode (c, 1)]"
  "list_modules (c, Suc 0) = Some [MInt 0, MInt 4, MNode (c, 2)]"
  "list_modules (c, 2) = Some [MInt 0, MInt 5, MStr ''list'', MInt 0, MNode (c, 3)]"
  "list_modules (c, 3) = Some [MInt 2, MInt 128, MInt 64, MInt 0, MNode (c, 4), MInt 0, MNode (c, 1), MInt 64]"
  "list_modules (c, 4) = Some [MInt 0, MInt 0, MInt 5]"
  "list_modules (c, 9) = Some [MNode (c, 0)]"
  by (simp_all add: list_modules_def list_module_def)

lemma list_module_views:
  "view list_modules (c, Suc 0) = Some (0, HPointer, [(c, 2)])"
  "raw_view list_modules (c, 2) = Some (HRecord False (Some ''list'') False 64 [0, 64], [(c, 4), (c, 1)])"
  "view list_modules (c, 2) = Some (0, HRecord False (Some ''list'') False 64 [0, 64], [(c, 4), (c, 1)])"
  "view list_modules (c, 4) = Some (0, HPrimitive PInt, [])"
  by (simp_all add: view_eval list_module_nodes upt_rec)

lemma list_module_alike: "alike list_modules (c, Suc 0) (c', Suc 0)"
proof (rule just_alike [of "{((c, 2), (c', 2))}"])
  let ?R = "{((c, 2), (c', 2))} :: pairs"
  have r: "just list_modules ?R (c, 2) (c', 2)"
    by (rule just_pair [of _ "(c, 2)" 0 "(c', 2)" "(c, 2)" "(c', 2)"])
       (simp_all add: type_eval list_module_nodes)
  show p: "just list_modules ?R (c, Suc 0) (c', Suc 0)"
    by (rule just_view [OF list_module_views(1) list_module_views(1)]) (use r in simp)
  have "just list_modules ?R (c, 4) (c', 4)"
    by (rule just_view [OF list_module_views(4) list_module_views(4)]) simp
  then show "\<forall>p \<in> ?R. backed list_modules ?R p"
    using p by (simp add: backed_def list_module_views)
qed

definition list_types :: "nat \<Rightarrow> node set" where
  "list_types c = {(c, Suc 0), (c, 2), (c, 4)}"

definition list_rank :: "node \<Rightarrow> nat" where
  "list_rank t = (if snd t = Suc 0 then 1 else 0)"

lemma list_types_ok:
  "types_ok list_modules c (list_types c)" "finite (list_types c)" "ranked list_modules (list_types c) list_rank 1"
  "getNumArguments list_modules (c, 0) = Some 1"
  "those (map (getArgument list_modules (c, 0)) [0..<1]) = Some [(c, Suc 0)]" "set [(c, Suc 0)] \<subseteq> list_types c"
  by (auto simp: types_ok_def ranked_def list_types_def list_rank_def list_module_views is_record_def)
     (simp_all add: getNumArguments_def getArgument_def type_eval list_module_nodes upt_rec)

theorem signatures_compared_exactly_witness:
  "\<exists>K. \<forall>n \<ge> K. same_signature n list_modules (0, 0) (1, 0) = Some True"
  using signatures_compared_exactly [OF list_types_ok(1) list_types_ok(1) _ list_types_ok(2,2,3) list_types_ok(4-6) list_types_ok(4-6),
      of 0 1] list_module_alike by simp

section \<open>Using a comparator twice\<close>

text \<open>
  Two structures that point to each other; the first differs in the type of its last field. The
  comparison of the first pair fails, but has cached the second pair, which it found equal under the
  assumption that the first one is. Asked for the second pair, the comparator now says yes.
\<close>

definition pair_module :: "nat \<Rightarrow> nat \<Rightarrow> md_op list option" where
  "pair_module c = map_of
     [(1, [MInt 0, MInt 4, MNode (c, 3)]),
      (2, [MInt 0, MInt 4, MNode (c, 5)]),
      (3, [MInt 0, MInt 5, MStr ''A'', MInt 0, MNode (c, 4)]),
      (4, [MInt 2, MInt 128, MInt 64, MInt 0, MNode (c, 2), MInt 0, MNode (c, 7), MInt 64]),
      (5, [MInt 0, MInt 5, MStr ''B'', MInt 0, MNode (c, 6)]),
      (6, [MInt 2, MInt 64, MInt 64, MInt 0, MNode (c, 1), MInt 0]),
      (7, [MInt 0, MInt 0, if c = 0 then MInt 5 else MInt 10])]"

definition pair_modules :: metadata where
  "pair_modules n = pair_module (fst n) (snd n)"

lemma pair_module_nodes:
  "pair_modules (c, Suc 0) = Some [MInt 0, MInt 4, MNode (c, 3)]"
  "pair_modules (c, 2) = Some [MInt 0, MInt 4, MNode (c, 5)]"
  "pair_modules (c, 3) = Some [MInt 0, MInt 5, MStr ''A'', MInt 0, MNode (c, 4)]"
  "pair_modules (c, 4) = Some [MInt 2, MInt 128, MInt 64, MInt 0, MNode (c, 2), MInt 0, MNode (c, 7), MInt 64]"
  "pair_modules (c, 5) = Some [MInt 0, MInt 5, MStr ''B'', MInt 0, MNode (c, 6)]"
  "pair_modules (c, 6) = Some [MInt 2, MInt 64, MInt 64, MInt 0, MNode (c, 1), MInt 0]"
  "pair_modules (c, 7) = Some [MInt 0, MInt 0, if c = 0 then MInt 5 else MInt 10]"
  by (simp_all add: pair_modules_def pair_module_def)

lemmas compare_eval = type_eval match_raw_def match_record_def same_names_def same_layout_def equals_def Let_def

lemma nine: "9 = Suc (Suc (Suc (Suc (Suc (Suc (Suc (Suc (Suc 0))))))))"
  by simp

lemma stale_cache:
  "equals 9 pair_modules (0, 3) (1, 3) {} = Some (False, {((0, 5), (1, 5))}) \<and>
   equals 9 pair_modules (0, 5) (1, 5) {((0, 5), (1, 5))} = Some (True, {((0, 5), (1, 5))}) \<and>
   equals 9 pair_modules (0, 5) (1, 5) {} = Some (False, {})"
  unfolding nine by (simp add: compare_eval pair_module_nodes upt_rec)

end
