(* ===== verification/Program_Proof.thy ===== *)
theory Program_Proof
  imports Program_Build Type_Signature
begin

text \<open>
  What a program promises its client: which devices a build serves, that the code of a kernel stays
  loaded while the kernel is attached, and that a program made from the binaries of another one is the
  same program.
\<close>

section \<open>The map of build information\<close>

lemma map_of_map_put [simp]: "map_of (map_put k v xs) = (map_of xs)(k \<mapsto> v)"
  by (induction k v xs rule: map_put.induct) auto

lemma keys_map_put [simp]: "set (map fst (map_put k v xs)) = insert k (set (map fst xs))"
  by (induction k v xs rule: map_put.induct) auto

lemma sorted_map_put: "sorted_wrt (<) (map fst xs) \<Longrightarrow> sorted_wrt (<) (map fst (map_put k v xs))"
proof (induction k v xs rule: map_put.induct)
  case (2 k v k' v' xs)
  then show ?case
    using keys_map_put [of k v xs] by (auto simp del: keys_map_put simp: dest: less_trans)
qed simp

lemma set_info_fields [simp]:
  "map_of (BuildInfo (set_info d I P)) = (map_of (BuildInfo P))(d \<mapsto> I)"
  "PSrc (set_info d I P) = PSrc P" "PDevices (set_info d I P) = PDevices P"
  "AttachedKernels (set_info d I P) = AttachedKernels P" "PContext (set_info d I P) = PContext P"
  by (simp_all add: set_info_def)

section \<open>Building for one device\<close>

text \<open>What building for a device leaves in its entry: the compiled module, or the old one and an error.\<close>

definition compiled :: "(dev_id \<Rightarrow> compiler) \<Rightarrow> string \<Rightarrow> string \<Rightarrow> dev_id \<Rightarrow> llvm_module option" where
  "compiled cc Src Opts d = fst (run_compiler (cc d) Src Opts)"

definition entry :: "program \<Rightarrow> dev_id \<Rightarrow> build_info" where
  "entry P d = (case map_of (BuildInfo P) d of None \<Rightarrow> BuildInformation | Some I \<Rightarrow> I)"

definition built_with :: "(dev_id \<Rightarrow> compiler) \<Rightarrow> string \<Rightarrow> string \<Rightarrow> dev_id \<Rightarrow> build_info \<Rightarrow> bool" where
  "built_with cc Src Opts d I \<longleftrightarrow>
     (\<exists>m. compiled cc Src Opts d = Some m \<and> BuildStatus I = CL_BUILD_SUCCESS \<and> BitCode I = Some m \<and>
          Binary I = Some (WriteBitcode (cc d) m) \<and> BuildOpts I = Opts)"

definition failed_from :: "build_info \<Rightarrow> build_info \<Rightarrow> bool" where
  "failed_from J I \<longleftrightarrow> BuildStatus I = CL_BUILD_ERROR \<and> BitCode I = BitCode J \<and> Binary I = Binary J"

lemma entry_set_info [simp]: "entry (set_info d I P) d' = (if d' = d then I else entry P d')"
  by (simp add: entry_def)

text \<open>The entry a build leaves.\<close>

definition built_entry :: "(dev_id \<Rightarrow> compiler) \<Rightarrow> string \<Rightarrow> string \<Rightarrow> dev_id \<Rightarrow> build_info \<Rightarrow> build_info" where
  "built_entry cc Src Opts d J =
     (case run_compiler (cc d) Src Opts of
        (None, log) \<Rightarrow> J\<lparr>BuildOpts := Opts, BuildLog := BuildLog J @ log, BuildStatus := CL_BUILD_ERROR\<rparr>
      | (Some m, log) \<Rightarrow> J\<lparr>BuildOpts := Opts, BuildLog := BuildLog J @ log, Binary := Some (WriteBitcode (cc d) m),
                          BitCode := Some m, BuildStatus := CL_BUILD_SUCCESS\<rparr>)"

lemma built_entry_cases:
  "compiled cc Src Opts d = None \<Longrightarrow> failed_from J (built_entry cc Src Opts d J)"
  "compiled cc Src Opts d = Some m \<Longrightarrow> built_with cc Src Opts d (built_entry cc Src Opts d J)"
  "\<not> BuildInProgress (built_entry cc Src Opts d J)"
  by (auto simp: compiled_def built_entry_def failed_from_def built_with_def BuildInProgress_def split: prod.splits option.splits)

lemma BuildFor_source:
  assumes "PSrc P = Some Src" "d \<in> set (PDevices P)" "\<not> BuildInProgress (entry P d)"
  shows "BuildFor cc Opts d P = (set_info d (built_entry cc Src Opts d (entry P d)) P,
           if compiled cc Src Opts d = None then CL_BUILD_PROGRAM_FAILURE else CL_SUCCESS)"
  using assms by (auto simp: BuildFor_def entry_def [symmetric] Let_def PIsAssociatedWith_def compiled_def built_entry_def
                             RegisterBuildDone_def split: prod.splits option.splits)

section \<open>Building for several devices\<close>

definition no_builds_open :: "program \<Rightarrow> bool" where
  "no_builds_open P \<longleftrightarrow> (\<forall>d. \<not> BuildInProgress (entry P d))"

lemma no_builds_open_set_info: "no_builds_open P \<Longrightarrow> \<not> BuildInProgress I \<Longrightarrow> no_builds_open (set_info d I P)"
  by (simp add: no_builds_open_def)

definition served :: "(dev_id \<Rightarrow> compiler) \<Rightarrow> string \<Rightarrow> string \<Rightarrow> dev_id list \<Rightarrow> dev_id list" where
  "served cc Src Opts ds = takeWhile (\<lambda>d. compiled cc Src Opts d \<noteq> None) ds"

lemma served_split:
  assumes "served cc Src Opts ds \<noteq> ds"
  shows "compiled cc Src Opts (ds ! length (served cc Src Opts ds)) = None"
    and "take (Suc (length (served cc Src Opts ds))) ds = served cc Src Opts ds @ [ds ! length (served cc Src Opts ds)]"
proof -
  have l: "length (served cc Src Opts ds) < length ds"
    using assms unfolding served_def by (metis length_takeWhile_le nat_less_le takeWhile_eq_all_conv takeWhile_dropWhile_id append_Nil2 append_eq_append_conv)
  show "compiled cc Src Opts (ds ! length (served cc Src Opts ds)) = None"
    using nth_length_takeWhile [of "\<lambda>d. compiled cc Src Opts d \<noteq> None" ds] l by (simp add: served_def)
  show "take (Suc (length (served cc Src Opts ds))) ds = served cc Src Opts ds @ [ds ! length (served cc Src Opts ds)]"
    using l by (simp add: take_Suc_conv_app_nth served_def takeWhile_eq_take [symmetric])
qed

lemma build_loop_source:
  assumes "PSrc P = Some Src" "set ds \<subseteq> set (PDevices P)" "no_builds_open P"
  shows "\<exists>P'. build_loop cc Opts ds P =
        (P', if served cc Src Opts ds = ds then CL_SUCCESS else CL_BUILD_PROGRAM_FAILURE) \<and>
      P' = P\<lparr>BuildInfo := BuildInfo P'\<rparr> \<and> no_builds_open P' \<and>
      (\<forall>d \<in> set (served cc Src Opts ds). built_with cc Src Opts d (entry P' d)) \<and>
      (\<forall>d. d \<notin> set (take (Suc (length (served cc Src Opts ds))) ds) \<longrightarrow> map_of (BuildInfo P') d = map_of (BuildInfo P) d) \<and>
      (served cc Src Opts ds \<noteq> ds \<longrightarrow>
         failed_from (entry P (ds ! length (served cc Src Opts ds))) (entry P' (ds ! length (served cc Src Opts ds))))"
  using assms
proof (induction ds arbitrary: P)
  case Nil
  then show ?case by (simp add: served_def)
next
  case (Cons d ds)
  define P1 where "P1 = set_info d (built_entry cc Src Opts d (entry P d)) P"
  have b: "BuildFor cc Opts d P = (P1, if compiled cc Src Opts d = None then CL_BUILD_PROGRAM_FAILURE else CL_SUCCESS)"
    unfolding P1_def using Cons.prems by (intro BuildFor_source) (simp_all add: no_builds_open_def)
  have P1: "PSrc P1 = Some Src" "PDevices P1 = PDevices P" "no_builds_open P1"
    using Cons.prems by (simp_all add: P1_def no_builds_open_set_info built_entry_cases)
  have P1': "P1 = P\<lparr>BuildInfo := BuildInfo P1\<rparr>" by (simp add: P1_def set_info_def)
  show ?case
  proof (cases "compiled cc Src Opts d")
    case None
    then show ?thesis using b P1 P1' by (auto simp: served_def P1_def built_entry_cases)
  next
    case (Some m)
    let ?s = "served cc Src Opts ds" and ?f = "ds ! length (served cc Src Opts ds)"
    have s: "served cc Src Opts (d # ds) = d # ?s" using Some by (simp add: served_def)
    have f: "?s \<noteq> ds \<Longrightarrow> compiled cc Src Opts ?f = None" by (rule served_split)
    obtain P' where IH: "build_loop cc Opts ds P1 = (P', if ?s = ds then CL_SUCCESS else CL_BUILD_PROGRAM_FAILURE)"
      "P' = P1\<lparr>BuildInfo := BuildInfo P'\<rparr>" "no_builds_open P'"
      "\<forall>d \<in> set ?s. built_with cc Src Opts d (entry P' d)"
      "\<forall>d. d \<notin> set (take (Suc (length ?s)) ds) \<longrightarrow> map_of (BuildInfo P') d = map_of (BuildInfo P1) d"
      "?s \<noteq> ds \<longrightarrow> failed_from (entry P1 ?f) (entry P' ?f)"
      using Cons.IH [of P1] Cons.prems P1(1-3) by auto
    have e1: "built_with cc Src Opts d (entry P1 d)" using Some by (simp add: P1_def built_entry_cases)
    have d: "built_with cc Src Opts d (entry P' d)"
    proof (cases "d \<in> set ?s")
      case False
      have "d \<notin> set (take (Suc (length ?s)) ds)"
        using False f Some by (cases "?s = ds") (auto simp: served_split(2))
      then show ?thesis using IH(5) e1 by (simp add: entry_def)
    qed (use IH(4) in blast)
    have "build_loop cc Opts (d # ds) P = (P', if ?s = ds then CL_SUCCESS else CL_BUILD_PROGRAM_FAILURE)"
      using b Some IH(1) by simp
    moreover have "P' = P\<lparr>BuildInfo := BuildInfo P'\<rparr>" using IH(2) P1' by (metis program.surjective program.update_convs(4))
    moreover have "\<forall>x. x \<notin> set (take (Suc (Suc (length ?s))) (d # ds)) \<longrightarrow> map_of (BuildInfo P') x = map_of (BuildInfo P) x"
      using IH(5) by (simp add: P1_def)
    moreover have "?s \<noteq> ds \<longrightarrow> failed_from (entry P ?f) (entry P' ?f)"
      using IH(6) f Some by (auto simp: P1_def split: if_splits)
    ultimately show ?thesis unfolding s using IH(3,4) d by (intro exI [of _ P']) simp
  qed
qed

text \<open>
  C22: building a program from its source, for devices of the program and with no kernel attached,
  compiles for one device after the other until a compilation fails. It succeeds exactly when no
  compilation fails. The devices before the failing one are then built with the compiled module and its
  bit-code as binary, the failing one is in error and keeps its former module, and the build
  information of all other devices is untouched; the callback is called if there is one.
\<close>

theorem build_program_outcome:
  assumes "PSrc P = Some Src" "\<not> HasAttachedKernels P" "no_builds_open P"
    and "ds \<noteq> []" "set ds \<subseteq> set (PDevices P)" "has_notify \<or> \<not> has_data"
  shows "\<exists>P'. clBuildProgram cc (Some P) (length ds) (Some (map Some ds)) (Some Opts) has_notify has_data =
        Some (Some P', if served cc Src Opts ds = ds then CL_SUCCESS else CL_BUILD_PROGRAM_FAILURE, has_notify) \<and>
      P' = P\<lparr>BuildInfo := BuildInfo P'\<rparr> \<and>
      (\<forall>d \<in> set (served cc Src Opts ds). built_with cc Src Opts d (entry P' d)) \<and>
      (\<forall>d. d \<notin> set (take (Suc (length (served cc Src Opts ds))) ds) \<longrightarrow> map_of (BuildInfo P') d = map_of (BuildInfo P) d) \<and>
      (served cc Src Opts ds \<noteq> ds \<longrightarrow>
         failed_from (entry P (ds ! length (served cc Src Opts ds))) (entry P' (ds ! length (served cc Src Opts ds))))"
proof -
  have "map the (map Some ds) = ds" by (simp add: comp_def)
  then have "clBuildProgram cc (Some P) (length ds) (Some (map Some ds)) (Some Opts) has_notify has_data =
      (case build_loop cc Opts ds P of (P1, e) \<Rightarrow> Some (Some P1, e, has_notify))"
    using assms(2,4,6) by (auto simp: clBuildProgram_def Build_def image_iff comp_def split: prod.splits)
  with build_loop_source [OF assms(1,5,3), of cc Opts] show ?thesis by auto
qed

section \<open>Histories of a program\<close>

text \<open>
  The calls a client can make on one program; each kernel it releases for good detaches its descriptor.
\<close>

inductive program_history :: "(dev_id \<Rightarrow> compiler) \<Rightarrow> metadata \<Rightarrow> program \<Rightarrow> bool" for cc M where
  from_source: "clCreateProgramWithSource ctx n strings lengths = Some (Inr P) \<Longrightarrow> program_history cc M P"
| from_binaries: "clCreateProgramWithBinary cc ctx list ws = Some (st, Inr P) \<Longrightarrow> program_history cc M P"
| build: "program_history cc M P \<Longrightarrow> clBuildProgram cc (Some P) n ds opts nf dt = Some (Some P', r) \<Longrightarrow> program_history cc M P'"
| create_kernel: "program_history cc M P \<Longrightarrow> clCreateKernel n M (Some P) name = Some (Some P', r) \<Longrightarrow> program_history cc M P'"
| create_kernels: "program_history cc M P \<Longrightarrow> clCreateKernelsInProgram M (Some P) n w wn = Some (Some P', r) \<Longrightarrow> program_history cc M P'"
| detach: "program_history cc M P \<Longrightarrow> program_history cc M (DetachKernel D P)"

definition loaded_kernel :: "metadata \<Rightarrow> program \<Rightarrow> kernel_descriptor \<Rightarrow> dev_id \<times> kernel_info \<Rightarrow> bool" where
  "loaded_kernel M P D x \<longleftrightarrow>
     (\<exists>m Ks. BitCode (entry P (fst x)) = Some m \<and> module_kernels M m = Some Ks \<and> snd x \<in> set Ks \<and>
             getName (snd x) = Some (DName D))"

definition kernels_loaded :: "metadata \<Rightarrow> program \<Rightarrow> bool" where
  "kernels_loaded M P \<longleftrightarrow> (\<forall>D \<in> set (AttachedKernels P). \<forall>x \<in> set (Infos D). loaded_kernel M P D x)"

definition code_of_source :: "(dev_id \<Rightarrow> compiler) \<Rightarrow> string \<Rightarrow> dev_id \<Rightarrow> build_info \<Rightarrow> bool" where
  "code_of_source cc Src d I \<longleftrightarrow>
     (\<forall>m. BitCode I = Some m \<longrightarrow> Binary I = Some (WriteBitcode (cc d) m) \<and> (\<exists>Opts. compiled cc Src Opts d = Some m)) \<and>
     (IsBuilt I \<longrightarrow> BitCode I \<noteq> None)"

definition code_of_binary :: "(dev_id \<Rightarrow> compiler) \<Rightarrow> dev_id \<Rightarrow> build_info \<Rightarrow> bool" where
  "code_of_binary cc d I \<longleftrightarrow>
     I = BuildInformation \<or> (\<exists>b. Binary I = Some b \<and> BitCode I = loadBitcode (cc d) b \<and> (IsBuilt I \<longleftrightarrow> BitCode I \<noteq> None))"

definition code_ok :: "(dev_id \<Rightarrow> compiler) \<Rightarrow> program \<Rightarrow> dev_id \<Rightarrow> build_info \<Rightarrow> bool" where
  "code_ok cc P d I \<longleftrightarrow> (case PSrc P of Some Src \<Rightarrow> code_of_source cc Src d I | None \<Rightarrow> code_of_binary cc d I)"

definition program_ok :: "(dev_id \<Rightarrow> compiler) \<Rightarrow> metadata \<Rightarrow> program \<Rightarrow> bool" where
  "program_ok cc M P \<longleftrightarrow>
     sorted_wrt (<) (map fst (BuildInfo P)) \<and> no_builds_open P \<and> kernels_loaded M P \<and>
     (\<forall>d. code_ok cc P d (entry P d))"

lemma program_ok_set_info:
  "program_ok cc M P \<Longrightarrow> AttachedKernels P = [] \<Longrightarrow> \<not> BuildInProgress I \<Longrightarrow> code_ok cc P d I \<Longrightarrow> program_ok cc M (set_info d I P)"
  by (auto simp: program_ok_def no_builds_open_set_info kernels_loaded_def code_ok_def split: option.splits)
     (simp_all add: set_info_def sorted_map_put)

lemma built_entry_code:
  "code_of_source cc Src d J \<Longrightarrow> code_of_source cc Src d (built_entry cc Src Opts d J)"
  by (auto simp: code_of_source_def built_entry_def IsBuilt_def compiled_def split: prod.splits option.splits)
     (metis fst_conv)+

lemma BuildFor_shape:
  "fst (BuildFor cc Opts d P) = set_info d (entry P d) P \<or>
   (\<exists>Src. PSrc P = Some Src \<and> fst (BuildFor cc Opts d P) = set_info d (built_entry cc Src Opts d (entry P d)) P)"
proof (cases "PSrc P = None \<or> \<not> PIsAssociatedWith P d \<or> BuildInProgress (entry P d)")
  case True
  then show ?thesis by (auto simp: BuildFor_def entry_def [symmetric] Let_def split: option.splits)
next
  case False
  then show ?thesis using BuildFor_source [of P _ d cc Opts] by (auto simp: PIsAssociatedWith_def)
qed

lemma BuildFor_keeps:
  assumes "program_ok cc M P" "AttachedKernels P = []"
  shows "program_ok cc M (fst (BuildFor cc Opts d P))" and "AttachedKernels (fst (BuildFor cc Opts d P)) = []"
proof -
  have p: "\<not> BuildInProgress (entry P d)" "code_ok cc P d (entry P d)"
    using assms by (auto simp: program_ok_def no_builds_open_def code_ok_def)
  show "program_ok cc M (fst (BuildFor cc Opts d P))"
    using BuildFor_shape [of cc Opts d P]
  proof (elim disjE exE conjE)
    fix Src assume "PSrc P = Some Src" "fst (BuildFor cc Opts d P) = set_info d (built_entry cc Src Opts d (entry P d)) P"
    with p show ?thesis
      by (simp add: program_ok_set_info assms built_entry_cases built_entry_code code_ok_def)
  qed (use p assms in \<open>simp add: program_ok_set_info\<close>)
  show "AttachedKernels (fst (BuildFor cc Opts d P)) = []" using BuildFor_shape [of cc Opts d P] assms by auto
qed

lemma build_loop_keeps:
  "program_ok cc M P \<Longrightarrow> AttachedKernels P = [] \<Longrightarrow> program_ok cc M (fst (build_loop cc Opts ds P))"
proof (induction ds arbitrary: P)
  case (Cons d ds)
  then show ?case using BuildFor_keeps [OF Cons.prems, of Opts d]
    by (auto split: prod.splits)
qed simp

lemma clBuildProgram_keeps:
  assumes "program_ok cc M P" "clBuildProgram cc (Some P) n ds opts nf dt = Some (Some P', r)"
  shows "program_ok cc M P'"
  using assms build_loop_keeps [of cc M P]
  by (auto simp: clBuildProgram_def Build_def HasAttachedKernels_def Let_def split: if_splits prod.splits) (metis fst_conv)+

subsection \<open>Creating kernels\<close>

lemma program_ok_attach:
  assumes "program_ok cc M P" "\<And>D x. D \<in> set Ds \<Longrightarrow> x \<in> set (Infos D) \<Longrightarrow> loaded_kernel M P D x"
  shows "program_ok cc M (P\<lparr>AttachedKernels := AttachedKernels P @ Ds\<rparr>)"
  using assms
  by (auto simp: program_ok_def no_builds_open_def kernels_loaded_def code_ok_def loaded_kernel_def entry_def)

lemma find_kernel_SomeD:
  "find_kernel M m Name = Some (Some K) \<Longrightarrow> \<exists>Ks. module_kernels M m = Some Ks \<and> K \<in> set Ks \<and> getName K = Some Name"
  by (auto simp: find_kernel_def bind_eq_Some_conv find_Some_iff)

lemma signature_found:
  "GetKernelSignature M Name I = Some S \<Longrightarrow> GetKernel M Name I = Some K \<Longrightarrow>
   \<exists>m. BitCode I = Some m \<and> find_kernel M m Name = Some (Some K)"
  by (auto simp: GetKernelSignature_def GetKernel_def bind_eq_Some_conv)

lemma defined_found:
  "DefineKernel M Name I = Some True \<Longrightarrow> GetKernel M Name I = Some K \<Longrightarrow>
   \<exists>m. BitCode I = Some m \<and> find_kernel M m Name = Some (Some K)"
  by (auto simp: DefineKernel_def GetKernel_def contains_kernel_def bind_eq_Some_conv)

lemma first_definingD:
  "first_defining M Name xs = Some (Some (x, ys)) \<Longrightarrow>
   DefineKernel M Name (snd x) = Some True \<and> (\<exists>zs. xs = zs @ x # ys)"
proof (induction xs)
  case (Cons y xs)
  then obtain d where d: "DefineKernel M Name (snd y) = Some d" by (auto simp: bind_eq_Some_conv)
  show ?case
  proof (cases d)
    case False
    then have "\<exists>zs. xs = zs @ x # ys" "DefineKernel M Name (snd x) = Some True" using Cons d by auto
    then show ?thesis by (metis append_Cons)
  qed (use Cons.prems d in auto)
qed simp

definition found_in :: "metadata \<Rightarrow> string \<Rightarrow> dev_id \<times> build_info \<Rightarrow> dev_id \<times> kernel_info \<Rightarrow> bool" where
  "found_in M Name x y \<longleftrightarrow>
     fst y = fst x \<and> (\<exists>m. BitCode (snd x) = Some m \<and> find_kernel M m Name = Some (Some (snd y)))"

lemma list_all2_source: "list_all2 P xs ys \<Longrightarrow> y \<in> set ys \<Longrightarrow> \<exists>x \<in> set xs. P x y"
  by (induction rule: list_all2_induct) auto

lemma collect_infosD:
  "collect_infos n M Name Fst xs infos = Some (Inr infos') \<Longrightarrow>
   \<exists>ys. infos' = infos @ ys \<and> list_all2 (found_in M Name) (filter (\<lambda>x. IsBuilt (snd x)) xs) ys"
proof (induction xs arbitrary: infos)
  case (Cons x xs)
  obtain Dev Cur where x: "x = (Dev, Cur)" by fastforce
  show ?case
  proof (cases "IsBuilt Cur")
    case True
    then obtain S K where K: "GetKernelSignature M Name Cur = Some S" "GetKernel M Name Cur = Some K"
      "collect_infos n M Name Fst xs (infos @ [(Dev, K)]) = Some (Inr infos')"
      using Cons.prems by (auto simp: x bind_eq_Some_conv split: if_splits)
    obtain ys where ys: "infos' = (infos @ [(Dev, K)]) @ ys" "list_all2 (found_in M Name) (filter (\<lambda>x. IsBuilt (snd x)) xs) ys"
      using Cons.IH [OF K(3)] by blast
    have "found_in M Name (Dev, Cur) (Dev, K)" using signature_found [OF K(1,2)] by (simp add: found_in_def)
    then show ?thesis using True ys by (intro exI [of _ "(Dev, K) # ys"]) (simp add: x)
  qed (use Cons in \<open>simp add: x\<close>)
qed simp

lemma sorted_entry:
  "sorted_wrt (<) (map fst (BuildInfo P)) \<Longrightarrow> (d, I) \<in> set (BuildInfo P) \<Longrightarrow> entry P d = I"
  by (simp add: entry_def map_of_is_SomeI strict_sorted_iff)

lemma new_kernelD: "new_kernel M D = Some k \<Longrightarrow> fst k = D"
  by (auto simp: new_kernel_def bind_eq_Some_conv split: list.splits)

lemma CreateKernelD:
  assumes "CreateKernel n M Name P = Some (P', r)" "P' \<noteq> P"
  shows "\<exists>Dev Fst rest K infos. first_defining M Name (BuildInfo P) = Some (Some ((Dev, Fst), rest)) \<and>
    GetKernel M Name Fst = Some K \<and> collect_infos n M Name Fst rest [(Dev, K)] = Some (Inr infos) \<and>
    P' = P\<lparr>AttachedKernels := AttachedKernels P @ [\<lparr>DName = Name, Infos = infos\<rparr>]\<rparr>"
proof -
  obtain Dev Fst rest K c where f: "first_defining M Name (BuildInfo P) = Some (Some ((Dev, Fst), rest))"
    "GetKernel M Name Fst = Some K" "collect_infos n M Name Fst rest [(Dev, K)] = Some c"
    and c: "(case c of Inl e \<Rightarrow> Some (P, Inl e)
       | Inr infos \<Rightarrow> do { k \<leftarrow> new_kernel M \<lparr>DName = Name, Infos = infos\<rparr>;
                         Some (P\<lparr>AttachedKernels := AttachedKernels P @ [fst k]\<rparr>, Inr k) }) = Some (P', r)"
    using assms by (auto simp: CreateKernel_def bind_eq_Some_conv split: if_splits option.splits)
  then show ?thesis using assms(2) by (cases c) (auto simp: bind_eq_Some_conv dest: new_kernelD)
qed

lemma found_loaded:
  assumes "sorted_wrt (<) (map fst (BuildInfo P))" "x \<in> set (BuildInfo P)" "found_in M (DName D) x y"
  shows "loaded_kernel M P D y"
proof -
  obtain m where m: "BitCode (snd x) = Some m" "find_kernel M m (DName D) = Some (Some (snd y))" "fst y = fst x"
    using assms(3) by (auto simp: found_in_def)
  then have "entry P (fst y) = snd x" using sorted_entry [OF assms(1)] assms(2) by simp
  with m find_kernel_SomeD [OF m(2)] show ?thesis by (simp add: loaded_kernel_def)
qed

lemma clCreateKernel_keeps:
  assumes "program_ok cc M P" "clCreateKernel n M (Some P) name = Some (Some P', r)"
  shows "program_ok cc M P'"
proof (cases "P' = P")
  case False
  obtain Name where Name: "name = Some Name" using False assms(2) by (auto simp: clCreateKernel_def split: option.splits)
  obtain Dev Fst rest K infos where f: "first_defining M Name (BuildInfo P) = Some (Some ((Dev, Fst), rest))"
    "GetKernel M Name Fst = Some K" "collect_infos n M Name Fst rest [(Dev, K)] = Some (Inr infos)"
    "P' = P\<lparr>AttachedKernels := AttachedKernels P @ [\<lparr>DName = Name, Infos = infos\<rparr>]\<rparr>"
    using False assms(2) CreateKernelD [of n M Name P P'] by (auto simp: Name clCreateKernel_def)
  obtain zs where zs: "BuildInfo P = zs @ (Dev, Fst) # rest" and def: "DefineKernel M Name Fst = Some True"
    using first_definingD [OF f(1)] by auto
  have srt: "sorted_wrt (<) (map fst (BuildInfo P))" using assms(1) by (simp add: program_ok_def)
  obtain ys where ys: "infos = (Dev, K) # ys" "list_all2 (found_in M Name) (filter (\<lambda>x. IsBuilt (snd x)) rest) ys"
    using collect_infosD [OF f(3)] by auto
  have "\<exists>x \<in> set (BuildInfo P). found_in M Name x y" if "y \<in> set infos" for y
  proof (cases "y \<in> set ys")
    case True
    then show ?thesis using list_all2_source [OF ys(2)] zs by fastforce
  next
    case False
    then have "found_in M Name (Dev, Fst) y" using that ys(1) defined_found [OF def f(2)] by (simp add: found_in_def)
    then show ?thesis using zs by auto
  qed
  then have "loaded_kernel M P \<lparr>DName = Name, Infos = infos\<rparr> y" if "y \<in> set infos" for y
    using found_loaded [OF srt] that by (metis kernel_descriptor.select_convs(1))
  then show ?thesis unfolding f(4) by (intro program_ok_attach [OF assms(1)]) auto
qed (use assms in simp)

lemma those_map_all: "(\<And>x. x \<in> set xs \<Longrightarrow> f x = Some (g x)) \<Longrightarrow> those (map f xs) = Some (map g xs)"
  by (induction xs) auto

lemma those_map_source: "those (map f xs) = Some ys \<Longrightarrow> y \<in> set ys \<Longrightarrow> \<exists>x \<in> set xs. f x = Some y"
  by (induction xs arbitrary: ys) (auto split: option.splits)

lemma sign_push_source:
  "(nm, vs) \<in> set (sign_push k v S) \<Longrightarrow> y \<in> set vs \<Longrightarrow>
   y = v \<and> nm = k \<or> (\<exists>vs0. (nm, vs0) \<in> set S \<and> y \<in> set vs0)"
  by (induction k v S rule: sign_push.induct) (auto split: if_splits)

lemma sign_fold_source:
  "(nm, vs) \<in> set (foldl (\<lambda>S x. sign_push (g x) x S) S xs) \<Longrightarrow> y \<in> set vs \<Longrightarrow>
   y \<in> set xs \<and> nm = g y \<or> (\<exists>vs0. (nm, vs0) \<in> set S \<and> y \<in> set vs0)"
proof (induction xs arbitrary: S)
  case (Cons x xs)
  from Cons.IH [of "sign_push (g x) x S"] Cons.prems show ?case by (auto dest: sign_push_source)
qed auto

lemma SignMap_source:
  assumes "SignMap M P = Some S" "(nm, vs) \<in> set S" "y \<in> set vs"
  shows "\<exists>I m Ks. (fst y, I) \<in> set (BuildInfo P) \<and> BitCode I = Some m \<and> module_kernels M m = Some Ks \<and>
                 snd y \<in> set Ks \<and> getName (snd y) = Some nm"
proof -
  obtain xss where xss: "those (map (built_kernels M) (BuildInfo P)) = Some xss"
    "None \<notin> set (map (\<lambda>x. getName (snd x)) (concat xss))"
    "S = foldl (\<lambda>S x. sign_push (the (getName (snd x))) x S) [] (concat xss)"
    using assms(1) by (auto simp: SignMap_def Let_def bind_eq_Some_conv split: if_splits)
  have "y \<in> set (concat xss) \<and> nm = the (getName (snd y)) \<or> (\<exists>vs0. (nm, vs0) \<in> set [] \<and> y \<in> set vs0)"
    by (rule sign_fold_source [where g = "\<lambda>x. the (getName (snd x))"]) (use assms(2,3) xss(3) in simp_all)
  then have y: "y \<in> set (concat xss)" "nm = the (getName (snd y))" by simp_all
  then obtain xs where xs: "xs \<in> set xss" "y \<in> set xs" by auto
  then obtain x where "x \<in> set (BuildInfo P)" "built_kernels M x = Some xs" using those_map_source [OF xss(1)] by blast
  then obtain d I where "(d, I) \<in> set (BuildInfo P)" "built_kernels M (d, I) = Some xs" by (metis surj_pair)
  moreover have "getName (snd y) \<in> set (map (\<lambda>x. getName (snd x)) (concat xss))"
    unfolding set_map by (rule imageI [OF y(1)])
  then have "getName (snd y) = Some nm" using y(2) xss(2) by (metis option.collapse)
  ultimately show ?thesis using xs(2) by (auto simp: built_kernels_def bind_eq_Some_conv split: if_splits) blast
qed

lemma attached_source:
  assumes "those (map (\<lambda>(nm, infos). new_kernel M \<lparr>DName = nm, Infos = infos\<rparr>) S) = Some ks" "D \<in> set (map fst ks)"
  shows "\<exists>nm infos. (nm, infos) \<in> set S \<and> D = \<lparr>DName = nm, Infos = infos\<rparr>"
proof -
  obtain k where "k \<in> set ks" "D = fst k" using assms(2) by auto
  with those_map_source [OF assms(1), of k] show ?thesis by (auto dest: new_kernelD)
qed

lemma CreateKernelsInProgramD:
  "CreateKernelsInProgram M n w wn P = Some (P', r) \<Longrightarrow> P' \<noteq> P \<Longrightarrow>
   \<exists>S ks. SignMap M P = Some S \<and> those (map (\<lambda>(nm, infos). new_kernel M \<lparr>DName = nm, Infos = infos\<rparr>) S) = Some ks \<and>
          P' = P\<lparr>AttachedKernels := AttachedKernels P @ map fst ks\<rparr>"
  by (auto simp: CreateKernelsInProgram_def bind_eq_Some_conv Let_def split: if_splits)

lemma clCreateKernelsInProgram_keeps:
  assumes "program_ok cc M P" "clCreateKernelsInProgram M (Some P) n w wn = Some (Some P', r)"
  shows "program_ok cc M P'"
proof (cases "P' = P")
  case False
  have srt: "sorted_wrt (<) (map fst (BuildInfo P))" using assms(1) by (simp add: program_ok_def)
  obtain S ks where ks: "SignMap M P = Some S" "those (map (\<lambda>(nm, infos). new_kernel M \<lparr>DName = nm, Infos = infos\<rparr>) S) = Some ks"
    "P' = P\<lparr>AttachedKernels := AttachedKernels P @ map fst ks\<rparr>"
    using False assms(2) CreateKernelsInProgramD [of M n w wn P P' r] by (auto simp: clCreateKernelsInProgram_def)
  have "loaded_kernel M P D y" if D: "D \<in> set (map fst ks)" and y: "y \<in> set (Infos D)" for D y
  proof -
    obtain nm infos where "(nm, infos) \<in> set S" "D = \<lparr>DName = nm, Infos = infos\<rparr>"
      using attached_source [OF ks(2) D] by blast
    then obtain I m Ks where "(fst y, I) \<in> set (BuildInfo P)" "BitCode I = Some m" "module_kernels M m = Some Ks"
      "snd y \<in> set Ks" "getName (snd y) = Some (DName D)"
      using SignMap_source [OF ks(1), of nm infos y] y by auto
    then show ?thesis using sorted_entry [OF srt] by (auto simp: loaded_kernel_def)
  qed
  then show ?thesis unfolding ks(3) by (intro program_ok_attach [OF assms(1)])
qed (use assms in simp)

subsection \<open>Creation and the invariant\<close>

lemma source_ok: "program_ok cc M (ProgramFromSource Ctx Devs Src)"
  by (simp add: program_ok_def ProgramFromSource_def no_builds_open_def entry_def kernels_loaded_def code_ok_def
                code_of_source_def BuildInformation_def BuildInProgress_def IsBuilt_def)

lemma binary_info_code: "code_of_binary cc d (binary_info (cc d) b)" "\<not> BuildInProgress (binary_info (cc d) b)"
  by (auto simp: code_of_binary_def binary_info_def BuildInformation_def RegisterBuildDone_def IsBuilt_def BuildInProgress_def Let_def
           split: option.splits)

lemma entry_binaries:
  "entry (ProgramFromBinaries cc Ctx Bs) d =
     (case map_of Bs d of None \<Rightarrow> BuildInformation | Some b \<Rightarrow> binary_info (cc d) b)"
proof -
  have "map_of (map (\<lambda>(d, b). (d, binary_info (cc d) b)) Bs) d = map_option (binary_info (cc d)) (map_of Bs d)"
    by (induction Bs) auto
  then show ?thesis by (simp add: entry_def ProgramFromBinaries_def split: option.splits)
qed

lemma binaries_ok: "sorted_wrt (<) (map fst Bs) \<Longrightarrow> program_ok cc M (ProgramFromBinaries cc Ctx Bs)"
  by (auto simp: program_ok_def no_builds_open_def entry_binaries code_ok_def binary_info_code split: option.splits)
     (auto simp: ProgramFromBinaries_def kernels_loaded_def comp_def case_prod_unfold code_of_binary_def BuildInformation_def BuildInProgress_def)

lemma set_binaries_sorted:
  "set_binaries ws Cs xs Bs st = Some (st', Inr Bs') \<Longrightarrow> sorted_wrt (<) (map fst Bs) \<Longrightarrow> sorted_wrt (<) (map fst Bs')"
  by (induction ws Cs xs Bs st arbitrary: st' rule: set_binaries.induct) (auto simp: sorted_map_put split: option.splits if_splits)

lemma source_created:
  assumes "clCreateProgramWithSource ctx n strings lengths = Some (Inr P)"
  shows "\<exists>Ctx Devs Src. ctx = Some (Ctx, Devs) \<and> P = ProgramFromSource Ctx Devs Src"
proof -
  obtain Ctx Devs ss where ctx: "ctx = Some (Ctx, Devs)" and "strings = Some ss"
    using assms by (auto simp: clCreateProgramWithSource_def split: option.splits)
  with assms have "do { r \<leftarrow> join_sources (take n ss) lengths;
      case r of Inl e \<Rightarrow> Some (Inl e) | Inr s \<Rightarrow> Some (Inr (ProgramFromSource Ctx Devs s)) } = Some (Inr P)"
    by (simp add: clCreateProgramWithSource_def split: if_splits)
  then obtain r where "(case r of Inl e \<Rightarrow> Some (Inl e) | Inr s \<Rightarrow> Some (Inr (ProgramFromSource Ctx Devs s))) = Some (Inr P :: cl_int + program)"
    unfolding bind_eq_Some_conv by blast
  then show ?thesis using ctx by (cases r) auto
qed

lemma binaries_created:
  assumes "clCreateProgramWithBinary cc ctx list ws = Some (st, Inr P)"
  shows "\<exists>Ctx Devs xs Bs. set_binaries ws Devs xs [] [] = Some (st, Inr Bs) \<and> P = ProgramFromBinaries cc Ctx Bs"
proof -
  obtain Ctx Devs xs where "ctx = Some (Ctx, Devs)" "list = Some xs"
    using assms by (auto simp: clCreateProgramWithBinary_def split: option.splits)
  with assms obtain r where r: "set_binaries ws Devs xs [] [] = Some (st, r)"
    "(case r of Inl e \<Rightarrow> Inl e | Inr Bs \<Rightarrow> Inr (ProgramFromBinaries cc Ctx Bs)) = (Inr P :: cl_int + program)"
    by (auto simp: clCreateProgramWithBinary_def split: if_splits)
  then obtain Bs where "r = Inr Bs" "P = ProgramFromBinaries cc Ctx Bs" by (cases r) auto
  with r(1) show ?thesis by blast
qed

lemma program_history_ok: "program_history cc M P \<Longrightarrow> program_ok cc M P"
proof (induction rule: program_history.induct)
  case (from_source ctx n strings lengths P)
  then show ?case using source_created [of ctx n strings lengths P] source_ok [of cc M] by auto
next
  case (from_binaries ctx list ws st P)
  then obtain Ctx Devs xs Bs where "set_binaries ws Devs xs [] [] = Some (st, Inr Bs)" "P = ProgramFromBinaries cc Ctx Bs"
    using binaries_created by blast
  then show ?case using binaries_ok set_binaries_sorted [of ws Devs xs "[]"] by simp
next
  case (detach P D)
  then show ?case
    by (auto simp: program_ok_def DetachKernel_def no_builds_open_def kernels_loaded_def code_ok_def loaded_kernel_def entry_def
             dest: notin_set_remove1)
qed (blast intro: clBuildProgram_keeps clCreateKernel_keeps clCreateKernelsInProgram_keeps)+

text \<open>
  C9: whatever calls a client makes on a program, every kernel that is attached to it and not yet
  released refers, for each of its devices, to a kernel of its name in the module that the program holds
  for this device now. A rebuild, which would free the module, is refused while kernels are attached.
\<close>

theorem attached_kernels_stay_loaded:
  assumes "program_history cc M P" "D \<in> set (AttachedKernels P)" "(d, K) \<in> set (Infos D)"
  shows "\<exists>I m Ks. entry P d = I \<and> BitCode I = Some m \<and> module_kernels M m = Some Ks \<and> K \<in> set Ks \<and> getName K = Some (DName D)"
  using program_history_ok [OF assms(1)] assms(2,3) by (fastforce simp: program_ok_def kernels_loaded_def loaded_kernel_def)

section \<open>Programs from binaries\<close>

text \<open>Two programs whose entries agree in what the creation of kernels reads of them.\<close>

definition same_code :: "dev_id \<times> build_info \<Rightarrow> dev_id \<times> build_info \<Rightarrow> bool" where
  "same_code x y \<longleftrightarrow> fst x = fst y \<and> IsBuilt (snd x) = IsBuilt (snd y) \<and> BitCode (snd x) = BitCode (snd y)"

lemma reads_code:
  assumes "BitCode I = BitCode J"
  shows "GetKernel M N I = GetKernel M N J" "GetKernelSignature M N I = GetKernelSignature M N J"
    "DefineKernel M N I = DefineKernel M N J"
  using assms by (simp_all add: GetKernel_def GetKernelSignature_def DefineKernel_def)

lemma collect_infos_same:
  assumes "BitCode F = BitCode G" "list_all2 same_code xs ys"
  shows "collect_infos n M N F xs infos = collect_infos n M N G ys infos"
  using assms(2)
proof (induction xs ys arbitrary: infos rule: list_all2_induct)
  case (Cons x xs y ys)
  obtain d I J where "x = (d, I)" "y = (d, J)" "IsBuilt I = IsBuilt J" "BitCode I = BitCode J"
    using Cons.hyps(1) by (cases x; cases y) (simp add: same_code_def)
  then show ?case using Cons.IH reads_code [of I J] reads_code [OF assms(1)] by (simp cong: if_cong)
qed simp

lemma first_defining_same:
  assumes "list_all2 same_code xs ys"
  shows "rel_option (rel_option (rel_prod same_code (list_all2 same_code))) (first_defining M N xs) (first_defining M N ys)"
  using assms
proof (induction xs ys rule: list_all2_induct)
  case (Cons x xs y ys)
  have "DefineKernel M N (snd x) = DefineKernel M N (snd y)" using Cons.hyps(1) by (intro reads_code) (simp add: same_code_def)
  then show ?case using Cons by (cases "DefineKernel M N (snd y)") auto
qed simp

lemma CreateKernel_same:
  assumes "list_all2 same_code (BuildInfo P) (BuildInfo Q)"
  shows "map_option snd (CreateKernel n M N P) = map_option snd (CreateKernel n M N Q)"
proof (cases "first_defining M N (BuildInfo P)")
  case None
  then show ?thesis using first_defining_same [OF assms, of M N] assms by (auto simp: CreateKernel_def)
next
  case (Some f)
  then obtain g where g: "first_defining M N (BuildInfo Q) = Some g"
    and r: "rel_option (rel_prod same_code (list_all2 same_code)) f g"
    using first_defining_same [OF assms, of M N] by (auto simp: option_rel_Some1)
  have e: "BuildInfo P = [] \<longleftrightarrow> BuildInfo Q = []" using assms by auto
  show ?thesis
  proof (cases f)
    case None
    then show ?thesis using g r Some e by (simp add: CreateKernel_def)
  next
    case F: (Some p)
    then obtain d I J xs ys where p: "f = Some ((d, I), xs)" "g = Some ((d, J), ys)" "BitCode I = BitCode J" "list_all2 same_code xs ys"
      using r by (cases p; cases "fst p"; cases g) (auto simp: same_code_def)
    define tail where "tail R = (\<lambda>r. case r of Inl e \<Rightarrow> Some (R, Inl e :: cl_int + kernel_descriptor \<times> nat)
       | Inr infos \<Rightarrow> do { k \<leftarrow> new_kernel M \<lparr>DName = N, Infos = infos\<rparr>;
                         Some (R\<lparr>AttachedKernels := AttachedKernels R @ [fst k]\<rparr>, Inr k) })" for R :: program
    have t: "map_option snd (tail P r) = map_option snd (tail Q r)" for r
      by (cases r) (simp_all add: tail_def map_option_bind comp_def)
    have eq: "CreateKernel n M N R = do { K \<leftarrow> GetKernel M N J; r \<leftarrow> collect_infos n M N J ys [(d, K)]; tail R r }"
      if "first_defining M N (BuildInfo R) = Some (Some ((d, L), zs))" "BuildInfo R \<noteq> []" "BitCode L = BitCode J"
        "list_all2 same_code zs ys" for R L zs
      using that(1,2) reads_code [OF that(3)] collect_infos_same [OF that(3,4)] by (simp add: CreateKernel_def tail_def cong: if_cong)
    show ?thesis
    proof (cases "BuildInfo P = []")
      case False
      have refl: "list_all2 same_code ys ys" by (simp add: list_all2_same same_code_def)
      have "CreateKernel n M N P = do { K \<leftarrow> GetKernel M N J; r \<leftarrow> collect_infos n M N J ys [(d, K)]; tail P r }"
        by (rule eq [of P I xs]) (use Some p False in simp_all)
      moreover have "CreateKernel n M N Q = do { K \<leftarrow> GetKernel M N J; r \<leftarrow> collect_infos n M N J ys [(d, K)]; tail Q r }"
        by (rule eq [of Q J ys]) (use g p False e refl in simp_all)
      ultimately show ?thesis by (simp add: map_option_bind comp_def t)
    qed (use e in \<open>simp add: CreateKernel_def\<close>)
  qed
qed

lemma map_put_same: "sorted_wrt (<) (map fst xs) \<Longrightarrow> map_of xs k = Some v \<Longrightarrow> map_put k v xs = xs"
proof (induction xs)
  case (Cons x xs)
  then show ?case by (cases x) (auto split: if_splits dest: map_of_SomeD, metis fst_conv less_asym map_of_SomeD)
qed simp

lemma rebuild_from_binaries:
  assumes "PSrc P = None" "sorted_wrt (<) (map fst (BuildInfo P))" "AttachedKernels P = []"
    and "\<forall>d \<in> set ds. d \<in> set (PDevices P) \<and> BitCode (entry P d) \<noteq> None"
  shows "build_loop cc Opts ds P = (P, CL_SUCCESS)"
  using assms(4)
proof (induction ds)
  case (Cons d ds)
  then obtain I where I: "map_of (BuildInfo P) d = Some I" "HasBitCode I" "d \<in> set (PDevices P)"
    by (auto simp: entry_def HasBitCode_def BuildInformation_def split: option.splits)
  have "set_info d I P = P" using map_put_same [OF assms(2) I(1)] by (simp add: set_info_def)
  then show ?case using Cons I assms(1) by (simp add: BuildFor_def Let_def PIsAssociatedWith_def)
qed simp

lemma same_code_lists:
  assumes "sorted_wrt (<) (map fst (BuildInfo P))" "map fst (BuildInfo P) = map fst (BuildInfo Q)"
    and "\<forall>d \<in> set (map fst (BuildInfo P)). IsBuilt (entry P d) = IsBuilt (entry Q d) \<and> BitCode (entry P d) = BitCode (entry Q d)"
  shows "list_all2 same_code (BuildInfo P) (BuildInfo Q)"
proof (rule list_all2_all_nthI)
  show l: "length (BuildInfo P) = length (BuildInfo Q)" using assms(2) by (rule map_eq_imp_length_eq)
  fix i assume i: "i < length (BuildInfo P)"
  have mem: "fst (BuildInfo P ! i) \<in> set (map fst (BuildInfo P))" unfolding set_map using i by (intro imageI nth_mem)
  have k: "fst (BuildInfo P ! i) = fst (BuildInfo Q ! i)" using assms(2) i l by (metis nth_map)
  have "entry P (fst (BuildInfo P ! i)) = snd (BuildInfo P ! i)" using i assms(1) by (simp add: sorted_entry)
  moreover have "entry Q (fst (BuildInfo Q ! i)) = snd (BuildInfo Q ! i)" using i l assms(1,2) by (simp add: sorted_entry)
  ultimately show "same_code (BuildInfo P ! i) (BuildInfo Q ! i)"
    using bspec [OF assms(3) mem] k by (simp add: same_code_def)
qed

definition binary_args :: "(dev_id \<Rightarrow> byte list) \<Rightarrow> dev_id list \<Rightarrow> (dev_id option \<times> byte list option \<times> nat) list" where
  "binary_args b ds = map (\<lambda>d. (Some d, Some (b d), length (b d))) ds"

lemma set_binaries_args:
  assumes "set ds \<subseteq> set Cs" "\<forall>d \<in> set ds. b d \<noteq> []"
  shows "set_binaries True Cs (binary_args b ds) Bs st =
    Some (st @ replicate (length ds) CL_SUCCESS, Inr (foldl (\<lambda>Bs d. map_put d (b d) Bs) Bs ds))"
  using assms by (induction ds arbitrary: Bs st) (auto simp: binary_args_def)

lemma fold_put:
  "map_of (foldl (\<lambda>Bs d. map_put d (b d) Bs) Bs ds) d = (if d \<in> set ds then Some (b d) else map_of Bs d)"
  "set (map fst (foldl (\<lambda>Bs d. map_put d (b d) Bs) Bs ds)) = set ds \<union> set (map fst Bs)"
  by (induction ds arbitrary: Bs) (auto simp del: set_map)

text \<open>
  C8: reading the binaries of a program that is built for all its devices and making a program of them
  gives the same code: the new program has the same devices, is built for each of them with the same
  module and binary, building it again succeeds and changes nothing, and every creation of a kernel has
  the same result as on the program compiled from source. LLVM is only asked to read back the modules
  the first program holds.
\<close>

theorem binaries_round_trip:
  assumes "program_history cc M P" "PSrc P = Some Src"
    and "\<forall>d \<in> set (PDevices P). IsBuilt (entry P d)" "set (map fst (BuildInfo P)) = set (PDevices P)"
    and "PDevices P \<noteq> []" "set (PDevices P) \<subseteq> set Devs"
    and "\<forall>d m. BitCode (entry P d) = Some m \<longrightarrow> loadBitcode (cc d) (WriteBitcode (cc d) m) = Some m \<and> WriteBitcode (cc d) m \<noteq> []"
  shows "\<exists>b st Q. program_binaries P = Some (map b (PDevices P)) \<and>
    clCreateProgramWithBinary cc (Some (Ctx, Devs)) (Some (binary_args b (PDevices P))) True = Some (st, Inr Q) \<and>
    st = replicate (length (PDevices P)) CL_SUCCESS \<and> set (PDevices Q) = set (PDevices P) \<and>
    (\<forall>d \<in> set (PDevices P). IsBuilt (entry Q d) \<and> BitCode (entry Q d) = BitCode (entry P d) \<and>
                             Binary (entry Q d) = Binary (entry P d)) \<and>
    clBuildProgram cc (Some Q) 0 None opts False False = Some (Some Q, CL_SUCCESS, False) \<and>
    (\<forall>n Name. map_option snd (CreateKernel n M Name P) = map_option snd (CreateKernel n M Name Q))"
proof -
  have ok: "program_ok cc M P" using program_history_ok [OF assms(1)] .
  have code: "code_of_source cc Src d (entry P d)" for d using ok assms(2) by (simp add: program_ok_def code_ok_def)
  define b where "b d = the (Binary (entry P d))" for d
  have dev: "\<exists>m. BitCode (entry P d) = Some m \<and> Binary (entry P d) = Some (b d) \<and> b d \<noteq> [] \<and> loadBitcode (cc d) (b d) = Some m"
    if "d \<in> set (PDevices P)" for d
    using code [of d] assms(3,7) that by (auto simp: code_of_source_def b_def)
  have ents: "map_of (BuildInfo P) d = Some (entry P d)" if "d \<in> set (PDevices P)" for d
    using that assms(3) by (fastforce simp: entry_def IsBuilt_def BuildInformation_def split: option.splits)
  have "program_binary P d = Some (b d)" if "d \<in> set (PDevices P)" for d
    using dev [OF that] ents [OF that] assms(3) that by (auto simp: program_binary_def)
  then have bins: "program_binaries P = Some (map b (PDevices P))"
    unfolding program_binaries_def by (rule those_map_all)
  define Bs where "Bs = foldl (\<lambda>Bs d. map_put d (b d) Bs) [] (PDevices P)"
  define Q where "Q = ProgramFromBinaries cc Ctx Bs"
  have set_b: "set_binaries True Devs (binary_args b (PDevices P)) [] [] = Some (replicate (length (PDevices P)) CL_SUCCESS, Inr Bs)"
    using set_binaries_args [of "PDevices P" Devs b "[]" "[]"] assms(6) dev by (fastforce simp: Bs_def)
  have create: "clCreateProgramWithBinary cc (Some (Ctx, Devs)) (Some (binary_args b (PDevices P))) True =
      Some (replicate (length (PDevices P)) CL_SUCCESS, Inr Q)"
    using assms(5) set_b by (simp add: clCreateProgramWithBinary_def Q_def) (simp add: binary_args_def)
  have srt: "sorted_wrt (<) (map fst Bs)" using set_binaries_sorted [OF set_b] by simp
  have devs: "set (PDevices Q) = set (PDevices P)"
    using fold_put(2) [of b "[]" "PDevices P"] by (simp add: Q_def ProgramFromBinaries_def Bs_def)
  have Q: "IsBuilt (entry Q d) \<and> BitCode (entry Q d) = BitCode (entry P d) \<and> Binary (entry Q d) = Binary (entry P d)"
    if "d \<in> set (PDevices P)" for d
    using dev [OF that] that
    by (auto simp: Q_def entry_binaries Bs_def fold_put binary_info_def Let_def IsBuilt_def RegisterBuildDone_def BuildInformation_def)
  have infos: "map fst (BuildInfo Q) = map fst Bs" by (simp add: Q_def ProgramFromBinaries_def comp_def case_prod_unfold)
  have rest: "PSrc Q = None" "AttachedKernels Q = []" by (simp_all add: Q_def ProgramFromBinaries_def)
  have rebuild: "clBuildProgram cc (Some Q) 0 None opts False False = Some (Some Q, CL_SUCCESS, False)"
    using rebuild_from_binaries [OF rest(1) _ rest(2), of "PDevices Q"] srt infos devs Q dev rest(2)
    by (fastforce simp: clBuildProgram_def Build_def HasAttachedKernels_def)
  have keys: "map fst (BuildInfo P) = map fst (BuildInfo Q)"
  proof (rule strict_sorted_equal)
    show "sorted_wrt (<) (map fst (BuildInfo P))" using ok by (simp add: program_ok_def)
    show "set (map fst (BuildInfo P)) = set (map fst (BuildInfo Q))"
      using infos assms(4) devs by (simp add: Q_def ProgramFromBinaries_def)
  qed (use srt infos in simp)
  have "list_all2 same_code (BuildInfo P) (BuildInfo Q)"
    using ok Q assms(3,4) by (intro same_code_lists [OF _ keys]) (simp_all add: program_ok_def)
  then have "\<forall>n Name. map_option snd (CreateKernel n M Name P) = map_option snd (CreateKernel n M Name Q)"
    by (blast intro: CreateKernel_same)
  then show ?thesis using bins create devs Q rebuild by blast
qed

section \<open>A failed build\<close>

text \<open>
  When the compilation for the first device of a new program fails, \<open>clBuildProgram\<close> reports it, but
  any later \<open>clCreateKernel\<close>, whatever the name, searches the module that does not exist and crashes
  instead of answering \<open>CL_INVALID_PROGRAM_EXECUTABLE\<close>.
\<close>

lemma failed_build_then_kernel_crashes:
  assumes "clCreateProgramWithSource (Some (Ctx, d # ds)) k strings lengths = Some (Inr P)"
    and "\<forall>Src. PSrc P = Some Src \<longrightarrow> compiled cc Src Opts d = None"
  shows "\<exists>P'. clBuildProgram cc (Some P) 0 None (Some Opts) nf False = Some (Some P', CL_BUILD_PROGRAM_FAILURE, nf) \<and>
    clCreateKernel n M (Some P') (Some Name) = None"
proof -
  obtain Src where P: "P = ProgramFromSource Ctx (d # ds) Src"
    using source_created [OF assms(1)] by auto
  have f: "PSrc P = Some Src" "d \<in> set (PDevices P)" "\<not> BuildInProgress (entry P d)" "BuildInfo P = []" "AttachedKernels P = []"
    by (simp_all add: P ProgramFromSource_def entry_def BuildInformation_def BuildInProgress_def)
  define I where "I = built_entry cc Src Opts d (entry P d)"
  have c: "compiled cc Src Opts d = None" using assms(2) f(1) by blast
  have "BitCode I = None"
    using built_entry_cases(1) [OF c, of "entry P d"] f(4) by (simp add: failed_from_def I_def entry_def BuildInformation_def)
  moreover have "BuildFor cc Opts d P = (set_info d I P, CL_BUILD_PROGRAM_FAILURE)"
    using BuildFor_source [OF f(1-3), of cc Opts] c by (simp add: I_def)
  moreover have "BuildInfo (set_info d I P) = [(d, I)]" using f(4) by (simp add: set_info_def)
  ultimately show ?thesis
    using f(5) by (simp add: clBuildProgram_def Build_def HasAttachedKernels_def P ProgramFromSource_def clCreateKernel_def
                             CreateKernel_def DefineKernel_def)
qed

section \<open>Creating a kernel\<close>

text \<open>What a built device knows of a kernel: the node of its signature and the types of its arguments.\<close>

definition kernel_typed :: "metadata \<Rightarrow> string \<Rightarrow> build_info \<Rightarrow> node \<Rightarrow> node list \<Rightarrow> node set \<Rightarrow> bool" where
  "kernel_typed M Name I S as T \<longleftrightarrow>
     IsBuilt I \<and> DefineKernel M Name I = Some True \<and> GetKernelSignature M Name I = Some S \<and>
     getNumArguments M S = Some (length as) \<and> those (map (getArgument M S) [0..<length as]) = Some as \<and>
     set as \<subseteq> T \<and> finite T \<and> types_ok M (fst S) T \<and> (\<exists>rk N. ranked M T rk N)"

lemma kernel_typed_same_signature:
  assumes "kernel_typed M Name I S1 as1 T1" "kernel_typed M Name J S2 as2 T2" "fst S1 \<noteq> fst S2"
  shows "\<exists>K. \<forall>n \<ge> K. same_signature n M S1 S2 = Some (list_all2 (alike M) as1 as2)"
proof -
  obtain rk N where "ranked M T1 rk N" using assms(1) by (auto simp: kernel_typed_def)
  with assms show ?thesis
    unfolding kernel_typed_def
    by (intro same_signature_decides [of M "fst S1" T1 "fst S2" T2 rk N S1 "length as1" as1 S2 "length as2" as2]) simp_all
qed

definition kernel_of :: "metadata \<Rightarrow> string \<Rightarrow> build_info \<Rightarrow> kernel_info" where
  "kernel_of M Name I = the (GetKernel M Name I)"

lemma kernel_typed_kernel: "kernel_typed M Name I S as T \<Longrightarrow> GetKernel M Name I = Some (kernel_of M Name I)"
  by (auto simp: kernel_typed_def kernel_of_def GetKernelSignature_def GetKernel_def bind_eq_Some_conv)

lemma kernel_typed_signature:
  "kernel_typed M Name I S as T \<Longrightarrow> getSignature M (kernel_of M Name I) = Some S \<and> getNumArguments M S = Some (length as)"
  by (auto simp: kernel_typed_def kernel_of_def GetKernelSignature_def GetKernel_def bind_eq_Some_conv)

lemma collect_infos_typed:
  assumes "kernel_typed M Name F (S d0) (as d0) (T d0)"
    and "\<forall>(d, I) \<in> set xs. kernel_typed M Name I (S d) (as d) (T d) \<and> fst (S d) \<noteq> fst (S d0)"
  shows "\<exists>K. \<forall>n \<ge> K. \<forall>infos. collect_infos n M Name F xs infos =
    Some (if \<forall>(d, I) \<in> set xs. list_all2 (alike M) (as d) (as d0)
          then Inr (infos @ map (\<lambda>(d, I). (d, kernel_of M Name I)) xs) else Inl CL_INVALID_KERNEL_DEFINITION)"
  using assms(2)
proof (induction xs)
  case (Cons x xs)
  obtain d I where x: "x = (d, I)" by fastforce
  have t: "kernel_typed M Name I (S d) (as d) (T d)" "fst (S d) \<noteq> fst (S d0)" using Cons.prems x by auto
  obtain K1 where K1: "\<forall>n \<ge> K1. \<forall>infos. collect_infos n M Name F xs infos =
    Some (if \<forall>(d, I) \<in> set xs. list_all2 (alike M) (as d) (as d0)
          then Inr (infos @ map (\<lambda>(d, I). (d, kernel_of M Name I)) xs) else Inl CL_INVALID_KERNEL_DEFINITION)"
    using Cons by auto
  obtain K2 where K2: "\<forall>n \<ge> K2. same_signature n M (S d) (S d0) = Some (list_all2 (alike M) (as d) (as d0))"
    using kernel_typed_same_signature [OF t(1) assms(1) t(2)] by blast
  have b: "IsBuilt I" "GetKernelSignature M Name I = Some (S d)" "GetKernelSignature M Name F = Some (S d0)"
    using t(1) assms(1) by (simp_all add: kernel_typed_def)
  show ?case
    using K1 K2 b kernel_typed_kernel [OF t(1)] by (intro exI [of _ "max K1 K2"]) (auto simp: x)
qed simp

text \<open>
  C14: when all devices of a program are built and define a kernel, each with readable types, creating it
  succeeds exactly when the arguments of the kernel unfold to the same types on every device as on the
  first one. The kernel then stands for the function of its name in each device's module and has room
  for as many arguments as they declare; otherwise the program is unchanged and the answer is
  \<open>CL_INVALID_KERNEL_DEFINITION\<close>.
\<close>

theorem create_kernel_outcome:
  assumes "BuildInfo P = (d0, F) # xs"
    and "kernel_typed M Name F (S d0) (as d0) (T d0)"
    and "\<forall>(d, I) \<in> set xs. kernel_typed M Name I (S d) (as d) (T d) \<and> fst (S d) \<noteq> fst (S d0)"
  shows "\<exists>K. \<forall>n \<ge> K. clCreateKernel n M (Some P) (Some Name) = Some
    (if \<forall>(d, I) \<in> set xs. list_all2 (alike M) (as d) (as d0)
     then let D = \<lparr>DName = Name, Infos = map (\<lambda>(d, I). (d, kernel_of M Name I)) (BuildInfo P)\<rparr>
          in (Some (P\<lparr>AttachedKernels := AttachedKernels P @ [D]\<rparr>), Inr (D, length (as d0)))
     else (Some P, Inl CL_INVALID_KERNEL_DEFINITION))"
proof -
  obtain K where K: "\<forall>n \<ge> K. \<forall>infos. collect_infos n M Name F xs infos =
    Some (if \<forall>(d, I) \<in> set xs. list_all2 (alike M) (as d) (as d0)
          then Inr (infos @ map (\<lambda>(d, I). (d, kernel_of M Name I)) xs) else Inl CL_INVALID_KERNEL_DEFINITION)"
    using collect_infos_typed [OF assms(2,3)] by blast
  have d: "DefineKernel M Name F = Some True" using assms(2) by (simp add: kernel_typed_def)
  show ?thesis
    using K assms(1) d kernel_typed_kernel [OF assms(2)] kernel_typed_signature [OF assms(2)]
    by (intro exI [of _ K]) (auto simp: clCreateKernel_def CreateKernel_def new_kernel_def Let_def)
qed

section \<open>Examples\<close>

text \<open>A program with one kernel that takes a linked list, built for two devices.\<close>

definition walk_function :: "dev_id \<Rightarrow> llvm_function" where
  "walk_function d = \<lparr>FName = ''walk'', FDeclaration = False, FSpirKernel = True,
     FMetadata = [(''custom_info'', (d, 9))], FNumParams = 1\<rparr>"

definition walk_module :: "dev_id \<Rightarrow> llvm_module" where
  "walk_module d = \<lparr>Triple = ''x86_64'', KernelsMD = None, Functions = [walk_function d]\<rparr>"

definition walk_compiler :: "dev_id \<Rightarrow> compiler" where
  "walk_compiler d =
     \<lparr>compileSource = \<lambda>Src Opts. if Src = ''walk'' then (Some (walk_module d), []) else (None, ''error''),
      optimize = \<lambda>m. (m, True), linkInBuiltins = \<lambda>m. (m, True),
      WriteBitcode = \<lambda>m. [0x42, 0x43], loadBitcode = \<lambda>b. Some (walk_module d)\<rparr>"

definition walk_info :: "dev_id \<Rightarrow> build_info" where
  "walk_info d = \<lparr>BuildStatus = CL_BUILD_SUCCESS, BuildLog = [], BuildOpts = [], BitCode = Some (walk_module d),
     Binary = Some [0x42, 0x43]\<rparr>"

definition walk_program :: program where
  "walk_program = \<lparr>PContext = 0, PDevices = [0, 1], PSrc = Some ''walk'', BuildInfo = [(0, walk_info 0), (1, walk_info 1)],
     AttachedKernels = []\<rparr>"

lemma walk_compiled: "run_compiler (walk_compiler d) ''walk'' [] = (Some (walk_module d), [])"
  by (simp add: run_compiler_def walk_compiler_def)

lemma walk_source:
  "clCreateProgramWithSource (Some (0, [0, 1])) 1 (Some [Some [CHR ''w'', CHR ''a'', CHR ''l'', CHR ''k'', CHR 0x00]]) None =
     Some (Inr (ProgramFromSource 0 [0, 1] ''walk''))"
  by (simp add: clCreateProgramWithSource_def llvm_assert_def source_text_def)

lemma walk_built:
  "clBuildProgram walk_compiler (Some (ProgramFromSource 0 [0, 1] ''walk'')) 0 None None False False =
     Some (Some walk_program, CL_SUCCESS, False)"
  by (simp add: clBuildProgram_def Build_def HasAttachedKernels_def ProgramFromSource_def BuildFor_def walk_compiled set_info_def
                PIsAssociatedWith_def BuildInformation_def BuildInProgress_def RegisterBuildDone_def walk_program_def walk_info_def)
     (simp add: walk_compiler_def)

lemma walk_history: "program_history walk_compiler M walk_program"
  by (rule program_history.build [OF program_history.from_source [OF walk_source] walk_built])

lemma walk_entries: "entry walk_program 0 = walk_info 0" "entry walk_program 1 = walk_info 1"
  "d \<noteq> 0 \<Longrightarrow> d \<noteq> 1 \<Longrightarrow> entry walk_program d = BuildInformation"
  by (simp_all add: entry_def walk_program_def)

lemma walk_found: "find_kernel M (walk_module d) ''walk'' = Some (Some (function_kernel (walk_function d)))"
  by (simp add: find_kernel_value IRisSPIR_def walk_module_def walk_function_def is_kernel_def)

lemma walk_signature: "getSignature list_modules (function_kernel (walk_function d)) = Some (d, 0)"
  by (simp add: getSignature_def getCustomInfo_def function_kernel_def walk_function_def getMetadata_def list_module_nodes
                KernelSignature_def type_eval)

lemma walk_typed: "kernel_typed list_modules ''walk'' (walk_info d) (d, 0) [(d, Suc 0)] (list_types d)"
proof -
  have "\<exists>rk N. ranked list_modules (list_types d) rk N" using list_types_ok(3) by blast
  then show ?thesis
    using list_types_ok(1,2,4,5,6)
    by (simp add: kernel_typed_def IsBuilt_def walk_info_def DefineKernel_def contains_kernel_def GetKernelSignature_def walk_found
                  walk_signature)
qed

theorem build_program_outcome_witness:
  "\<exists>P'. clBuildProgram walk_compiler (Some (ProgramFromSource 0 [0, 1] ''walk'')) 2 (Some [Some 0, Some 1]) (Some []) True True =
     Some (Some P', CL_SUCCESS, True) \<and> built_with walk_compiler ''walk'' [] 1 (entry P' 1)"
proof -
  let ?P = "ProgramFromSource 0 [0, 1] ''walk''"
  have s: "served walk_compiler ''walk'' [] [0, 1] = [0, 1]" by (simp add: served_def compiled_def walk_compiled)
  have p: "PSrc ?P = Some ''walk''" "\<not> HasAttachedKernels ?P" "no_builds_open ?P" "[0, 1] \<noteq> ([] :: dev_id list)"
    "set [0, 1] \<subseteq> set (PDevices ?P)"
    by (simp_all add: ProgramFromSource_def HasAttachedKernels_def no_builds_open_def entry_def BuildInformation_def BuildInProgress_def)
  from build_program_outcome [OF p disjI1 [OF TrueI], of walk_compiler "[]" True] obtain P' where
    "clBuildProgram walk_compiler (Some ?P) (length [0, 1 :: dev_id]) (Some (map Some [0, 1])) (Some []) True True = Some (Some P', CL_SUCCESS, True)"
    "\<forall>d \<in> set [0, 1]. built_with walk_compiler ''walk'' [] d (entry P' d)" unfolding s by auto
  then show ?thesis by (intro exI [of _ P']) (simp add: numeral_2_eq_2)
qed

definition walk_kernel :: kernel_descriptor where
  "walk_kernel = \<lparr>DName = ''walk'', Infos = [(0, function_kernel (walk_function 0)), (1, function_kernel (walk_function 1))]\<rparr>"

lemma walk_attached:
  "clCreateKernelsInProgram list_modules (Some walk_program) 1 True False =
     Some (Some (walk_program\<lparr>AttachedKernels := [walk_kernel]\<rparr>), CL_SUCCESS, [(walk_kernel, 1)], None)"
proof -
  have k: "module_kernels M (walk_module d) = Some [function_kernel (walk_function d)]" for M d
    by (simp add: module_kernels_value IRisSPIR_def walk_module_def walk_function_def is_kernel_def)
  have n: "getName (function_kernel (walk_function d)) = Some ''walk''" for d
    by (simp add: getName_def function_kernel_def walk_function_def)
  have "SignMap list_modules walk_program = Some [(''walk'', Infos walk_kernel)]"
    by (simp add: SignMap_def walk_program_def built_kernels_def IsBuilt_def walk_info_def k n walk_kernel_def)
  then show ?thesis
    using list_types_ok(4)
    by (simp add: clCreateKernelsInProgram_def CreateKernelsInProgram_def new_kernel_def walk_kernel_def walk_signature)
       (simp add: walk_program_def)
qed

theorem attached_kernels_stay_loaded_witness:
  "\<exists>I m Ks. entry (walk_program\<lparr>AttachedKernels := [walk_kernel]\<rparr>) 1 = I \<and> BitCode I = Some m \<and>
     module_kernels list_modules m = Some Ks \<and> function_kernel (walk_function 1) \<in> set Ks \<and>
     getName (function_kernel (walk_function 1)) = Some (DName walk_kernel)"
  by (rule attached_kernels_stay_loaded [OF program_history.create_kernels [OF walk_history walk_attached]])
     (simp_all add: walk_kernel_def)

theorem binaries_round_trip_witness:
  "\<exists>b st Q. program_binaries walk_program = Some (map b [0, 1]) \<and>
     clCreateProgramWithBinary walk_compiler (Some (0, [0, 1])) (Some (binary_args b [0, 1])) True = Some (st, Inr Q) \<and>
     BitCode (entry Q 1) = Some (walk_module 1)"
proof -
  have d: "PDevices walk_program = [0, 1]" "PSrc walk_program = Some ''walk''" by (simp_all add: walk_program_def)
  have b: "\<forall>d m. BitCode (entry walk_program d) = Some m \<longrightarrow>
      loadBitcode (walk_compiler d) (WriteBitcode (walk_compiler d) m) = Some m \<and> WriteBitcode (walk_compiler d) m \<noteq> []"
  proof (intro allI impI)
    fix d m assume "BitCode (entry walk_program d) = Some m"
    then have "m = walk_module d" using walk_entries
      by (cases "d = 0"; cases "d = 1") (auto simp: walk_info_def BuildInformation_def)
    then show "loadBitcode (walk_compiler d) (WriteBitcode (walk_compiler d) m) = Some m \<and> WriteBitcode (walk_compiler d) m \<noteq> []"
      by (simp add: walk_compiler_def)
  qed
  have p: "\<forall>d \<in> set (PDevices walk_program). IsBuilt (entry walk_program d)"
    "set (map fst (BuildInfo walk_program)) = set (PDevices walk_program)" "PDevices walk_program \<noteq> []"
    "set (PDevices walk_program) \<subseteq> set [0, 1]"
    by (simp_all add: d walk_entries(1) walk_entries(2) [simplified] IsBuilt_def walk_info_def) (simp add: walk_program_def)
  from binaries_round_trip [OF walk_history d(2) p b, of 0 None list_modules]
  obtain b st Q where "program_binaries walk_program = Some (map b [0, 1])"
    "clCreateProgramWithBinary walk_compiler (Some (0, [0, 1])) (Some (binary_args b [0, 1])) True = Some (st, Inr Q)"
    "BitCode (entry Q 1) = BitCode (entry walk_program 1)" unfolding d by auto
  then show ?thesis unfolding walk_entries by (auto simp: walk_info_def)
qed

theorem create_kernel_outcome_witness:
  "\<exists>K. \<forall>n \<ge> K. clCreateKernel n list_modules (Some walk_program) (Some ''walk'') =
     Some (Some (walk_program\<lparr>AttachedKernels := [walk_kernel]\<rparr>), Inr (walk_kernel, 1))"
proof -
  have b: "BuildInfo walk_program = (0, walk_info 0) # [(1, walk_info 1)]" by (simp add: walk_program_def)
  have k: "kernel_of list_modules ''walk'' (walk_info d) = function_kernel (walk_function d)" for d
    by (simp add: kernel_of_def GetKernel_def walk_info_def walk_found)
  from create_kernel_outcome [OF b, of list_modules "''walk''" "\<lambda>d. (d, 0)" "\<lambda>d. [(d, Suc 0)]" list_types]
  show ?thesis using walk_typed list_module_alike by (simp add: b k walk_kernel_def Let_def) (simp add: walk_program_def)
qed

end
