(* ===== verification/Async_Copy.thy ===== *)
theory Async_Copy
  imports CPU_Exec
begin

text \<open>
  The asynchronous copies of a work-group: \<open>AsyncCopyThread\<close> (\<open>lib/Device/CPU/AsyncCopyThread.cpp\<close>), the
  pool of threads that runs them (\<open>lib/Device/CPU/ThreadPool.cpp\<close>), and the calls of a kernel that start
  copies and wait for them (\<open>lib/Device/CPU/AsyncInternalCalls.cpp\<close>).

  A job and an event are identified by the number of their allocation. The body of a copy is one step of
  its thread: the calls below only promise something when copies in flight do not touch the same memory.
  The end of the pool, when the process exits, is left out.
\<close>

section \<open>Copies\<close>

record copy_data =
  dst :: ptr
  src :: ptr
  num_gentypes :: size_t
  sz_gentype :: size_t
  dst_stride :: size_t
  src_stride :: size_t

text \<open>The bodies of the two inner loops; the running pointer is part of the state.\<close>

definition gather_byte :: "copy_data \<Rightarrow> nat \<Rightarrow> nat \<Rightarrow> memory \<times> ptr \<Rightarrow> memory \<times> ptr" where
  "gather_byte D I J s =
     (case s of (m, p) \<Rightarrow>
        (m(dst D + of_nat I * sz_gentype D + of_nat J := m p),
         (if of_nat J = sz_gentype D - 1 \<and> of_nat I < num_gentypes D - 1 then p + src_stride D * sz_gentype D else p) + 1))"

definition scatter_byte :: "copy_data \<Rightarrow> nat \<Rightarrow> nat \<Rightarrow> memory \<times> ptr \<Rightarrow> memory \<times> ptr" where
  "scatter_byte D I J s =
     (case s of (m, p) \<Rightarrow>
        (m(p := m (src D + of_nat I * sz_gentype D + of_nat J)),
         (if of_nat J = sz_gentype D - 1 \<and> of_nat I < num_gentypes D - 1 then p + dst_stride D * sz_gentype D else p) + 1))"

definition copy_loops :: "(nat \<Rightarrow> nat \<Rightarrow> memory \<times> ptr \<Rightarrow> memory \<times> ptr) \<Rightarrow> copy_data \<Rightarrow> memory \<times> ptr \<Rightarrow> memory \<times> ptr" where
  "copy_loops body D s =
     foldl (\<lambda>s I. foldl (\<lambda>s J. body I J s) s [0..<unat (sz_gentype D)]) s [0..<unat (num_gentypes D)]"

definition copy_run :: "copy_data \<Rightarrow> memory \<Rightarrow> memory" where
  "copy_run D m =
     (if src_stride D \<noteq> 0 then fst (copy_loops (gather_byte D) D (m, src D))
      else if dst_stride D \<noteq> 0 then fst (copy_loops (scatter_byte D) D (m, dst D))
      else memcpy (dst D) (src D) (num_gentypes D * sz_gentype D) m)"

section \<open>The pool\<close>

text \<open>A worker waits for a job, has taken one from the queue, or has run it and not yet said so.\<close>

datatype pool_worker = WaitsForJob | RunsJob nat | RanJob nat

text \<open>
  Where a thread that waits for a copy is: about to enter the monitor of the job and to look whether it
  has completed, inside the \<open>Wait\<close> of the monitor, or back from it.
\<close>

datatype wait_phase = Checking | Sleeping | Woken

record pool_state =
  jobs :: "nat list"
  pool_workers :: "pool_worker list"
  job_heap :: "nat \<Rightarrow> copy_data option"
  completed :: "nat \<Rightarrow> bool"
  async_copies :: "nat \<Rightarrow> nat list option"
  next_job :: nat
  next_event :: nat
  waiting_for :: "nat \<Rightarrow> nat list"
  phase :: "nat \<Rightarrow> wait_phase"
  pool_mem :: memory

definition new_pool :: "nat \<Rightarrow> memory \<Rightarrow> pool_state" where
  "new_pool num_thrds m =
     \<lparr>jobs = [], pool_workers = replicate num_thrds WaitsForJob, job_heap = \<lambda>_. None, completed = \<lambda>_. False,
      async_copies = \<lambda>_. None, next_job = 0, next_event = 0, waiting_for = \<lambda>_. [],
      phase = \<lambda>_. Checking, pool_mem = m\<rparr>"

definition EnqueueJob :: "nat \<Rightarrow> pool_state \<Rightarrow> pool_state" where
  "EnqueueJob j st = st\<lparr>jobs := jobs st @ [j]\<rparr>"

text \<open>\<open>WorkerThread::Run\<close>: taking a job under the monitor, running it, and \<open>SetCompleted\<close>.\<close>

definition worker_take :: "nat \<Rightarrow> pool_state \<Rightarrow> pool_state option" where
  "worker_take w st =
     (case jobs st of
        [] \<Rightarrow> None
      | j # js \<Rightarrow>
        if w < length (pool_workers st) \<and> pool_workers st ! w = WaitsForJob
        then Some (st\<lparr>jobs := js, pool_workers := (pool_workers st)[w := RunsJob j]\<rparr>) else None)"

definition worker_run :: "nat \<Rightarrow> pool_state \<Rightarrow> pool_state option" where
  "worker_run w st =
     (if w < length (pool_workers st) then
        case pool_workers st ! w of
          RunsJob j \<Rightarrow> map_option (\<lambda>D. st\<lparr>pool_mem := copy_run D (pool_mem st), pool_workers := (pool_workers st)[w := RanJob j]\<rparr>)
                         (job_heap st j)
        | _ \<Rightarrow> None
      else None)"

text \<open>\<open>Broadcast\<close> on the monitor of a job wakes the threads that sleep there.\<close>

definition Broadcast :: "nat \<Rightarrow> pool_state \<Rightarrow> pool_state" where
  "Broadcast j st =
     st\<lparr>phase := \<lambda>t. if phase st t = Sleeping \<and> take 1 (waiting_for st t) = [j] then Woken else phase st t\<rparr>"

definition SetCompleted :: "nat \<Rightarrow> pool_state \<Rightarrow> pool_state option" where
  "SetCompleted w st =
     (if w < length (pool_workers st) then
        case pool_workers st ! w of
          RanJob j \<Rightarrow> if job_heap st j = None then None
                     else Some (Broadcast j (st\<lparr>completed := (completed st)(j := True),
                                              pool_workers := (pool_workers st)[w := WaitsForJob]\<rparr>))
        | _ \<Rightarrow> None
      else None)"

section \<open>Calls of a kernel\<close>

text \<open>Only the first work-item of a group starts copies and waits for them.\<close>

definition IsFirst :: "dim_info \<Rightarrow> dim_iter \<Rightarrow> bool" where
  "IsFirst Dims Cur \<longleftrightarrow> (\<forall>I < GetDimensions Dims. GetLocalId Dims Cur I = 0)"

text \<open>The event of a new copy: the given one, which must exist, or a new one.\<close>

definition copy_event :: "nat option \<Rightarrow> nat \<Rightarrow> pool_state \<Rightarrow> (pool_state \<times> nat) option" where
  "copy_event event j st =
     (case event of
        Some e \<Rightarrow> map_option (\<lambda>js. (st\<lparr>async_copies := (async_copies st)(e \<mapsto> js @ [j])\<rparr>, e)) (async_copies st e)
      | None \<Rightarrow> Some (st\<lparr>async_copies := (async_copies st)(next_event st \<mapsto> [j]), next_event := next_event st + 1\<rparr>,
                      next_event st))"

definition start_copy :: "copy_data \<Rightarrow> nat option \<Rightarrow> pool_state \<Rightarrow> (pool_state \<times> nat option) option" where
  "start_copy D event st =
     (let j = next_job st;
          st1 = st\<lparr>next_job := j + 1, job_heap := (job_heap st)(j \<mapsto> D), completed := (completed st)(j := False)\<rparr>
      in map_option (\<lambda>(st2, e). (EnqueueJob j st2, Some e)) (copy_event event j st1))"

definition AsyncWorkGroupCopy ::
  "dim_info \<Rightarrow> dim_iter \<Rightarrow> ptr \<Rightarrow> ptr \<Rightarrow> size_t \<Rightarrow> nat option \<Rightarrow> size_t \<Rightarrow> pool_state \<Rightarrow> (pool_state \<times> nat option) option" where
  "AsyncWorkGroupCopy Dims Cur d s n event sz st =
     (if IsFirst Dims Cur then start_copy \<lparr>dst = d, src = s, num_gentypes = n, sz_gentype = sz, dst_stride = 0, src_stride = 0\<rparr> event st
      else Some (st, event))"

definition AsyncWorkGroupStridedCopy ::
  "dim_info \<Rightarrow> dim_iter \<Rightarrow> ptr \<Rightarrow> ptr \<Rightarrow> size_t \<Rightarrow> size_t \<Rightarrow> nat option \<Rightarrow> size_t \<Rightarrow> bool \<Rightarrow> pool_state \<Rightarrow> (pool_state \<times> nat option) option" where
  "AsyncWorkGroupStridedCopy Dims Cur d s n stride event sz is_src_stride st =
     (if IsFirst Dims Cur then
        start_copy \<lparr>dst = d, src = s, num_gentypes = n, sz_gentype = sz,
                    dst_stride = (if is_src_stride then 0 else stride), src_stride = (if is_src_stride then stride else 0)\<rparr> event st
      else Some (st, event))"

text \<open>
  \<open>WaitGroupEvents\<close> of the thread \<open>t\<close>: the copies it will wait for, one after the other. \<open>None\<close> is a null
  event. The barrier at the end of the call is \<open>SwitchToNextWorkItem\<close>.
\<close>

definition WaitGroupEvents :: "nat \<Rightarrow> dim_info \<Rightarrow> dim_iter \<Rightarrow> int \<Rightarrow> nat option list option \<Rightarrow> pool_state \<Rightarrow> pool_state option" where
  "WaitGroupEvents t Dims Cur num_events event_list st =
     (case event_list of
        None \<Rightarrow> Some st
      | Some es \<Rightarrow>
        if num_events = 0 \<or> \<not> IsFirst Dims Cur then Some st
        else if int (length es) < num_events then None
        else map_option (\<lambda>jss. st\<lparr>waiting_for := (waiting_for st)(t := concat jss), phase := (phase st)(t := Checking)\<rparr>)
               (those (map (\<lambda>e. case e of None \<Rightarrow> None | Some e \<Rightarrow> async_copies st e) (take (nat num_events) es))))"

text \<open>
  The body of the loop: the thread sleeps if the copy has not completed, and deletes it. The source tests
  once, not in a loop, so a thread back from \<open>Wait\<close> deletes the copy without looking at it again. \<open>None\<close>:
  the thread does not wait, sleeps, or waits for a copy that has been deleted.
\<close>

definition delete_copy :: "nat \<Rightarrow> nat \<Rightarrow> nat list \<Rightarrow> pool_state \<Rightarrow> pool_state" where
  "delete_copy t j js st =
     st\<lparr>job_heap := (job_heap st)(j := None), waiting_for := (waiting_for st)(t := js), phase := (phase st)(t := Checking)\<rparr>"

definition wait_step :: "nat \<Rightarrow> pool_state \<Rightarrow> pool_state option" where
  "wait_step t st =
     (case waiting_for st t of
        [] \<Rightarrow> None
      | j # js \<Rightarrow>
        if job_heap st j = None then None
        else case phase st t of
            Checking \<Rightarrow> if \<not> completed st j then Some (st\<lparr>phase := (phase st)(t := Sleeping)\<rparr>)
                       else Some (delete_copy t j js st)
          | Sleeping \<Rightarrow> None
          | Woken \<Rightarrow> Some (delete_copy t j js st))"

text \<open>
  \<open>pthread_cond_wait\<close>, which \<open>Monitor::Wait\<close> calls, may also return without a broadcast: POSIX documents
  such spurious wake-ups.
\<close>

definition wake_spuriously :: "nat \<Rightarrow> pool_state \<Rightarrow> pool_state option" where
  "wake_spuriously t st =
     (if waiting_for st t \<noteq> [] \<and> phase st t = Sleeping then Some (st\<lparr>phase := (phase st)(t := Woken)\<rparr>) else None)"

end
