(* ===== verification/Async_Proof.thy ===== *)
theory Async_Proof
  imports Async_Copy
begin

text \<open>
  Asynchronous copies are as good as synchronous ones: whatever the threads of the pool do, a work-group
  that stays away from the memory of its copies until it has waited for them finds the memory it would
  have if each copy had been done when it was started. That holds as long as no wait deletes a copy that
  has not completed, which happens exactly when a wait for a monitor returns without a broadcast: the
  source does not test again. The pool never deadlocks and, with the same proviso, never touches a
  deleted job. A strided copy steps one element more than its stride.
\<close>

section \<open>What a copy does\<close>

text \<open>A copy as the list of the addresses it writes with the address each byte comes from.\<close>

definition element_pairs :: "ptr \<Rightarrow> ptr \<Rightarrow> nat \<Rightarrow> (ptr \<times> ptr) list" where
  "element_pairs a b k = map (\<lambda>J. (a + of_nat J, b + of_nat J)) [0..<k]"

definition strided_pairs :: "copy_data \<Rightarrow> size_t \<Rightarrow> size_t \<Rightarrow> nat \<Rightarrow> (ptr \<times> ptr) list" where
  "strided_pairs D ds ss n =
     concat (map (\<lambda>I. element_pairs (dst D + of_nat I * sz_gentype D * (1 + ds)) (src D + of_nat I * sz_gentype D * (1 + ss))
                        (unat (sz_gentype D))) [0..<n])"

definition put_pair :: "memory \<Rightarrow> ptr \<times> ptr \<Rightarrow> memory" where
  "put_pair m p = m(fst p := m (snd p))"

lemma last_byte: "J < unat (z :: size_t) \<Longrightarrow> (of_nat J = z - 1) = (J = unat z - 1)"
proof -
  assume J: "J < unat z"
  then have "z \<noteq> 0" by auto
  then have "unat (z - 1) = unat z - 1" by (rule unat_minus_one)
  moreover have "unat (of_nat J :: size_t) = J" using J by (metis le_unat_uoi less_imp_le_nat)
  ultimately show ?thesis by (metis word_unat_eq_iff)
qed

lemma next_element: "I < unat (n :: size_t) \<Longrightarrow> (of_nat I < n - 1) = (Suc I < unat n)"
proof -
  assume I: "I < unat n"
  then have "n \<noteq> 0" by auto
  then have "unat (n - 1) = unat n - 1" by (rule unat_minus_one)
  moreover have "unat (of_nat I :: size_t) = I" using I by (metis le_unat_uoi less_imp_le_nat)
  ultimately show ?thesis by (auto simp: word_less_nat_alt)
qed

lemma gather_element:
  assumes "I < unat (num_gentypes D)" "k \<le> unat (sz_gentype D)"
  shows "foldl (\<lambda>s J. gather_byte D I J s) (m, p) [0..<k] =
    (foldl put_pair m (element_pairs (dst D + of_nat I * sz_gentype D) p k),
     p + of_nat k + (if 0 < k \<and> k = unat (sz_gentype D) \<and> Suc I < unat (num_gentypes D) then src_stride D * sz_gentype D else 0))"
  using assms(2)
proof (induction k)
  case (Suc k)
  then have k: "k < unat (sz_gentype D)" by simp
  show ?case
    using Suc k last_byte [OF k] next_element [OF assms(1)]
    by (auto simp: element_pairs_def gather_byte_def put_pair_def algebra_simps)
qed (simp add: element_pairs_def)

lemma scatter_element:
  assumes "I < unat (num_gentypes D)" "k \<le> unat (sz_gentype D)"
  shows "foldl (\<lambda>s J. scatter_byte D I J s) (m, p) [0..<k] =
    (foldl put_pair m (element_pairs p (src D + of_nat I * sz_gentype D) k),
     p + of_nat k + (if 0 < k \<and> k = unat (sz_gentype D) \<and> Suc I < unat (num_gentypes D) then dst_stride D * sz_gentype D else 0))"
  using assms(2)
proof (induction k)
  case (Suc k)
  then have k: "k < unat (sz_gentype D)" by simp
  show ?case
    using Suc k last_byte [OF k] next_element [OF assms(1)]
    by (auto simp: element_pairs_def scatter_byte_def put_pair_def algebra_simps)
qed (simp add: element_pairs_def)

lemma strided_pairs_Suc:
  "strided_pairs D ds ss (Suc n) = strided_pairs D ds ss n @
     element_pairs (dst D + of_nat n * sz_gentype D * (1 + ds)) (src D + of_nat n * sz_gentype D * (1 + ss)) (unat (sz_gentype D))"
  by (simp add: strided_pairs_def)

lemma full_element: "p + of_nat (unat (z :: size_t)) + (if 0 < unat z \<and> unat z = unat z \<and> b then s * z else 0) =
    p + (if b then z * (1 + s) else z)"
  by (cases "z = 0") (auto simp: algebra_simps unat_gt_0)

lemma gather_pairs:
  "n \<le> unat (num_gentypes D) \<Longrightarrow>
   \<exists>p. foldl (\<lambda>s I. foldl (\<lambda>s J. gather_byte D I J s) s [0..<unat (sz_gentype D)]) (m, src D) [0..<n] =
       (foldl put_pair m (strided_pairs D 0 (src_stride D) n), p) \<and>
       (n < unat (num_gentypes D) \<longrightarrow> p = src D + of_nat n * sz_gentype D * (1 + src_stride D))"
proof (induction n)
  case (Suc n)
  then show ?case
    by (auto simp: gather_element [OF _ order_refl] full_element strided_pairs_Suc algebra_simps unat_eq_zero)
qed (auto simp: strided_pairs_def)

lemma scatter_pairs:
  "n \<le> unat (num_gentypes D) \<Longrightarrow>
   \<exists>p. foldl (\<lambda>s I. foldl (\<lambda>s J. scatter_byte D I J s) s [0..<unat (sz_gentype D)]) (m, dst D) [0..<n] =
       (foldl put_pair m (strided_pairs D (dst_stride D) 0 n), p) \<and>
       (n < unat (num_gentypes D) \<longrightarrow> p = dst D + of_nat n * sz_gentype D * (1 + dst_stride D))"
proof (induction n)
  case (Suc n)
  then show ?case
    by (auto simp: scatter_element [OF _ order_refl] full_element strided_pairs_Suc algebra_simps unat_eq_zero)
qed (auto simp: strided_pairs_def)

definition copy_pairs :: "copy_data \<Rightarrow> (ptr \<times> ptr) list" where
  "copy_pairs D =
     (if src_stride D \<noteq> 0 then strided_pairs D 0 (src_stride D) (unat (num_gentypes D))
      else if dst_stride D \<noteq> 0 then strided_pairs D (dst_stride D) 0 (unat (num_gentypes D))
      else element_pairs (dst D) (src D) (unat (num_gentypes D * sz_gentype D)))"

definition writes :: "copy_data \<Rightarrow> ptr set" where "writes D = fst ` set (copy_pairs D)"
definition reads :: "copy_data \<Rightarrow> ptr set" where "reads D = snd ` set (copy_pairs D)"

lemma strided_run:
  "src_stride D \<noteq> 0 \<or> dst_stride D \<noteq> 0 \<Longrightarrow> copy_run D m = foldl put_pair m (copy_pairs D)"
  using gather_pairs [of "unat (num_gentypes D)" D m] scatter_pairs [of "unat (num_gentypes D)" D m]
  by (auto simp: copy_run_def copy_loops_def copy_pairs_def)

lemma memcpy_pair: "(a, b) \<in> set (element_pairs d s (unat n)) \<longleftrightarrow> a - d < n \<and> b = s + (a - d)"
proof
  assume "(a, b) \<in> set (element_pairs d s (unat n))"
  then obtain k where k: "k < unat n" "a = d + of_nat k" "b = s + of_nat k" by (auto simp: element_pairs_def)
  then have "unat (of_nat k :: size_t) = k" by (metis le_unat_uoi less_imp_le_nat)
  with k show "a - d < n \<and> b = s + (a - d)" by (simp add: word_less_nat_alt)
next
  assume "a - d < n \<and> b = s + (a - d)"
  then show "(a, b) \<in> set (element_pairs d s (unat n))"
    by (auto simp: element_pairs_def word_less_nat_alt intro!: image_eqI [of _ _ "unat (a - d)"])
qed

lemma put_pairs_frame: "a \<notin> fst ` set ps \<Longrightarrow> foldl put_pair m ps a = m a"
  by (induction ps arbitrary: m) (auto simp: put_pair_def)

lemma put_pairs_local:
  "\<forall>x \<in> S. m x = m' x \<Longrightarrow> snd ` set ps \<subseteq> S \<Longrightarrow> a \<in> S \<union> fst ` set ps \<Longrightarrow> foldl put_pair m ps a = foldl put_pair m' ps a"
proof (induction ps arbitrary: m m' S)
  case (Cons p ps)
  have "\<forall>x \<in> insert (fst p) S. put_pair m p x = put_pair m' p x" using Cons.prems by (auto simp: put_pair_def)
  then show ?case using Cons.IH [of "insert (fst p) S" "put_pair m p" "put_pair m' p"] Cons.prems by auto
qed simp

lemma copy_run_frame: "a \<notin> writes D \<Longrightarrow> copy_run D m a = m a"
proof (cases "src_stride D \<noteq> 0 \<or> dst_stride D \<noteq> 0")
  case False
  assume "a \<notin> writes D"
  then have "\<not> a - dst D < num_gentypes D * sz_gentype D"
    using False memcpy_pair [of a _ "dst D" "src D"] by (force simp: writes_def copy_pairs_def image_iff)
  then show ?thesis using False by (simp add: copy_run_def memcpy_def)
qed (simp add: strided_run put_pairs_frame writes_def)

lemma copy_run_local:
  assumes "\<forall>x \<in> reads D. m x = m' x" "a \<in> writes D"
  shows "copy_run D m a = copy_run D m' a"
proof (cases "src_stride D \<noteq> 0 \<or> dst_stride D \<noteq> 0")
  case True
  then show ?thesis
    using put_pairs_local [OF assms(1), of "copy_pairs D" a] assms(2) by (simp add: strided_run writes_def reads_def)
next
  case False
  then have c: "copy_pairs D = element_pairs (dst D) (src D) (unat (num_gentypes D * sz_gentype D))" by (simp add: copy_pairs_def)
  obtain b where b: "(a, b) \<in> set (copy_pairs D)" using assms(2) by (auto simp: writes_def)
  then have "b \<in> reads D" unfolding reads_def by (rule rev_image_eqI) simp
  then have "a - dst D < num_gentypes D * sz_gentype D" "src D + (a - dst D) \<in> reads D"
    using b memcpy_pair by (simp_all add: c)
  then show ?thesis using False assms(1) by (simp add: copy_run_def memcpy_def)
qed

section \<open>Runs of the pool\<close>

text \<open>
  The group refines a machine that copies at once. The second component of a run is the memory of this
  machine. A call may start a copy that keeps away from the copies not yet waited for; what else the
  work-items write is away from them too. \<open>early\<close> tells whether the platform wakes threads without a
  broadcast, as POSIX allows it to.
\<close>

definition apart :: "copy_data \<Rightarrow> copy_data \<Rightarrow> bool" where
  "apart D E \<longleftrightarrow> writes D \<inter> (reads E \<union> writes E) = {} \<and> writes E \<inter> (reads D \<union> writes D) = {}"

definition apart_from_live :: "copy_data \<Rightarrow> pool_state \<Rightarrow> bool" where
  "apart_from_live D st \<longleftrightarrow> (\<forall>j E. job_heap st j = Some E \<longrightarrow> apart D E)"

inductive worker_step :: "pool_state \<Rightarrow> pool_state \<Rightarrow> bool" where
  take: "worker_take w st = Some st' \<Longrightarrow> worker_step st st'"
| run: "worker_run w st = Some st' \<Longrightarrow> worker_step st st'"
| complete: "SetCompleted w st = Some st' \<Longrightarrow> worker_step st st'"

inductive group_run :: "bool \<Rightarrow> pool_state \<Rightarrow> memory \<Rightarrow> bool" for early :: bool where
  start: "0 < n \<Longrightarrow> group_run early (new_pool n m) m"
| copy: "group_run early st A \<Longrightarrow> start_copy D event st = Some (st', e) \<Longrightarrow> apart_from_live D st \<Longrightarrow>
     group_run early st' (copy_run D A)"
| wait: "group_run early st A \<Longrightarrow> waiting_for st t = [] \<Longrightarrow> WaitGroupEvents t Dims Cur n es st = Some st' \<Longrightarrow>
     group_run early st' A"
| waited: "group_run early st A \<Longrightarrow> wait_step t st = Some st' \<Longrightarrow> group_run early st' A"
| woken: "group_run early st A \<Longrightarrow> early \<Longrightarrow> wake_spuriously t st = Some st' \<Longrightarrow> group_run early st' A"
| worker: "group_run early st A \<Longrightarrow> worker_step st st' \<Longrightarrow> group_run early st' A"
| client: "group_run early st A \<Longrightarrow> \<forall>j D. job_heap st j = Some D \<longrightarrow> a \<notin> reads D \<union> writes D \<Longrightarrow>
     group_run early (st\<lparr>pool_mem := (pool_mem st)(a := v)\<rparr>) (A(a := v))"

text \<open>A copy was deleted before it had completed: what a thread of the pool does with it then is undefined.\<close>

definition lost_copy :: "pool_state \<Rightarrow> bool" where
  "lost_copy st \<longleftrightarrow> (\<exists>j < next_job st. job_heap st j = None \<and> \<not> completed st j)"

definition holds :: "pool_state \<Rightarrow> nat \<Rightarrow> nat \<Rightarrow> bool" where
  "holds st w j \<longleftrightarrow> w < length (pool_workers st) \<and> (pool_workers st ! w = RunsJob j \<or> pool_workers st ! w = RanJob j)"

definition active :: "pool_state \<Rightarrow> nat \<Rightarrow> bool" where
  "active st j \<longleftrightarrow> j \<in> set (jobs st) \<or> (\<exists>w. holds st w j)"

definition not_run :: "pool_state \<Rightarrow> nat \<Rightarrow> bool" where
  "not_run st j \<longleftrightarrow> j \<in> set (jobs st) \<or> (\<exists>w. w < length (pool_workers st) \<and> pool_workers st ! w = RunsJob j)"

definition pool_ok :: "pool_state \<Rightarrow> bool" where
  "pool_ok st \<longleftrightarrow>
     distinct (jobs st) \<and> (\<forall>w j. holds st w j \<longrightarrow> j \<notin> set (jobs st)) \<and>
     (\<forall>v w j. holds st v j \<longrightarrow> holds st w j \<longrightarrow> v = w) \<and>
     (\<forall>j. active st j \<longrightarrow> job_heap st j \<noteq> None \<and> \<not> completed st j) \<and>
     (\<forall>j. job_heap st j \<noteq> None \<longrightarrow> j < next_job st \<and> (completed st j \<or> active st j)) \<and>
     (\<forall>j k D E. job_heap st j = Some D \<longrightarrow> job_heap st k = Some E \<longrightarrow> j \<noteq> k \<longrightarrow> apart D E)"

text \<open>The memory of the copying machine, in terms of the copies that have not been run.\<close>

definition reflects :: "pool_state \<Rightarrow> memory \<Rightarrow> bool" where
  "reflects st A \<longleftrightarrow>
     (\<forall>a. (\<forall>j D. not_run st j \<longrightarrow> job_heap st j = Some D \<longrightarrow> a \<notin> writes D) \<longrightarrow> A a = pool_mem st a) \<and>
     (\<forall>j D a. not_run st j \<longrightarrow> job_heap st j = Some D \<longrightarrow> a \<in> writes D \<longrightarrow> A a = copy_run D (pool_mem st) a)"

lemma holds_update:
  "w < length ws \<Longrightarrow> pool_workers st = ws[w := x] \<Longrightarrow>
   holds st v j \<longleftrightarrow> (if v = w then x = RunsJob j \<or> x = RanJob j else v < length ws \<and> (ws ! v = RunsJob j \<or> ws ! v = RanJob j))"
  by (auto simp: holds_def nth_list_update)

text \<open>The steps of the workers.\<close>

lemma take_ok:
  assumes "pool_ok st" "reflects st A" "worker_take w st = Some st'"
  shows "pool_ok st' \<and> reflects st' A"
proof -
  obtain j js where t: "jobs st = j # js" "w < length (pool_workers st)" "pool_workers st ! w = WaitsForJob"
    "st' = st\<lparr>jobs := js, pool_workers := (pool_workers st)[w := RunsJob j]\<rparr>"
    using assms(3) by (auto simp: worker_take_def split: list.splits if_splits)
  have h: "holds st' v k \<longleftrightarrow> (if v = w then k = j else holds st v k)" for v k
    using t by (auto simp: holds_def nth_list_update)
  have w: "\<not> holds st w k" for k using t by (simp add: holds_def)
  have "(\<exists>v. holds st' v k) \<longleftrightarrow> k = j \<or> (\<exists>v. holds st v k)" for k
    unfolding h using w by metis
  then have a: "active st' k \<longleftrightarrow> active st k" for k
    using t(1,4) by (auto simp: active_def)
  have n: "not_run st' k \<longleftrightarrow> not_run st k" for k
    using t by (auto simp: not_run_def nth_list_update) (metis pool_worker.distinct(1))+
  have f: "job_heap st' = job_heap st" "completed st' = completed st" "next_job st' = next_job st" "pool_mem st' = pool_mem st"
    "jobs st' = js" using t by simp_all
  have p: "distinct (j # js)" "\<forall>v k. holds st v k \<longrightarrow> k \<notin> set (j # js)" using assms(1) t(1) by (simp_all add: pool_ok_def)
  have "pool_ok st'"
    using assms(1) p w by (simp add: pool_ok_def a f h) metis
  moreover have "reflects st' A" using assms(2) by (simp add: reflects_def n f)
  ultimately show ?thesis ..
qed

lemma run_ok:
  assumes "pool_ok st" "reflects st A" "worker_run w st = Some st'"
  shows "pool_ok st' \<and> reflects st' A"
proof -
  obtain j D where t: "w < length (pool_workers st)" "pool_workers st ! w = RunsJob j" "job_heap st j = Some D"
    "st' = st\<lparr>pool_mem := copy_run D (pool_mem st), pool_workers := (pool_workers st)[w := RanJob j]\<rparr>"
    using assms(3) by (auto simp: worker_run_def split: if_splits pool_worker.splits)
  have h: "holds st' v k \<longleftrightarrow> holds st v k" for v k
    using t by (auto simp: holds_def nth_list_update)
  have f: "job_heap st' = job_heap st" "completed st' = completed st" "next_job st' = next_job st" "jobs st' = jobs st"
    "pool_mem st' = copy_run D (pool_mem st)" using t(4) by simp_all
  have a: "active st' k \<longleftrightarrow> active st k" for k by (simp add: active_def h f)
  have ok: "pool_ok st'" using assms(1) by (simp add: pool_ok_def a f h)
  have hj: "holds st w j" using t by (simp add: holds_def)
  have u: "\<forall>v. holds st v j \<longrightarrow> v = w" "j \<notin> set (jobs st)" using assms(1) hj by (auto simp: pool_ok_def)
  have nr: "not_run st j" using t by (auto simp: not_run_def)
  have n: "not_run st' k \<longleftrightarrow> not_run st k \<and> k \<noteq> j" for k
  proof -
    have "(\<exists>v. v < length (pool_workers st') \<and> pool_workers st' ! v = RunsJob k) \<longleftrightarrow>
          (\<exists>v. v < length (pool_workers st) \<and> pool_workers st ! v = RunsJob k) \<and> k \<noteq> j"
    proof
      assume "\<exists>v. v < length (pool_workers st') \<and> pool_workers st' ! v = RunsJob k"
      then obtain v where v: "v < length (pool_workers st)" "pool_workers st ! v = RunsJob k" "v \<noteq> w"
        using t by (auto simp: nth_list_update split: if_splits)
      then have "holds st v k" by (simp add: holds_def)
      then have "k \<noteq> j" using u v(3) by blast
      with v show "(\<exists>v. v < length (pool_workers st) \<and> pool_workers st ! v = RunsJob k) \<and> k \<noteq> j" by blast
    next
      assume "(\<exists>v. v < length (pool_workers st) \<and> pool_workers st ! v = RunsJob k) \<and> k \<noteq> j"
      then obtain v where "v < length (pool_workers st)" "pool_workers st ! v = RunsJob k" "k \<noteq> j" by blast
      then show "\<exists>v. v < length (pool_workers st') \<and> pool_workers st' ! v = RunsJob k"
        using t by (intro exI [of _ v]) (auto simp: nth_list_update)
    qed
    then show ?thesis using u(2) f(4) by (auto simp: not_run_def)
  qed
  have ap: "apart D E" if "job_heap st k = Some E" "k \<noteq> j" for k E using assms(1) t(3) that by (auto simp: pool_ok_def)
  have "reflects st' A"
    unfolding reflects_def
  proof (intro conjI allI impI)
    fix a assume no: "\<forall>k E. not_run st' k \<longrightarrow> job_heap st' k = Some E \<longrightarrow> a \<notin> writes E"
    show "A a = pool_mem st' a"
    proof (cases "a \<in> writes D")
      case True
      then show ?thesis using assms(2) nr t(3) by (simp add: reflects_def f)
    next
      case False
      have "A a = pool_mem st a" using assms(2) no False t(3) unfolding reflects_def n f by (metis option.inject)
      then show ?thesis using False by (simp add: f copy_run_frame)
    qed
  next
    fix k E a assume k: "not_run st' k" "job_heap st' k = Some E" "a \<in> writes E"
    then have E: "job_heap st k = Some E" "k \<noteq> j" "not_run st k" by (simp_all add: n f)
    have "A a = copy_run E (pool_mem st) a" using assms(2) E k(3) by (simp add: reflects_def)
    also have "\<dots> = copy_run E (pool_mem st') a"
    proof (rule copy_run_local [OF _ k(3)])
      have "x \<notin> writes D" if "x \<in> reads E" for x using ap [OF E(1,2)] that by (auto simp: apart_def)
      then show "\<forall>x \<in> reads E. pool_mem st x = pool_mem st' x" by (simp add: f copy_run_frame)
    qed
    finally show "A a = copy_run E (pool_mem st') a" .
  qed
  with ok show ?thesis ..
qed

lemma complete_ok:
  assumes "pool_ok st" "reflects st A" "SetCompleted w st = Some st'"
  shows "pool_ok st' \<and> reflects st' A"
proof -
  obtain j where t: "w < length (pool_workers st)" "pool_workers st ! w = RanJob j" "job_heap st j \<noteq> None"
    "st' = Broadcast j (st\<lparr>completed := (completed st)(j := True), pool_workers := (pool_workers st)[w := WaitsForJob]\<rparr>)"
    using assms(3) by (auto simp: SetCompleted_def split: if_splits pool_worker.splits)
  have f: "job_heap st' = job_heap st" "completed st' = (completed st)(j := True)" "next_job st' = next_job st"
    "jobs st' = jobs st" "pool_mem st' = pool_mem st" "pool_workers st' = (pool_workers st)[w := WaitsForJob]"
    using t(4) by (simp_all add: Broadcast_def)
  have h: "holds st' v k \<longleftrightarrow> holds st v k \<and> v \<noteq> w" for v k
    using t(1,2) by (auto simp: holds_def f nth_list_update)
  have hj: "holds st w k \<longleftrightarrow> k = j" for k using t by (auto simp: holds_def)
  have u: "\<forall>v. holds st v j \<longrightarrow> v = w" "j \<notin> set (jobs st)" using assms(1) hj by (auto simp: pool_ok_def)
  have a: "active st' k \<longleftrightarrow> active st k \<and> k \<noteq> j" for k
    unfolding active_def h f using u hj by metis
  have n: "not_run st' k \<longleftrightarrow> not_run st k" for k
    using t(1,2) by (auto simp: not_run_def f nth_list_update) (metis pool_worker.distinct(5))+
  have "pool_ok st'" using assms(1) by (simp add: pool_ok_def a f h) metis
  moreover have "reflects st' A" using assms(2) by (simp add: reflects_def n f)
  ultimately show ?thesis ..
qed

text \<open>The calls of the group.\<close>

lemma copy_ok:
  assumes "pool_ok st" "reflects st A" "start_copy D event st = Some (st', e)" "apart_from_live D st"
  shows "pool_ok st' \<and> reflects st' (copy_run D A)"
proof -
  define j where "j = next_job st"
  have f: "jobs st' = jobs st @ [j]" "pool_workers st' = pool_workers st" "job_heap st' = (job_heap st)(j \<mapsto> D)"
    "completed st' = (completed st)(j := False)" "next_job st' = j + 1" "pool_mem st' = pool_mem st"
    using assms(3) by (auto simp: start_copy_def copy_event_def EnqueueJob_def Let_def j_def split: option.splits)
  have "\<forall>k. job_heap st k \<noteq> None \<longrightarrow> k < next_job st" "\<forall>k. active st k \<longrightarrow> job_heap st k \<noteq> None"
    using assms(1) by (simp_all add: pool_ok_def)
  then have fresh: "job_heap st j = None" "\<not> active st j" unfolding j_def by (metis less_irrefl)+
  have h: "holds st' v k \<longleftrightarrow> holds st v k" for v k by (simp add: holds_def f)
  have a: "active st' k \<longleftrightarrow> active st k \<or> k = j" for k by (auto simp: active_def h f)
  have n: "not_run st' k \<longleftrightarrow> not_run st k \<or> k = j" for k by (auto simp: not_run_def f)
  have nj: "\<not> not_run st j" using fresh(2) by (auto simp: not_run_def active_def holds_def)
  have live: "apart D E" if "job_heap st k = Some E" for k E using assms(4) that by (auto simp: apart_from_live_def)
  have "apart E D" if "job_heap st k = Some E" for k E using live [OF that] by (auto simp: apart_def)
  then have "pool_ok st'"
    using assms(1) fresh live unfolding pool_ok_def
    by (simp add: a h f active_def j_def) (metis less_Suc_eq)
  moreover have "reflects st' (copy_run D A)"
    unfolding reflects_def
  proof (intro conjI allI impI)
    fix a assume no: "\<forall>k E. not_run st' k \<longrightarrow> job_heap st' k = Some E \<longrightarrow> a \<notin> writes E"
    have "a \<notin> writes D" using no by (simp add: n f)
    moreover have "A a = pool_mem st a"
      using assms(2) no nj unfolding reflects_def n f by (metis fun_upd_other)
    ultimately show "copy_run D A a = pool_mem st' a" by (simp add: copy_run_frame f)
  next
    fix k E a assume k: "not_run st' k" "job_heap st' k = Some E" "a \<in> writes E"
    show "copy_run D A a = copy_run E (pool_mem st') a"
    proof (cases "k = j")
      case True
      then have E: "E = D" using k(2) by (simp add: f)
      have "A x = pool_mem st x" if "x \<in> reads D" for x
      proof -
        have "\<forall>k E. not_run st k \<longrightarrow> job_heap st k = Some E \<longrightarrow> x \<notin> writes E"
          using live that by (auto simp: apart_def)
        then show ?thesis using assms(2) by (simp add: reflects_def)
      qed
      then show ?thesis using k(3) by (simp add: E f copy_run_local)
    next
      case False
      then have E: "not_run st k" "job_heap st k = Some E" using k by (simp_all add: n f)
      have "a \<notin> writes D" using live [OF E(2)] k(3) by (auto simp: apart_def)
      then show ?thesis using assms(2) E k(3) by (simp add: reflects_def copy_run_frame f)
    qed
  qed
  ultimately show ?thesis ..
qed

lemma pool_views:
  assumes "jobs s = jobs t" "pool_workers s = pool_workers t"
  shows "not_run s = not_run t" "active s = active t" "holds s = holds t"
  using assms by (simp_all add: fun_eq_iff not_run_def active_def holds_def)

lemma pool_same:
  assumes "jobs s = jobs t" "pool_workers s = pool_workers t" "job_heap s = job_heap t" "completed s = completed t"
    "next_job s = next_job t" "pool_mem s = pool_mem t"
  shows "pool_ok s = pool_ok t" "reflects s A = reflects t A" "lost_copy s = lost_copy t"
  using assms(3-6) by (simp_all add: pool_ok_def reflects_def lost_copy_def pool_views [OF assms(1,2)] assms(1))

lemma delete_ok:
  assumes "pool_ok st" "reflects st A" "completed st j"
  shows "pool_ok (delete_copy t j js st) \<and> reflects (delete_copy t j js st) A"
proof -
  let ?s = "delete_copy t j js st"
  have f: "jobs ?s = jobs st" "pool_workers ?s = pool_workers st" "job_heap ?s = (job_heap st)(j := None)"
    "completed ?s = completed st" "next_job ?s = next_job st" "pool_mem ?s = pool_mem st" by (simp_all add: delete_copy_def)
  note v = pool_views [OF f(1,2)]
  have nj: "\<not> active st j" using assms(1,3) by (auto simp: pool_ok_def)
  then have nr: "\<not> not_run st j" by (auto simp: not_run_def active_def holds_def)
  have "pool_ok ?s" using assms(1) nj by (auto simp: pool_ok_def v f)
  moreover have "reflects ?s A" using assms(2) nr unfolding reflects_def v f by (metis fun_upd_other)
  ultimately show ?thesis ..
qed

text \<open>A step of a waiting thread: it falls asleep, or deletes the copy, which has completed or is lost.\<close>

lemma wait_step_cases:
  assumes "wait_step t st = Some st'"
  obtains j js where "waiting_for st t = j # js" "job_heap st j \<noteq> None" "phase st t = Checking" "\<not> completed st j"
      "st' = st\<lparr>phase := (phase st)(t := Sleeping)\<rparr>"
  | j js where "waiting_for st t = j # js" "job_heap st j \<noteq> None" "st' = delete_copy t j js st"
      "phase st t = Checking \<and> completed st j \<or> phase st t = Woken"
  using assms by (auto simp: wait_step_def split: list.splits if_splits wait_phase.splits)

lemma waited_ok:
  assumes "pool_ok st" "reflects st A" "wait_step t st = Some st'"
  shows "lost_copy st' \<or> pool_ok st' \<and> reflects st' A"
  using assms(3)
proof (cases rule: wait_step_cases)
  case (1 j js)
  have "pool_ok st'" "reflects st' A" using assms(1,2) by (simp_all add: 1(5) pool_same [where s = "st\<lparr>phase := p\<rparr>" and t = st for p])
  then show ?thesis by simp
next
  case (2 j js)
  show ?thesis
  proof (cases "completed st j")
    case True
    then show ?thesis using delete_ok [OF assms(1,2)] 2(3) by simp
  next
    case False
    moreover have "j < next_job st" using assms(1) 2(2) by (simp add: pool_ok_def)
    ultimately show ?thesis by (auto simp: lost_copy_def 2(3) delete_copy_def)
  qed
qed

lemma client_ok:
  assumes "pool_ok st" "reflects st A" "\<forall>j D. job_heap st j = Some D \<longrightarrow> a \<notin> reads D \<union> writes D"
  shows "pool_ok (st\<lparr>pool_mem := (pool_mem st)(a := v)\<rparr>) \<and> reflects (st\<lparr>pool_mem := (pool_mem st)(a := v)\<rparr>) (A(a := v))"
proof -
  let ?s = "st\<lparr>pool_mem := (pool_mem st)(a := v)\<rparr>"
  have n: "not_run ?s k \<longleftrightarrow> not_run st k" "active ?s k \<longleftrightarrow> active st k" "holds ?s w k \<longleftrightarrow> holds st w k" for w k
    by (simp_all add: not_run_def active_def holds_def)
  have "reflects ?s (A(a := v))"
    unfolding reflects_def
  proof (intro conjI allI impI)
    fix k E b assume k: "not_run ?s k" "job_heap ?s k = Some E" "b \<in> writes E"
    then have E: "job_heap st k = Some E" "a \<notin> reads E" "a \<notin> writes E" using assms(3) by auto
    have "copy_run E ((pool_mem st)(a := v)) b = copy_run E (pool_mem st) b"
      using E(2) k(3) by (intro copy_run_local) auto
    then show "(A(a := v)) b = copy_run E (pool_mem ?s) b"
      using assms(2) E k n(1) by (auto simp: reflects_def)
  qed (use assms(2) in \<open>auto simp: reflects_def n\<close>)
  then show ?thesis using assms(1) by (simp add: pool_ok_def n)
qed

lemma wait_call:
  assumes "WaitGroupEvents t Dims Cur n es st = Some st'"
  shows "jobs st' = jobs st" "pool_workers st' = pool_workers st" "job_heap st' = job_heap st"
    "completed st' = completed st" "next_job st' = next_job st" "pool_mem st' = pool_mem st"
  using assms by (auto simp: WaitGroupEvents_def split: option.splits if_splits)

lemma wake_call:
  assumes "wake_spuriously t st = Some st'"
  shows "jobs st' = jobs st" "pool_workers st' = pool_workers st" "job_heap st' = job_heap st"
    "completed st' = completed st" "next_job st' = next_job st" "pool_mem st' = pool_mem st"
  using assms by (auto simp: wake_spuriously_def split: if_splits)

text \<open>A lost copy stays lost.\<close>

lemma lost_stays:
  assumes "lost_copy st" "next_job st \<le> next_job st'"
    and "\<And>j. j < next_job st \<Longrightarrow> job_heap st j = None \<Longrightarrow> job_heap st' j = None \<and> completed st' j = completed st j"
  shows "lost_copy st'"
  using assms unfolding lost_copy_def by (metis order_less_le_trans)

lemma worker_step_lost: "worker_step st st' \<Longrightarrow> lost_copy st \<Longrightarrow> lost_copy st'"
  by (erule worker_step.cases; rule lost_stays, assumption)
    (auto simp: worker_take_def worker_run_def SetCompleted_def Broadcast_def split: list.splits if_splits pool_worker.splits)

lemma wait_step_lost: "wait_step t st = Some st' \<Longrightarrow> lost_copy st \<Longrightarrow> lost_copy st'"
  by (rule lost_stays, assumption) (auto elim!: wait_step_cases simp: delete_copy_def)

lemma start_copy_lost: "start_copy D event st = Some (st', e) \<Longrightarrow> lost_copy st \<Longrightarrow> lost_copy st'"
  by (rule lost_stays, assumption)
    (auto simp: start_copy_def copy_event_def EnqueueJob_def Let_def split: option.splits)

lemma group_run_ok: "group_run early st A \<Longrightarrow> lost_copy st \<or> pool_ok st \<and> reflects st A"
proof (induction rule: group_run.induct)
  case (start n m)
  then show ?case by (auto simp: new_pool_def pool_ok_def reflects_def not_run_def active_def holds_def)
next
  case (wait st A t Dims Cur n es st')
  from pool_same [OF wait_call [OF wait.hyps(3)]] wait.IH show ?case by simp
next
  case (woken st A t st')
  from pool_same [OF wake_call [OF woken.hyps(3)]] woken.IH show ?case by simp
next
  case (worker st A st')
  show ?case
  proof (cases "lost_copy st")
    case True
    then show ?thesis using worker_step_lost [OF worker.hyps(2)] by blast
  next
    case False
    then have i: "pool_ok st" "reflects st A" using worker.IH by simp_all
    from worker.hyps(2) have "pool_ok st' \<and> reflects st' A"
      by (cases rule: worker_step.cases) (rule take_ok [OF i] run_ok [OF i] complete_ok [OF i], assumption)+
    then show ?thesis ..
  qed
next
  case (copy st A D event st' e)
  then show ?case using copy_ok start_copy_lost by blast
next
  case (waited st A t st')
  then show ?case using waited_ok wait_step_lost by blast
next
  case (client st A a v)
  have "lost_copy (st\<lparr>pool_mem := (pool_mem st)(a := v)\<rparr>) = lost_copy st" by (simp add: lost_copy_def)
  then show ?case using client client_ok by blast
qed

text \<open>
  The waiting threads: they wait for copies that were started, a thread sleeps only on a copy that has
  not completed, and without spurious wake-ups a thread is woken only when its copy has completed.
\<close>

definition waits_inv :: "bool \<Rightarrow> pool_state \<Rightarrow> bool" where
  "waits_inv early st \<longleftrightarrow>
     finite {t. waiting_for st t \<noteq> []} \<and>
     (\<forall>e js j. async_copies st e = Some js \<longrightarrow> j \<in> set js \<longrightarrow> j < next_job st) \<and>
     (\<forall>t j. j \<in> set (waiting_for st t) \<longrightarrow> j < next_job st) \<and>
     (\<forall>t j js. waiting_for st t = j # js \<longrightarrow> phase st t = Sleeping \<longrightarrow> \<not> completed st j) \<and>
     (\<not> early \<longrightarrow> (\<forall>t j js. waiting_for st t = j # js \<longrightarrow> phase st t = Woken \<longrightarrow> completed st j))"

lemma waits_woken:
  "waits_inv early st \<Longrightarrow> \<not> early \<Longrightarrow> waiting_for st t = j # js \<Longrightarrow> phase st t = Woken \<Longrightarrow> completed st j"
  unfolding waits_inv_def by blast

lemma waits_asleep:
  "waits_inv early st \<Longrightarrow> waiting_for st t = j # js \<Longrightarrow> phase st t = Sleeping \<Longrightarrow> \<not> completed st j"
  unfolding waits_inv_def by blast

lemma waits_ids: "waits_inv early st \<Longrightarrow> j \<in> set (waiting_for st t) \<Longrightarrow> j < next_job st"
  unfolding waits_inv_def by blast

lemma waits_copies: "waits_inv early st \<Longrightarrow> async_copies st e = Some js \<Longrightarrow> j \<in> set js \<Longrightarrow> j < next_job st"
  unfolding waits_inv_def by blast

lemma waits_finite: "waits_inv early st \<Longrightarrow> finite {t. waiting_for st t \<noteq> []}"
  unfolding waits_inv_def by blast

lemma those_members: "those xs = Some ys \<Longrightarrow> set xs = Some ` set ys"
  by (induction xs arbitrary: ys) (auto split: option.splits)

lemma those_copies:
  assumes "those (map (\<lambda>e. case e of None \<Rightarrow> None | Some e \<Rightarrow> f e) xs) = Some jss" "js \<in> set jss"
  shows "\<exists>e. f e = Some js"
proof -
  have "Some js \<in> set (map (\<lambda>e. case e of None \<Rightarrow> None | Some e \<Rightarrow> f e) xs)"
    using assms(2) by (simp only: those_members [OF assms(1)]) simp
  then show ?thesis by (auto split: option.splits)
qed

lemma waits_same:
  assumes "waits_inv early st" "async_copies st' = async_copies st" "waiting_for st' = waiting_for st"
    "phase st' = phase st" "completed st' = completed st" "next_job st' = next_job st"
  shows "waits_inv early st'"
  using assms by (simp add: waits_inv_def)

lemma waits_worker:
  assumes "waits_inv early st" "worker_step st st'"
  shows "waits_inv early st'"
  using assms(2)
proof (cases rule: worker_step.cases)
  case (take w)
  then show ?thesis
    by (intro waits_same [OF assms(1)]) (auto simp: worker_take_def split: list.splits if_splits)
next
  case (run w)
  then show ?thesis
    by (intro waits_same [OF assms(1)]) (auto simp: worker_run_def split: if_splits pool_worker.splits)
next
  case (complete w)
  then obtain j ws where "st' = Broadcast j (st\<lparr>completed := (completed st)(j := True), pool_workers := ws\<rparr>)"
    by (auto simp: SetCompleted_def split: if_splits pool_worker.splits)
  then show ?thesis using assms(1) by (auto simp: waits_inv_def Broadcast_def split: if_splits)
qed

lemma waits_copy:
  assumes "waits_inv early st" "start_copy D event st = Some (st', e)"
  shows "waits_inv early st'"
proof -
  define j where "j = next_job st"
  have f: "waiting_for st' = waiting_for st" "phase st' = phase st" "completed st' = (completed st)(j := False)" "next_job st' = Suc j"
    and a: "\<forall>e js k. async_copies st' e = Some js \<longrightarrow> k \<in> set js \<longrightarrow> k < Suc j"
    using assms
    by (auto simp: start_copy_def copy_event_def EnqueueJob_def Let_def j_def waits_inv_def less_Suc_eq split: option.splits if_splits)
  have "k \<noteq> j" "k < Suc j" if "k \<in> set (waiting_for st t)" for k t
    using assms(1) that by (auto simp: waits_inv_def j_def less_Suc_eq)
  then show ?thesis using assms(1) a unfolding waits_inv_def f by (simp add: fun_upd_def) (metis list.set_intros(1))
qed

lemma waits_call:
  assumes "waits_inv early st" "WaitGroupEvents t Dims Cur n es st = Some st'"
  shows "waits_inv early st'"
proof -
  consider "st' = st" | jss where "st' = st\<lparr>waiting_for := (waiting_for st)(t := concat jss), phase := (phase st)(t := Checking)\<rparr>"
      "\<forall>js \<in> set jss. \<exists>e. async_copies st e = Some js"
    using assms(2) by (auto simp: WaitGroupEvents_def split: option.splits if_splits) (metis those_copies)
  then show ?thesis
  proof cases
    case 1
    with assms(1) show ?thesis by simp
  next
    case (2 jss)
    have "{u. (if u = t then concat jss else waiting_for st u) \<noteq> []} \<subseteq> insert t {u. waiting_for st u \<noteq> []}" by auto
    then have "finite {u. (if u = t then concat jss else waiting_for st u) \<noteq> []}"
      by (rule finite_subset) (simp add: waits_finite [OF assms(1)])
    moreover have "\<forall>k \<in> set (concat jss). k < next_job st" using waits_copies [OF assms(1)] 2(2) by auto
    ultimately show ?thesis using assms(1) by (simp add: waits_inv_def 2(1) fun_upd_def) blast
  qed
qed

lemma waits_step:
  assumes "waits_inv early st" "wait_step t st = Some st'"
  shows "waits_inv early st'"
  using assms(2)
proof (cases rule: wait_step_cases)
  case (1 j js)
  then show ?thesis using assms(1) by (simp add: waits_inv_def)
next
  case (2 j js)
  have "{u. (if u = t then js else waiting_for st u) \<noteq> []} \<subseteq> {u. waiting_for st u \<noteq> []}" using 2(1) by auto
  then have "finite {u. (if u = t then js else waiting_for st u) \<noteq> []}"
    by (rule finite_subset) (simp add: waits_finite [OF assms(1)])
  moreover have "\<forall>k \<in> set js. k < next_job st" using waits_ids [OF assms(1), of _ t] 2(1) by simp
  ultimately show ?thesis using assms(1) by (simp add: waits_inv_def 2(3) delete_copy_def fun_upd_def)
qed

lemma group_run_waits: "group_run early st A \<Longrightarrow> waits_inv early st"
proof (induction rule: group_run.induct)
  case (start n m)
  then show ?case by (simp add: waits_inv_def new_pool_def)
next
  case (woken st A t st')
  then have "st' = st\<lparr>phase := (phase st)(t := Woken)\<rparr>" by (simp add: wake_spuriously_def split: if_splits)
  with woken.IH woken.hyps(2) show ?case by (simp add: waits_inv_def)
next
  case (client st A a v)
  then show ?case by (simp add: waits_inv_def)
qed (blast intro: waits_worker waits_copy waits_call waits_step)+

text \<open>Without spurious wake-ups no copy is lost.\<close>

lemma nothing_lost: "group_run early st A \<Longrightarrow> \<not> early \<Longrightarrow> \<not> lost_copy st"
proof (induction rule: group_run.induct)
  case (start n m)
  then show ?case by (simp add: lost_copy_def new_pool_def)
next
  case (copy st A D event st' e)
  then show ?case
    by (auto simp: lost_copy_def start_copy_def copy_event_def EnqueueJob_def Let_def less_Suc_eq split: option.splits) blast+
next
  case (wait st A t Dims Cur n es st')
  then show ?case using pool_same(3) [OF wait_call [OF wait.hyps(3)]] by simp
next
  case (waited st A t st')
  have w: "waits_inv early st" by (rule group_run_waits [OF waited.hyps(1)])
  from waited.hyps(2) show ?case
  proof (cases rule: wait_step_cases)
    case (1 j js)
    then show ?thesis using waited by (simp add: lost_copy_def)
  next
    case (2 j js)
    then have "completed st j" using waits_woken [OF w waited.prems] by blast
    then show ?thesis using waited 2(3) by (auto simp: lost_copy_def delete_copy_def)
  qed
next
  case (worker st A st')
  then have "\<not> lost_copy st" by simp
  moreover have "job_heap st' = job_heap st" "next_job st' = next_job st" "completed st j \<Longrightarrow> completed st' j" for j
    using worker.hyps(2)
    by (auto elim!: worker_step.cases simp: worker_take_def worker_run_def SetCompleted_def Broadcast_def
             split: list.splits if_splits pool_worker.splits)
  ultimately show ?case unfolding lost_copy_def by metis
next
  case (client st A a v)
  then show ?case by (simp add: lost_copy_def)
qed simp

text \<open>
  C10: the asynchronous copies of work-groups refine copies done at once. In every run of the pool in
  which a copy that is started, and whatever else the work-items write, keeps away from the copies not
  yet deleted by a wait, memory outside the targets of the copies still going on is at all times what it
  would be had each copy been done by the call that started it. The one exception is on a platform
  whose threads wake up without a broadcast, in a run in which such a wake-up has made a wait delete a
  copy before it had completed.
\<close>

theorem group_copies_refine_copying:
  assumes "group_run early st A" "\<forall>j D. job_heap st j = Some D \<longrightarrow> \<not> completed st j \<longrightarrow> a \<notin> writes D"
  shows "pool_mem st a = A a \<or> early \<and> lost_copy st"
proof (cases "lost_copy st")
  case True
  then show ?thesis using nothing_lost [OF assms(1)] by blast
next
  case False
  then have ok: "pool_ok st" "reflects st A" using group_run_ok [OF assms(1)] by auto
  have "a \<notin> writes D" if "not_run st j" "job_heap st j = Some D" for j D
  proof -
    have "active st j" using that(1) by (auto simp: not_run_def active_def holds_def)
    then have "\<not> completed st j" using ok(1) by (auto simp: pool_ok_def)
    then show ?thesis using assms(2) that(2) by blast
  qed
  then show ?thesis using ok(2) by (simp add: reflects_def)
qed

section \<open>Progress\<close>

text \<open>What the workers still have to do.\<close>

definition worker_work :: "pool_worker \<Rightarrow> nat" where
  "worker_work w = (case w of WaitsForJob \<Rightarrow> 0 | RunsJob j \<Rightarrow> 2 | RanJob j \<Rightarrow> 1)"

definition pool_work :: "pool_state \<Rightarrow> nat" where
  "pool_work st = 3 * length (jobs st) + sum_list (map worker_work (pool_workers st))"

lemma sum_list_replace:
  "w < length ws \<Longrightarrow> sum_list (map f (ws[w := x])) + f (ws ! w) = sum_list (map f ws) + (f x :: nat)"
  by (induction ws arbitrary: w) (auto split: nat.splits)

lemma worker_step_work: "worker_step st st' \<Longrightarrow> pool_work st' < pool_work st"
proof (induction rule: worker_step.induct)
  case (take w st st')
  then show ?case using sum_list_replace [of w "pool_workers st" worker_work]
    by (fastforce simp: worker_take_def pool_work_def worker_work_def split: list.splits if_splits)
next
  case (run w st st')
  then obtain j D where "w < length (pool_workers st)" "pool_workers st ! w = RunsJob j"
    "st' = st\<lparr>pool_mem := copy_run D (pool_mem st), pool_workers := (pool_workers st)[w := RanJob j]\<rparr>"
    by (auto simp: worker_run_def split: if_splits pool_worker.splits)
  then show ?case using sum_list_replace [of w "pool_workers st" worker_work "RanJob j"] by (simp add: pool_work_def worker_work_def)
next
  case (complete w st st')
  then obtain j where "w < length (pool_workers st)" "pool_workers st ! w = RanJob j"
    "st' = Broadcast j (st\<lparr>completed := (completed st)(j := True), pool_workers := (pool_workers st)[w := WaitsForJob]\<rparr>)"
    by (auto simp: SetCompleted_def split: if_splits pool_worker.splits)
  then show ?case using sum_list_replace [of w "pool_workers st" worker_work WaitsForJob]
    by (simp add: pool_work_def worker_work_def Broadcast_def)
qed

lemma worker_can_step:
  assumes "pool_ok st" "pool_workers st \<noteq> []" "active st j"
  shows "\<exists>st'. worker_step st st'"
proof (cases "\<exists>w k. holds st w k")
  case True
  then obtain w k where h: "holds st w k" by blast
  then have k: "job_heap st k \<noteq> None" "w < length (pool_workers st)"
    using assms(1) by (auto simp: pool_ok_def active_def holds_def)
  show ?thesis
  proof (cases "pool_workers st ! w = RunsJob k")
    case True
    then show ?thesis using k worker_step.run [of w st] by (auto simp: worker_run_def)
  next
    case False
    then have "pool_workers st ! w = RanJob k" using h by (simp add: holds_def)
    then show ?thesis using k worker_step.complete [of w st] by (auto simp: SetCompleted_def)
  qed
next
  case False
  then obtain k ks where "jobs st = k # ks" using assms(3) by (cases "jobs st") (auto simp: active_def)
  moreover have "pool_workers st ! 0 = WaitsForJob"
    using False assms(2) by (cases "pool_workers st ! 0") (auto simp: holds_def)
  ultimately show ?thesis using assms(2) worker_step.take [of 0 st] by (auto simp: worker_take_def)
qed

lemma group_run_workers: "group_run early st A \<Longrightarrow> pool_workers st \<noteq> []"
proof (induction rule: group_run.induct)
  case (worker st A st')
  then show ?case by (auto elim!: worker_step.cases simp: worker_take_def worker_run_def SetCompleted_def Broadcast_def
      split: list.splits if_splits pool_worker.splits)
next
  case (wait st A t Dims Cur n es st')
  then show ?case using wait_call(2) by metis
next
  case (woken st A t st')
  then show ?case using wake_call(2) by metis
next
  case (waited st A t st')
  from waited.hyps(2) show ?case by (cases rule: wait_step_cases) (simp_all add: waited.IH delete_copy_def)
qed (auto simp: new_pool_def start_copy_def copy_event_def EnqueueJob_def Let_def split: option.splits)

text \<open>
  A step that needs no call of a work-item: of a worker, of a waiting thread, or a wake-up. A waiting
  thread makes at most three for each of its copies.
\<close>

inductive group_step :: "bool \<Rightarrow> pool_state \<Rightarrow> pool_state \<Rightarrow> bool" for early :: bool where
  works: "worker_step st st' \<Longrightarrow> group_step early st st'"
| waits: "wait_step t st = Some st' \<Longrightarrow> group_step early st st'"
| wakes: "early \<Longrightarrow> wake_spuriously t st = Some st' \<Longrightarrow> group_step early st st'"

definition wait_work_of :: "pool_state \<Rightarrow> nat \<Rightarrow> nat" where
  "wait_work_of st t =
     3 * length (waiting_for st t) - (case phase st t of Checking \<Rightarrow> 0 | Sleeping \<Rightarrow> 1 | Woken \<Rightarrow> 2)"

definition wait_work :: "pool_state \<Rightarrow> nat" where
  "wait_work st = (\<Sum>t | waiting_for st t \<noteq> []. wait_work_of st t)"

lemma wait_work_over:
  assumes "finite T" "{t. waiting_for st t \<noteq> []} \<subseteq> T"
  shows "wait_work st = sum (wait_work_of st) T"
  unfolding wait_work_def by (rule sum.mono_neutral_left [OF assms]) (auto simp: wait_work_of_def)

lemma wait_work_one:
  assumes "finite {t. waiting_for st t \<noteq> []}" "\<forall>u. u \<noteq> t \<longrightarrow> waiting_for st' u = waiting_for st u \<and> phase st' u = phase st u"
    and "wait_work_of st' t < wait_work_of st t"
  shows "wait_work st' < wait_work st"
proof -
  let ?T = "insert t {t. waiting_for st t \<noteq> []}"
  have T: "finite ?T" using assms(1) by simp
  have "{u. waiting_for st' u \<noteq> []} \<subseteq> ?T" using assms(2) by auto
  then have "wait_work st' = sum (wait_work_of st') ?T" by (rule wait_work_over [OF T])
  moreover have "wait_work st = sum (wait_work_of st) ?T" by (rule wait_work_over [OF T]) auto
  moreover have "wait_work_of st' u \<le> wait_work_of st u" for u
    using assms(2,3) by (cases "u = t") (simp_all add: wait_work_of_def)
  then have "sum (wait_work_of st') ?T < sum (wait_work_of st) ?T"
    using assms(3) by (intro sum_strict_mono_ex1 [OF T]) auto
  ultimately show ?thesis by simp
qed

lemma wait_step_work:
  assumes "finite {t. waiting_for st t \<noteq> []}" "wait_step t st = Some st'"
  shows "wait_work st' < wait_work st \<and> pool_work st' = pool_work st"
  using assms(2)
proof (cases rule: wait_step_cases)
  case (1 j js)
  then show ?thesis
    by (intro conjI wait_work_one [OF assms(1), of t]) (simp_all add: wait_work_of_def pool_work_def)
next
  case (2 j js)
  then show ?thesis
    by (intro conjI wait_work_one [OF assms(1), of t])
      (auto simp: wait_work_of_def pool_work_def delete_copy_def split: wait_phase.split)
qed

lemma wake_work:
  assumes "finite {t. waiting_for st t \<noteq> []}" "wake_spuriously t st = Some st'"
  shows "wait_work st' < wait_work st \<and> pool_work st' = pool_work st"
proof -
  have "waiting_for st t \<noteq> []" "phase st t = Sleeping" "st' = st\<lparr>phase := (phase st)(t := Woken)\<rparr>"
    using assms(2) by (auto simp: wake_spuriously_def split: if_splits)
  then show ?thesis
    by (intro conjI wait_work_one [OF assms(1), of t]) (auto simp: wait_work_of_def pool_work_def neq_Nil_conv)
qed

lemma worker_step_waits:
  assumes "worker_step st st'"
  shows "waiting_for st' = waiting_for st" "wait_work st' \<le> wait_work st"
proof -
  show w: "waiting_for st' = waiting_for st"
    using assms
    by (auto elim!: worker_step.cases simp: worker_take_def worker_run_def SetCompleted_def Broadcast_def
             split: list.splits if_splits pool_worker.splits)
  have "phase st' u = phase st u \<or> phase st u = Sleeping \<and> phase st' u = Woken" for u
    using assms
    by (auto elim!: worker_step.cases simp: worker_take_def worker_run_def SetCompleted_def Broadcast_def
             split: list.splits if_splits pool_worker.splits)
  then have "wait_work_of st' u \<le> wait_work_of st u" for u
    by (rule disjE [where P = "phase st' u = phase st u"]) (simp_all add: wait_work_of_def w)
  then show "wait_work st' \<le> wait_work st" unfolding wait_work_def w by (rule sum_mono)
qed

lemma group_step_lowers:
  assumes "group_run early st A" "group_step early st st'"
  shows "pool_work st' + wait_work st' < pool_work st + wait_work st"
proof -
  have f: "finite {t. waiting_for st t \<noteq> []}" using group_run_waits [OF assms(1)] by (simp add: waits_inv_def)
  from assms(2) show ?thesis
  proof cases
    case works
    then show ?thesis using worker_step_work worker_step_waits(2) by (metis add_less_le_mono)
  next
    case (waits t)
    then show ?thesis using wait_step_work [OF f] by simp
  next
    case (wakes t)
    then show ?thesis using wake_work [OF f] by simp
  qed
qed

lemma group_step_run: "group_step early st st' \<Longrightarrow> group_run early st A \<Longrightarrow> group_run early st' A"
  by (induction rule: group_step.induct) (auto intro: group_run.worker group_run.waited group_run.woken)

lemma group_steps_run:
  "(group_step early ^^ n) st st' \<Longrightarrow> group_run early st A \<Longrightarrow>
   group_run early st' A \<and> n + pool_work st' + wait_work st' \<le> pool_work st + wait_work st"
proof (induction n arbitrary: st')
  case (Suc n)
  then obtain s where s: "(group_step early ^^ n) st s" "group_step early s st'" by auto
  from Suc.IH [OF s(1) Suc.prems(2)] have i: "group_run early s A" "n + pool_work s + wait_work s \<le> pool_work st + wait_work st"
    by simp_all
  from group_step_lowers [OF i(1) s(2)] group_step_run [OF s(2) i(1)] i(2) show ?case by simp
qed simp

text \<open>
  Every copy is waited for once, as the language asks: its event is released by the wait.
\<close>

definition waits_once :: "pool_state \<Rightarrow> bool" where
  "waits_once st \<longleftrightarrow>
     (\<forall>t. distinct (waiting_for st t) \<and> (\<forall>j \<in> set (waiting_for st t). job_heap st j \<noteq> None)) \<and>
     (\<forall>t u. t \<noteq> u \<longrightarrow> set (waiting_for st t) \<inter> set (waiting_for st u) = {})"

lemma waits_once_delete:
  assumes o: "waits_once st" and t: "waiting_for st t = j # js"
  shows "waits_once (delete_copy t j js st)"
proof -
  have "j \<notin> set js" using o t by (metis distinct.simps(2) waits_once_def)
  moreover have "j \<notin> set (waiting_for st u)" if "u \<noteq> t" for u
    using o t that unfolding waits_once_def by (metis disjoint_iff list.set_intros(1))
  moreover have "distinct js" "\<forall>k \<in> set js. job_heap st k \<noteq> None"
    using o t unfolding waits_once_def by (metis distinct.simps(2), metis list.set_intros(2))
  moreover have "set js \<inter> set (waiting_for st u) = {}" if "u \<noteq> t" for u
    using o t that unfolding waits_once_def by (metis disjoint_iff list.set_intros(2))
  ultimately show ?thesis
    using o by (auto simp: waits_once_def delete_copy_def)
qed

lemma waits_once_step: "group_step early st st' \<Longrightarrow> waits_once st \<Longrightarrow> waits_once st'"
proof (induction rule: group_step.induct)
  case (works st st')
  then have "waiting_for st' = waiting_for st" "job_heap st' = job_heap st"
    by (auto elim!: worker_step.cases simp: worker_take_def worker_run_def SetCompleted_def Broadcast_def
             split: list.splits if_splits pool_worker.splits)
  with works show ?case by (simp add: waits_once_def)
next
  case (waits t st st')
  from waits(1) show ?case
    by (cases rule: wait_step_cases) (use waits(2) waits_once_delete in \<open>auto simp: waits_once_def\<close>)
next
  case (wakes t st st')
  then have "st' = st\<lparr>phase := (phase st)(t := Woken)\<rparr>" by (simp add: wake_spuriously_def split: if_splits)
  with wakes.prems show ?case by (simp add: waits_once_def)
qed

lemma waits_once_steps: "(group_step early ^^ n) st st' \<Longrightarrow> waits_once st \<Longrightarrow> waits_once st'"
  by (induction n arbitrary: st') (auto dest: waits_once_step)

lemma stuck_completed:
  assumes "group_run early st A" "\<not> lost_copy st" "\<nexists>s. group_step early st s" "job_heap st j \<noteq> None"
  shows "completed st j"
proof -
  have ok: "pool_ok st" using group_run_ok [OF assms(1)] assms(2) by blast
  have "\<not> active st j"
    using worker_can_step [OF ok group_run_workers [OF assms(1)]] assms(3) works by blast
  then show ?thesis using ok assms(4) unfolding pool_ok_def by blast
qed

lemma stuck_returned:
  assumes "group_run early st A" "\<not> lost_copy st" "\<nexists>s. group_step early st s" "waits_once st"
  shows "waiting_for st t = []"
proof (rule ccontr)
  assume "waiting_for st t \<noteq> []"
  then obtain j js where t: "waiting_for st t = j # js" by (cases "waiting_for st t") auto
  then have h: "job_heap st j \<noteq> None" using assms(4) unfolding waits_once_def by (metis list.set_intros(1))
  then have "completed st j" by (rule stuck_completed [OF assms(1-3)])
  then have "phase st t \<noteq> Sleeping" using waits_asleep [OF group_run_waits [OF assms(1)] t] by blast
  then have "wait_step t st \<noteq> None" using t h by (auto simp: wait_step_def split: wait_phase.split)
  then show False using assms(3) waits by blast
qed

text \<open>
  C11: every copy that was started completes and every wait for it returns: from any state of a run the
  threads of the pool and the waiting threads make a bounded number of steps, and when none of them can
  make another one, every copy not yet deleted has completed, and no thread waits any more if each copy
  was waited for once. The exception is that of a platform whose threads wake up without a broadcast, when such a
  wake-up has made a wait delete a copy before it had completed.
\<close>

theorem group_copies_complete:
  assumes "group_run early st A" "(group_step early ^^ n) st st'"
  shows "n \<le> pool_work st + wait_work st \<and>
    ((\<nexists>s. group_step early st' s) \<longrightarrow>
       early \<and> lost_copy st' \<or>
       (\<forall>j. job_heap st' j \<noteq> None \<longrightarrow> completed st' j) \<and> (waits_once st \<longrightarrow> (\<forall>t. waiting_for st' t = [])))"
proof -
  have r: "group_run early st' A" "n \<le> pool_work st + wait_work st" using group_steps_run [OF assms(2,1)] by auto
  show ?thesis
  proof (cases "lost_copy st'")
    case True
    then show ?thesis using r nothing_lost by blast
  next
    case False
    then show ?thesis
      using r stuck_completed [OF r(1) False] stuck_returned [OF r(1) False] waits_once_steps [OF assms(2)] by blast
  qed
qed

section \<open>Strided copies\<close>

lemma put_pairs_value:
  assumes "distinct (map fst ps)" "fst ` set ps \<inter> snd ` set ps = {}" "(a, b) \<in> set ps"
  shows "foldl put_pair m ps a = m b"
  using assms
proof (induction ps arbitrary: m)
  case (Cons p ps)
  show ?case
  proof (cases "(a, b) = p")
    case True
    then have "foldl put_pair (put_pair m p) ps a = put_pair m p a"
      using Cons.prems by (intro put_pairs_frame) (cases p, force)
    moreover have "put_pair m p a = m b" using True by (cases p) (simp add: put_pair_def)
    ultimately show ?thesis by simp
  next
    case False
    then have i: "(a, b) \<in> set ps" using Cons.prems by auto
    then have "b \<in> snd ` set ps" by (rule rev_image_eqI) simp
    moreover have "fst p \<notin> snd ` set ps" using Cons.prems(2) by auto
    ultimately have "b \<noteq> fst p" by metis
    then show ?thesis using Cons i by (simp add: put_pair_def disjoint_iff)
  qed
qed simp

text \<open>The target bytes of a gathering copy, in order.\<close>

lemma gather_targets:
  "map fst (strided_pairs D 0 ss n) = map (\<lambda>k. dst D + of_nat k) [0..<n * unat (sz_gentype D)]"
proof (induction n)
  case (Suc n)
  define z where "z = unat (sz_gentype D)"
  have z: "of_nat z = sz_gentype D" by (simp add: z_def)
  have e: "map fst (element_pairs a b k) = map (\<lambda>J. a + of_nat J) [0..<k]" for a b k by (simp add: element_pairs_def comp_def)
  have "[0..<Suc n * z] = [0..<n * z] @ map (\<lambda>J. J + n * z) [0..<z]"
    using upt_add_eq_append [of 0 "n * z" z] by (simp add: map_add_upt add.commute)
  then have "map (\<lambda>k. dst D + of_nat k) [0..<Suc n * z] =
      map (\<lambda>k. dst D + of_nat k) [0..<n * z] @ map (\<lambda>J. dst D + of_nat n * sz_gentype D + of_nat J) [0..<z]"
    by (simp add: comp_def z algebra_simps)
  then show ?case using Suc by (simp add: strided_pairs_Suc e z_def [symmetric])
qed (simp add: strided_pairs_def)

lemma of_nat_distinct: "k \<le> 2 ^ 64 \<Longrightarrow> distinct (map (\<lambda>k. (d :: ptr) + of_nat k) [0..<k])"
  by (auto simp: distinct_map inj_on_def word_of_nat_eq_iff take_bit_nat_eq_self)

text \<open>
  \<open>async_work_group_strided_copy\<close> into local memory writes the elements one after the other, and takes
  element \<open>I\<close> from \<open>I * (stride + 1)\<close> elements behind the source pointer: a stride of 1, which should be
  the copy without stride, skips every other element.
\<close>

lemma strided_copy_skips_one_more:
  assumes "src_stride D \<noteq> 0" "unat (num_gentypes D) * unat (sz_gentype D) \<le> 2 ^ 64" "writes D \<inter> reads D = {}"
    and "I < unat (num_gentypes D)" "J < unat (sz_gentype D)"
  shows "copy_run D m (dst D + of_nat (I * unat (sz_gentype D) + J)) =
         m (src D + of_nat I * sz_gentype D * (src_stride D + 1) + of_nat J)"
proof -
  have p: "copy_pairs D = strided_pairs D 0 (src_stride D) (unat (num_gentypes D))" using assms(1) by (simp add: copy_pairs_def)
  have "(dst D + of_nat (I * unat (sz_gentype D) + J), src D + of_nat I * sz_gentype D * (src_stride D + 1) + of_nat J) \<in> set (copy_pairs D)"
    using assms(4,5) by (auto simp: p strided_pairs_def element_pairs_def algebra_simps intro!: bexI [of _ I] image_eqI [of _ _ J])
  moreover have "distinct (map fst (copy_pairs D))"
    unfolding p gather_targets using assms(2) by (rule of_nat_distinct)
  ultimately show ?thesis
    using assms(1,3) by (simp add: strided_run put_pairs_value writes_def reads_def)
qed

section \<open>Examples\<close>

text \<open>A copy of four bytes by a pool of one thread, from its start to its completion.\<close>

definition four_bytes :: copy_data where
  "four_bytes = \<lparr>dst = 100, src = 200, num_gentypes = 4, sz_gentype = 1, dst_stride = 0, src_stride = 0\<rparr>"

definition four_started :: "pool_worker list \<Rightarrow> nat list \<Rightarrow> bool \<Rightarrow> memory \<Rightarrow> pool_state" where
  "four_started ws js b m = \<lparr>jobs = js, pool_workers = ws, job_heap = [0 \<mapsto> four_bytes], completed = (\<lambda>_. False)(0 := b),
     async_copies = [0 \<mapsto> [0]], next_job = 1, next_event = 1, waiting_for = \<lambda>_. [], phase = \<lambda>_. Checking, pool_mem = m\<rparr>"

text \<open>The same with a thread that waits for it, and after this thread has deleted it.\<close>

definition four_waiting :: "pool_worker list \<Rightarrow> nat list \<Rightarrow> bool \<Rightarrow> wait_phase \<Rightarrow> memory \<Rightarrow> pool_state" where
  "four_waiting ws js b p m =
     (four_started ws js b m)\<lparr>waiting_for := (\<lambda>_. [])(0 := [0]), phase := (\<lambda>_. Checking)(0 := p)\<rparr>"

definition four_deleted :: "pool_worker list \<Rightarrow> nat list \<Rightarrow> bool \<Rightarrow> memory \<Rightarrow> pool_state" where
  "four_deleted ws js b m = delete_copy 0 0 [] (four_waiting ws js b Woken m)"

definition four_dims :: dim_info where "four_dims = DimensionInfo [0] [4] [4]"

lemma four_run: "group_run early (four_started [WaitsForJob] [0] False m) (copy_run four_bytes m)"
proof (rule group_run.copy [OF group_run.start])
  show "start_copy four_bytes None (new_pool 1 m) = Some (four_started [WaitsForJob] [0] False m, Some 0)"
    by (simp add: start_copy_def copy_event_def EnqueueJob_def new_pool_def four_started_def)
qed (simp_all add: apart_from_live_def new_pool_def)

lemma four_steps:
  "worker_step (four_started [WaitsForJob] [0] False m) (four_started [RunsJob 0] [] False m)"
  "worker_step (four_started [RunsJob 0] [] False m) (four_started [RanJob 0] [] False (copy_run four_bytes m))"
  "worker_step (four_started [RanJob 0] [] False m) (four_started [WaitsForJob] [] True m)"
  by (rule worker_step.take [of 0], simp add: worker_take_def four_started_def)
     (rule worker_step.run [of 0], simp add: worker_run_def four_started_def,
      rule worker_step.complete [of 0], simp add: SetCompleted_def Broadcast_def four_started_def)

lemma four_wait: "group_run early (four_waiting [WaitsForJob] [0] False Checking m) (copy_run four_bytes m)"
proof (rule group_run.wait [OF four_run])
  show "WaitGroupEvents 0 four_dims (iter_begin four_dims) 1 (Some [Some 0]) (four_started [WaitsForJob] [0] False m) =
      Some (four_waiting [WaitsForJob] [0] False Checking m)"
    by (simp add: WaitGroupEvents_def four_started_def four_waiting_def IsFirst_def GetLocalId_def GetDimensions_def
        four_dims_def DimensionInfo_def iter_begin_def)
qed (simp add: four_started_def)

lemma four_sleeps: "wait_step 0 (four_waiting ws js False Checking m) = Some (four_waiting ws js False Sleeping m)"
  by (simp add: wait_step_def four_waiting_def four_started_def)

lemma four_deletes: "wait_step 0 (four_waiting ws js b Woken m) = Some (four_deleted ws js b m)"
  by (simp add: wait_step_def four_waiting_def four_started_def four_deleted_def)

lemma four_waits:
  "worker_step (four_waiting [WaitsForJob] [0] False p m) (four_waiting [RunsJob 0] [] False p m)"
  "worker_step (four_waiting [RunsJob 0] [] False p m) (four_waiting [RanJob 0] [] False p (copy_run four_bytes m))"
  "worker_step (four_waiting [RanJob 0] [] False Sleeping m) (four_waiting [WaitsForJob] [] True Woken m)"
  by (rule worker_step.take [of 0], simp add: worker_take_def four_waiting_def four_started_def)
     (rule worker_step.run [of 0], simp add: worker_run_def four_waiting_def four_started_def,
      rule worker_step.complete [of 0],
      simp add: SetCompleted_def Broadcast_def four_waiting_def four_started_def fun_eq_iff)

text \<open>
  On a platform with spurious wake-ups the wait can return, and the copy be deleted, while the job is
  still in the queue of the pool: the work-group finds the old contents at the target.
\<close>

lemma wait_returns_before_copy:
  "\<exists>st. group_run True st (copy_run four_bytes m) \<and> waiting_for st 0 = [] \<and> job_heap st 0 = None \<and> jobs st = [0] \<and>
        lost_copy st \<and> pool_mem st 102 = m 102 \<and> copy_run four_bytes m 102 = m 202"
proof (intro exI conjI)
  let ?st = "four_deleted [WaitsForJob] [0] False m"
  have "group_run True (four_waiting [WaitsForJob] [0] False Sleeping m) (copy_run four_bytes m)"
    by (rule group_run.waited [OF four_wait four_sleeps])
  moreover have "wake_spuriously 0 (four_waiting [WaitsForJob] [0] False Sleeping m) = Some (four_waiting [WaitsForJob] [0] False Woken m)"
    by (simp add: wake_spuriously_def four_waiting_def)
  ultimately have "group_run True (four_waiting [WaitsForJob] [0] False Woken m) (copy_run four_bytes m)"
    using group_run.woken by blast
  then show "group_run True ?st (copy_run four_bytes m)" using four_deletes by (rule group_run.waited)
  show "waiting_for ?st 0 = []" "job_heap ?st 0 = None" "jobs ?st = [0]" "lost_copy ?st" "pool_mem ?st 102 = m 102"
    by (simp_all add: four_deleted_def delete_copy_def four_waiting_def four_started_def lost_copy_def)
  show "copy_run four_bytes m 102 = m 202" by (simp add: copy_run_def four_bytes_def memcpy_def)
qed

theorem group_copies_refine_copying_witness:
  "\<forall>m. pool_mem (four_started [WaitsForJob] [] True (copy_run four_bytes m)) 102 = m 202"
proof
  fix m
  have "group_run False (four_started [WaitsForJob] [] True (copy_run four_bytes m)) (copy_run four_bytes m)"
    by (rule group_run.worker [OF group_run.worker [OF group_run.worker [OF four_run four_steps(1)] four_steps(2)] four_steps(3)])
  then have "pool_mem (four_started [WaitsForJob] [] True (copy_run four_bytes m)) 102 = copy_run four_bytes m 102 \<or>
      False \<and> lost_copy (four_started [WaitsForJob] [] True (copy_run four_bytes m))"
    by (rule group_copies_refine_copying) (simp add: four_started_def)
  then have "pool_mem (four_started [WaitsForJob] [] True (copy_run four_bytes m)) 102 = copy_run four_bytes m 102" by simp
  also have "\<dots> = m 202" by (simp add: copy_run_def four_bytes_def memcpy_def)
  finally show "pool_mem (four_started [WaitsForJob] [] True (copy_run four_bytes m)) 102 = m 202" .
qed

theorem group_copies_complete_witness:
  "5 \<le> pool_work (four_waiting [WaitsForJob] [0] False Checking (\<lambda>_. 0)) +
       wait_work (four_waiting [WaitsForJob] [0] False Checking (\<lambda>_. 0)) \<and>
   waiting_for (four_deleted [WaitsForJob] [] True (copy_run four_bytes (\<lambda>_. 0))) 0 = []"
proof -
  let ?m = "\<lambda>_. 0 :: 8 word" and ?w = four_waiting
  let ?s0 = "?w [WaitsForJob] [0] False Checking ?m"
  let ?s5 = "four_deleted [WaitsForJob] [] True (copy_run four_bytes ?m)"
  have "group_step False ?s0 (?w [WaitsForJob] [0] False Sleeping ?m)" by (rule waits [OF four_sleeps])
  moreover have "group_step False (?w [WaitsForJob] [0] False Sleeping ?m) (?w [RunsJob 0] [] False Sleeping ?m)"
    by (rule works [OF four_waits(1)])
  moreover have "group_step False (?w [RunsJob 0] [] False Sleeping ?m) (?w [RanJob 0] [] False Sleeping (copy_run four_bytes ?m))"
    by (rule works [OF four_waits(2)])
  moreover have "group_step False (?w [RanJob 0] [] False Sleeping (copy_run four_bytes ?m))
      (?w [WaitsForJob] [] True Woken (copy_run four_bytes ?m))"
    by (rule works [OF four_waits(3)])
  moreover have "group_step False (?w [WaitsForJob] [] True Woken (copy_run four_bytes ?m)) ?s5" by (rule waits [OF four_deletes])
  ultimately have run: "(group_step False ^^ 5) ?s0 ?s5" by (auto simp: eval_nat_numeral intro!: relcomppI)
  have stuck: "\<nexists>s. group_step False ?s5 s"
  proof
    assume "\<exists>s. group_step False ?s5 s"
    then obtain s where "group_step False ?s5 s" ..
    then show False
      by cases (auto elim!: worker_step.cases simp: four_deleted_def delete_copy_def four_waiting_def four_started_def
                wait_step_def worker_take_def worker_run_def SetCompleted_def less_Suc_eq split: if_splits)
  qed
  have once: "waits_once ?s0" by (auto simp: waits_once_def four_waiting_def four_started_def)
  show ?thesis using group_copies_complete [OF four_wait run] stuck once by blast
qed

end
