(* ===== verification/Local_Memory.thy ===== *)
theory Local_Memory
  imports Kernel_Args
begin

text \<open>
  The local memory of a thread, \<open>LocalMemory\<close> in \<open>lib/Device/CPU/Memory.cpp\<close>, and the argument block of a
  kernel that uses it, \<open>CPUKernelArguments::prepareArgumentsBuffer\<close> in \<open>lib/Device/CPU/CPUThread.cpp\<close>.
  The result is \<open>None\<close> when an assertion fails or a slot outside the block is written.
\<close>

section \<open>The allocator\<close>

record local_memory =
  LSize :: size_t
  LBase :: ptr
  LNext :: ptr
  LStatic :: ptr

definition LocalMemory :: "size_t \<Rightarrow> ptr \<Rightarrow> local_memory" where
  "LocalMemory sz base = \<lparr>LSize = sz, LBase = base, LNext = base, LStatic = NULL\<rparr>"

definition LReset :: "size_t \<Rightarrow> local_memory \<Rightarrow> local_memory option" where
  "LReset StaticSize LM =
     (if StaticSize \<le> LSize LM
      then Some (LM\<lparr>LStatic := (if StaticSize \<noteq> 0 then LBase LM else NULL), LNext := LBase LM + StaticSize\<rparr>) else None)"

definition LAlloc :: "size_t \<Rightarrow> local_memory \<Rightarrow> (ptr \<times> local_memory) option" where
  "LAlloc n LM =
     (let NextAddr = LNext LM + n in
      if NextAddr - LBase LM \<le> LSize LM then Some (LNext LM, LM\<lparr>LNext := NextAddr\<rparr>) else None)"

section \<open>The argument block\<close>

fun alloc_buffers :: "(nat \<times> size_t) list \<Rightarrow> device_arg list \<times> local_memory \<Rightarrow> (device_arg list \<times> local_memory) option" where
  "alloc_buffers [] s = Some s"
| "alloc_buffers ((i, n) # Ps) (Args, LM) =
     (if i \<ge> length Args then None
      else case LAlloc n LM of
          None \<Rightarrow> None
        | Some (p, LM') \<Rightarrow> alloc_buffers Ps (Args[i := BufferAddress p], LM'))"

definition prepareArgumentsBuffer ::
  "device_arg list \<Rightarrow> size_t \<Rightarrow> (nat \<times> size_t) list \<Rightarrow> local_memory \<Rightarrow> (device_arg list \<times> local_memory) option" where
  "prepareArgumentsBuffer Args AutoLocalsSize LocalBuffers LM =
     (case LReset AutoLocalsSize LM of
        None \<Rightarrow> None
      | Some LM1 \<Rightarrow>
        (case alloc_buffers LocalBuffers (Args @ (if AutoLocalsSize > 0 then [NullArg] else []), LM1) of
           None \<Rightarrow> None
         | Some (Block, LM2) \<Rightarrow>
           Some (if AutoLocalsSize > 0 then Block[length Args := BufferAddress (LStatic LM2)] else Block, LM2)))"

section \<open>Lemmas\<close>

text \<open>Where the buffers start, counted from the base, when the first one starts at \<open>o1\<close>.\<close>

definition buffer_start :: "nat \<Rightarrow> (nat \<times> size_t) list \<Rightarrow> nat \<Rightarrow> nat" where
  "buffer_start o1 Ps k = o1 + (\<Sum>p \<leftarrow> take k Ps. unat (snd p))"

definition local_size :: "(nat \<times> size_t) list \<Rightarrow> nat" where
  "local_size Ps = (\<Sum>p \<leftarrow> Ps. unat (snd p))"

lemma LAlloc_value:
  assumes "LNext LM = LBase LM + of_nat o1" "o1 + unat n < 2 ^ 64"
  shows "LAlloc n LM =
    (if o1 + unat n \<le> unat (LSize LM) then Some (LBase LM + of_nat o1, LM\<lparr>LNext := LBase LM + of_nat (o1 + unat n)\<rparr>) else None)"
proof -
  have "unat (of_nat (o1 + unat n) :: size_t) = o1 + unat n" using assms(2) by (simp del: of_nat_add add: unat_of_nat)
  then have "(of_nat (o1 + unat n) \<le> LSize LM) = (o1 + unat n \<le> unat (LSize LM))" by (simp only: word_le_nat_alt)
  then show ?thesis using assms(1) by (simp add: LAlloc_def Let_def algebra_simps)
qed

lemma alloc_buffers_value:
  assumes "LNext LM = LBase LM + of_nat o1" "o1 + local_size Ps < 2 ^ 64" "\<forall>p \<in> set Ps. fst p < length Args" "distinct (map fst Ps)"
    and "o1 \<le> unat (LSize LM)"
  shows "(o1 + local_size Ps \<le> unat (LSize LM) \<longrightarrow>
      (\<exists>Block. alloc_buffers Ps (Args, LM) = Some (Block, LM\<lparr>LNext := LBase LM + of_nat (o1 + local_size Ps)\<rparr>) \<and>
         length Block = length Args \<and> (\<forall>i. i \<notin> fst ` set Ps \<longrightarrow> i < length Args \<longrightarrow> Block ! i = Args ! i) \<and>
         (\<forall>k < length Ps. Block ! fst (Ps ! k) = BufferAddress (LBase LM + of_nat (buffer_start o1 Ps k))))) \<and>
    (\<not> o1 + local_size Ps \<le> unat (LSize LM) \<longrightarrow> alloc_buffers Ps (Args, LM) = None)"
  using assms
proof (induction Ps arbitrary: Args LM o1)
  case Nil
  then show ?case by (cases LM) (auto simp: local_size_def)
next
  case (Cons p Ps)
  obtain i n where p: "p = (i, n)" by fastforce
  have sz: "local_size (p # Ps) = unat n + local_size Ps" by (simp add: local_size_def p)
  have al: "LAlloc n LM =
    (if o1 + unat n \<le> unat (LSize LM) then Some (LBase LM + of_nat o1, LM\<lparr>LNext := LBase LM + of_nat (o1 + unat n)\<rparr>) else None)"
    using Cons.prems(1,2) sz by (intro LAlloc_value) simp_all
  show ?case
  proof (cases "o1 + unat n \<le> unat (LSize LM)")
    case False
    then show ?thesis using al Cons.prems(3) sz by (simp add: p)
  next
    case True
    let ?L = "LM\<lparr>LNext := LBase LM + of_nat (o1 + unat n)\<rparr>" and ?A = "Args[i := BufferAddress (LBase LM + of_nat o1)]"
    have i: "i < length Args" "i \<notin> fst ` set Ps" using Cons.prems(3,4) by (simp_all add: p)
    have step: "alloc_buffers (p # Ps) (Args, LM) = alloc_buffers Ps (?A, ?L)" using al True i by (simp add: p)
    have st: "buffer_start o1 (p # Ps) (Suc k) = buffer_start (o1 + unat n) Ps k" "buffer_start o1 (p # Ps) 0 = o1" for k
      by (simp_all add: buffer_start_def p)
    note IH = Cons.IH [of ?L "o1 + unat n" ?A]
    have pre: "LNext ?L = LBase ?L + of_nat (o1 + unat n)" "o1 + unat n + local_size Ps < 2 ^ 64" "\<forall>p \<in> set Ps. fst p < length ?A"
      "distinct (map fst Ps)" "o1 + unat n \<le> unat (LSize ?L)"
      using Cons.prems True sz by simp_all
    note step = step [unfolded p]
    have IHs: "alloc_buffers Ps (?A, ?L) = None" if "\<not> o1 + unat n + local_size Ps \<le> unat (LSize LM)"
      using IH [OF pre] that by simp
    have IHb: "\<exists>Block. alloc_buffers Ps (?A, ?L) = Some (Block, LM\<lparr>LNext := LBase LM + of_nat (o1 + unat n + local_size Ps)\<rparr>) \<and>
        length Block = length Args \<and> (\<forall>i. i \<notin> fst ` set Ps \<longrightarrow> i < length Args \<longrightarrow> Block ! i = ?A ! i) \<and>
        (\<forall>k < length Ps. Block ! fst (Ps ! k) = BufferAddress (LBase LM + of_nat (buffer_start (o1 + unat n) Ps k)))"
      if "o1 + unat n + local_size Ps \<le> unat (LSize LM)"
      using IH [OF pre] that by simp
    show ?thesis
    proof (cases "o1 + unat n + local_size Ps \<le> unat (LSize LM)")
      case False
      then show ?thesis using IHs step sz by (simp add: p)
    next
      case True
      then obtain Block where B: "alloc_buffers Ps (?A, ?L) = Some (Block, LM\<lparr>LNext := LBase LM + of_nat (o1 + unat n + local_size Ps)\<rparr>)"
        "length Block = length Args" "\<forall>k. k \<notin> fst ` set Ps \<longrightarrow> k < length Args \<longrightarrow> Block ! k = ?A ! k"
        "\<forall>k < length Ps. Block ! fst (Ps ! k) = BufferAddress (LBase LM + of_nat (buffer_start (o1 + unat n) Ps k))"
        using IHb by blast
      have "Block ! fst ((p # Ps) ! k) = BufferAddress (LBase LM + of_nat (buffer_start o1 (p # Ps) k))" if "k < length (p # Ps)" for k
        using that B(3,4) i by (cases k) (simp_all add: st [unfolded p] p)
      moreover have "Block ! k = Args ! k" if "k \<notin> fst ` set (p # Ps)" "k < length Args" for k
        using that B(3) by (auto simp: p nth_list_update)
      ultimately show ?thesis using B(1,2) step True sz by (auto simp: p add.assoc)
    qed
  qed
qed

lemma buffer_start_step: "l < length Ps \<Longrightarrow> buffer_start o1 Ps (Suc l) = buffer_start o1 Ps l + unat (snd (Ps ! l))"
  by (simp add: buffer_start_def take_Suc_conv_app_nth)

lemma buffer_start_mono: "l \<le> k \<Longrightarrow> buffer_start o1 Ps l \<le> buffer_start o1 Ps k"
proof -
  assume "l \<le> k"
  then obtain d where "k = l + d" by (metis le_Suc_ex)
  then show ?thesis by (simp add: buffer_start_def take_add)
qed

lemma buffer_start_bounds:
  "l < k \<Longrightarrow> k < length Ps \<Longrightarrow> buffer_start o1 Ps l + unat (snd (Ps ! l)) \<le> buffer_start o1 Ps k"
  "k < length Ps \<Longrightarrow> buffer_start o1 Ps k + unat (snd (Ps ! k)) \<le> o1 + local_size Ps"
  "o1 \<le> buffer_start o1 Ps k"
  using buffer_start_mono [of "Suc l" k o1 Ps] buffer_start_mono [of "Suc k" "length Ps" o1 Ps]
  by (simp_all add: buffer_start_step [symmetric]) (simp_all add: buffer_start_def local_size_def)

text \<open>
  C12: preparing the arguments of a kernel succeeds exactly when its automatic variables and local buffers
  fit into the local memory of the thread together. Each local argument then points to memory of its own
  size inside the local memory; these ranges and the automatic variables do not overlap, and the other
  arguments are unchanged.
\<close>

theorem local_buffers_fit:
  assumes "unat Auto + local_size LBs < 2 ^ 64" "\<forall>p \<in> set LBs. fst p < length Args" "distinct (map fst LBs)"
  shows "case prepareArgumentsBuffer Args Auto LBs LM of
      None \<Rightarrow> unat (LSize LM) < unat Auto + local_size LBs
    | Some (Block, LM') \<Rightarrow> unat Auto + local_size LBs \<le> unat (LSize LM) \<and>
        (\<forall>i < length Args. i \<notin> fst ` set LBs \<longrightarrow> Block ! i = Args ! i) \<and>
        (0 < Auto \<longrightarrow> Block ! length Args = BufferAddress (LBase LM)) \<and>
        (\<exists>off. \<forall>k < length LBs. Block ! fst (LBs ! k) = BufferAddress (LBase LM + of_nat (off k)) \<and>
           unat Auto \<le> off k \<and> off k + unat (snd (LBs ! k)) \<le> unat (LSize LM) \<and>
           (\<forall>l < k. off l + unat (snd (LBs ! l)) \<le> off k))"
proof (cases "Auto \<le> LSize LM")
  case False
  then show ?thesis by (simp add: prepareArgumentsBuffer_def LReset_def word_le_nat_alt)
next
  case True
  define L where "L = LM\<lparr>LStatic := (if Auto \<noteq> 0 then LBase LM else NULL), LNext := LBase LM + Auto\<rparr>"
  define As where "As = Args @ (if Auto > 0 then [NullArg] else [])"
  have r: "LReset Auto LM = Some L" using True by (simp add: LReset_def L_def)
  have L: "LNext L = LBase L + of_nat (unat Auto)" "LSize L = LSize LM" "LBase L = LBase LM" by (simp_all add: L_def)
  have in_As: "\<forall>p \<in> set LBs. fst p < length As" using assms(2) by (auto simp: As_def)
  note v = alloc_buffers_value [OF L(1) assms(1) in_As assms(3)]
  show ?thesis
  proof (cases "unat Auto + local_size LBs \<le> unat (LSize LM)")
    case False
    then show ?thesis using v True L by (simp add: prepareArgumentsBuffer_def r As_def word_le_nat_alt)
  next
    case fits: True
    obtain Block where B: "alloc_buffers LBs (As, L) = Some (Block, L\<lparr>LNext := LBase L + of_nat (unat Auto + local_size LBs)\<rparr>)"
      "length Block = length As" "\<forall>i. i \<notin> fst ` set LBs \<longrightarrow> i < length As \<longrightarrow> Block ! i = As ! i"
      "\<forall>k < length LBs. Block ! fst (LBs ! k) = BufferAddress (LBase LM + of_nat (buffer_start (unat Auto) LBs k))"
      using v fits True L by (auto simp: word_le_nat_alt)
    define Full where "Full = (if Auto > 0 then Block[length Args := BufferAddress (LBase LM)] else Block)"
    have st: "0 < Auto \<Longrightarrow> LStatic L = LBase LM" by (simp add: L_def word_gt_0)
    have p: "prepareArgumentsBuffer Args Auto LBs LM = Some (Full, L\<lparr>LNext := LBase L + of_nat (unat Auto + local_size LBs)\<rparr>)"
      using B(1) st by (simp add: prepareArgumentsBuffer_def r As_def [symmetric] Full_def)
    have same: "Full ! i = Block ! i" if "i < length Args" for i using that by (simp add: Full_def)
    have "Full ! i = Args ! i" if "i < length Args" "i \<notin> fst ` set LBs" for i
      using that B(3) same by (simp add: As_def nth_append)
    moreover have "Full ! length Args = BufferAddress (LBase LM)" if "0 < Auto" using that B(2) by (simp add: Full_def As_def)
    moreover have "Full ! fst (LBs ! k) = BufferAddress (LBase LM + of_nat (buffer_start (unat Auto) LBs k))" if "k < length LBs" for k
      using that B(4) same assms(2) by simp
    moreover have "buffer_start (unat Auto) LBs k + unat (snd (LBs ! k)) \<le> unat (LSize LM)" if "k < length LBs" for k
      using buffer_start_bounds(2) [OF that, of "unat Auto"] fits by simp
    ultimately show ?thesis
      unfolding p using fits buffer_start_bounds(1,3) by (auto intro!: exI [of _ "buffer_start (unat Auto) LBs"])
  qed
qed

theorem local_buffers_fit_witness:
  "\<exists>Block LM'. prepareArgumentsBuffer [NullArg, ValueCopy [7]] 64 [(0, 16)] (LocalMemory 4096 0x1000) = Some (Block, LM') \<and>
     Block ! 1 = ValueCopy [7] \<and> Block ! 2 = BufferAddress 0x1000"
proof -
  let ?As = "[NullArg, ValueCopy [7]]"
  have "\<exists>r. prepareArgumentsBuffer ?As 64 [(0, 16)] (LocalMemory 4096 0x1000) = Some r"
    by (simp add: prepareArgumentsBuffer_def LReset_def LocalMemory_def LAlloc_def)
  then obtain Block LM' where p: "prepareArgumentsBuffer ?As 64 [(0, 16)] (LocalMemory 4096 0x1000) = Some (Block, LM')"
    by (metis surj_pair)
  have "(\<forall>i < length ?As. i \<notin> fst ` set [(0, 16 :: size_t)] \<longrightarrow> Block ! i = ?As ! i) \<and> Block ! length ?As = BufferAddress 0x1000"
    using local_buffers_fit [of 64 "[(0, 16)]" ?As "LocalMemory 4096 0x1000"]
    unfolding p by (auto simp: local_size_def LocalMemory_def)
  then have "Block ! 1 = ValueCopy [7]" "Block ! 2 = BufferAddress 0x1000" by (auto simp: numeral_2_eq_2)
  with p show ?thesis by blast
qed

end
