(* ===== verification/Info_Query.thy ===== *)
theory Info_Query
  imports OCL_Prelude
begin

text \<open>
  The answers of the \<open>clGet...Info\<close> functions: the templates \<open>clFillValue\<close> of
  \<open>tools/libOpenCRun/Utils.h\<close>, which copy an attribute into the buffer of the client.

  A buffer is the list of its bytes, \<open>None\<close> for a null pointer; the size the client gives is a separate
  argument, which need not be the size of the buffer. Numbers are stored with the low byte first. A
  store past the end of the buffer has no result.
\<close>

section \<open>Bytes of numbers\<close>

fun le_bytes :: "nat \<Rightarrow> nat \<Rightarrow> byte list" where
  "le_bytes 0 v = []"
| "le_bytes (Suc n) v = of_nat v # le_bytes n (v div 256)"

definition le_value :: "byte list \<Rightarrow> nat" where
  "le_value bs = foldr (\<lambda>b v. unat b + 256 * v) bs 0"

definition read_c_string :: "byte list \<Rightarrow> byte list" where
  "read_c_string bs = takeWhile (\<lambda>b. b \<noteq> 0) bs"

definition string_bytes :: "string \<Rightarrow> byte list" where
  "string_bytes s = map of_char s"

lemma le_bytes_numeral:
  "le_bytes (numeral k) v = of_nat v # le_bytes (pred_numeral k) (v div 256)"
  by (simp only: numeral_eq_Suc [of k] le_bytes.simps)

lemma length_le_bytes [simp]: "length (le_bytes n v) = n"
  by (induction n v rule: le_bytes.induct) simp_all

lemma le_value_le_bytes: "v < 256 ^ n \<Longrightarrow> le_value (le_bytes n v) = v"
proof (induction n v rule: le_bytes.induct)
  case (2 n v)
  have "le_value (le_bytes n (v div 256)) = v div 256"
    using 2 by (simp add: less_mult_imp_div_less)
  moreover have "unat (of_nat v :: byte) = v mod 256"
    by (simp add: unsigned_of_nat take_bit_eq_mod)
  ultimately show ?case by (simp add: le_value_def)
qed (simp add: le_value_def)

section \<open>The templates\<close>

record info_reply =
  RStatus :: cl_int
  RBuffer :: "byte list option"
  RSize :: "size_t option"

text \<open>The frame the templates share: \<open>store\<close> is what follows the test on the size.\<close>

definition fill_with ::
  "size_t \<Rightarrow> (byte list \<Rightarrow> byte list option) \<Rightarrow> byte list option \<Rightarrow> size_t \<Rightarrow> bool \<Rightarrow> info_reply option" where
  "fill_with RightSize store Dst DstSize want =
     (let ret = (if want then Some RightSize else None) in
      case Dst of
        None \<Rightarrow> Some \<lparr>RStatus = CL_SUCCESS, RBuffer = None, RSize = ret\<rparr>
      | Some b \<Rightarrow>
        if DstSize < RightSize then Some \<lparr>RStatus = CL_INVALID_VALUE, RBuffer = Some b, RSize = ret\<rparr>
        else map_option (\<lambda>b'. \<lparr>RStatus = CL_SUCCESS, RBuffer = Some b', RSize = ret\<rparr>) (store b))"

text \<open>Writing some bytes at an offset.\<close>

definition store_at :: "nat \<Rightarrow> byte list \<Rightarrow> byte list \<Rightarrow> byte list option" where
  "store_at off bs b =
     (if off + length bs \<le> length b then Some (take off b @ bs @ drop (off + length bs) b) else None)"

definition fill_scalar :: "nat \<times> nat \<Rightarrow> byte list option \<Rightarrow> size_t \<Rightarrow> bool \<Rightarrow> info_reply option" where
  "fill_scalar nv = fill_with (of_nat (fst nv)) (store_at 0 (le_bytes (fst nv) (snd nv)))"

text \<open>
  \<open>strncpy\<close> of a string and the byte behind it, whatever this is, and the terminator written last.
\<close>

definition strncpy :: "byte list \<Rightarrow> nat \<Rightarrow> byte list" where
  "strncpy Src n = take n (takeWhile (\<lambda>b. b \<noteq> 0) Src @ replicate n 0)"

definition fill_string :: "byte \<Rightarrow> byte list \<Rightarrow> byte list option \<Rightarrow> size_t \<Rightarrow> bool \<Rightarrow> info_reply option" where
  "fill_string behind Src =
     (let RightSize = length Src + 1 in
      fill_with (of_nat RightSize)
        (\<lambda>b. store_at 0 ((strncpy (Src @ [behind]) RightSize)[RightSize - 1 := 0]) b))"

text \<open>The copying loop of the template for ranges, and \<open>std::copy\<close>.\<close>

fun fill_loop :: "nat \<Rightarrow> nat list \<Rightarrow> nat \<Rightarrow> byte list \<Rightarrow> byte list option" where
  "fill_loop n [] off b = Some b"
| "fill_loop n (v # vs) off b =
     (case store_at off (le_bytes n v) b of None \<Rightarrow> None | Some b' \<Rightarrow> fill_loop n vs (off + n) b')"

definition fill_range :: "nat \<times> nat list \<Rightarrow> byte list option \<Rightarrow> size_t \<Rightarrow> bool \<Rightarrow> info_reply option" where
  "fill_range nvs = fill_with (of_nat (length (snd nvs)) * of_nat (fst nvs)) (fill_loop (fst nvs) (snd nvs) 0)"

definition fill_sizes :: "size_t list \<Rightarrow> byte list option \<Rightarrow> size_t \<Rightarrow> bool \<Rightarrow> info_reply option" where
  "fill_sizes Src = fill_with (8 * of_nat (length Src)) (fill_loop 8 (map unat Src) 0)"

text \<open>The template for partition properties writes a terminator for an empty list.\<close>

definition fill_partition :: "64 word list \<Rightarrow> byte list option \<Rightarrow> size_t \<Rightarrow> bool \<Rightarrow> info_reply option" where
  "fill_partition Src =
     (let RightSize = 8 * of_nat (length Src) in
      fill_with RightSize
        (\<lambda>b. case (if RightSize = 0 then store_at 0 (le_bytes 8 0) b else Some b) of
               None \<Rightarrow> None
             | Some b' \<Rightarrow> fill_loop 8 (map unat Src) 0 b'))"

text \<open>
  The template for binaries: the buffer is an array of pointers into the memory of the client. The
  pointer of an empty binary is set to null; a binary is not copied to a null pointer.
\<close>

definition copy_to :: "ptr \<Rightarrow> byte list \<Rightarrow> (ptr \<Rightarrow> byte) \<Rightarrow> ptr \<Rightarrow> byte" where
  "copy_to p bs m = foldl (\<lambda>m i. m(p + of_nat i := bs ! i)) m [0..<length bs]"

fun binaries_loop ::
  "byte list list \<Rightarrow> nat \<Rightarrow> ptr list \<Rightarrow> (ptr \<Rightarrow> byte) \<Rightarrow> (ptr list \<times> (ptr \<Rightarrow> byte)) option" where
  "binaries_loop [] I Dst m = Some (Dst, m)"
| "binaries_loop (B # Bs) I Dst m =
     (if length Dst \<le> I then None
      else if B = [] then binaries_loop Bs (Suc I) (Dst[I := NULL]) m
      else if Dst ! I = NULL then None
      else binaries_loop Bs (Suc I) Dst (copy_to (Dst ! I) B m))"

definition fill_binaries ::
  "byte list list \<Rightarrow> ptr list option \<Rightarrow> (ptr \<Rightarrow> byte) \<Rightarrow> size_t \<Rightarrow> bool \<Rightarrow>
   (cl_int \<times> (ptr list option \<times> (ptr \<Rightarrow> byte)) \<times> size_t option) option" where
  "fill_binaries Src Dst m DstSize want =
     (let RightSize = 8 * of_nat (length Src); ret = (if want then Some RightSize else None) in
      case Dst of
        None \<Rightarrow> Some (CL_SUCCESS, (None, m), ret)
      | Some ps \<Rightarrow>
        if DstSize < RightSize then Some (CL_INVALID_VALUE, (Some ps, m), ret)
        else map_option (\<lambda>(ps', m'). (CL_SUCCESS, (Some ps', m'), ret)) (binaries_loop Src 0 ps m))"

section \<open>Answers\<close>

text \<open>
  An attribute with the type it is returned in: a number of so many bytes, a string, an array of
  numbers of so many bytes each, or an array of sizes.
\<close>

datatype info_value = IScalar nat nat | IString "byte list" | IRange nat "nat list" | ISizes "size_t list"

fun fill_info :: "info_value \<Rightarrow> byte list option \<Rightarrow> size_t \<Rightarrow> bool \<Rightarrow> info_reply option" where
  "fill_info (IScalar n v) = fill_scalar (n, v)"
| "fill_info (IString s) = fill_string 0 s"
| "fill_info (IRange n vs) = fill_range (n, vs)"
| "fill_info (ISizes xs) = fill_sizes xs"

text \<open>The body of an entry point: the answer to a parameter, or the status without one.\<close>

definition answer :: "cl_int + info_value \<Rightarrow> byte list option \<Rightarrow> size_t \<Rightarrow> bool \<Rightarrow> info_reply option" where
  "answer v Dst DstSize want =
     (case v of
        Inl e \<Rightarrow> Some \<lparr>RStatus = e, RBuffer = Dst, RSize = None\<rparr>
      | Inr v \<Rightarrow> fill_info v Dst DstSize want)"

section \<open>The contract of the templates\<close>

lemma store_at_front: "length bs \<le> length b \<Longrightarrow> store_at 0 bs b = Some (bs @ drop (length bs) b)"
  by (simp add: store_at_def)

lemma fill_loop_stores:
  "off + n * length vs \<le> length b \<Longrightarrow> fill_loop n vs off b = store_at off (concat (map (le_bytes n) vs)) b"
proof (induction vs arbitrary: off b)
  case (Cons v vs)
  let ?b = "take off b @ le_bytes n v @ drop (off + n) b"
  have len: "length ?b = length b" using Cons.prems by simp
  have 1: "store_at off (le_bytes n v) b = Some ?b" using Cons.prems by (simp add: store_at_def)
  have 2: "fill_loop n vs (off + n) ?b = store_at (off + n) (concat (map (le_bytes n) vs)) ?b"
    using Cons.IH [of "off + n" ?b] Cons.prems len by simp
  have cl: "length (concat (map (le_bytes n) vs)) = n * length vs" by (induction vs) simp_all
  show ?case using 1 2 cl Cons.prems by (auto simp: store_at_def ac_simps)
qed (simp add: store_at_def)

lemma length_concat_le_bytes [simp]: "length (concat (map (le_bytes n) vs)) = n * length vs"
  by (induction vs) simp_all

text \<open>What a client may rely on: the three cases of a call.\<close>

definition reported :: "byte list \<Rightarrow> bool \<Rightarrow> size_t option" where
  "reported bs want = (if want then Some (of_nat (length bs)) else None)"

locale info_filler =
  fixes fill :: "'v \<Rightarrow> byte list option \<Rightarrow> size_t \<Rightarrow> bool \<Rightarrow> info_reply option"
    and encode :: "'v \<Rightarrow> byte list"
  assumes asked: "fill v None sz want = Some \<lparr>RStatus = CL_SUCCESS, RBuffer = None, RSize = reported (encode v) want\<rparr>"
    and refused: "length (encode v) < 2 ^ 64 \<Longrightarrow> unat sz < length (encode v) \<Longrightarrow>
      fill v (Some b) sz want = Some \<lparr>RStatus = CL_INVALID_VALUE, RBuffer = Some b, RSize = reported (encode v) want\<rparr>"
    and filled: "length (encode v) < 2 ^ 64 \<Longrightarrow> length (encode v) \<le> unat sz \<Longrightarrow> length (encode v) \<le> length b \<Longrightarrow>
      fill v (Some b) sz want =
        Some \<lparr>RStatus = CL_SUCCESS, RBuffer = Some (encode v @ drop (length (encode v)) b), RSize = reported (encode v) want\<rparr>"
begin

text \<open>The usual pair of calls: ask for the size, allocate, and ask for the value.\<close>

lemma two_calls:
  assumes "length (encode v) < 2 ^ 64" "length b = length (encode v)"
  shows "\<exists>sz. fill v None 0 True = Some \<lparr>RStatus = CL_SUCCESS, RBuffer = None, RSize = Some sz\<rparr> \<and>
      unat sz = length b \<and>
      fill v (Some b) sz want = Some \<lparr>RStatus = CL_SUCCESS, RBuffer = Some (encode v), RSize = reported (encode v) want\<rparr>"
proof -
  have "unat (of_nat (length (encode v)) :: size_t) = length (encode v)"
    using assms(1) by (rule unat_of_nat64)
  then show ?thesis using assms filled [of v "of_nat (length (encode v))" b want] asked [of v 0 True]
    by (simp add: reported_def)
qed

text \<open>Whatever the sizes, the status tells whether the client's size was enough, and nothing else is written.\<close>

lemma status_decides:
  assumes "length (encode v) < 2 ^ 64" "unat sz \<le> length b"
  shows "\<exists>r. fill v (Some b) sz want = Some r \<and> RSize r = reported (encode v) want \<and>
      (if length (encode v) \<le> unat sz
       then RStatus r = CL_SUCCESS \<and> RBuffer r = Some (encode v @ drop (length (encode v)) b)
       else RStatus r = CL_INVALID_VALUE \<and> RBuffer r = Some b)"
  using assms refused [of v sz b want] filled [of v sz b want] by (cases "length (encode v) \<le> unat sz") simp_all

end

text \<open>The frame meets the contract for any store that writes its bytes to the front.\<close>

definition frames :: "(byte list option \<Rightarrow> size_t \<Rightarrow> bool \<Rightarrow> info_reply option) \<Rightarrow> byte list \<Rightarrow> bool" where
  "frames f bs \<longleftrightarrow>
     (\<exists>store. f = fill_with (of_nat (length bs)) store \<and>
        (\<forall>b. length bs \<le> length b \<longrightarrow> store b = Some (bs @ drop (length bs) b)))"

lemma framesI:
  "f = fill_with RightSize store \<Longrightarrow> RightSize = of_nat (length bs) \<Longrightarrow>
   (\<And>b. length bs \<le> length b \<Longrightarrow> store b = store_at 0 bs b) \<Longrightarrow> frames f bs"
  by (auto simp: frames_def store_at_front)

lemma frames_contract:
  assumes "\<And>v. frames (fill v) (encode v)"
  shows "info_filler fill encode"
proof
  fix v :: 'a and b want and sz :: size_t
  obtain store where f: "fill v = fill_with (of_nat (length (encode v))) store"
    and store: "\<forall>b. length (encode v) \<le> length b \<longrightarrow> store b = Some (encode v @ drop (length (encode v)) b)"
    using assms by (auto simp: frames_def)
  have less: "sz < of_nat (length (encode v)) \<longleftrightarrow> unat sz < length (encode v)" if "length (encode v) < 2 ^ 64"
    using unat_of_nat64 [OF that] by (simp add: word_less_nat_alt)
  show "fill v None sz want = Some \<lparr>RStatus = CL_SUCCESS, RBuffer = None, RSize = reported (encode v) want\<rparr>"
    by (simp add: f fill_with_def reported_def)
  show "length (encode v) < 2 ^ 64 \<Longrightarrow> unat sz < length (encode v) \<Longrightarrow> fill v (Some b) sz want =
      Some \<lparr>RStatus = CL_INVALID_VALUE, RBuffer = Some b, RSize = reported (encode v) want\<rparr>"
    using less by (simp add: f fill_with_def reported_def)
  show "length (encode v) < 2 ^ 64 \<Longrightarrow> length (encode v) \<le> unat sz \<Longrightarrow> length (encode v) \<le> length b \<Longrightarrow> fill v (Some b) sz want =
      Some \<lparr>RStatus = CL_SUCCESS, RBuffer = Some (encode v @ drop (length (encode v)) b), RSize = reported (encode v) want\<rparr>"
    using less store by (simp add: f fill_with_def reported_def)
qed

text \<open>A string up to its first zero, filled up with zeros to one byte more than its length.\<close>

definition c_string :: "byte list \<Rightarrow> byte list" where
  "c_string s = read_c_string s @ replicate (length s + 1 - length (read_c_string s)) 0"

lemma read_c_string_le: "length (read_c_string s) \<le> length s"
  by (simp add: read_c_string_def length_takeWhile_le)

lemma length_c_string [simp]: "length (c_string s) = length s + 1"
  using read_c_string_le [of s] by (simp add: c_string_def)

lemma read_c_string_c_string: "read_c_string (c_string s) = read_c_string s"
proof -
  have "takeWhile (\<lambda>b. b \<noteq> 0) (takeWhile (\<lambda>b. b \<noteq> 0) s @ replicate n (0 :: byte)) = takeWhile (\<lambda>b. b \<noteq> 0) s" for n
    by (induction s) (simp_all add: takeWhile_eq_Nil_iff)
  then show ?thesis by (simp add: c_string_def read_c_string_def)
qed

lemma strncpy_value:
  "length (takeWhile (\<lambda>b. b \<noteq> 0) Src) \<le> n \<Longrightarrow>
   strncpy Src n = takeWhile (\<lambda>b. b \<noteq> 0) Src @ replicate (n - length (takeWhile (\<lambda>b. b \<noteq> 0) Src)) 0"
  by (simp add: strncpy_def take_replicate min_def)

lemma strncpy_terminated: "(strncpy (s @ [behind]) (length s + 1))[length s := 0] = c_string s"
proof (cases "0 \<in> set s")
  case True
  then have tw: "takeWhile (\<lambda>b. b \<noteq> 0) (s @ [behind]) = read_c_string s"
    by (simp add: read_c_string_def takeWhile_append1)
  have le: "length (read_c_string s) \<le> length s" by (rule read_c_string_le)
  then have "strncpy (s @ [behind]) (length s + 1) = c_string s"
    using strncpy_value [of "s @ [behind]" "length s + 1"] by (simp only: tw c_string_def)
  moreover have "c_string s ! length s = 0"
    using le by (simp add: c_string_def nth_append del: replicate.simps)
  ultimately show ?thesis by (metis list_update_id)
next
  case False
  then have rs: "read_c_string s = s" by (auto simp: read_c_string_def takeWhile_eq_all_conv)
  have "strncpy (s @ [behind]) (length s + 1) = s @ [behind]"
  proof (cases "behind = 0")
    case True
    have "takeWhile (\<lambda>b. b \<noteq> 0) (s @ [behind]) = s" using False True by (induction s) auto
    then show ?thesis using True by (simp add: strncpy_def)
  next
    case b: False
    then have "takeWhile (\<lambda>b. b \<noteq> 0) (s @ [behind]) = s @ [behind]" using False by (auto simp: takeWhile_eq_all_conv)
    then show ?thesis by (simp add: strncpy_def)
  qed
  then show ?thesis by (simp add: c_string_def rs)
qed

fun encode_info :: "info_value \<Rightarrow> byte list" where
  "encode_info (IScalar n v) = le_bytes n v"
| "encode_info (IString s) = c_string s"
| "encode_info (IRange n vs) = concat (map (le_bytes n) vs)"
| "encode_info (ISizes xs) = concat (map (le_bytes 8) (map unat xs))"

lemma frames_scalar: "frames (fill_scalar nv) (le_bytes (fst nv) (snd nv))"
  by (rule framesI [OF fill_scalar_def]) simp_all

lemma frames_string: "frames (fill_string behind s) (c_string s)"
proof (rule framesI)
  show "fill_string behind s = fill_with (of_nat (length s + 1))
      (\<lambda>b. store_at 0 ((strncpy (s @ [behind]) (length s + 1))[length s := 0]) b)"
    by (simp add: fill_string_def)
qed (simp_all only: length_c_string strncpy_terminated)

lemma frames_range: "frames (fill_range nvs) (concat (map (le_bytes (fst nvs)) (snd nvs)))"
  by (rule framesI [OF fill_range_def]) (simp_all add: fill_loop_stores mult.commute)

lemma frames_sizes: "frames (fill_sizes xs) (concat (map (le_bytes 8) (map unat xs)))"
  by (rule framesI [OF fill_sizes_def]) (simp_all only: fill_loop_stores length_concat_le_bytes length_map, simp_all)

interpretation info_string: info_filler "fill_string behind" c_string
  by (rule frames_contract) (rule frames_string)

interpretation info: info_filler fill_info encode_info
proof (rule frames_contract)
  show "frames (fill_info v) (encode_info v)" for v
    using frames_scalar frames_string frames_range frames_sizes by (cases v) (simp_all only: fill_info.simps encode_info.simps, force+)
qed

text \<open>
  The template for partition properties breaks the contract: it stores eight bytes where it has
  reported a size of zero.
\<close>

lemma empty_partition_overflows:
  "map_option RSize (fill_partition [] None 0 True) = Some (Some 0) \<and> fill_partition [] (Some []) 0 True = None"
  by (simp add: fill_partition_def fill_with_def store_at_def)

end
