(* ===== verification/Device_Info.thy ===== *)
theory Device_Info
  imports Context_API Memory_Builder Info_Query
begin

text \<open>
  The attributes of a device: \<open>DeviceInfo\<close> (\<open>lib/Core/Device.cpp\<close>, \<open>include/opencrun/Core/Device.h\<close>), the
  values a CPU device gives them (\<open>lib/Device/CPU/CPUDevice.cpp\<close>), and the answers of \<open>clGetDeviceInfo\<close>
  (\<open>tools/libOpenCRun/Device.cpp\<close>, \<open>DeviceProperties.def\<close>).

  A field is named by the method that returns it. The attributes that change with the processors of the
  device are those of \<open>cpu_dev\<close>. Memory that no constructor sets has any value, the argument \<open>junk\<close>.
\<close>

section \<open>Attributes\<close>

datatype cache_type = NoCache | ReadOnlyCache | ReadWriteCache

datatype local_type = PrivateLocal | SharedLocal

fun cache_number :: "cache_type \<Rightarrow> nat" where
  "cache_number NoCache = 0"
| "cache_number ReadOnlyCache = 1"
| "cache_number ReadWriteCache = 2"

fun local_number :: "local_type \<Rightarrow> nat" where
  "local_number PrivateLocal = 1"
| "local_number SharedLocal = 2"

fun partition_number :: "partition_type \<Rightarrow> nat" where
  "partition_number PartitionEqually = 0x1086"
| "partition_number PartitionByCounts = 0x1087"
| "partition_number PartitionByAffinityDomain = 0x1088"

fun device_type_number :: "device_type \<Rightarrow> nat" where
  "device_type_number CPUType = 2"
| "device_type_number GPUType = 4"
| "device_type_number AcceleratorType = 8"
| "device_type_number CustomType = 16"

record dev_attrs =
  GetDeviceType :: device_type
  GetVendorID :: "32 word"
  GetMaxWorkItemDimensions :: "32 word"
  GetMaxWorkItemSizes :: "size_t list"
  GetMaxWorkGroupSize :: "64 word"
  GetPreferredCharVectorWidth :: "32 word"
  GetPreferredShortVectorWidth :: "32 word"
  GetPreferredIntVectorWidth :: "32 word"
  GetPreferredLongVectorWidth :: "32 word"
  GetPreferredFloatVectorWidth :: "32 word"
  GetPreferredDoubleVectorWidth :: "32 word"
  GetPreferredHalfVectorWidth :: "32 word"
  GetNativeCharVectorWidth :: "32 word"
  GetNativeShortVectorWidth :: "32 word"
  GetNativeIntVectorWidth :: "32 word"
  GetNativeLongVectorWidth :: "32 word"
  GetNativeFloatVectorWidth :: "32 word"
  GetNativeDoubleVectorWidth :: "32 word"
  GetNativeHalfVectorWidth :: "32 word"
  GetMaxClockFrequency :: "32 word"
  GetAddressBits :: "32 word"
  GetMaxMemoryAllocSize :: "64 word"
  HasImageSupport :: bool
  GetMaxReadableImages :: "32 word"
  GetMaxWriteableImages :: "32 word"
  GetImage2DMaxWidth :: "64 word"
  GetImage2DMaxHeight :: "64 word"
  GetImage3DMaxWidth :: "64 word"
  GetImage3DMaxHeight :: "64 word"
  GetImage3DMaxDepth :: "64 word"
  GetImageMaxBufferSize :: "64 word"
  GetImageMaxArraySize :: "64 word"
  GetMaxSamplers :: "32 word"
  GetMaxParameterSize :: "64 word"
  GetPrintfBufferSize :: "64 word"
  GetMemoryBaseAddressAlignment :: "32 word"
  GetMinimumDataTypeAlignment :: "32 word"
  GetSinglePrecisionFPCapabilities :: "32 word"
  GetDoublePrecisionFPCapabilities :: "32 word"
  GetHalfPrecisionFPCapabilities :: "32 word"
  GetGlobalMemoryCacheType :: cache_type
  GetGlobalMemoryCachelineSize :: "64 word"
  GetGlobalMemoryCacheSize :: "64 word"
  GetGlobalMemorySize :: "64 word"
  GetMaxConstantBufferSize :: "64 word"
  GetMaxConstantArguments :: "32 word"
  GetLocalMemoryType :: local_type
  GetLocalMemorySize :: "64 word"
  HasErrorCorrectionSupport :: bool
  HasHostUnifiedMemory :: bool
  GetProfilingTimerResolution :: "64 word"
  IsLittleEndian :: bool
  IsCompilerAvailable :: bool
  IsLinkerAvailable :: bool
  IsPreferredInteropUserSync :: bool
  GetExecutionCapabilities :: "32 word"
  GetQueueProperties :: "32 word"
  GetVendor :: string
  GetName :: string
  GetVersion :: string
  GetDriverVersion :: string
  GetOpenCLCVersion :: string
  GetProfile :: string
  GetExtensions :: string
  GetBuiltInKernels :: string
  GetSizeTypeMax :: "64 word"
  GetPrivateMemorySize :: size_t
  GetPreferredWorkGroupSizeMultiple :: size_t
  GetSupportedImageFormats :: "(nat \<times> nat) list"

record dev_obj =
  DInfo :: dev_attrs
  DCpu :: cpu_dev
  DParent :: ptr
  DRefs :: "32 word"

section \<open>Constructors\<close>

abbreviation (input) CL_FP_BASIC :: "32 word" where "CL_FP_BASIC \<equiv> 4 OR 2"

definition DeviceInfo :: "device_type \<Rightarrow> dev_attrs \<Rightarrow> dev_attrs" where
  "DeviceInfo Ty junk =
     junk\<lparr>GetDeviceType := Ty, GetVendor := [], GetName := [], GetVersion := [], GetDriverVersion := [],
       GetOpenCLCVersion := [], GetProfile := [], GetExtensions := [], GetBuiltInKernels := [],
       GetAddressBits := 0, GetExecutionCapabilities := 1, HasHostUnifiedMemory := False, IsLittleEndian := True,
       HasErrorCorrectionSupport := False, GetMemoryBaseAddressAlignment := 0, GetMinimumDataTypeAlignment := 0,
       GetSinglePrecisionFPCapabilities := CL_FP_BASIC, GetDoublePrecisionFPCapabilities := 0,
       GetHalfPrecisionFPCapabilities := 0, IsCompilerAvailable := False, IsLinkerAvailable := False,
       GetGlobalMemoryCacheType := NoCache, GetGlobalMemoryCachelineSize := 0, GetGlobalMemoryCacheSize := 0,
       GetGlobalMemorySize := 0, GetLocalMemoryType := PrivateLocal, GetLocalMemorySize := 32 * 1024,
       GetMaxClockFrequency := 0, GetMaxConstantBufferSize := 64 * 1024, GetMaxConstantArguments := 8,
       GetMaxParameterSize := 0,
       GetNativeCharVectorWidth := 0, GetNativeShortVectorWidth := 0, GetNativeIntVectorWidth := 0,
       GetNativeLongVectorWidth := 0, GetNativeFloatVectorWidth := 0, GetNativeDoubleVectorWidth := 0,
       GetNativeHalfVectorWidth := 0,
       GetPreferredCharVectorWidth := 0, GetPreferredShortVectorWidth := 0, GetPreferredIntVectorWidth := 0,
       GetPreferredLongVectorWidth := 0, GetPreferredFloatVectorWidth := 0, GetPreferredDoubleVectorWidth := 0,
       GetPreferredHalfVectorWidth := 0,
       GetPrintfBufferSize := 0, IsPreferredInteropUserSync := True, GetProfilingTimerResolution := 0,
       GetQueueProperties := 2, HasImageSupport := False, GetMaxReadableImages := 0, GetMaxWriteableImages := 0,
       GetImage2DMaxWidth := 0, GetImage2DMaxHeight := 0, GetImage3DMaxWidth := 0, GetImage3DMaxHeight := 0,
       GetImage3DMaxDepth := 0, GetImageMaxBufferSize := 0, GetImageMaxArraySize := 0, GetMaxSamplers := 0,
       GetSupportedImageFormats := [], GetSizeTypeMax := 0xFFFFFFFF, GetPrivateMemorySize := 0,
       GetPreferredWorkGroupSizeMultiple := 1\<rparr>"

text \<open>What a CPU device reads of the machine, and the vector instructions it is compiled for.\<close>

record machine =
  TotalMemorySize :: size_t
  L1CacheSize :: size_t
  LLCacheSize :: size_t
  LLCacheLineSize :: size_t

datatype vector_isa = AVX | SSE2 | ScalarISA

definition init_geometry :: "bool \<Rightarrow> dev_attrs \<Rightarrow> dev_attrs" where
  "init_geometry x86_64 I =
     I\<lparr>GetVendorID := 0, GetMaxWorkItemDimensions := 3, GetMaxWorkItemSizes := replicate 3 1024,
       GetMaxWorkGroupSize := 1024, GetVersion := ''OpenCL 1.2 OpenCRun'', GetOpenCLCVersion := ''OpenCL C 1.2'',
       GetProfile := ''FULL_PROFILE'', GetAddressBits := (if x86_64 then 64 else 32),
       GetExtensions :=
         (if x86_64 then ''cl_khr_fp64 '' else []) @
         ''cl_khr_global_int32_base_atomics '' @ ''cl_khr_global_int32_extended_atomics '' @
         ''cl_khr_local_int32_base_atomics '' @ ''cl_khr_local_int32_extended_atomics '' @
         (if x86_64 then ''cl_khr_int64_base_atomics '' @ ''cl_khr_int64_extended_atomics '' else []) @
         ''cl_khr_3d_image_writes''\<rparr>"

definition init_widths :: "vector_isa \<Rightarrow> dev_attrs \<Rightarrow> dev_attrs" where
  "init_widths isa I =
     (let J =
        (if isa = ScalarISA then
           I\<lparr>GetPreferredCharVectorWidth := 1, GetPreferredShortVectorWidth := 1, GetPreferredIntVectorWidth := 1,
             GetPreferredLongVectorWidth := 1, GetPreferredFloatVectorWidth := 1, GetPreferredDoubleVectorWidth := 1,
             GetNativeCharVectorWidth := 1, GetNativeShortVectorWidth := 1, GetNativeIntVectorWidth := 1,
             GetNativeLongVectorWidth := 1, GetNativeFloatVectorWidth := 1, GetNativeDoubleVectorWidth := 1\<rparr>
         else
           I\<lparr>GetPreferredCharVectorWidth := 16, GetPreferredShortVectorWidth := 8, GetPreferredIntVectorWidth := 4,
             GetPreferredLongVectorWidth := 2, GetPreferredFloatVectorWidth := 4, GetPreferredDoubleVectorWidth := 2,
             GetNativeCharVectorWidth := 16, GetNativeShortVectorWidth := 8, GetNativeIntVectorWidth := 4,
             GetNativeLongVectorWidth := 2, GetNativeFloatVectorWidth := (if isa = AVX then 8 else 4),
             GetNativeDoubleVectorWidth := (if isa = AVX then 4 else 2)\<rparr>)
      in J\<lparr>GetPreferredHalfVectorWidth := GetPreferredShortVectorWidth J,
           GetNativeHalfVectorWidth := GetNativeShortVectorWidth J\<rparr>)"

definition CPUImgFmts :: "(nat \<times> nat) list" where
  "CPUImgFmts =
     map (Pair 0x10B0) [0x10D0, 0x10D1, 0x10D2, 0x10D3, 0x10D7, 0x10D8, 0x10D9, 0x10DA, 0x10DB, 0x10DC, 0x10DD, 0x10DE] @
     map (Pair 0x10B1) [0x10D0, 0x10D1, 0x10D2, 0x10D3, 0x10D7, 0x10D8, 0x10D9, 0x10DA, 0x10DB, 0x10DC, 0x10DD, 0x10DE] @
     map (Pair 0x10B2) [0x10D0, 0x10D1, 0x10D2, 0x10D3, 0x10D7, 0x10D8, 0x10D9, 0x10DA, 0x10DB, 0x10DC, 0x10DD, 0x10DE] @
     map (Pair 0x10B5) [0x10D0, 0x10D1, 0x10D2, 0x10D3, 0x10D7, 0x10D8, 0x10D9, 0x10DA, 0x10DB, 0x10DC, 0x10DD, 0x10DE] @
     map (Pair 0x10B7) [0x10D0, 0x10D2, 0x10D7, 0x10DA] @
     map (Pair 0x10B6) [0x10D0, 0x10D2, 0x10D7, 0x10DA] @
     map (Pair 0x10B9) [0x10D0, 0x10D1, 0x10D2, 0x10D3, 0x10DD, 0x10DE] @
     map (Pair 0x10B8) [0x10D0, 0x10D1, 0x10D2, 0x10D3, 0x10DD, 0x10DE] @
     map (Pair 0x10B3) [0x10D0, 0x10D1, 0x10D2, 0x10D3, 0x10D7, 0x10D8, 0x10D9, 0x10DA, 0x10DB, 0x10DC, 0x10DD, 0x10DE]"

definition init_images :: "machine \<Rightarrow> dev_attrs \<Rightarrow> dev_attrs" where
  "init_images H I =
     I\<lparr>GetMaxMemoryAllocSize := TotalMemorySize H, GetSupportedImageFormats := CPUImgFmts, HasImageSupport := True,
       GetMaxReadableImages := 128, GetMaxWriteableImages := 8, GetImage2DMaxWidth := 8192, GetImage2DMaxHeight := 8192,
       GetImage3DMaxWidth := 2048, GetImage3DMaxHeight := 2048, GetImage3DMaxDepth := 2048,
       GetImageMaxBufferSize := 65536, GetImageMaxArraySize := 2048, GetMaxSamplers := 16\<rparr>"

definition init_memory :: "machine \<Rightarrow> dev_attrs \<Rightarrow> dev_attrs" where
  "init_memory H I =
     I\<lparr>GetPrintfBufferSize := 65536, GetMemoryBaseAddressAlignment := 16 * 8 * 8,
       GetSinglePrecisionFPCapabilities := 1 OR 2 OR 4 OR 8 OR 16 OR 32 OR 128,
       GetDoublePrecisionFPCapabilities := 1 OR 2 OR 4 OR 8 OR 16 OR 32,
       GetGlobalMemoryCacheType := ReadWriteCache, GetGlobalMemoryCachelineSize := LLCacheLineSize H,
       GetGlobalMemoryCacheSize := LLCacheSize H, GetGlobalMemorySize := TotalMemorySize H,
       GetLocalMemoryType := SharedLocal, GetLocalMemorySize := L1CacheSize H, HasErrorCorrectionSupport := True,
       HasHostUnifiedMemory := True, IsCompilerAvailable := True, IsLinkerAvailable := False,
       GetExecutionCapabilities := 1 OR 2, GetPrivateMemorySize := L1CacheSize H\<rparr>"

definition InitDeviceInfo :: "machine \<Rightarrow> bool \<Rightarrow> vector_isa \<Rightarrow> dev_attrs \<Rightarrow> dev_attrs" where
  "InitDeviceInfo H x86_64 isa I = init_memory H (init_images H (init_widths isa (init_geometry x86_64 I)))"

text \<open>A whole device has the reference its constructor takes; so has a sub-device.\<close>

definition new_cpu_device ::
  "machine \<Rightarrow> bool \<Rightarrow> vector_isa \<Rightarrow> dev_attrs \<Rightarrow> hardware \<Rightarrow> nat list \<Rightarrow> dev_obj option" where
  "new_cpu_device H x86_64 isa junk T cpus =
     map_option
       (\<lambda>D. \<lparr>DInfo = InitDeviceInfo H x86_64 isa ((DeviceInfo CPUType junk)\<lparr>GetName := ''CPU''\<rparr>), DCpu = D,
             DParent = NULL, DRefs = 1\<rparr>)
       (CPUDevice T cpus)"

text \<open>The constructor of a sub-device copies the attributes of its parent, the address of which it keeps.\<close>

definition new_sub_device :: "ptr \<Rightarrow> dev_obj \<Rightarrow> cpu_dev \<Rightarrow> dev_obj" where
  "new_sub_device Parent P D =
     \<lparr>DInfo = (DInfo P)\<lparr>GetName := GetName (DInfo P)\<rparr>, DCpu = D, DParent = Parent, DRefs = 1\<rparr>"

section \<open>Queries\<close>

text \<open>The cases of the \<open>switch\<close>, with what they answer.\<close>

definition device_table :: "ptr \<Rightarrow> dev_obj \<Rightarrow> (nat \<times> info_value) list" where
  "device_table Plat D =
     (let I = DInfo D in
       [(0x1001, IScalar 4 (unat (GetVendorID I))),
        (0x1002, IScalar 4 (unat (MaxComputeUnits (DCpu D)))),
        (0x1003, IScalar 4 (unat (GetMaxWorkItemDimensions I))),
        (0x1005, ISizes (GetMaxWorkItemSizes I)),
        (0x1004, IScalar 8 (unat (GetMaxWorkGroupSize I))),
        (0x1006, IScalar 4 (unat (GetPreferredCharVectorWidth I))),
        (0x1007, IScalar 4 (unat (GetPreferredShortVectorWidth I))),
        (0x1008, IScalar 4 (unat (GetPreferredIntVectorWidth I))),
        (0x1009, IScalar 4 (unat (GetPreferredLongVectorWidth I))),
        (0x100A, IScalar 4 (unat (GetPreferredFloatVectorWidth I))),
        (0x100B, IScalar 4 (unat (GetPreferredDoubleVectorWidth I))),
        (0x1034, IScalar 4 (unat (GetPreferredHalfVectorWidth I))),
        (0x1036, IScalar 4 (unat (GetNativeCharVectorWidth I))),
        (0x1037, IScalar 4 (unat (GetNativeShortVectorWidth I))),
        (0x1038, IScalar 4 (unat (GetNativeIntVectorWidth I))),
        (0x1039, IScalar 4 (unat (GetNativeLongVectorWidth I))),
        (0x103A, IScalar 4 (unat (GetNativeFloatVectorWidth I))),
        (0x103B, IScalar 4 (unat (GetNativeDoubleVectorWidth I))),
        (0x103C, IScalar 4 (unat (GetNativeHalfVectorWidth I))),
        (0x100C, IScalar 4 (unat (GetMaxClockFrequency I))),
        (0x100D, IScalar 4 (unat (GetAddressBits I))),
        (0x1047, IScalar 4 (unat (DRefs D))),
        (0x1010, IScalar 8 (unat (GetMaxMemoryAllocSize I))),
        (0x1016, IScalar 4 (of_bool (HasImageSupport I))),
        (0x100E, IScalar 4 (unat (GetMaxReadableImages I))),
        (0x100F, IScalar 4 (unat (GetMaxWriteableImages I))),
        (0x1011, IScalar 8 (unat (GetImage2DMaxWidth I))),
        (0x1012, IScalar 8 (unat (GetImage2DMaxHeight I))),
        (0x1013, IScalar 8 (unat (GetImage3DMaxWidth I))),
        (0x1014, IScalar 8 (unat (GetImage3DMaxHeight I))),
        (0x1015, IScalar 8 (unat (GetImage3DMaxDepth I))),
        (0x1040, IScalar 8 (unat (GetImageMaxBufferSize I))),
        (0x1041, IScalar 8 (unat (GetImageMaxArraySize I))),
        (0x1018, IScalar 4 (unat (GetMaxSamplers I))),
        (0x1017, IScalar 8 (unat (GetMaxParameterSize I))),
        (0x1049, IScalar 8 (unat (GetPrintfBufferSize I))),
        (0x1019, IScalar 4 (unat (GetMemoryBaseAddressAlignment I))),
        (0x101A, IScalar 4 (unat (GetMinimumDataTypeAlignment I))),
        (0x101B, IScalar 8 (unat (GetSinglePrecisionFPCapabilities I))),
        (0x1032, IScalar 8 (unat (GetDoublePrecisionFPCapabilities I))),
        (0x1033, IScalar 8 (unat (GetHalfPrecisionFPCapabilities I))),
        (0x101C, IScalar 4 (cache_number (GetGlobalMemoryCacheType I))),
        (0x101D, IScalar 4 (unat (GetGlobalMemoryCachelineSize I))),
        (0x101E, IScalar 8 (unat (GetGlobalMemoryCacheSize I))),
        (0x101F, IScalar 8 (unat (GetGlobalMemorySize I))),
        (0x1020, IScalar 8 (unat (GetMaxConstantBufferSize I))),
        (0x1021, IScalar 4 (unat (GetMaxConstantArguments I))),
        (0x1022, IScalar 4 (local_number (GetLocalMemoryType I))),
        (0x1023, IScalar 8 (unat (GetLocalMemorySize I))),
        (0x1024, IScalar 4 (of_bool (HasErrorCorrectionSupport I))),
        (0x1035, IScalar 4 (of_bool (HasHostUnifiedMemory I))),
        (0x1025, IScalar 8 (unat (GetProfilingTimerResolution I))),
        (0x1026, IScalar 4 (of_bool (IsLittleEndian I))),
        (0x1027, IScalar 4 1),
        (0x1028, IScalar 4 (of_bool (IsCompilerAvailable I))),
        (0x103E, IScalar 4 (of_bool (IsLinkerAvailable I))),
        (0x1048, IScalar 4 (of_bool (IsPreferredInteropUserSync I))),
        (0x1029, IScalar 8 (unat (GetExecutionCapabilities I))),
        (0x102A, IScalar 8 (unat (GetQueueProperties I))),
        (0x1042, IScalar 8 (unat (DParent D))),
        (0x1043, IScalar 4 (unat (MaxSubDevices (DCpu D)))),
        (0x1044, IRange 8 (map partition_number (SupportedPartitionTypes (DCpu D)))),
        (0x1045, IScalar 8 (unat (SupportedAffinityDomains (DCpu D)))),
        (0x1046, IRange 8 (map unat (DevPartition (DCpu D)))),
        (0x102C, IString (string_bytes (GetVendor I))),
        (0x102B, IString (string_bytes (GetName I))),
        (0x102F, IString (string_bytes (GetVersion I))),
        (0x102D, IString (string_bytes (GetDriverVersion I))),
        (0x103D, IString (string_bytes (GetOpenCLCVersion I))),
        (0x102E, IString (string_bytes (GetProfile I))),
        (0x1030, IString (string_bytes (GetExtensions I))),
        (0x103F, IString (string_bytes (GetBuiltInKernels I))),
        (0x1000, IScalar 8 (device_type_number (GetDeviceType I))),
        (0x1031, IScalar 8 (unat Plat))])"

definition table_answer :: "(nat \<times> info_value) list \<Rightarrow> nat \<Rightarrow> cl_int + info_value" where
  "table_answer Table param_name =
     (case map_of Table param_name of None \<Rightarrow> Inl CL_INVALID_VALUE | Some v \<Rightarrow> Inr v)"

definition clGetDeviceInfo ::
  "ptr \<Rightarrow> dev_obj option \<Rightarrow> nat \<Rightarrow> size_t \<Rightarrow> byte list option \<Rightarrow> bool \<Rightarrow> info_reply option" where
  "clGetDeviceInfo Plat device param_name param_value_size param_value want =
     answer (case device of None \<Rightarrow> Inl CL_INVALID_DEVICE | Some D \<Rightarrow> table_answer (device_table Plat D) param_name)
       param_value param_value_size want"

text \<open>The limits on images and work sizes the rest of the runtime reads.\<close>

definition isImageFormatSupported :: "dev_attrs \<Rightarrow> nat \<times> nat \<Rightarrow> bool" where
  "isImageFormatSupported I Fmt \<longleftrightarrow> Fmt \<in> set (GetSupportedImageFormats I)"

definition SupportsNativeKernels :: "dev_attrs \<Rightarrow> bool" where
  "SupportsNativeKernels I \<longleftrightarrow> has_flag (GetExecutionCapabilities I) 2"

end
