(* ===== verification/Kernel_Footprint.thy ===== *)
theory Kernel_Footprint
  imports Program_Build Device_Info
begin

text \<open>
  The memory a kernel needs: \<open>Footprint\<close> (\<open>include/opencrun/Util/Footprint.h\<close>), the pass that estimates it
  (\<open>lib/Passes/FootprintEstimate.cpp\<close>), the cache a CPU device keeps of it (\<open>lib/Device/CPU/CPUDevice.cpp\<close>),
  the limits on work-groups that follow (\<open>lib/Core/Kernel.cpp\<close>), and \<open>clGetKernelWorkGroupInfo\<close>
  (\<open>tools/libOpenCRun/Kernel.cpp\<close>).

  The code of a function is data of LLVM: \<open>insts\<close> gives its instructions, as far as the pass tells them
  apart, and \<open>isSized\<close> is the method of LLVM types. The option that selects another kernel on the command
  line is not set. \<open>None\<close> is a null pointer used or a failed assertion.
\<close>

section \<open>LLVM types and instructions\<close>

datatype llvm_ty =
    FloatTy nat
  | IntTy nat
  | StructTy "llvm_ty list"
  | ArrayTy nat llvm_ty
  | VectorTy nat llvm_ty
  | PointerTy
  | OtherTy

text \<open>
  A call has a known function, with or without external linkage, or none; an allocation has a constant
  number of values or not.
\<close>

datatype llvm_inst =
    CallInst "bool option" llvm_ty
  | AllocaInst "nat option" llvm_ty
  | OtherInst llvm_ty

section \<open>The estimate\<close>

record footprint =
  LocalMemoryUsage :: size_t
  PrivateMemoryUsage :: size_t
  TempMemoryUsage :: size_t

definition Footprint :: footprint where
  "Footprint = \<lparr>LocalMemoryUsage = 0, PrivateMemoryUsage = 0, TempMemoryUsage = 0\<rparr>"

definition FP_GetMaxWorkGroupSize :: "footprint \<Rightarrow> size_t \<Rightarrow> size_t" where
  "FP_GetMaxWorkGroupSize FP AvailablePrivateMemory =
     (if PrivateMemoryUsage FP \<noteq> 0 then AvailablePrivateMemory div PrivateMemoryUsage FP
      else AvailablePrivateMemory)"

definition AddPrivateMemoryUsage :: "size_t \<Rightarrow> footprint \<Rightarrow> footprint" where
  "AddPrivateMemoryUsage Usage FP = FP\<lparr>PrivateMemoryUsage := PrivateMemoryUsage FP + Usage\<rparr>"

definition AddTempMemoryUsage :: "size_t \<Rightarrow> footprint \<Rightarrow> footprint" where
  "AddTempMemoryUsage Usage FP = FP\<lparr>TempMemoryUsage := TempMemoryUsage FP + Usage\<rparr>"

fun GetSizeLowerBound :: "(llvm_ty \<Rightarrow> bool) \<Rightarrow> llvm_ty \<Rightarrow> size_t" where
  "GetSizeLowerBound isSized Ty =
     (if \<not> isSized Ty then 0
      else case Ty of
          FloatTy bits \<Rightarrow> of_nat (bits div 8)
        | IntTy BitWidth \<Rightarrow> of_nat (if BitWidth mod 8 \<noteq> 0 then BitWidth div 8 + 1 else BitWidth div 8)
        | StructTy Tys \<Rightarrow> sum_list (map (GetSizeLowerBound isSized) Tys)
        | ArrayTy n T \<Rightarrow> of_nat n * GetSizeLowerBound isSized T
        | VectorTy n T \<Rightarrow> of_nat n * GetSizeLowerBound isSized T
        | PointerTy \<Rightarrow> 4
        | OtherTy \<Rightarrow> 0)"

declare GetSizeLowerBound.simps [simp del]

definition AnalyzeMemoryUsage :: "(llvm_ty \<Rightarrow> bool) \<Rightarrow> llvm_inst \<Rightarrow> footprint \<Rightarrow> footprint" where
  "AnalyzeMemoryUsage isSized I FP =
     (case I of
        CallInst Fun Ty \<Rightarrow>
          if Fun = None \<or> Fun = Some False then FP else AddTempMemoryUsage (GetSizeLowerBound isSized Ty) FP
      | AllocaInst ElsVal Ty \<Rightarrow>
          (case ElsVal of
             None \<Rightarrow> FP
           | Some Els \<Rightarrow> AddPrivateMemoryUsage (of_nat Els * GetSizeLowerBound isSized Ty) FP)
      | OtherInst Ty \<Rightarrow> AddTempMemoryUsage (GetSizeLowerBound isSized Ty) FP)"

text \<open>The pass on one function of the module; its result tells whether it looked at the instructions.\<close>

definition runOnFunction ::
  "metadata \<Rightarrow> llvm_module \<Rightarrow> (llvm_function \<Rightarrow> llvm_inst list) \<Rightarrow> (llvm_ty \<Rightarrow> bool) \<Rightarrow> string \<Rightarrow>
   llvm_function \<Rightarrow> footprint \<Rightarrow> footprint option" where
  "runOnFunction M Mod insts isSized Kernel Fun FP =
     (if Kernel \<noteq> [] \<and> FName Fun \<noteq> Kernel then Some FP
      else do {
        c \<leftarrow> contains_kernel M Mod (FName Fun);
        if \<not> c then Some FP else Some (foldl (\<lambda>FP I. AnalyzeMemoryUsage isSized I FP) FP (insts Fun)) })"

text \<open>The pass manager runs the pass on the functions that have a body.\<close>

fun run_pass ::
  "metadata \<Rightarrow> llvm_module \<Rightarrow> (llvm_function \<Rightarrow> llvm_inst list) \<Rightarrow> (llvm_ty \<Rightarrow> bool) \<Rightarrow> string \<Rightarrow>
   llvm_function list \<Rightarrow> footprint \<Rightarrow> footprint option" where
  "run_pass M Mod insts isSized Kernel [] FP = Some FP"
| "run_pass M Mod insts isSized Kernel (F # Fs) FP =
     (if FDeclaration F then run_pass M Mod insts isSized Kernel Fs FP
      else do {
        FP' \<leftarrow> runOnFunction M Mod insts isSized Kernel F FP;
        run_pass M Mod insts isSized Kernel Fs FP' })"

section \<open>The cache of a device\<close>

text \<open>
  What a device sees of a kernel: its address, its name, and the module it has for this device, if any.
  The map of footprints is keyed by address.
\<close>

record kernel_view =
  KAddr :: ptr
  KName :: string
  KModule :: "llvm_module option"

type_synonym footprints = "ptr \<Rightarrow> footprint option"

definition getKernelFootprint ::
  "metadata \<Rightarrow> (llvm_function \<Rightarrow> llvm_inst list) \<Rightarrow> (llvm_ty \<Rightarrow> bool) \<Rightarrow> kernel_view \<Rightarrow> footprints \<Rightarrow>
   (footprints \<times> footprint) option" where
  "getKernelFootprint M insts isSized Kern C =
     (case C (KAddr Kern) of
        Some FP \<Rightarrow> Some (C, FP)
      | None \<Rightarrow> do {
          Mod \<leftarrow> KModule Kern;
          FP \<leftarrow> run_pass M Mod insts isSized (KName Kern) (Functions Mod) Footprint;
          Some (C(KAddr Kern \<mapsto> FP), FP) })"

definition UnregisterKernel :: "kernel_view \<Rightarrow> footprints \<Rightarrow> footprints" where
  "UnregisterKernel Kern C = C(KAddr Kern := None)"

section \<open>Limits on work-groups\<close>

definition getMaxWorkGroupSize :: "footprint \<Rightarrow> dev_attrs \<Rightarrow> size_t" where
  "getMaxWorkGroupSize FP I =
     (let Size = FP_GetMaxWorkGroupSize FP (GetPrivateMemorySize I); DevMaxSize = Device_Info.GetMaxWorkGroupSize I in
      if Size > DevMaxSize then DevMaxSize else Size)"

text \<open>
  The sizes of the attribute of a kernel; \<open>getKernelInfo\<close> is looked up in the module. Without the attribute the
  container stays empty.
\<close>

definition compile_sizes :: "metadata \<Rightarrow> kernel_info \<Rightarrow> size_t list option" where
  "compile_sizes M K =
     map_option (\<lambda>r. case r of None \<Rightarrow> [] | Some ns \<Rightarrow> map of_nat ns) (getRequiredWorkGroupSizes M K)"

text \<open>
  The entry point. The device is cast first, and the cast of a null pointer fails; the queries that
  need a footprint never find that the kernel has no code for the device.
\<close>

definition clGetKernelWorkGroupInfo ::
  "metadata \<Rightarrow> (llvm_function \<Rightarrow> llvm_inst list) \<Rightarrow> (llvm_ty \<Rightarrow> bool) \<Rightarrow> kernel_view option \<Rightarrow> kernel_info \<Rightarrow>
   dev_attrs option \<Rightarrow> nat \<Rightarrow> size_t \<Rightarrow> byte list option \<Rightarrow> bool \<Rightarrow> footprints \<Rightarrow> (footprints \<times> info_reply) option" where
  "clGetKernelWorkGroupInfo M insts isSized kern K device param_name param_value_size param_value want C =
     (case device of
        None \<Rightarrow> None
      | Some I \<Rightarrow>
        (case kern of
           None \<Rightarrow> map_option (Pair C) (answer (Inl CL_INVALID_KERNEL) param_value param_value_size want)
         | Some Kern \<Rightarrow>
           if param_name \<in> {0x11B0, 0x11B2, 0x11B4} then do {
             (C', FP) \<leftarrow> getKernelFootprint M insts isSized Kern C;
             r \<leftarrow> answer (Inr (IScalar 8 (unat
                    (if param_name = 0x11B0 then getMaxWorkGroupSize FP I
                     else if param_name = 0x11B4 then PrivateMemoryUsage FP else LocalMemoryUsage FP))))
                  param_value param_value_size want;
             Some (C', r) }
           else if param_name \<in> {0x11B1, 0x11B3} \<and> KModule Kern = None
           then map_option (Pair C) (answer (Inl CL_INVALID_DEVICE) param_value param_value_size want)
           else if param_name = 0x11B1 then do {
             Sizes \<leftarrow> compile_sizes M K;
             r \<leftarrow> answer (Inr (ISizes Sizes)) param_value param_value_size want;
             Some (C, r) }
           else map_option (Pair C)
             (answer (if param_name = 0x11B3 then Inr (IScalar 8 (unat (GetPreferredWorkGroupSizeMultiple I)))
                      else Inl CL_INVALID_VALUE)
                param_value param_value_size want)))"

end
