(* ===== verification/Info_API.thy ===== *)
theory Info_API
  imports Kernel_Footprint Kernel_Args Memory_Create
begin

text \<open>
  The remaining entry points of \<open>tools/libOpenCRun\<close> that return information: on the platform, contexts,
  queues, events, profiled commands, memory objects, images, samplers, programs, builds, kernels and their
  arguments. The cases of each \<open>switch\<close>, most of them generated from a \<open>.def\<close> file, are a table from
  parameters to answers.

  Handles are returned as addresses, which the record \<open>addresses\<close> gives; the count of references of the
  object is the argument \<open>refs\<close>. \<open>None\<close> is a failed cast or a null pointer used.
\<close>

abbreviation (input) CL_PROFILING_INFO_NOT_AVAILABLE :: cl_int where "CL_PROFILING_INFO_NOT_AVAILABLE \<equiv> - 7"
abbreviation (input) CL_INVALID_SAMPLER :: cl_int where "CL_INVALID_SAMPLER \<equiv> - 41"

record addresses =
  PlatformAddr :: ptr
  ContextAddr :: "ctx_id \<Rightarrow> ptr"
  DeviceAddr :: "dev_id \<Rightarrow> ptr"
  MemAddr :: "mem_id \<Rightarrow> ptr"

definition handle :: "ptr \<Rightarrow> info_value" where
  "handle p = IScalar 8 (unat p)"

definition refs_value :: "32 word \<Rightarrow> info_value" where
  "refs_value n = IScalar 4 (unat n)"

text \<open>A \<open>cl_int\<close> is stored in two's complement.\<close>

definition int_value :: "int \<Rightarrow> info_value" where
  "int_value i = IScalar 4 (nat (i mod 2 ^ 32))"

section \<open>Platform, contexts and queues\<close>

definition platform_table :: "(nat \<times> info_value) list" where
  "platform_table =
     [(0x0900, IString (string_bytes ''FULL_PROFILE'')), (0x0901, IString (string_bytes ''OpenCL 1.2'')),
      (0x0902, IString (string_bytes ''OpenCRun'')), (0x0903, IString (string_bytes ''UC 2.0'')),
      (0x0904, IString (string_bytes ''''))]"

definition clGetPlatformInfo :: "bool \<Rightarrow> nat \<Rightarrow> size_t \<Rightarrow> byte list option \<Rightarrow> bool \<Rightarrow> info_reply option" where
  "clGetPlatformInfo platform param_name param_value_size param_value want =
     answer (if \<not> platform then Inl CL_INVALID_PLATFORM else table_answer platform_table param_name)
       param_value param_value_size want"

definition context_table :: "addresses \<Rightarrow> 32 word \<Rightarrow> cl_context \<Rightarrow> (nat \<times> info_value) list" where
  "context_table A refs C =
     [(0x1080, refs_value refs), (0x1083, IScalar 4 (length (coDevices C))),
      (0x1081, IRange 8 (map (\<lambda>d. unat (DeviceAddr A d)) (coDevices C))),
      (0x1082, IRange 8 [0x1084, unat (PlatformAddr A), 0])]"

definition clGetContextInfo ::
  "addresses \<Rightarrow> 32 word \<Rightarrow> cl_context option \<Rightarrow> nat \<Rightarrow> size_t \<Rightarrow> byte list option \<Rightarrow> bool \<Rightarrow> info_reply option" where
  "clGetContextInfo A refs ctx param_name param_value_size param_value want =
     answer (case ctx of None \<Rightarrow> Inl CL_INVALID_CONTEXT | Some C \<Rightarrow> table_answer (context_table A refs C) param_name)
       param_value param_value_size want"

definition queue_table :: "addresses \<Rightarrow> dev_id \<Rightarrow> 32 word \<Rightarrow> cmd_queue \<Rightarrow> (nat \<times> info_value) list" where
  "queue_table A Dev refs Q =
     [(0x1090, handle (ContextAddr A (QContext (QInfo Q)))), (0x1091, handle (DeviceAddr A Dev)),
      (0x1092, refs_value refs),
      (0x1093, IScalar 8 (unat ((if QTy Q = OutOfOrder then 1 else 0) OR (if QProfiling Q then 2 else 0) :: 64 word)))]"

definition clGetCommandQueueInfo ::
  "addresses \<Rightarrow> dev_id \<Rightarrow> 32 word \<Rightarrow> cmd_queue option \<Rightarrow> nat \<Rightarrow> size_t \<Rightarrow> byte list option \<Rightarrow> bool \<Rightarrow> info_reply option" where
  "clGetCommandQueueInfo A Dev refs queue param_name param_value_size param_value want =
     answer (case queue of None \<Rightarrow> Inl CL_INVALID_COMMAND_QUEUE
             | Some Q \<Rightarrow> table_answer (queue_table A Dev refs Q) param_name)
       param_value param_value_size want"

section \<open>Events\<close>

text \<open>
  The queue of a user event is a reference made of a null pointer, the address of which is taken back.
\<close>

definition event_table :: "addresses \<Rightarrow> ptr \<Rightarrow> 32 word \<Rightarrow> event \<Rightarrow> (nat \<times> info_value) list" where
  "event_table A queue refs ev =
     [(0x11D4, handle (ContextAddr A (EvContext ev))), (0x11D3, int_value (Status ev)), (0x11D2, refs_value refs),
      (0x11D0, handle (if EvTy ev = InternalEvent then queue else NULL))] @
     (if EvTy ev = InternalEvent then [(0x11D1, IScalar 4 (CmdType ev))] else [])"

definition clGetEventInfo ::
  "addresses \<Rightarrow> ptr \<Rightarrow> 32 word \<Rightarrow> event option \<Rightarrow> nat \<Rightarrow> size_t \<Rightarrow> byte list option \<Rightarrow> bool \<Rightarrow> info_reply option" where
  "clGetEventInfo A queue refs event param_name param_value_size param_value want =
     answer (case event of None \<Rightarrow> Inl CL_INVALID_EVENT | Some ev \<Rightarrow> table_answer (event_table A queue refs ev) param_name)
       param_value param_value_size want"

definition profiling_table :: "event \<Rightarrow> (nat \<times> info_value) list" where
  "profiling_table ev =
     [(0x1280, IScalar 8 (unat (GetProfiledTime ev CommandEnqueued))),
      (0x1281, IScalar 8 (unat (GetProfiledTime ev CommandSubmitted))),
      (0x1282, IScalar 8 (unat (GetProfiledTime ev CommandRunning))),
      (0x1283, IScalar 8 (unat (GetProfiledTime ev CommandCompleted)))]"

definition clGetEventProfilingInfo ::
  "bool \<Rightarrow> event option \<Rightarrow> nat \<Rightarrow> size_t \<Rightarrow> byte list option \<Rightarrow> bool \<Rightarrow> info_reply option" where
  "clGetEventProfilingInfo ProfilingEnabled event param_name param_value_size param_value want =
     answer (case event of
               None \<Rightarrow> Inl CL_INVALID_EVENT
             | Some ev \<Rightarrow>
               if EvTy ev \<noteq> InternalEvent \<or> Status ev \<noteq> CL_COMPLETE \<or> \<not> ProfilingEnabled
               then Inl CL_PROFILING_INFO_NOT_AVAILABLE
               else table_answer (profiling_table ev) param_name)
       param_value param_value_size want"

section \<open>Memory objects and images\<close>

fun image_type_number :: "image_type \<Rightarrow> nat" where
  "image_type_number Image2D = 0x10F1"
| "image_type_number Image3D = 0x10F2"
| "image_type_number Image2D_Array = 0x10F3"
| "image_type_number Image1D = 0x10F4"
| "image_type_number Image1D_Array = 0x10F5"
| "image_type_number Image1D_Buffer = 0x10F6"

fun order_number :: "channel_order \<Rightarrow> nat" where
  "order_number Channel_R = 0x10B0"
| "order_number Channel_A = 0x10B1"
| "order_number Channel_RG = 0x10B2"
| "order_number Channel_RA = 0x10B3"
| "order_number Channel_RGB = 0x10B4"
| "order_number Channel_RGBA = 0x10B5"
| "order_number Channel_BGRA = 0x10B6"
| "order_number Channel_ARGB = 0x10B7"
| "order_number Channel_Intensity = 0x10B8"
| "order_number Channel_Luminance = 0x10B9"
| "order_number Channel_Rx = 0x10BA"
| "order_number Channel_RGx = 0x10BB"
| "order_number Channel_RGBx = 0x10BC"

fun data_type_number :: "channel_data_type \<Rightarrow> nat" where
  "data_type_number DataType_SNorm_Int8 = 0x10D0"
| "data_type_number DataType_SNorm_Int16 = 0x10D1"
| "data_type_number DataType_UNorm_Int8 = 0x10D2"
| "data_type_number DataType_UNorm_Int16 = 0x10D3"
| "data_type_number DataType_UNorm_Short_565 = 0x10D4"
| "data_type_number DataType_UNorm_Short_555 = 0x10D5"
| "data_type_number DataType_UNorm_Int_101010 = 0x10D6"
| "data_type_number DataType_Signed_Int8 = 0x10D7"
| "data_type_number DataType_Signed_Int16 = 0x10D8"
| "data_type_number DataType_Signed_Int32 = 0x10D9"
| "data_type_number DataType_Unsigned_Int8 = 0x10DA"
| "data_type_number DataType_Unsigned_Int16 = 0x10DB"
| "data_type_number DataType_Unsigned_Int32 = 0x10DC"
| "data_type_number DataType_Half_Float = 0x10DD"
| "data_type_number DataType_Float = 0x10DE"

definition mem_type_number :: "mem_object \<Rightarrow> nat" where
  "mem_type_number mo = (if is_buffer mo then 0x10F0 else image_type_number (ImgTy (attrsOf mo)))"

definition parent_handle :: "addresses \<Rightarrow> mem_object \<Rightarrow> info_value" where
  "parent_handle A mo = handle (case parentOf mo of None \<Rightarrow> NULL | Some P \<Rightarrow> MemAddr A (moId (commonOf P)))"

definition mem_table :: "addresses \<Rightarrow> map_store \<Rightarrow> 32 word \<Rightarrow> mem_object \<Rightarrow> (nat \<times> info_value) list" where
  "mem_table A S refs mo =
     [(0x1101, IScalar 8 (unat (ucast (getFlags mo) :: 16 word))), (0x1102, IScalar 8 (unat (getSize mo))),
      (0x1104, IScalar 4 (getNumMappings mo S)), (0x1105, refs_value refs),
      (0x1106, handle (ContextAddr A (getContext mo))), (0x1100, IScalar 4 (mem_type_number mo)),
      (0x1103, handle (getHostPtr mo)), (0x1107, if is_buffer mo then parent_handle A mo else handle NULL),
      (0x1108, IScalar 8 (if is_buffer mo then unat (getOrigin mo) else 0))]"

definition clGetMemObjectInfo ::
  "addresses \<Rightarrow> map_store \<Rightarrow> 32 word \<Rightarrow> cl_mem \<Rightarrow> nat \<Rightarrow> size_t \<Rightarrow> byte list option \<Rightarrow> bool \<Rightarrow> info_reply option" where
  "clGetMemObjectInfo A S refs memobj param_name param_value_size param_value want =
     answer (case memobj of None \<Rightarrow> Inl CL_INVALID_MEM_OBJECT | Some mo \<Rightarrow> table_answer (mem_table A S refs mo) param_name)
       param_value param_value_size want"

text \<open>The format is a structure of two numbers of 32 bits.\<close>

definition image_table :: "addresses \<Rightarrow> mem_object \<Rightarrow> (nat \<times> info_value) list" where
  "image_table A mo =
     (let At = attrsOf mo; D = Desc At in
      [(0x1110, IScalar 8 (order_number (ChOrder At) + 2 ^ 32 * data_type_number (ChDataType At))),
       (0x1111, IScalar 8 (unat (getElementSize mo))), (0x1112, IScalar 8 (unat (RowPitch D))),
       (0x1113, IScalar 8 (unat (SlicePitch D))), (0x1114, IScalar 8 (unat (Width D))), (0x1115, IScalar 8 (unat (Height D))),
       (0x1116, IScalar 8 (unat (Depth D))), (0x1117, IScalar 8 (unat (ArraySize D))), (0x1118, parent_handle A mo),
       (0x1119, IScalar 4 0), (0x111A, IScalar 4 0)])"

definition clGetImageInfo ::
  "addresses \<Rightarrow> cl_mem \<Rightarrow> nat \<Rightarrow> size_t \<Rightarrow> byte list option \<Rightarrow> bool \<Rightarrow> info_reply option" where
  "clGetImageInfo A img param_name param_value_size param_value want =
     (case img of
        None \<Rightarrow> answer (Inl CL_INVALID_MEM_OBJECT) param_value param_value_size want
      | Some mo \<Rightarrow>
        if is_buffer mo then None
        else answer (table_answer (image_table A mo) param_name) param_value param_value_size want)"

section \<open>Samplers\<close>

fun addressing_number :: "addressing_mode \<Rightarrow> nat" where
  "addressing_number AddressNone = 0x1130"
| "addressing_number AddressClampToEdge = 0x1131"
| "addressing_number AddressClamp = 0x1132"
| "addressing_number AddressRepeat = 0x1133"
| "addressing_number AddressMirroredRepeat = 0x1134"
| "addressing_number NoAddressing = 0"

fun filter_number :: "filter_mode \<Rightarrow> nat" where
  "filter_number FilterNearest = 0x1140"
| "filter_number FilterLinear = 0x1141"
| "filter_number NoFilter = 0"

definition sampler_table :: "addresses \<Rightarrow> 32 word \<Rightarrow> sampler \<Rightarrow> (nat \<times> info_value) list" where
  "sampler_table A refs S =
     [(0x1150, refs_value refs), (0x1151, handle (ContextAddr A (SmpContext S))),
      (0x1152, IScalar 4 (of_bool (NormalizedCoords S))), (0x1153, IScalar 4 (addressing_number (AddrMode S))),
      (0x1154, IScalar 4 (filter_number (FltrMode S)))]"

definition clGetSamplerInfo ::
  "addresses \<Rightarrow> 32 word \<Rightarrow> sampler option \<Rightarrow> nat \<Rightarrow> size_t \<Rightarrow> byte list option \<Rightarrow> bool \<Rightarrow> info_reply option" where
  "clGetSamplerInfo A refs smp param_name param_value_size param_value want =
     answer (case smp of None \<Rightarrow> Inl CL_INVALID_SAMPLER | Some S \<Rightarrow> table_answer (sampler_table A refs S) param_name)
       param_value param_value_size want"

section \<open>Programs\<close>

fun build_status_number :: "build_status \<Rightarrow> int" where
  "build_status_number CL_BUILD_SUCCESS = 0"
| "build_status_number CL_BUILD_NONE = - 1"
| "build_status_number CL_BUILD_ERROR = - 2"
| "build_status_number CL_BUILD_IN_PROGRESS = - 3"

text \<open>The source of a program made from binaries is behind a null pointer.\<close>

definition program_answer :: "addresses \<Rightarrow> 32 word \<Rightarrow> program \<Rightarrow> nat \<Rightarrow> (cl_int + info_value) option" where
  "program_answer A refs P param_name =
     (if param_name = 0x1160 then Some (Inr (refs_value refs))
      else if param_name = 0x1161 then Some (Inr (handle (ContextAddr A (PContext P))))
      else if param_name = 0x1162 then Some (Inr (IScalar 4 (length (PDevices P))))
      else if param_name = 0x1163 then Some (Inr (IRange 8 (map (\<lambda>d. unat (DeviceAddr A d)) (PDevices P))))
      else if param_name = 0x1164 then map_option (\<lambda>s. Inr (IString (string_bytes s))) (PSrc P)
      else if param_name = 0x1165
      then map_option (\<lambda>Bs. Inr (ISizes (map (\<lambda>B. of_nat (length B)) Bs))) (program_binaries P)
      else if param_name = 0x1167
      then Some (if \<not> HasAttachedKernels P then Inl CL_INVALID_PROGRAM_EXECUTABLE
                 else Inr (IScalar 8 (length (AttachedKernels P))))
      else if param_name = 0x1168
      then Some (case kernel_names P of Inl e \<Rightarrow> Inl e | Inr s \<Rightarrow> Inr (IString (string_bytes s)))
      else Some (Inl CL_INVALID_VALUE))"

definition clGetProgramInfo ::
  "addresses \<Rightarrow> 32 word \<Rightarrow> program option \<Rightarrow> nat \<Rightarrow> size_t \<Rightarrow> byte list option \<Rightarrow> bool \<Rightarrow> info_reply option" where
  "clGetProgramInfo A refs program param_name param_value_size param_value want =
     (case program of
        None \<Rightarrow> answer (Inl CL_INVALID_PROGRAM) param_value param_value_size want
      | Some P \<Rightarrow>
        Option.bind (program_answer A refs P param_name) (\<lambda>v. answer v param_value param_value_size want))"

text \<open>The case \<open>CL_PROGRAM_BINARIES\<close>, with the pointers of the client and the memory behind them.\<close>

definition clGetProgramInfo_binaries ::
  "program option \<Rightarrow> size_t \<Rightarrow> ptr list option \<Rightarrow> (ptr \<Rightarrow> byte) \<Rightarrow> bool \<Rightarrow>
   (cl_int \<times> (ptr list option \<times> (ptr \<Rightarrow> byte)) \<times> size_t option) option" where
  "clGetProgramInfo_binaries program param_value_size param_value m want =
     (case program of
        None \<Rightarrow> Some (CL_INVALID_PROGRAM, (param_value, m), None)
      | Some P \<Rightarrow>
        Option.bind (program_binaries P) (\<lambda>Bs. fill_binaries Bs param_value m param_value_size want))"

definition build_table :: "build_info \<Rightarrow> (nat \<times> info_value) list" where
  "build_table I =
     [(0x1181, int_value (build_status_number (BuildStatus I))), (0x1182, IString (string_bytes (BuildOpts I))),
      (0x1183, IString (string_bytes (BuildLog I)))]"

definition clGetProgramBuildInfo ::
  "program option \<Rightarrow> dev_id list \<Rightarrow> dev_id option \<Rightarrow> nat \<Rightarrow> size_t \<Rightarrow> byte list option \<Rightarrow> bool \<Rightarrow> info_reply option" where
  "clGetProgramBuildInfo program CtxDevs device param_name param_value_size param_value want =
     Option.bind (program_build_info program (CtxDevs, device))
       (\<lambda>r. answer (case r of Inl e \<Rightarrow> Inl e | Inr I \<Rightarrow> table_answer (build_table I) param_name)
              param_value param_value_size want)"

section \<open>Kernels\<close>

text \<open>A kernel is its descriptor and the number of its arguments.\<close>

definition kernel_table :: "addresses \<Rightarrow> ptr \<Rightarrow> ctx_id \<Rightarrow> 32 word \<Rightarrow> kernel_descriptor \<times> nat \<Rightarrow> (nat \<times> info_value) list" where
  "kernel_table A prog Ctx refs k =
     [(0x1190, IString (string_bytes (DName (fst k)))), (0x1191, IScalar 4 (snd k)), (0x1192, refs_value refs),
      (0x1193, handle (ContextAddr A Ctx)), (0x1194, handle prog)]"

definition clGetKernelInfo ::
  "addresses \<Rightarrow> ptr \<Rightarrow> ctx_id \<Rightarrow> 32 word \<Rightarrow> (kernel_descriptor \<times> nat) option \<Rightarrow> nat \<Rightarrow> size_t \<Rightarrow> byte list option \<Rightarrow> bool \<Rightarrow>
   info_reply option" where
  "clGetKernelInfo A prog Ctx refs kern param_name param_value_size param_value want =
     answer (case kern of None \<Rightarrow> Inl CL_INVALID_KERNEL | Some k \<Rightarrow> table_answer (kernel_table A prog Ctx refs k) param_name)
       param_value param_value_size want"

definition kernel_arg_answer :: "metadata \<Rightarrow> kernel_info \<Rightarrow> nat \<Rightarrow> nat \<Rightarrow> (cl_int + info_value) option" where
  "kernel_arg_answer M K arg_indx param_name =
     (if param_name = 0x1196 then map_option (\<lambda>q. Inr (IScalar 4 q)) (GetArgAddressQualifier M K arg_indx)
      else if param_name = 0x1197 then map_option (\<lambda>q. Inr (IScalar 4 q)) (GetArgAccessQualifier M K arg_indx)
      else if param_name = 0x1198 then map_option (\<lambda>s. Inr (IString (string_bytes s))) (GetArgTypeName M K arg_indx)
      else if param_name = 0x1199 then map_option (\<lambda>q. Inr (IScalar 8 q)) (GetArgTypeQualifier M K arg_indx)
      else if param_name = 0x119A then map_option (\<lambda>s. Inr (IString (string_bytes s))) (GetArgName M K arg_indx)
      else Some (Inl CL_INVALID_VALUE))"

text \<open>The information is that of the first device of the descriptor.\<close>

definition clGetKernelArgInfo ::
  "metadata \<Rightarrow> (kernel_descriptor \<times> nat) option \<Rightarrow> nat \<Rightarrow> nat \<Rightarrow> size_t \<Rightarrow> byte list option \<Rightarrow> bool \<Rightarrow> info_reply option" where
  "clGetKernelArgInfo M kern arg_indx param_name param_value_size param_value want =
     (case kern of
        None \<Rightarrow> answer (Inl CL_INVALID_KERNEL) param_value param_value_size want
      | Some k \<Rightarrow>
        (case Infos (fst k) of
           [] \<Rightarrow> None
         | (_, K) # _ \<Rightarrow>
           Option.bind (kernel_arg_answer M K arg_indx param_name) (\<lambda>v. answer v param_value param_value_size want)))"

end
