(* ===== verification/Info_Proof.thy ===== *)
theory Info_Proof
  imports Info_API Memory_API
begin

text \<open>
  What the information queries give a client: the value comes back from the buffer it was stored in; a
  sub-device answers like its parent but for what the partition changes; and the binaries of a program
  arrive in the memory of the client.
\<close>

section \<open>Reading answers back\<close>

definition read_numbers :: "nat \<Rightarrow> byte list \<Rightarrow> nat list" where
  "read_numbers n bs = map (\<lambda>i. le_value (take n (drop (n * i) bs))) [0..<length bs div n]"

text \<open>What a client reads from the buffer that knows the type of the answer.\<close>

fun read_back :: "info_value \<Rightarrow> byte list \<Rightarrow> info_value" where
  "read_back (IScalar n v) bs = IScalar n (le_value bs)"
| "read_back (IString s) bs = IString (read_c_string bs)"
| "read_back (IRange n vs) bs = IRange n (read_numbers n bs)"
| "read_back (ISizes xs) bs = ISizes (map of_nat (read_numbers 8 bs))"

text \<open>A number fits its type; a string has no zero inside.\<close>

fun fits :: "info_value \<Rightarrow> bool" where
  "fits (IScalar n v) \<longleftrightarrow> v < 256 ^ n"
| "fits (IString s) \<longleftrightarrow> 0 \<notin> set s"
| "fits (IRange n vs) \<longleftrightarrow> 0 < n \<and> (\<forall>v \<in> set vs. v < 256 ^ n)"
| "fits (ISizes xs) \<longleftrightarrow> True"

lemma read_numbers_stored:
  assumes "0 < n" "\<forall>v \<in> set vs. v < 256 ^ n"
  shows "read_numbers n (concat (map (le_bytes n) vs)) = vs"
proof (rule nth_equalityI)
  have nth: "take n (drop (n * i) (concat (map (le_bytes n) vs))) = le_bytes n (vs ! i)" if "i < length vs" for i
    using that
  proof (induction vs arbitrary: i)
    case (Cons v vs)
    then show ?case by (cases i) simp_all
  qed simp
  show "length (read_numbers n (concat (map (le_bytes n) vs))) = length vs"
    using assms(1) by (simp add: read_numbers_def)
  show "read_numbers n (concat (map (le_bytes n) vs)) ! i = vs ! i"
    if "i < length (read_numbers n (concat (map (le_bytes n) vs)))" for i
  proof -
    have i: "i < length vs" using that assms(1) by (simp add: read_numbers_def)
    then show ?thesis using assms nth [OF i] le_value_le_bytes [of "vs ! i" n] by (simp add: read_numbers_def)
  qed
qed

lemma read_back_encode: "fits v \<Longrightarrow> read_back v (encode_info v) = v"
proof (cases v)
  case (IString s)
  assume "fits v"
  then have "read_c_string s = s" using IString by (auto simp: read_c_string_def takeWhile_eq_all_conv)
  then show ?thesis using IString by (simp add: read_c_string_c_string)
next
  case (ISizes xs)
  have "\<forall>v \<in> set (map unat xs). v < 256 ^ 8" using unat_below64 by auto
  then have "read_numbers 8 (concat (map (le_bytes 8) (map unat xs))) = map unat xs"
    by (intro read_numbers_stored) simp_all
  moreover have "map word_of_nat (map unat xs) = xs" by (induction xs) simp_all
  ultimately show ?thesis using ISizes by (simp del: map_map)
qed (simp_all add: le_value_le_bytes read_numbers_stored)

text \<open>
  C29: a client that asks for the size of an attribute, allocates a buffer of this size and asks for the
  value gets the value: the first call succeeds and reports the size, the second fills the buffer, and what
  the client reads from it is the attribute, be it a number, a string, an array of handles or of sizes.
  With any smaller size the second call is refused and leaves the buffer alone.
\<close>

theorem info_in_two_calls:
  assumes "fits v" "length (encode_info v) < 2 ^ 64" "length b = length (encode_info v)"
  shows "\<exists>sz bs. answer (Inr v) None 0 True = Some \<lparr>RStatus = CL_SUCCESS, RBuffer = None, RSize = Some sz\<rparr> \<and>
      unat sz = length b \<and>
      answer (Inr v) (Some b) sz True = Some \<lparr>RStatus = CL_SUCCESS, RBuffer = Some bs, RSize = Some sz\<rparr> \<and>
      read_back v bs = v \<and>
      (\<forall>sz' < sz. answer (Inr v) (Some b) sz' True =
         Some \<lparr>RStatus = CL_INVALID_VALUE, RBuffer = Some b, RSize = Some sz\<rparr>)"
proof -
  have sz: "reported (encode_info v) True = Some (of_nat (length b))" by (simp add: reported_def assms(3))
  have un: "unat (of_nat (length b) :: size_t) = length b" using assms(2,3) by (simp add: unat_of_nat64)
  have "answer (Inr v) (Some b) sz' True =
      Some \<lparr>RStatus = CL_INVALID_VALUE, RBuffer = Some b, RSize = Some (of_nat (length b))\<rparr>"
    if "sz' < of_nat (length b)" for sz'
    using that info.refused [OF assms(2), of sz' b True] un assms(3) sz by (simp add: answer_def word_less_nat_alt)
  then show ?thesis
    using info.asked [of v 0 True] info.filled [OF assms(2), of "of_nat (length b)" b True] un assms(1,3) sz
    by (intro exI [of _ "of_nat (length b)"] exI [of _ "encode_info v"]) (simp add: answer_def read_back_encode)
qed

theorem info_in_two_calls_witness:
  "\<exists>sz bs. answer (Inr (IString [79, 67])) None 0 True = Some \<lparr>RStatus = CL_SUCCESS, RBuffer = None, RSize = Some sz\<rparr> \<and>
      unat sz = 3 \<and>
      answer (Inr (IString [79, 67])) (Some [1, 2, 3]) sz True =
        Some \<lparr>RStatus = CL_SUCCESS, RBuffer = Some bs, RSize = Some sz\<rparr> \<and>
      read_back (IString [79, 67]) bs = IString [79, 67]"
  using info_in_two_calls [of "IString [79, 67]" "[1, 2, 3]"] by auto

section \<open>Sub-devices\<close>

lemma map_of_filtered: "k \<notin> X \<Longrightarrow> map_of (filter (\<lambda>x. fst x \<notin> X) T) k = map_of T k"
  by (induction T) auto

text \<open>The parameters that a partition changes.\<close>

definition partition_params :: "nat set" where
  "partition_params = {0x1002, 0x1042, 0x1043, 0x1044, 0x1045, 0x1046, 0x1047}"

lemma sub_device_table:
  "p \<notin> partition_params \<Longrightarrow> table_answer (device_table Plat (new_sub_device addr D E)) p = table_answer (device_table Plat D) p"
proof -
  assume p: "p \<notin> partition_params"
  have "(DInfo D)\<lparr>GetName := Device_Info.GetName (DInfo D)\<rparr> = DInfo D" by simp
  then have "filter (\<lambda>x. fst x \<notin> partition_params) (device_table Plat (new_sub_device addr D E)) =
      filter (\<lambda>x. fst x \<notin> partition_params) (device_table Plat D)"
    by (simp add: device_table_def new_sub_device_def partition_params_def Let_def)
  then show ?thesis using map_of_filtered [OF p] by (metis table_answer_def)
qed

lemma read_counts_split: "read_counts P = Some (xs, rest) \<Longrightarrow> P = xs @ 0 # rest"
  by (induction P arbitrary: xs) (auto split: if_splits option.splits)

text \<open>The properties a partition keeps are those it was given, up to the terminator.\<close>

lemma DevicePartition_prefix: "DevicePartition P = Some Part \<Longrightarrow> Part = take (length Part) P \<and> length Part \<le> length P"
proof -
  assume p: "DevicePartition P = Some Part"
  then have "getType P \<noteq> None" by (auto simp: DevicePartition_def split: option.splits)
  then obtain a P' where P: "P = a # P'" by (cases P) (auto simp: getType_def prop_at_def)
  show ?thesis
  proof (cases "getType P = Some PartitionByCounts")
    case True
    with p P obtain xs z rest where "read_counts P' = Some (xs, z # rest)" "Part = a # xs @ [0, z]"
      by (auto simp: DevicePartition_def split: option.splits list.splits)
    then show ?thesis using read_counts_split [of P' xs "z # rest"] P by simp
  next
    case False
    with p have "Part = take 3 P" "3 \<le> length P"
      by (auto simp: DevicePartition_def split: option.splits partition_type.splits if_splits)
    then show ?thesis by simp
  qed
qed

lemma CPUSubDevice_units: "CPUSubDevice H D Part cpus = Some S \<Longrightarrow> MaxComputeUnits S = of_nat (length (HWCPUs S))"
  by (auto simp: CPUSubDevice_def InitSubDeviceInfo_def Let_def split: if_splits)

lemma make_devices_units:
  "make_devices H D Part groups = Some Ss \<Longrightarrow> \<forall>S \<in> set Ss. MaxComputeUnits S = of_nat (length (HWCPUs S))"
  unfolding make_devices_def
  by (induction groups arbitrary: Ss) (auto split: option.splits dest: CPUSubDevice_units)

lemma created_units:
  assumes "clCreateSubDevices H (Some D) (Some P) n True want = Some (CL_SUCCESS, k, Ss)"
  shows "\<forall>S \<in> set Ss. MaxComputeUnits S = of_nat (length (HWCPUs S))"
  using assms make_devices_units
  by (auto simp: clCreateSubDevices_def createSubDevices_def Let_def split: if_splits option.splits bool.splits)

lemma sub_device_own:
  "table_answer (device_table Plat (new_sub_device addr D E)) 0x1042 = Inr (IScalar 8 (unat addr))"
  "table_answer (device_table Plat (new_sub_device addr D E)) 0x1046 = Inr (IRange 8 (map unat (DevPartition E)))"
  "table_answer (device_table Plat (new_sub_device addr D E)) 0x1002 = Inr (IScalar 4 (unat (MaxComputeUnits E)))"
  by (simp_all add: table_answer_def device_table_def new_sub_device_def Let_def)

text \<open>
  C21: what \<open>clGetDeviceInfo\<close> answers for the sub-devices that \<open>clCreateSubDevices\<close> returns: for every
  parameter that does not concern the partition, known or unknown, the same as for the parent; as parent,
  the address of the device that was partitioned; as compute units, the number of its processors; and as
  partition, the properties the client passed, up to the end of the list.
\<close>

theorem sub_device_answers:
  assumes "clCreateSubDevices H (Some (DCpu D)) (Some P) n True wn = Some (CL_SUCCESS, k, Ss)" "E \<in> set Ss"
    and "length (HWCPUs E) < 2 ^ 32" "length P < 2 ^ 60"
  shows "(\<forall>p sz b want. p \<in> partition_params \<or>
            clGetDeviceInfo Plat (Some (new_sub_device addr D E)) p sz b want = clGetDeviceInfo Plat (Some D) p sz b want) \<and>
         clGetDeviceInfo Plat (Some (new_sub_device addr D E)) 0x1042 8 (Some (replicate 8 0)) False =
           Some \<lparr>RStatus = CL_SUCCESS, RBuffer = Some (le_bytes 8 (unat addr)), RSize = None\<rparr> \<and>
         clGetDeviceInfo Plat (Some (new_sub_device addr D E)) 0x1002 4 (Some (replicate 4 0)) False =
           Some \<lparr>RStatus = CL_SUCCESS, RBuffer = Some (le_bytes 4 (length (HWCPUs E))), RSize = None\<rparr> \<and>
         (\<exists>k \<le> length P. 3 \<le> k \<and>
            clGetDeviceInfo Plat (Some (new_sub_device addr D E)) 0x1046 (of_nat (8 * k)) (Some (replicate (8 * k) 0)) False =
              Some \<lparr>RStatus = CL_SUCCESS, RBuffer = Some (concat (map (le_bytes 8) (map unat (take k P)))), RSize = None\<rparr>)"
proof -
  let ?S = "new_sub_device addr D E"
  obtain Part where p: "DevicePartition P = Some Part" "DevPartition E = Part"
    using created_groups [OF assms(1)] assms(2) by metis
  have pre: "Part = take (length Part) P" "length Part \<le> length P" using DevicePartition_prefix [OF p(1)] by simp_all
  have three: "3 \<le> length Part"
    using p(1) by (auto simp: DevicePartition_def split: option.splits partition_type.splits if_splits list.splits)
  have units: "unat (MaxComputeUnits E) = length (HWCPUs E)"
    using created_units [OF assms(1)] assms(2,3) by (simp add: unsigned_of_nat take_bit_nat_eq_self)
  have ans: "clGetDeviceInfo Plat (Some ?S) q (of_nat (length (encode_info v))) (Some (replicate (length (encode_info v)) 0)) False =
      Some \<lparr>RStatus = CL_SUCCESS, RBuffer = Some (encode_info v), RSize = None\<rparr>"
    if "table_answer (device_table Plat ?S) q = Inr v" "length (encode_info v) < 2 ^ 64" for q v
    using that info.filled [of v "of_nat (length (encode_info v))" "replicate (length (encode_info v)) 0" False]
      unat_of_nat64 [of "length (encode_info v)"]
    by (simp add: clGetDeviceInfo_def answer_def reported_def)
  have "clGetDeviceInfo Plat (Some ?S) 0x1046 (of_nat (8 * length Part)) (Some (replicate (8 * length Part) 0)) False =
      Some \<lparr>RStatus = CL_SUCCESS, RBuffer = Some (concat (map (le_bytes 8) (map unat (take (length Part) P)))), RSize = None\<rparr>"
    using ans [OF sub_device_own(2)] pre assms(4) p(2) by (simp del: map_map take_map)
  moreover have "p \<in> partition_params \<or>
      clGetDeviceInfo Plat (Some ?S) p sz b want = clGetDeviceInfo Plat (Some D) p sz b want" for p sz b want
    using sub_device_table [of p Plat addr D E] by (cases "p \<in> partition_params") (simp_all add: clGetDeviceInfo_def)
  ultimately show ?thesis
    using ans [OF sub_device_own(1)] ans [OF sub_device_own(3)] units three pre(2) by auto
qed

text \<open>A machine with eight processors; the memory its device is made in holds nothing in particular.\<close>

definition demo_machine :: machine where
  "demo_machine = \<lparr>TotalMemorySize = 2 ^ 33, L1CacheSize = 2 ^ 15, LLCacheSize = 2 ^ 23, LLCacheLineSize = 64\<rparr>"

definition demo_obj :: dev_obj where
  "demo_obj = the (new_cpu_device demo_machine True SSE2 undefined demo_hardware [0, 1, 2, 3, 4, 5, 6, 7])"

lemma demo_obj:
  "new_cpu_device demo_machine True SSE2 undefined demo_hardware [0, 1, 2, 3, 4, 5, 6, 7] = Some demo_obj"
  "DCpu demo_obj = demo_dev"
  "DInfo demo_obj = InitDeviceInfo demo_machine True SSE2 ((DeviceInfo CPUType undefined)\<lparr>GetName := ''CPU''\<rparr>)"
  by (simp_all only: demo_obj_def new_cpu_device_def demo_dev option.map option.sel dev_obj.simps)

theorem sub_device_answers_witness:
  "\<exists>S. HWCPUs S = [0, 1, 2] \<and>
     clGetDeviceInfo 7 (Some (new_sub_device 64 demo_obj S)) 0x1003 4 None True =
       clGetDeviceInfo 7 (Some demo_obj) 0x1003 4 None True \<and>
     clGetDeviceInfo 7 (Some (new_sub_device 64 demo_obj S)) 0x1042 8 (Some (replicate 8 0)) False =
       Some \<lparr>RStatus = CL_SUCCESS, RBuffer = Some [64, 0, 0, 0, 0, 0, 0, 0], RSize = None\<rparr>"
proof -
  obtain S T where s: "HWCPUs S = [0, 1, 2]"
    "clCreateSubDevices demo_hardware (Some (DCpu demo_obj)) (Some [0x1086, 3, 0]) 4 True False = Some (CL_SUCCESS, None, [S, T])"
    using demo_created by (auto simp: demo_obj(2))
  have "S \<in> set [S, T]" "length (HWCPUs S) < 2 ^ 32" "length ([0x1086, 3, 0] :: properties) < 2 ^ 60" using s(1) by simp_all
  note r = sub_device_answers [OF s(2) this, of 7 64]
  have "(0x1003 :: nat) \<notin> partition_params" by (simp add: partition_params_def)
  with r have "clGetDeviceInfo 7 (Some (new_sub_device 64 demo_obj S)) 0x1003 4 None True =
      clGetDeviceInfo 7 (Some demo_obj) 0x1003 4 None True" by blast
  moreover have "le_bytes 8 (unat (64 :: ptr)) = [64, 0, 0, 0, 0, 0, 0, 0]" by (simp add: le_bytes_numeral)
  ultimately show ?thesis using r s(1) by metis
qed

section \<open>Binaries\<close>

definition region :: "ptr \<Rightarrow> nat \<Rightarrow> ptr set" where
  "region p n = {p + of_nat k |k. k < n}"

definition holds :: "(ptr \<Rightarrow> byte) \<Rightarrow> ptr \<Rightarrow> byte list \<Rightarrow> bool" where
  "holds m p bs \<longleftrightarrow> (\<forall>k < length bs. m (p + of_nat k) = bs ! k)"

lemma copy_to_value:
  assumes "length bs \<le> 2 ^ 64"
  shows "holds (copy_to p bs m) p bs" "a \<notin> region p (length bs) \<Longrightarrow> copy_to p bs m a = m a"
proof -
  define F where "F = (\<lambda>n. foldl (\<lambda>m i. m(p + of_nat i := bs ! i)) m [0..<n])"
  have F: "F 0 = m" "F (Suc n) = (F n)(p + of_nat n := bs ! n)" for n by (simp_all add: F_def)
  have inj: "(of_nat i :: ptr) = of_nat k \<longleftrightarrow> i = k" if "i < length bs" "k < length bs" for i k
    using that assms unat_of_nat64 by (metis order_less_le_trans)
  have "(\<forall>k < n. F n (p + of_nat k) = bs ! k) \<and> (\<forall>a. a \<notin> region p n \<longrightarrow> F n a = m a)" if "n \<le> length bs" for n
    using that
  proof (induction n)
    case (Suc n)
    have "p + of_nat n \<in> region p (Suc n)" "region p n \<subseteq> region p (Suc n)" by (auto simp: region_def)
    moreover have "p + of_nat k \<noteq> p + of_nat n" if "k < n" for k using inj [of k n] that Suc.prems by simp
    ultimately show ?case using Suc by (auto simp: F less_Suc_eq)
  qed (simp add: F region_def)
  then show "holds (copy_to p bs m) p bs" "a \<notin> region p (length bs) \<Longrightarrow> copy_to p bs m a = m a"
    by (simp_all add: holds_def copy_to_def F_def)
qed

lemma holds_frame:
  "holds m p bs \<Longrightarrow> (\<And>a. a \<in> region p (length bs) \<Longrightarrow> m' a = m a) \<Longrightarrow> holds m' p bs"
  unfolding holds_def region_def by (metis (mono_tags, lifting) mem_Collect_eq)

lemma binaries_loop_spec:
  assumes "length ps = I + length Bs" "\<forall>B \<in> set Bs. length B \<le> 2 ^ 64"
    and "\<forall>i < length Bs. Bs ! i = [] \<or> ps ! (I + i) \<noteq> NULL"
    and "\<forall>i < length Bs. \<forall>j < i. region (ps ! (I + i)) (length (Bs ! i)) \<inter> region (ps ! (I + j)) (length (Bs ! j)) = {}"
  shows "\<exists>ps' m'. binaries_loop Bs I ps m = Some (ps', m') \<and>
      ps' = take I ps @ map (\<lambda>i. if Bs ! i = [] then NULL else ps ! (I + i)) [0..<length Bs] \<and>
      (\<forall>i < length Bs. holds m' (ps ! (I + i)) (Bs ! i)) \<and>
      (\<forall>a. (\<forall>i < length Bs. a \<notin> region (ps ! (I + i)) (length (Bs ! i))) \<longrightarrow> m' a = m a)"
  using assms
proof (induction Bs arbitrary: I ps m)
  case (Cons B Bs)
  let ?ps = "if B = [] then ps[I := NULL] else ps"
  let ?m = "if B = [] then m else copy_to (ps ! I) B m"
  have I: "I < length ps" using Cons.prems(1) by simp
  have same: "?ps ! (Suc I + i) = ps ! (I + Suc i)" for i by simp
  have step: "binaries_loop (B # Bs) I ps m = binaries_loop Bs (Suc I) ?ps ?m"
    using I Cons.prems(3) [rule_format, of 0] by (cases "B = []") simp_all
  have nn: "\<forall>i < length Bs. Bs ! i = [] \<or> ps ! (I + Suc i) \<noteq> NULL" using Cons.prems(3) by auto
  have dj: "\<forall>i < length Bs. \<forall>j < i. region (ps ! (I + Suc i)) (length (Bs ! i)) \<inter> region (ps ! (I + Suc j)) (length (Bs ! j)) = {}"
    using Cons.prems(4) by (metis Suc_less_eq length_Cons nth_Cons_Suc)
  have d0: "region (ps ! (I + Suc i)) (length (Bs ! i)) \<inter> region (ps ! I) (length B) = {}" if "i < length Bs" for i
    using Cons.prems(4) [rule_format, of "Suc i" 0] that by simp
  have pre: "length ?ps = Suc I + length Bs" "\<forall>B \<in> set Bs. length B \<le> 2 ^ 64"
    "\<forall>i < length Bs. Bs ! i = [] \<or> ?ps ! (Suc I + i) \<noteq> NULL"
    "\<forall>i < length Bs. \<forall>j < i. region (?ps ! (Suc I + i)) (length (Bs ! i)) \<inter> region (?ps ! (Suc I + j)) (length (Bs ! j)) = {}"
    unfolding same using Cons.prems(1,2) nn dj by simp_all
  obtain ps' m' where r: "binaries_loop Bs (Suc I) ?ps ?m = Some (ps', m')"
    "ps' = take (Suc I) ?ps @ map (\<lambda>i. if Bs ! i = [] then NULL else ?ps ! (Suc I + i)) [0..<length Bs]"
    "\<forall>i < length Bs. holds m' (?ps ! (Suc I + i)) (Bs ! i)"
    "\<forall>a. (\<forall>i < length Bs. a \<notin> region (?ps ! (Suc I + i)) (length (Bs ! i))) \<longrightarrow> m' a = ?m a"
    using Cons.IH [OF pre, of ?m] by blast
  note r' = r(2-4) [unfolded same]
  have hd: "take (Suc I) ?ps = take I ps @ [if B = [] then NULL else ps ! I]"
    using I by (simp add: take_Suc_conv_app_nth)
  have ups: "[0..<length (B # Bs)] = 0 # map Suc [0..<length Bs]" by (simp add: upt_conv_Cons map_Suc_upt del: upt_Suc)
  have ps': "ps' = take I ps @ map (\<lambda>i. if (B # Bs) ! i = [] then NULL else ps ! (I + i)) [0..<length (B # Bs)]"
    unfolding r'(1) hd ups by (simp add: comp_def)
  have "length B \<le> 2 ^ 64" using Cons.prems(2) by simp
  note c = copy_to_value [OF this, where p = "ps ! I" and m = m]
  have h0: "holds m' (ps ! I) B"
  proof (rule holds_frame)
    show "holds ?m (ps ! I) B" using c(1) by (simp add: holds_def)
    show "m' a = ?m a" if "a \<in> region (ps ! I) (length B)" for a using r'(3) d0 that by blast
  qed
  have "\<forall>i < length (B # Bs). holds m' (ps ! (I + i)) ((B # Bs) ! i)"
    using h0 r'(2) by (auto simp: less_Suc_eq_0_disj)
  moreover have "m' a = m a" if "\<forall>i < length (B # Bs). a \<notin> region (ps ! (I + i)) (length ((B # Bs) ! i))" for a
  proof -
    have "a \<notin> region (ps ! I) (length B)" using that [rule_format, of 0] by simp
    moreover have "\<forall>i < length Bs. a \<notin> region (ps ! (I + Suc i)) (length (Bs ! i))" using that by auto
    ultimately show ?thesis using r'(3) c(2) by simp
  qed
  ultimately show ?case unfolding step r(1) using ps' by blast
qed simp

text \<open>
  C13: a client that asks a program for the sizes of its binaries and then for the binaries, giving for each
  device a pointer to so many bytes that do not overlap, gets them: the sizes it reads are those of the
  binaries, in the order of the devices; afterwards each pointer leads to the bytes of its binary, or is null
  when there is none; and no other byte of its memory has changed.
\<close>

theorem binaries_returned:
  assumes "program_binaries P = Some Bs" "\<forall>B \<in> set Bs. length B < 2 ^ 64" "length Bs < 2 ^ 60"
    and "length ps = length Bs" "\<forall>i < length Bs. Bs ! i = [] \<or> ps ! i \<noteq> NULL"
    and "\<forall>i < length Bs. \<forall>j < i. region (ps ! i) (length (Bs ! i)) \<inter> region (ps ! j) (length (Bs ! j)) = {}"
  shows "(\<exists>bs. clGetProgramInfo A refs (Some P) 0x1165 (of_nat (8 * length Bs)) (Some (replicate (8 * length Bs) 0)) False =
            Some \<lparr>RStatus = CL_SUCCESS, RBuffer = Some bs, RSize = None\<rparr> \<and> read_numbers 8 bs = map length Bs) \<and>
         (\<exists>m'. clGetProgramInfo_binaries (Some P) (of_nat (8 * length Bs)) (Some ps) m want =
            Some (CL_SUCCESS, (Some (map (\<lambda>i. if Bs ! i = [] then NULL else ps ! i) [0..<length Bs]), m'),
                  if want then Some (of_nat (8 * length Bs)) else None) \<and>
            (\<forall>i < length Bs. holds m' (ps ! i) (Bs ! i)) \<and>
            (\<forall>a. (\<forall>i < length Bs. a \<notin> region (ps ! i) (length (Bs ! i))) \<longrightarrow> m' a = m a))"
proof -
  let ?v = "ISizes (map (\<lambda>B. of_nat (length B)) Bs)"
  have len: "length (encode_info ?v) = 8 * length Bs" by (simp del: map_map)
  have un: "map unat (map (\<lambda>B. of_nat (length B) :: size_t) Bs) = map length Bs"
    using assms(2) by (simp add: unat_of_nat64)
  have "length (encode_info ?v) < 2 ^ 64" using len assms(3) by simp
  note f = info.filled [OF this, of "of_nat (8 * length Bs)" "replicate (8 * length Bs) 0" False]
  have "answer (Inr ?v) (Some (replicate (8 * length Bs) 0)) (of_nat (8 * length Bs)) False =
      Some \<lparr>RStatus = CL_SUCCESS, RBuffer = Some (encode_info ?v), RSize = None\<rparr>"
    using f len assms(3) unat_of_nat64 [of "8 * length Bs"] by (simp add: answer_def reported_def del: encode_info.simps)
  moreover have "read_numbers 8 (encode_info ?v) = map length Bs"
  proof -
    have "\<forall>v \<in> set (map length Bs). v < 256 ^ 8" using assms(2) by simp
    then show ?thesis unfolding encode_info.simps un by (intro read_numbers_stored) simp_all
  qed
  moreover have "program_answer A refs P 0x1165 = Some (Inr ?v)" by (simp add: program_answer_def assms(1))
  ultimately have sizes: "\<exists>bs. clGetProgramInfo A refs (Some P) 0x1165 (of_nat (8 * length Bs)) (Some (replicate (8 * length Bs) 0)) False =
            Some \<lparr>RStatus = CL_SUCCESS, RBuffer = Some bs, RSize = None\<rparr> \<and> read_numbers 8 bs = map length Bs"
    by (simp add: clGetProgramInfo_def)
  have "\<forall>B \<in> set Bs. length B \<le> 2 ^ 64" using assms(2) by (auto intro: less_imp_le)
  note spec = binaries_loop_spec [of ps 0 Bs m, unfolded add_0 take_0 append_Nil, OF assms(4) this assms(5,6)]
  obtain ps' m' where b: "binaries_loop Bs 0 ps m = Some (ps', m')"
    "ps' = map (\<lambda>i. if Bs ! i = [] then NULL else ps ! i) [0..<length Bs]"
    "\<forall>i < length Bs. holds m' (ps ! i) (Bs ! i)"
    "\<forall>a. (\<forall>i < length Bs. a \<notin> region (ps ! i) (length (Bs ! i))) \<longrightarrow> m' a = m a"
    using spec by blast
  then have "clGetProgramInfo_binaries (Some P) (of_nat (8 * length Bs)) (Some ps) m want =
      Some (CL_SUCCESS, (Some ps', m'), if want then Some (of_nat (8 * length Bs)) else None)"
    using assms(1) by (simp add: clGetProgramInfo_binaries_def fill_binaries_def)
  with sizes b(2-4) show ?thesis by blast
qed

definition demo_program :: program where
  "demo_program =
     \<lparr>PContext = 0, PDevices = [1, 2], PSrc = None,
      BuildInfo = [(1, BuildInformation\<lparr>BuildStatus := CL_BUILD_SUCCESS, Binary := Some [5, 6]\<rparr>), (2, BuildInformation)],
      AttachedKernels = []\<rparr>"

theorem binaries_returned_witness:
  "\<exists>m'. clGetProgramInfo_binaries (Some demo_program) 16 (Some [100, 200]) (\<lambda>_. 0) False =
          Some (CL_SUCCESS, (Some [100, NULL], m'), None) \<and>
        holds m' 100 [5, 6] \<and> m' 102 = 0"
proof -
  let ?Bs = "[[5, 6], []] :: byte list list" and ?ps = "[100, 200] :: ptr list"
  have P: "program_binaries demo_program = Some ?Bs"
    by (simp add: program_binaries_def program_binary_def demo_program_def IsBuilt_def BuildInformation_def)
  have "\<forall>B \<in> set ?Bs. length B < 2 ^ 64" "length ?Bs < 2 ^ 60" "length ?ps = length ?Bs"
    "\<forall>i < length ?Bs. ?Bs ! i = [] \<or> ?ps ! i \<noteq> NULL" by (simp_all add: less_Suc_eq)
  moreover have "\<forall>i < length ?Bs. \<forall>j < i. region (?ps ! i) (length (?Bs ! i)) \<inter> region (?ps ! j) (length (?Bs ! j)) = {}"
    by (simp add: less_Suc_eq region_def)
  ultimately obtain m' where m: "clGetProgramInfo_binaries (Some demo_program) (of_nat (8 * length ?Bs)) (Some ?ps) (\<lambda>_. 0) False =
      Some (CL_SUCCESS, (Some (map (\<lambda>i. if ?Bs ! i = [] then NULL else ?ps ! i) [0..<length ?Bs]), m'), None)"
    "\<forall>i < length ?Bs. holds m' (?ps ! i) (?Bs ! i)"
    "\<forall>a. (\<forall>i < length ?Bs. a \<notin> region (?ps ! i) (length (?Bs ! i))) \<longrightarrow> m' a = 0"
    using binaries_returned [OF P, of ?ps undefined 0 "\<lambda>_. 0" False] by (simp only: if_False) blast
  have "(102 :: ptr) \<notin> region 100 2"
    by (auto simp: region_def dest!: less_2_cases)
  then have "\<forall>i < length ?Bs. (102 :: ptr) \<notin> region (?ps ! i) (length (?Bs ! i))"
    by (auto simp: less_Suc_eq region_def)
  then have "m' 102 = 0" using m(3) by blast
  moreover have "holds m' 100 [5, 6]" using m(2) [rule_format, of 0] by simp
  ultimately show ?thesis using m(1) by (intro exI [of _ m']) (simp add: upt_rec)
qed

end
