(* ===== verification/Footprint_Proof.thy ===== *)
theory Footprint_Proof
  imports Kernel_Footprint
begin

text \<open>
  The estimate of the private memory of a kernel is a lower bound of what its variables take, so the limit
  on work-groups derived from it never excludes a size that fits; and the cache of a device only ever
  holds the estimate of the kernel that lives at the address.
\<close>

section \<open>Sizes of types\<close>

text \<open>
  What the layouts of LLVM guarantee of the size \<open>sz\<close> of a type in memory. A vector of integers that do not
  fill their bytes is packed and may take less than its elements one by one: \<open>byte_vectors\<close> excludes it.
\<close>

definition layout :: "(llvm_ty \<Rightarrow> nat) \<Rightarrow> bool" where
  "layout sz \<longleftrightarrow>
     (\<forall>b. b div 8 \<le> sz (FloatTy b)) \<and> (\<forall>w. w \<le> 8 * sz (IntTy w)) \<and> 4 \<le> sz PointerTy \<and>
     (\<forall>Ts. sum_list (map sz Ts) \<le> sz (StructTy Ts)) \<and> (\<forall>n T. n * sz T \<le> sz (ArrayTy n T)) \<and>
     (\<forall>n b. n * (b div 8) \<le> sz (VectorTy n (FloatTy b))) \<and> (\<forall>n w. n * (w div 8) \<le> sz (VectorTy n (IntTy w))) \<and>
     (\<forall>n. n * 4 \<le> sz (VectorTy n PointerTy))"

fun byte_vectors :: "llvm_ty \<Rightarrow> bool" where
  "byte_vectors (StructTy Ts) = list_all byte_vectors Ts"
| "byte_vectors (ArrayTy n T) = byte_vectors T"
| "byte_vectors (VectorTy n T) = (case T of IntTy w \<Rightarrow> w mod 8 = 0 | FloatTy b \<Rightarrow> True | PointerTy \<Rightarrow> True | _ \<Rightarrow> False)"
| "byte_vectors _ = True"

lemma bound_simps [simp]:
  "GetSizeLowerBound isSized (FloatTy b) = (if isSized (FloatTy b) then of_nat (b div 8) else 0)"
  "GetSizeLowerBound isSized (IntTy w) =
     (if isSized (IntTy w) then of_nat (if w mod 8 \<noteq> 0 then w div 8 + 1 else w div 8) else 0)"
  "GetSizeLowerBound isSized (StructTy Ts) =
     (if isSized (StructTy Ts) then sum_list (map (GetSizeLowerBound isSized) Ts) else 0)"
  "GetSizeLowerBound isSized (ArrayTy n T) =
     (if isSized (ArrayTy n T) then of_nat n * GetSizeLowerBound isSized T else 0)"
  "GetSizeLowerBound isSized (VectorTy n T) =
     (if isSized (VectorTy n T) then of_nat n * GetSizeLowerBound isSized T else 0)"
  "GetSizeLowerBound isSized PointerTy = (if isSized PointerTy then 4 else 0)"
  "GetSizeLowerBound isSized OtherTy = 0"
  by (subst GetSizeLowerBound.simps, simp del: GetSizeLowerBound.simps)+

lemma unat_add_le: "unat (a + b :: 'a::len word) \<le> unat a + unat b"
  by (simp add: unat_word_ariths)

lemma unat_of_nat_le: "unat (of_nat n :: 'a::len word) \<le> n"
  by (simp add: unsigned_of_nat take_bit_eq_mod)

lemma unat_of_nat_mult_le: "unat (of_nat n * x :: 'a::len word) \<le> n * unat x"
proof -
  have "unat (of_nat n * x) \<le> unat (of_nat n :: 'a word) * unat x" by (simp add: unat_word_ariths)
  also have "\<dots> \<le> n * unat x" using unat_of_nat_le by (rule mult_right_mono) simp
  finally show ?thesis .
qed

lemma GetSizeLowerBound_le:
  assumes "layout sz"
  shows "byte_vectors T \<Longrightarrow> unat (GetSizeLowerBound isSized T) \<le> sz T"
proof (induction T)
  case (FloatTy b)
  then show ?case using assms unat_of_nat_le [of "b div 8", where 'a = 64]
    by (auto simp: layout_def intro: order_trans)
next
  case (IntTy w)
  let ?k = "if w mod 8 \<noteq> 0 then w div 8 + 1 else w div 8"
  have "w \<le> 8 * sz (IntTy w)" using assms by (simp add: layout_def)
  then have "?k \<le> sz (IntTy w)" by (simp split: if_split) presburger
  then show ?case using unat_of_nat_le [of ?k, where 'a = 64] by (auto simp del: of_nat_Suc of_nat_add split: if_splits)
next
  case (StructTy Ts)
  have "unat (sum_list (map (GetSizeLowerBound isSized) Us)) \<le> sum_list (map sz Us)" if "set Us \<subseteq> set Ts" for Us
    using that
  proof (induction Us)
    case (Cons U Us)
    then have "unat (GetSizeLowerBound isSized U) \<le> sz U" using StructTy by (auto simp: list_all_iff)
    then show ?case using Cons unat_add_le [of "GetSizeLowerBound isSized U" "sum_list (map (GetSizeLowerBound isSized) Us)"]
      by simp
  qed simp
  from this [of Ts] show ?case using assms
    by (auto simp: layout_def intro: order_trans)
next
  case (ArrayTy n T)
  have "unat (of_nat n * GetSizeLowerBound isSized T) \<le> n * sz T"
    using unat_of_nat_mult_le ArrayTy by (metis byte_vectors.simps(2) mult_le_mono2 order_trans)
  then show ?case using assms
    by (auto simp: layout_def intro: order_trans)
next
  case (VectorTy n T)
  obtain k where k: "unat (GetSizeLowerBound isSized T) \<le> k" "n * k \<le> sz (VectorTy n T)"
  proof (cases T)
    case (FloatTy b)
    then show ?thesis using that [of "b div 8"] assms unat_of_nat_le [of "b div 8", where 'a = 64]
      by (simp add: layout_def)
  next
    case (IntTy w)
    then show ?thesis using that [of "w div 8"] assms VectorTy unat_of_nat_le [of "w div 8", where 'a = 64]
      by (simp add: layout_def)
  next
    case PointerTy
    then show ?thesis using that [of 4] assms by (simp add: layout_def)
  qed (use VectorTy in auto)
  have "unat (of_nat n * GetSizeLowerBound isSized T) \<le> n * k"
    using unat_of_nat_mult_le k(1) by (metis mult_le_mono2 order_trans)
  then show ?case using k(2) by (simp)
next
  case PointerTy
  then show ?case using assms by (simp add: layout_def)
next
  case OtherTy
  then show ?case by simp
qed

section \<open>The footprint of a kernel\<close>

text \<open>The bytes the automatic variables of a function take, with the sizes of the layout.\<close>

fun variable_bytes :: "(llvm_ty \<Rightarrow> nat) \<Rightarrow> llvm_inst \<Rightarrow> nat" where
  "variable_bytes sz (AllocaInst (Some n) T) = n * sz T"
| "variable_bytes sz _ = 0"

definition private_bytes :: "(llvm_ty \<Rightarrow> nat) \<Rightarrow> llvm_inst list \<Rightarrow> nat" where
  "private_bytes sz is = sum_list (map (variable_bytes sz) is)"

definition byte_variables :: "llvm_inst list \<Rightarrow> bool" where
  "byte_variables is \<longleftrightarrow> (\<forall>n T. AllocaInst n T \<in> set is \<longrightarrow> byte_vectors T)"

text \<open>The bodies of the functions of a module that have the name of the kernel.\<close>

definition kernel_code :: "(llvm_function \<Rightarrow> llvm_inst list) \<Rightarrow> string \<Rightarrow> llvm_module \<Rightarrow> llvm_inst list" where
  "kernel_code insts Name Mod =
     concat (map insts (filter (\<lambda>F. \<not> FDeclaration F \<and> FName F = Name) (Functions Mod)))"

lemma analyze_private:
  assumes "layout sz" "\<forall>n T. I = AllocaInst n T \<longrightarrow> byte_vectors T"
  shows "unat (PrivateMemoryUsage (AnalyzeMemoryUsage isSized I FP)) \<le> unat (PrivateMemoryUsage FP) + variable_bytes sz I"
proof (cases "\<exists>n T. I = AllocaInst (Some n) T")
  case True
  then obtain n T where I: "I = AllocaInst (Some n) T" by blast
  have "unat (of_nat n * GetSizeLowerBound isSized T) \<le> n * sz T"
    using unat_of_nat_mult_le GetSizeLowerBound_le [OF assms(1)] assms(2) I by (metis mult_le_mono2 order_trans)
  then show ?thesis
    using unat_add_le [of "PrivateMemoryUsage FP" "of_nat n * GetSizeLowerBound isSized T"] I
    by (simp add: AnalyzeMemoryUsage_def AddPrivateMemoryUsage_def)
next
  case False
  then show ?thesis
    by (cases I) (auto simp: AnalyzeMemoryUsage_def AddTempMemoryUsage_def split: option.splits)
qed

lemma analyze_all_private:
  assumes "layout sz" "byte_variables is"
  shows "unat (PrivateMemoryUsage (foldl (\<lambda>FP I. AnalyzeMemoryUsage isSized I FP) FP is)) \<le>
     unat (PrivateMemoryUsage FP) + private_bytes sz is"
  using assms(2)
proof (induction "is" arbitrary: FP)
  case (Cons I xs)
  have "byte_variables xs" "\<forall>n T. I = AllocaInst n T \<longrightarrow> byte_vectors T" using Cons.prems by (auto simp: byte_variables_def)
  then show ?case
    using Cons.IH [of "AnalyzeMemoryUsage isSized I FP"] analyze_private [OF assms(1), of I isSized FP]
    by (simp add: private_bytes_def)
qed (simp add: private_bytes_def)

lemma run_pass_private:
  assumes "layout sz" "Kernel \<noteq> []" "\<not> IRisSPIR Mod"
    and "\<forall>F \<in> set Fs. FDeclaration F \<or> FName F \<noteq> Kernel \<or> byte_variables (insts F)"
  shows "\<exists>FP'. run_pass M Mod insts isSized Kernel Fs FP = Some FP' \<and>
     unat (PrivateMemoryUsage FP') \<le> unat (PrivateMemoryUsage FP) +
       sum_list (map (\<lambda>F. private_bytes sz (insts F)) (filter (\<lambda>F. \<not> FDeclaration F \<and> FName F = Kernel) Fs))"
  using assms(4)
proof (induction Fs arbitrary: FP)
  case (Cons F Fs)
  show ?case
  proof (cases "\<not> FDeclaration F \<and> FName F = Kernel")
    case True
    obtain c where c: "contains_kernel M Mod (FName F) = Some c"
      using assms(3) by (simp add: contains_kernel_def find_kernel_value)
    obtain FP1 where FP1: "runOnFunction M Mod insts isSized Kernel F FP = Some FP1"
      "unat (PrivateMemoryUsage FP1) \<le> unat (PrivateMemoryUsage FP) + private_bytes sz (insts F)"
    proof (cases c)
      case c': True
      have "byte_variables (insts F)" using Cons.prems True by simp
      from analyze_all_private [OF assms(1) this, of isSized FP] that show ?thesis
        using True c c' by (simp add: runOnFunction_def)
    next
      case False
      then show ?thesis using that True c by (simp add: runOnFunction_def)
    qed
    obtain FP' where "run_pass M Mod insts isSized Kernel Fs FP1 = Some FP'"
      "unat (PrivateMemoryUsage FP') \<le> unat (PrivateMemoryUsage FP1) +
       sum_list (map (\<lambda>F. private_bytes sz (insts F)) (filter (\<lambda>F. \<not> FDeclaration F \<and> FName F = Kernel) Fs))"
      using Cons.IH [of FP1] Cons.prems by auto
    then show ?thesis using True FP1 by simp
  next
    case False
    then show ?thesis using Cons.IH [of FP] Cons.prems assms(2) by (auto simp: runOnFunction_def)
  qed
qed simp

lemma private_bytes_concat: "private_bytes sz (concat iss) = sum_list (map (private_bytes sz) iss)"
  by (induction iss) (simp_all add: private_bytes_def)

lemma kernel_footprint:
  assumes "layout sz" "KName K \<noteq> []" "KModule K = Some Mod" "\<not> IRisSPIR Mod"
    and "byte_variables (kernel_code insts (KName K) Mod)" "C (KAddr K) = None"
  shows "\<exists>FP. getKernelFootprint M insts isSized K C = Some (C(KAddr K \<mapsto> FP), FP) \<and>
     unat (PrivateMemoryUsage FP) \<le> private_bytes sz (kernel_code insts (KName K) Mod)"
proof -
  have "\<forall>F \<in> set (Functions Mod). FDeclaration F \<or> FName F \<noteq> KName K \<or> byte_variables (insts F)"
    using assms(5) by (auto simp: byte_variables_def kernel_code_def)
  from run_pass_private [OF assms(1,2,4) this, of M isSized Footprint] assms(3,6) show ?thesis
    by (auto simp: getKernelFootprint_def Footprint_def kernel_code_def private_bytes_concat comp_def)
qed

section \<open>Work-groups\<close>

lemma limit_value:
  "unat (getMaxWorkGroupSize FP I) =
     min (unat (Device_Info.GetMaxWorkGroupSize I))
         (if PrivateMemoryUsage FP = 0 then unat (GetPrivateMemorySize I)
          else unat (GetPrivateMemorySize I) div unat (PrivateMemoryUsage FP))"
  by (simp add: getMaxWorkGroupSize_def FP_GetMaxWorkGroupSize_def Let_def word_less_nat_alt unat_div min_def)

text \<open>
  C15: the size of work-groups a kernel may have, as \<open>clGetKernelWorkGroupInfo\<close> answers it for a device that
  has the code of the kernel: it never exceeds the limit of the device, and it excludes no group that fits,
  that is one whose work-items find room for their variables in the private memory of the device, when
  each takes at least a byte. The footprint is remembered, and the same question gets the same answer.
\<close>

theorem work_group_limit:
  assumes "layout sz" "KName K \<noteq> []" "KModule K = Some Mod" "\<not> IRisSPIR Mod"
    and "byte_variables (kernel_code insts (KName K) Mod)" "C (KAddr K) = None" "length b = 8"
  shows "\<exists>n C'. clGetKernelWorkGroupInfo M insts isSized (Some K) KI (Some I) 0x11B0 8 (Some b) False C =
      Some (C', \<lparr>RStatus = CL_SUCCESS, RBuffer = Some (le_bytes 8 n), RSize = None\<rparr>) \<and>
    clGetKernelWorkGroupInfo M insts isSized (Some K) KI (Some I) 0x11B0 8 (Some b) False C' =
      Some (C', \<lparr>RStatus = CL_SUCCESS, RBuffer = Some (le_bytes 8 n), RSize = None\<rparr>) \<and>
    n \<le> unat (Device_Info.GetMaxWorkGroupSize I) \<and>
    (\<forall>w \<le> unat (Device_Info.GetMaxWorkGroupSize I).
       w * max 1 (private_bytes sz (kernel_code insts (KName K) Mod)) \<le> unat (GetPrivateMemorySize I) \<longrightarrow> w \<le> n)"
proof -
  let ?B = "private_bytes sz (kernel_code insts (KName K) Mod)"
  obtain FP where FP: "getKernelFootprint M insts isSized K C = Some (C(KAddr K \<mapsto> FP), FP)"
    "unat (PrivateMemoryUsage FP) \<le> ?B"
    using kernel_footprint [where C = C and K = K, OF assms(1-6)] by blast
  let ?n = "unat (getMaxWorkGroupSize FP I)"
  have again: "getKernelFootprint M insts isSized K (C(KAddr K \<mapsto> FP)) = Some (C(KAddr K \<mapsto> FP), FP)"
    by (simp add: getKernelFootprint_def)
  have ans: "answer (Inr (IScalar 8 ?n)) (Some b) 8 False =
      Some \<lparr>RStatus = CL_SUCCESS, RBuffer = Some (le_bytes 8 ?n), RSize = None\<rparr>"
    using info.filled [of "IScalar 8 ?n" 8 b False] assms(7) by (simp add: answer_def reported_def)
  have fits: "w \<le> ?n" if "w \<le> unat (Device_Info.GetMaxWorkGroupSize I)" "w * max 1 ?B \<le> unat (GetPrivateMemorySize I)" for w
  proof (cases "PrivateMemoryUsage FP = 0")
    case True
    have "w \<le> w * max 1 ?B" by simp
    then have "w \<le> unat (GetPrivateMemorySize I)" using that(2) by linarith
    then show ?thesis using True that(1) by (simp add: limit_value)
  next
    case False
    then have pos: "0 < unat (PrivateMemoryUsage FP)" by (simp add: unat_gt_0)
    have "w * unat (PrivateMemoryUsage FP) \<le> w * max 1 ?B" using FP(2) by (intro mult_le_mono2) simp
    then have "w * unat (PrivateMemoryUsage FP) \<le> unat (GetPrivateMemorySize I)" using that(2) by linarith
    then have "w \<le> unat (GetPrivateMemorySize I) div unat (PrivateMemoryUsage FP)"
      using pos by (simp add: less_eq_div_iff_mult_less_eq)
    then show ?thesis using False that(1) by (simp add: limit_value)
  qed
  have le: "?n \<le> unat (Device_Info.GetMaxWorkGroupSize I)" by (simp add: limit_value)
  show ?thesis
    by (rule exI [of _ ?n], rule exI [of _ "C(KAddr K \<mapsto> FP)"])
       (use fits le in \<open>simp add: clGetKernelWorkGroupInfo_def FP(1) again ans\<close>)
qed

text \<open>A layout without padding.\<close>

fun demo_size :: "llvm_ty \<Rightarrow> nat" where
  "demo_size (FloatTy b) = b div 8"
| "demo_size (IntTy w) = (w + 7) div 8"
| "demo_size (StructTy Ts) = sum_list (map demo_size Ts)"
| "demo_size (ArrayTy n T) = n * demo_size T"
| "demo_size (VectorTy n T) = n * demo_size T"
| "demo_size PointerTy = 8"
| "demo_size OtherTy = 0"

lemma demo_layout: "layout demo_size"
proof -
  have "w div 8 \<le> (w + 7) div 8" "w \<le> 8 * ((w + 7) div 8)" for w :: nat by (simp add: div_le_mono) presburger
  then show ?thesis by (simp add: layout_def)
qed

definition demo_kernel_module :: llvm_module where
  "demo_kernel_module =
     \<lparr>Triple = ''x86_64'', KernelsMD = None,
      Functions = [\<lparr>FName = ''k'', FDeclaration = False, FSpirKernel = True, FMetadata = [], FNumParams = 1\<rparr>]\<rparr>"

definition demo_insts :: "llvm_function \<Rightarrow> llvm_inst list" where
  "demo_insts F = [AllocaInst (Some 4) (IntTy 32), CallInst (Some True) (FloatTy 32), OtherInst OtherTy]"

theorem work_group_limit_witness:
  "\<exists>n C'. clGetKernelWorkGroupInfo (\<lambda>_. None) demo_insts (\<lambda>T. T \<noteq> OtherTy)
      (Some \<lparr>KAddr = 64, KName = ''k'', KModule = Some demo_kernel_module\<rparr>) no_kernel
      (Some (InitDeviceInfo \<lparr>TotalMemorySize = 0, L1CacheSize = 32768, LLCacheSize = 0, LLCacheLineSize = 0\<rparr> True AVX (DeviceInfo CPUType undefined)))
      0x11B0 8 (Some (replicate 8 0)) False (\<lambda>_. None) =
        Some (C', \<lparr>RStatus = CL_SUCCESS, RBuffer = Some (le_bytes 8 n), RSize = None\<rparr>) \<and> n = 1024"
proof -
  let ?K = "\<lparr>KAddr = 64, KName = ''k'', KModule = Some demo_kernel_module\<rparr> :: kernel_view"
  let ?I = "InitDeviceInfo \<lparr>TotalMemorySize = 0, L1CacheSize = 32768, LLCacheSize = 0, LLCacheLineSize = 0\<rparr> True AVX (DeviceInfo CPUType undefined)"
  have I: "unat (Device_Info.GetMaxWorkGroupSize ?I) = 1024" "unat (GetPrivateMemorySize ?I) = 32768"
    by (simp_all add: InitDeviceInfo_def init_memory_def init_images_def init_widths_def init_geometry_def Let_def)
  have code: "kernel_code demo_insts ''k'' demo_kernel_module = demo_insts undefined"
    by (simp add: kernel_code_def demo_kernel_module_def demo_insts_def)
  have "KName ?K \<noteq> []" "KModule ?K = Some demo_kernel_module" "\<not> IRisSPIR demo_kernel_module"
    by (simp_all add: IRisSPIR_def demo_kernel_module_def)
  moreover have "byte_variables (kernel_code demo_insts (KName ?K) demo_kernel_module)"
    by (simp add: code byte_variables_def demo_insts_def)
  moreover have "(\<lambda>_. None :: footprint option) (KAddr ?K) = None" "length (replicate 8 (0 :: byte)) = 8" by simp_all
  ultimately have r: "\<exists>n C'. clGetKernelWorkGroupInfo (\<lambda>_. None) demo_insts (\<lambda>T. T \<noteq> OtherTy) (Some ?K) no_kernel
        (Some ?I) 0x11B0 8 (Some (replicate 8 0)) False (\<lambda>_. None) =
        Some (C', \<lparr>RStatus = CL_SUCCESS, RBuffer = Some (le_bytes 8 n), RSize = None\<rparr>) \<and> n \<le> 1024 \<and>
      (\<forall>w \<le> 1024. w * max 1 (private_bytes demo_size (kernel_code demo_insts (KName ?K) demo_kernel_module)) \<le> 32768 \<longrightarrow> w \<le> n)"
    using work_group_limit [where C = "\<lambda>_. None" and K = ?K and sz = demo_size and Mod = demo_kernel_module
        and insts = demo_insts and I = ?I, OF demo_layout] unfolding I by blast
  have "1024 * max 1 (private_bytes demo_size (kernel_code demo_insts (KName ?K) demo_kernel_module)) \<le> 32768"
    by (simp add: code private_bytes_def demo_insts_def)
  then have "n = 1024" if "n \<le> 1024"
    "\<forall>w \<le> 1024. w * max 1 (private_bytes demo_size (kernel_code demo_insts (KName ?K) demo_kernel_module)) \<le> 32768 \<longrightarrow> w \<le> n" for n
    using that by (metis le_antisym order_refl)
  then show ?thesis using r by blast
qed

section \<open>The cache\<close>

text \<open>
  The life of the kernels of a device: a kernel is created at an address that is free, its footprint is asked
  for while it lives, and its destructor unregisters it.
\<close>

datatype cache_op = CreateAt kernel_view | AskFootprint ptr | DestroyAt ptr

fun cache_step ::
  "metadata \<Rightarrow> (llvm_function \<Rightarrow> llvm_inst list) \<Rightarrow> (llvm_ty \<Rightarrow> bool) \<Rightarrow> cache_op \<Rightarrow>
   (ptr \<Rightarrow> kernel_view option) \<times> footprints \<Rightarrow> ((ptr \<Rightarrow> kernel_view option) \<times> footprints) option" where
  "cache_step M insts isSized (CreateAt K) (L, C) =
     (if L (KAddr K) = None then Some (L(KAddr K \<mapsto> K), C) else None)"
| "cache_step M insts isSized (AskFootprint p) (L, C) =
     (case L p of None \<Rightarrow> None
      | Some K \<Rightarrow> map_option (\<lambda>r. (L, fst r)) (getKernelFootprint M insts isSized K C))"
| "cache_step M insts isSized (DestroyAt p) (L, C) =
     (case L p of None \<Rightarrow> None | Some K \<Rightarrow> Some (L(p := None), UnregisterKernel K C))"

inductive cache_reachable ::
  "metadata \<Rightarrow> (llvm_function \<Rightarrow> llvm_inst list) \<Rightarrow> (llvm_ty \<Rightarrow> bool) \<Rightarrow>
   (ptr \<Rightarrow> kernel_view option) \<times> footprints \<Rightarrow> bool" for M insts isSized where
  start: "cache_reachable M insts isSized (\<lambda>_. None, \<lambda>_. None)"
| step: "cache_reachable M insts isSized s \<Longrightarrow> cache_step M insts isSized op s = Some s' \<Longrightarrow> cache_reachable M insts isSized s'"

text \<open>In every state the cache only holds, for a living kernel, the estimate of its code.\<close>

lemma cache_never_stale:
  assumes "cache_reachable M insts isSized (L, C)" "C p = Some FP"
  shows "\<exists>K Mod. L p = Some K \<and> KAddr K = p \<and> KModule K = Some Mod \<and>
     run_pass M Mod insts isSized (KName K) (Functions Mod) Footprint = Some FP"
proof -
  have "(\<forall>p K. L p = Some K \<longrightarrow> KAddr K = p) \<and>
     (\<forall>p FP. C p = Some FP \<longrightarrow> (\<exists>K Mod. L p = Some K \<and> KModule K = Some Mod \<and>
        run_pass M Mod insts isSized (KName K) (Functions Mod) Footprint = Some FP))"
    using assms(1)
  proof (induction "(L, C)" arbitrary: L C rule: cache_reachable.induct)
    case (step s op)
    obtain L0 C0 where s: "s = (L0, C0)" by (cases s)
    note IH = step.hyps(2) [OF s]
    show ?case
    proof (cases op)
      case (CreateAt K)
      then show ?thesis using IH step.hyps(3) s by (fastforce split: if_splits)
    next
      case (AskFootprint p)
      then obtain K where K: "L0 p = Some K" "KAddr K = p" using IH step.hyps(3) s by (auto split: option.splits)
      then show ?thesis using IH step.hyps(3) s AskFootprint
        by (auto simp: getKernelFootprint_def split: option.splits bind_splits if_splits)
    next
      case (DestroyAt p)
      then show ?thesis using IH step.hyps(3) s by (auto simp: UnregisterKernel_def split: option.splits if_splits)
    qed
  qed simp
  with assms(2) show ?thesis by blast
qed

end
