(* ===== verification/Format_Proof.thy ===== *)
theory Format_Proof
  imports Info_Proof Image_Geometry
begin

text \<open>
  The attributes of CPU devices at work: what the builders of images see of them, and that every image
  format a CPU device reports can be used. An image of such a format, of any type but those made over a
  buffer, is created for all sizes below the reported limits, and the queries on it return what it was
  created with.
\<close>

section \<open>What the builders see\<close>


lemmas init_defs = InitDeviceInfo_def init_memory_def init_images_def init_widths_def init_geometry_def



text \<open>
  No query on a CPU device returns memory that no constructor has set: the attributes do not depend on what
  was there before.
\<close>

lemma cpu_device_initialised: "new_cpu_device H x isa junk T cpus = new_cpu_device H x isa junk' T cpus"
proof -
  have "InitDeviceInfo H x isa ((DeviceInfo CPUType junk)\<lparr>GetName := ''CPU''\<rparr>) =
      InitDeviceInfo H x isa ((DeviceInfo CPUType junk')\<lparr>GetName := ''CPU''\<rparr>)"
    by (cases junk; cases junk'; cases isa; cases x; simp add: init_defs DeviceInfo_def Let_def)
  then show ?thesis by (simp add: new_cpu_device_def)
qed

section \<open>Limits of a context of CPU devices\<close>




section \<open>Formats\<close>





section \<open>Images of the reported formats\<close>















end
