(* ===== verification/Spec2Isabelle.thy ===== *)
theory Spec2Isabelle
  imports Coherency_Refine Map_Builders Rect_Builders Kernel_Builders Buffer_Builders CPU_Exec_Proof CPU_Guarantees
    API_Errors Image_Geometry Context_API Kernel_Args_Proof Program_Proof Async_Proof Local_Memory Info_Proof Footprint_Proof
    Format_Proof
begin

text \<open>
  A verification library of OpenCRun, a run time for OpenCL 1.2 on multi-core processors.

  \<^bold>\<open>The program.\<close> A client calls the functions \<open>cl...\<close> of \<open>tools/libOpenCRun\<close>. They check their
  handles and drive the objects of \<open>lib/Core\<close>: a \<open>Platform\<close> knows the devices, a \<open>Context\<close> holds some of
  them, memory objects, programs and kernels belong to a context, and each \<open>CommandQueue\<close> connects a context
  with one device. An enqueue call builds a \<open>Command\<close> with the builder of its kind and hands it to a
  queue. A queue starts its commands when the events of their wait lists have completed: it brings the
  memory objects up to date (\<open>MemoryCoherencyTracker\<close>) and submits the command to the device. The
  only device is the CPU (\<open>lib/Device/CPU\<close>): it cuts a command into jobs for its worker threads, which
  execute them and report completion to the \<open>InternalEvent\<close> of the command. The events wake the queue
  and the waiting client, and carry the profile of the command (\<open>Profiler\<close>). Kernels are compiled by
  clang and LLVM (\<open>DeviceCompiler\<close>), and found again by the metadata they leave in the module
  (\<open>lib/Util/ModuleInfo.cpp\<close>, \<open>OpenCLTypeSystem.cpp\<close>).

  \<^bold>\<open>The model.\<close> Definitions carry the names of the code. Integers have their width (\<open>size_t\<close> is a
  64-bit word, \<open>unsigned\<close> and \<open>cl_int\<close> are 32-bit words), a class is a \<^verbatim>\<open>record\<close>, a call is a function from
  the state to the new state and the reply, and what many threads do is an inductive step relation. A
  status code is a value; \<open>None\<close> is what the code has no answer for: a failed assertion, a division by
  zero, the use of a null pointer or of memory outside an object.

  \<^item> Base: \<open>OCL_Prelude\<close> (types, status codes, flag words, lists), \<open>Profile_Trace\<close>
    (\<open>lib/Core/Profiler.cpp\<close>) and \<open>Event_Model\<close> (\<open>lib/Core/Event.cpp\<close>, \<open>tools/libOpenCRun/Event.cpp\<close>). The
    locale \<open>event_contract\<close> states what a waiter relies on.
  \<^item> Iteration space: \<open>Dimension_Info\<close> (\<open>DimensionInfo.h\<close>, \<open>DimensionInfo.cpp\<close>), a record of dimensions and an
    iterator with all its counters; its lemmas relate \<open>++\<close> and the jump by a work-group to a plain
    enumeration of the space.
  \<^item> Memory objects: \<open>Memory_Object\<close> (attributes, mappings, pixels), \<open>Memory_Builder\<close> and \<open>Memory_Create\<close>
    (builders, entry points, reference counts), \<open>Image_Geometry\<close> and \<open>Memory_API\<close> (what creation gives).
  \<^item> Coherency: \<open>Coherency\<close> models the tracker over an interface of transfers; \<open>Coherency_Partition\<close> shows
    that its chunks tile the object, and \<open>Coherency_Proof\<close> and \<open>Coherency_Refine\<close> that it refines one flat
    memory, for every descriptor with the laws of the locale \<open>memory_descriptor\<close>. The descriptors of the
    CPU device are an instance.
  \<^item> Commands: \<open>Commands\<close>, and the builders in \<open>Builder_Base\<close>, \<open>Buffer_Builders\<close>, \<open>Rect_Builders\<close>,
    \<open>Image_Builders\<close>, \<open>Map_Builders\<close>, \<open>Kernel_Builders\<close>. The locale \<open>builder_operation\<close> is the discipline of
    sticky errors all builders follow. \<open>Kernel_Dims\<close> follows the work sizes through their builder.
  \<^item> Queues: \<open>Command_Queue\<close>, and \<open>Queue_Order\<close> with the locale \<open>queue_device\<close>: what an in-order queue
    guarantees on any device that executes nothing before it was submitted. The steps are the sections
    that hold the lock of the queue. \<open>Enqueue\<close> has two (\<open>Enqueue_push\<close>, \<open>RunScheduler\<close>) and the report of a
    completed command has three (\<open>ClearOnFly\<close>, \<open>RunScheduler\<close>, \<open>ErasePending\<close>); everything else may come
    between them, so that a command is started while the report of the one before is under way.
  \<^item> CPU device: \<open>CPU_Runtime\<close> (submission, threads, execution contexts), \<open>CPU_Exec\<close> (what a command does to
    memory), \<open>CPU_Order\<close> and \<open>CPU_System\<close> (queue and device as one transition system and its invariant),
    \<open>CPU_Guarantees\<close> (order, memory, completion), \<open>CPU_Exec_Proof\<close> (copies, fills, switching of work-items).
    \<open>Local_Memory\<close> places the local buffers of a kernel; \<open>Async_Copy\<close> and \<open>Async_Proof\<close> model the copies a
    work-group starts and waits for, with the pool of threads that runs them, and show that they refine
    copies done at once. The wait of the source tests the completion of a copy once and then sleeps, so
    a spurious wake-up, which POSIX allows, deletes a copy that is not made. The runs have a parameter
    \<open>early\<close>: whether threads may wake up so. \<open>lost_copy\<close> is the state after such a deletion, the exception
    both properties state; \<open>wait_returns_before_copy\<close> is a run that gets there.
  \<^item> Enqueue calls: \<open>Enqueue_API\<close> composes each entry point of \<open>EnqueueCommand.cpp\<close>; \<open>API_Waits\<close>,
    \<open>API_Buffers\<close>, \<open>API_Errors\<close> say when calls are accepted; \<open>API_History\<close> and \<open>API_System\<close> show, by the locale
    \<open>entry_point\<close>, that every history of calls interleaved with the threads is a run of the system of
    \<open>CPU_System\<close>, so that the guarantees hold for programs. \<open>API_Witness\<close> is a small system for examples.
  \<^item> Platform side: \<open>Device_Partition\<close> and \<open>Device_Proof\<close> (sub-devices), \<open>Context_API\<close> (platforms, contexts,
    queue creation), \<open>Sampler_Model\<close>.
  \<^item> Programs: \<open>Type_Qualifiers\<close>, \<open>Type_System\<close>, \<open>Type_Compare\<close> (types in the metadata and their comparison),
    \<open>Type_Proof\<close> and \<open>Type_Signature\<close> (the comparison decides equality of unfolded types), \<open>Module_Info\<close>
    (kernels of a module), \<open>Program_Build\<close> (programs, builds, creation of kernels) with \<open>Program_Proof\<close> (what a
    build leaves, attached kernels, binaries), \<open>Kernel_Args\<close> and \<open>Kernel_Args_Proof\<close> (argument values and
    their way into a kernel command), \<open>Kernel_Footprint\<close> and \<open>Footprint_Proof\<close> (the estimate of the memory a
    kernel needs, \<open>lib/Passes/FootprintEstimate.cpp\<close>, and the limit on work-groups it gives).
  \<^item> Information: \<open>Info_Query\<close> models the templates of \<open>tools/libOpenCRun/Utils.h\<close> that fill the buffer of a
    client, with their contract as the locale \<open>info_filler\<close>; \<open>Device_Info\<close> the attributes of devices and
    \<open>clGetDeviceInfo\<close>; \<open>Info_API\<close> the other queries, each as a table from parameters to attributes.
    \<open>Info_Proof\<close> shows what a client gets: the value it asks for, the answers of a sub-device, the binaries of
    a program. \<open>Format_Proof\<close> shows that the image formats a CPU device reports can be used.

  \<^bold>\<open>Bounds.\<close> Fuel occurs only in the comparison of types, whose recursion follows cyclic metadata; the
  property on signatures shows that from some amount on more fuel changes nothing. The device thread
  model has no fuel: a step relation bounded by a measure, which counts the jobs of the queued commands
  as well, since the report of a command starts the next one. All other recursions are on data.

  \<^bold>\<open>Parameters.\<close> The compiler of a device, the metadata of a module (a map from nodes to operands), the
  processors and the sizes of memory and caches as hwloc and the system report them, the instructions of a
  function in LLVM, the addresses of handles, the body of a kernel and of a native function.

  \<^bold>\<open>Simplifications.\<close> What a method does while it holds the lock of its object is one step, and so is
  the submission of a command to the device; a method that takes the lock several times is several
  steps. In the histories of \<open>API_History\<close> an enqueue call of a client is one step, the device and the
  reports of its threads interleave with it; in \<open>CPU_System\<close> its two sections are separate. The load indicator, a float, counts exactly below 2 to the 24. Memory of
  the host and storage of the tracker are separate: the properties on memory contents quantify over
  objects that do not alias. \<open>memcpy\<close> on overlapping regions copies the old contents. The union in an
  image header is kept as separate fields. Destructors of contexts do not nest. Sets and maps keyed by
  pointers iterate by address and are sorted lists.

  \<^bold>\<open>Not modelled.\<close> The calls of clang and LLVM that compile a program, the passes that transform LLVM
  code, and the writer of type metadata (their subject is the data structure of LLVM, which is not in the
  repository); reading the hardware from the operating system; machine stacks and the switch of
  contexts in assembly; floating point conversions of colours; the text of profiles and logs; the
  generator of the builtin library and the builtins themselves, which are written in a table language;
  benchmarks, tests and the command-line tools.
\<close>

end
